(* ===== verification/Prelude.thy ===== *)
theory Prelude
  imports Main "HOL-Library.List_Lexorder" "HOL-Library.Char_ord" "HOL-Library.Product_Lexorder"
    "HOL-Library.Multiset"
begin

text \<open>
  Shared vocabulary of the development: the result type of fallible code and its sequencing,
  Python loops that may raise, ordered dictionaries, tables as lists of rows with a key, and
  the collections of facts the component theories extend.
  \<^item> \<open>result_simps\<close>: facts that take a successful result apart into its steps.
  \<^item> \<open>table_simps\<close>: look-up after insert, update and delete on keyed tables.
  \<^item> \<open>flush_simps\<close>: what a database write leaves unchanged.
\<close>

named_theorems result_simps
named_theorems table_simps
named_theorems flush_simps

type_synonym uuid = int
type_synonym timestamp = int

section \<open>Fallible code\<close>

text \<open>A raise is \<open>Inl\<close>; the rest of the function is skipped.\<close>

definition bindR :: "'e + 'a \<Rightarrow> ('a \<Rightarrow> 'e + 'b) \<Rightarrow> 'e + 'b" where
  "bindR m f = (case m of Inl e \<Rightarrow> Inl e | Inr x \<Rightarrow> f x)"

lemma bindR_Inr [simp]: "bindR (Inr x) f = f x"
  by (simp add: bindR_def)

lemma bindR_Inl [simp]: "bindR (Inl e) f = Inl e"
  by (simp add: bindR_def)

lemma bindR_eq_Inr [result_simps]: "bindR m f = Inr y \<longleftrightarrow> (\<exists>x. m = Inr x \<and> f x = Inr y)"
  by (cases m) auto

lemma bindR_eq_Inl [result_simps]:
  "bindR m f = Inl e \<longleftrightarrow> m = Inl e \<or> (\<exists>x. m = Inr x \<and> f x = Inl e)"
  by (cases m) auto

lemma bindR_assoc: "bindR (bindR m f) g = bindR m (\<lambda>x. bindR (f x) g)"
  by (cases m) auto

lemma bindR_cong [fundef_cong]:
  "m = m' \<Longrightarrow> (\<And>x. m' = Inr x \<Longrightarrow> f x = f' x) \<Longrightarrow> bindR m f = bindR m' f'"
  by (cases m') auto

text \<open>\<open>if c: raise e\<close> in the middle of a function.\<close>

definition raise_if :: "bool \<Rightarrow> 'e \<Rightarrow> 'e + unit" where
  "raise_if c e = (if c then Inl e else Inr ())"

lemma raise_if_eq_Inr [result_simps]: "raise_if c e = Inr u \<longleftrightarrow> \<not> c"
  by (simp add: raise_if_def)

lemma raise_if_eq_Inl [result_simps]: "raise_if c e = Inl e' \<longleftrightarrow> c \<and> e' = e"
  by (auto simp: raise_if_def)

lemma raise_if_False [simp]: "raise_if False e = Inr ()"
  by (simp add: raise_if_def)

lemma raise_if_True [simp]: "raise_if True e = Inl e"
  by (simp add: raise_if_def)

text \<open>\<open>x = f(); if x is None: raise e\<close>.\<close>

definition require :: "'e \<Rightarrow> 'a option \<Rightarrow> 'e + 'a" where
  "require e x = (case x of None \<Rightarrow> Inl e | Some y \<Rightarrow> Inr y)"

lemma require_eq_Inr [result_simps]: "require e x = Inr y \<longleftrightarrow> x = Some y"
  by (auto simp: require_def split: option.splits)

lemma require_eq_Inl [result_simps]: "require e x = Inl e' \<longleftrightarrow> x = None \<and> e' = e"
  by (auto simp: require_def split: option.splits)

lemma require_Some [simp]: "require e (Some y) = Inr y"
  by (simp add: require_def)

lemma require_None [simp]: "require e None = Inl e"
  by (simp add: require_def)

text \<open>A \<open>for\<close> loop whose body may raise, threading the state it updates.\<close>

fun for_each :: "('s \<Rightarrow> 'a \<Rightarrow> 'e + 's) \<Rightarrow> 's \<Rightarrow> 'a list \<Rightarrow> 'e + 's" where
  "for_each f s [] = Inr s"
| "for_each f s (x # xs) = bindR (f s x) (\<lambda>s'. for_each f s' xs)"

lemma for_each_cong [fundef_cong]:
  "s = s' \<Longrightarrow> xs = xs' \<Longrightarrow> (\<And>x t. x \<in> set xs' \<Longrightarrow> f t x = g t x)
   \<Longrightarrow> for_each f s xs = for_each g s' xs'"
  by (induction xs' arbitrary: s s' xs) (auto intro!: bindR_cong)

lemma for_each_append:
  "for_each f s (xs @ ys) = bindR (for_each f s xs) (\<lambda>s'. for_each f s' ys)"
  by (induction xs arbitrary: s) (auto simp: bindR_assoc)

text \<open>The loop rule: an invariant every body keeps holds after the loop.\<close>

lemma for_each_inv:
  assumes "for_each f s xs = Inr s'" and "P s"
    and "\<And>t x t'. x \<in> set xs \<Longrightarrow> P t \<Longrightarrow> f t x = Inr t' \<Longrightarrow> P t'"
  shows "P s'"
  using assms
proof (induction xs arbitrary: s)
  case (Cons x xs)
  then obtain t where t: "f s x = Inr t" "for_each f t xs = Inr s'"
    by (auto simp: result_simps)
  with Cons.prems have "P t" by (meson list.set_intros(1))
  with t Cons show ?case by (meson list.set_intros(2))
qed simp

text \<open>The loop rule that also knows which elements are done.\<close>

lemma for_each_prefix_inv:
  assumes "for_each f s xs = Inr s'" and "P [] s"
    and "\<And>ys x zs t t'. xs = ys @ x # zs \<Longrightarrow> P ys t \<Longrightarrow> f t x = Inr t' \<Longrightarrow> P (ys @ [x]) t'"
  shows "P xs s'"
proof -
  have "for_each f t zs = Inr s' \<Longrightarrow> P ys t \<Longrightarrow> xs = ys @ zs \<Longrightarrow> P xs s'" for ys zs t
  proof (induction zs arbitrary: ys t)
    case (Cons z zs)
    then obtain t' where t': "f t z = Inr t'" "for_each f t' zs = Inr s'"
      by (auto simp: result_simps)
    have "P (ys @ [z]) t'" using assms(3) Cons.prems(2,3) t'(1) by blast
    then show ?case using Cons.IH t'(2) Cons.prems(3) by simp
  qed simp
  with assms(1,2) show ?thesis by fastforce
qed

text \<open>The loop does not raise when no body does under the invariant.\<close>

lemma for_each_ok:
  assumes "P [] s"
    and "\<And>ys x zs t. xs = ys @ x # zs \<Longrightarrow> P ys t \<Longrightarrow> \<exists>t'. f t x = Inr t' \<and> P (ys @ [x]) t'"
  shows "\<exists>s'. for_each f s xs = Inr s' \<and> P xs s'"
proof -
  have "P ys t \<Longrightarrow> xs = ys @ zs \<Longrightarrow> \<exists>s'. for_each f t zs = Inr s' \<and> P xs s'" for ys zs t
  proof (induction zs arbitrary: ys t)
    case (Cons z zs)
    then obtain t' where t': "f t z = Inr t'" "P (ys @ [z]) t'"
      using assms(2) by blast
    then show ?case using Cons.IH [of "ys @ [z]" t'] Cons.prems(2) by simp
  qed simp
  with assms(1) show ?thesis by fastforce
qed

text \<open>A comprehension whose elements are built by code that may raise.\<close>

fun map_each :: "('a \<Rightarrow> 'e + 'b) \<Rightarrow> 'a list \<Rightarrow> 'e + 'b list" where
  "map_each f [] = Inr []"
| "map_each f (x # xs) = bindR (f x) (\<lambda>y. bindR (map_each f xs) (\<lambda>ys. Inr (y # ys)))"

lemma map_each_eq_Inr:
  "map_each f xs = Inr ys \<longleftrightarrow> list_all2 (\<lambda>x y. f x = Inr y) xs ys"
  by (induction xs arbitrary: ys) (auto simp: result_simps list_all2_Cons1)

lemma map_each_Inr_map: "(\<And>x. x \<in> set xs \<Longrightarrow> f x = Inr (g x)) \<Longrightarrow> map_each f xs = Inr (map g xs)"
  by (induction xs) auto

section \<open>Python dictionaries\<close>

text \<open>
  Insertion-ordered: assigning to a key that is present replaces its value in place,
  assigning to a new key appends. \<open>map_of\<close> reads one.
\<close>

fun dict_set :: "'k \<Rightarrow> 'v \<Rightarrow> ('k \<times> 'v) list \<Rightarrow> ('k \<times> 'v) list" where
  "dict_set k v [] = [(k, v)]"
| "dict_set k v ((k', v') # d) = (if k' = k then (k, v) # d else (k', v') # dict_set k v d)"

definition dict_of :: "('k \<times> 'v) list \<Rightarrow> ('k \<times> 'v) list" where
  "dict_of kvs = foldl (\<lambda>d (k, v). dict_set k v d) [] kvs"

lemma map_of_dict_set [simp]: "map_of (dict_set k v d) = (map_of d)(k \<mapsto> v)"
  by (induction d) auto

lemma keys_dict_set: "set (map fst (dict_set k v d)) = insert k (set (map fst d))"
  by (simp flip: dom_map_of_conv_image_fst)

lemma dict_set_new: "k \<notin> set (map fst d) \<Longrightarrow> dict_set k v d = d @ [(k, v)]"
  by (induction d) auto

lemma dict_of_snoc: "dict_of (kvs @ [(k, v)]) = dict_set k v (dict_of kvs)"
  by (simp add: dict_of_def)

lemma dict_of_distinct: "distinct (map fst kvs) \<Longrightarrow> dict_of kvs = kvs"
proof (induction kvs rule: rev_induct)
  case Nil
  then show ?case by (simp add: dict_of_def)
next
  case (snoc kv kvs)
  then show ?case by (cases kv) (simp add: dict_of_snoc dict_set_new)
qed

lemma map_of_dict_ofD: "map_of (dict_of kvs) k = Some v \<Longrightarrow> (k, v) \<in> set kvs"
proof (induction kvs rule: rev_induct)
  case Nil
  then show ?case by (simp add: dict_of_def)
next
  case (snoc kv kvs)
  then show ?case by (cases kv) (auto simp: dict_of_snoc split: if_splits)
qed

lemma dom_map_of_dict_of: "dom (map_of (dict_of kvs)) = fst ` set kvs"
proof (induction kvs rule: rev_induct)
  case Nil
  then show ?case by (simp add: dict_of_def)
next
  case (snoc kv kvs)
  then show ?case by (cases kv) (auto simp: dict_of_snoc dom_def)
qed

lemma find_SomeD: "find p xs = Some x \<Longrightarrow> x \<in> set xs \<and> p x"
  by (induction xs) (auto split: if_splits)

section \<open>Sorting\<close>

lemma filter_same_key:
  fixes f :: "'a \<Rightarrow> 'b"
  assumes "inj_on f (set xs)" and "k \<in> set xs"
  shows "filter (\<lambda>x. f k = f x) xs = replicate (count (mset xs) k) k"
proof -
  have "filter (\<lambda>x. f k = f x) xs = filter ((=) k) xs"
    by (rule filter_cong) (use assms in \<open>auto simp: inj_on_def\<close>)
  moreover have "filter ((=) k) xs = replicate (count (mset xs) k) k"
    by (induction xs) auto
  ultimately show ?thesis by simp
qed

lemma sort_key_perm:
  fixes f :: "'a \<Rightarrow> 'b::linorder"
  assumes perm: "mset xs = mset ys" and inj: "inj_on f (set xs)"
  shows "sort_key f xs = sort_key f ys"
proof (rule properties_for_sort_key)
  have set: "set xs = set ys" using perm by (rule mset_eq_setD)
  show "mset (sort_key f ys) = mset xs" using perm by simp
  show "sorted (map f (sort_key f ys))" by simp
  show "filter (\<lambda>x. f k = f x) (sort_key f ys) = filter (\<lambda>x. f k = f x) xs"
    if "k \<in> set (sort_key f ys)" for k
    using that filter_same_key [OF inj, of k] filter_same_key [of f "sort_key f ys" k] inj set perm
    by simp
qed

lemma sort_key_map: "sort_key f (map g xs) = map g (sort_key (\<lambda>x. f (g x)) xs)"
proof (induction xs)
  case (Cons x xs)
  have "insort_key f (g x) (map g ys) = map g (insort_key (\<lambda>x. f (g x)) x ys)" for ys
    by (induction ys) auto
  with Cons show ?case by simp
qed simp

end
