(* ===== verification/PyLib.thy ===== *)
theory PyLib
  imports Prelude
begin

text \<open>
  The parts of Python's standard library the source computes with: decimal text of integers,
  \<open>str.strip\<close> and \<open>str.join\<close>, calendar dates as proleptic Gregorian ordinals
  (\<open>date.toordinal\<close>) with their ISO text, UTC timestamps in microseconds since 1970 and
  UUID text. A Python \<open>str\<close> is a \<open>string\<close>: one \<open>char\<close> is one code point below 256.
\<close>

section \<open>Text\<close>

definition digit_char :: "int \<Rightarrow> char" where
  "digit_char d = char_of (48 + d)"

function int_digits :: "int \<Rightarrow> string" where
  "int_digits n =
     (if n < 10 then [digit_char n] else int_digits (n div 10) @ [digit_char (n mod 10)])"
  by pat_completeness auto
termination int_digits
  by (relation "measure nat") auto

declare int_digits.simps [simp del]

definition int_str :: "int \<Rightarrow> string" where
  "int_str i = (if i < 0 then ''-'' @ int_digits (- i) else int_digits i)"

text \<open>Left-padded with zeros to a width, as \<open>%0wd\<close> prints it.\<close>

definition zpad :: "nat \<Rightarrow> string \<Rightarrow> string" where
  "zpad w s = replicate (w - length s) (CHR ''0'') @ s"

fun join :: "string \<Rightarrow> string list \<Rightarrow> string" where
  "join sep [] = []"
| "join sep [x] = x"
| "join sep (x # y # xs) = x @ sep @ join sep (y # xs)"

definition strip_chars :: "(char \<Rightarrow> bool) \<Rightarrow> string \<Rightarrow> string" where
  "strip_chars p s = rev (dropWhile p (rev (dropWhile p s)))"

text \<open>The Unicode white space below 256.\<close>

definition is_space :: "char \<Rightarrow> bool" where
  "is_space c = (let n = of_char c :: int in 9 \<le> n \<and> n \<le> 13 \<or> n = 32 \<or> n = 133 \<or> n = 160)"

definition strip_ws :: "string \<Rightarrow> string" where
  "strip_ws = strip_chars is_space"

lemma dropWhile_no_op: "xs = [] \<or> \<not> p (hd xs) \<Longrightarrow> dropWhile p xs = xs"
  by (cases xs) auto

lemma rev_dropWhile_rev: "rev (dropWhile p (rev t)) = take (length t - length (takeWhile p (rev t))) t"
  by (simp add: dropWhile_eq_drop rev_drop)

lemma strip_chars_hd: "strip_chars p s = [] \<or> \<not> p (hd (strip_chars p s))"
proof -
  have "dropWhile p s = [] \<or> \<not> p (hd (dropWhile p s))" using hd_dropWhile [of p s] by blast
  then show ?thesis by (auto simp: strip_chars_def rev_dropWhile_rev hd_take)
qed

lemma strip_chars_last: "strip_chars p s = [] \<or> \<not> p (last (strip_chars p s))"
proof -
  let ?u = "dropWhile p (rev (dropWhile p s))"
  have "?u = [] \<or> \<not> p (hd ?u)" using hd_dropWhile [of p "rev (dropWhile p s)"] by blast
  then show ?thesis by (auto simp: strip_chars_def last_rev)
qed

lemma strip_chars_idem [simp]: "strip_chars p (strip_chars p s) = strip_chars p s"
proof -
  let ?t = "strip_chars p s"
  have "dropWhile p ?t = ?t" by (rule dropWhile_no_op) (rule strip_chars_hd)
  moreover have "dropWhile p (rev ?t) = rev ?t"
    by (rule dropWhile_no_op) (use strip_chars_last [of p s] in \<open>simp add: hd_rev\<close>)
  ultimately show ?thesis by (simp add: strip_chars_def [of p ?t])
qed

lemma strip_ws_idem [simp]: "strip_ws (strip_ws s) = strip_ws s"
  by (simp add: strip_ws_def)

lemma strip_ws_comp [simp]: "strip_ws \<circ> strip_ws = strip_ws"
  by (simp add: fun_eq_iff)

section \<open>Dates\<close>

type_synonym date = int

definition date_min :: date where "date_min = 1"

definition date_max :: date where "date_max = 3652059"

text \<open>
  \<open>d - timedelta(days=n)\<close>: \<open>None\<close> is the OverflowError Python raises when the result is
  before year 1 or after year 9999.
\<close>

definition date_minus_days :: "date \<Rightarrow> int \<Rightarrow> date option" where
  "date_minus_days d n =
     (if date_min \<le> d - n \<and> d - n \<le> date_max then Some (d - n) else None)"

lemma date_minus_days_Some: "date_minus_days d n = Some e \<Longrightarrow> e = d - n"
  by (simp add: date_minus_days_def split: if_splits)

text \<open>The year, month and day of an ordinal, as \<open>datetime._ord2ymd\<close> computes them.\<close>

definition days_before_month :: "int \<Rightarrow> int" where
  "days_before_month m = [0, 0, 31, 59, 90, 120, 151, 181, 212, 243, 273, 304, 334] ! nat m"

definition days_in_month :: "int \<Rightarrow> int" where
  "days_in_month m = [0, 31, 28, 31, 30, 31, 30, 31, 31, 30, 31, 30, 31] ! nat m"

definition ord2ymd :: "date \<Rightarrow> int \<times> int \<times> int" where
  "ord2ymd d =
     (let n = d - 1;
          n400 = n div 146097; n = n mod 146097;
          n100 = n div 36524; n = n mod 36524;
          n4 = n div 1461; n = n mod 1461;
          n1 = n div 365; n = n mod 365;
          year = n400 * 400 + 1 + n100 * 100 + n4 * 4 + n1
      in if n1 = 4 \<or> n100 = 4 then (year - 1, 12, 31)
         else
           let leap = (n1 = 3 \<and> (n4 \<noteq> 24 \<or> n100 = 3));
               month = (n + 50) div 32;
               preceding = days_before_month month + (if 2 < month \<and> leap then 1 else 0)
           in if n < preceding
              then let month' = month - 1;
                       preceding' = preceding
                         - (days_in_month month' + (if month' = 2 \<and> leap then 1 else 0))
                   in (year, month', n - preceding' + 1)
              else (year, month, n - preceding + 1))"

definition date_iso :: "date \<Rightarrow> string" where
  "date_iso d = (case ord2ymd d of (y, m, dd) \<Rightarrow>
     zpad 4 (int_str y) @ ''-'' @ zpad 2 (int_str m) @ ''-'' @ zpad 2 (int_str dd))"

lemma date_iso_examples: "date_iso 739847 = ''2026-08-19''" "date_iso 738945 = ''2024-02-29''"
  by code_simp+

section \<open>Timestamps and UUIDs\<close>

text \<open>\<open>datetime.isoformat()\<close> of a UTC instant, with or without the zone suffix.\<close>

definition timestamp_iso :: "bool \<Rightarrow> timestamp \<Rightarrow> string" where
  "timestamp_iso aware t =
     (let us = t mod 1000000; s = t div 1000000; day = s div 86400; r = s mod 86400
      in date_iso (719163 + day) @ ''T'' @ zpad 2 (int_str (r div 3600)) @ '':'' @
         zpad 2 (int_str (r div 60 mod 60)) @ '':'' @ zpad 2 (int_str (r mod 60)) @
         (if us = 0 then [] else ''.'' @ zpad 6 (int_str us)) @
         (if aware then ''+00:00'' else []))"

definition hex_digit :: "int \<Rightarrow> char" where
  "hex_digit d = (if d < 10 then char_of (48 + d) else char_of (87 + d))"

fun hex_digits :: "nat \<Rightarrow> int \<Rightarrow> string" where
  "hex_digits 0 n = []"
| "hex_digits (Suc k) n = hex_digits k (n div 16) @ [hex_digit (n mod 16)]"

lemma length_hex_digits [simp]: "length (hex_digits k n) = k"
  by (induction k arbitrary: n) auto

definition uuid_str :: "uuid \<Rightarrow> string" where
  "uuid_str u = (let h = hex_digits 32 u in
     take 8 h @ ''-'' @ take 4 (drop 8 h) @ ''-'' @ take 4 (drop 12 h) @ ''-'' @
     take 4 (drop 16 h) @ ''-'' @ drop 20 h)"

end
