(* ===== verification/Decimals.thy ===== *)
theory Decimals
  imports PyLib
begin

text \<open>
  \<open>decimal.Decimal\<close> in its default context (28 digits, half-even) and the \<open>Money\<close> column
  type of \<open>db/models.py\<close>. A decimal is its sign, coefficient and exponent, so that \<open>1.5\<close>,
  \<open>1.50\<close> and the two zeros are different values with different text, as in Python. The main
  fact is that a money value read back from the database formats exactly as the value that was
  written did (\<open>money_roundtrip\<close>), negative zero excepted.
\<close>

section \<open>Decimal values\<close>

record decimal =
  dec_neg :: bool
  dec_coef :: int
  dec_exp :: int

definition dec_prec :: nat where "dec_prec = 28"

definition dec_of_int :: "int \<Rightarrow> decimal" where
  "dec_of_int i = \<lparr>dec_neg = (i < 0), dec_coef = \<bar>i\<bar>, dec_exp = 0\<rparr>"

definition dec_signed :: "decimal \<Rightarrow> int" where
  "dec_signed d = (if dec_neg d then - dec_coef d else dec_coef d)"

definition num_digits :: "int \<Rightarrow> nat" where
  "num_digits n = length (int_digits n)"

text \<open>Comparison by value: both coefficients at the smaller exponent.\<close>

definition dec_align :: "decimal \<Rightarrow> decimal \<Rightarrow> int" where
  "dec_align a b = dec_signed a * 10 ^ nat (dec_exp a - min (dec_exp a) (dec_exp b))"

definition dec_le :: "decimal \<Rightarrow> decimal \<Rightarrow> bool" where
  "dec_le a b \<longleftrightarrow> dec_align a b \<le> dec_align b a"

definition dec_lt :: "decimal \<Rightarrow> decimal \<Rightarrow> bool" where
  "dec_lt a b \<longleftrightarrow> dec_align a b < dec_align b a"

text \<open>Dropping \<open>k\<close> digits, rounding half to even.\<close>

definition half_even :: "int \<Rightarrow> nat \<Rightarrow> int" where
  "half_even c k =
     (let q = c div 10 ^ k; r = c mod 10 ^ k
      in if 2 * r > 10 ^ k \<or> (2 * r = 10 ^ k \<and> odd q) then q + 1 else q)"

text \<open>
  \<open>d.quantize(Decimal(1).scaleb(e))\<close>; \<open>None\<close> is InvalidOperation, raised when the result
  would need more digits than the context has.
\<close>

definition quantize :: "int \<Rightarrow> decimal \<Rightarrow> decimal option" where
  "quantize e d =
     (if dec_coef d = 0 then Some (d\<lparr>dec_exp := e\<rparr>)
      else if int (num_digits (dec_coef d)) + dec_exp d - e > int dec_prec then None
      else
        let c = (if e \<le> dec_exp d then dec_coef d * 10 ^ nat (dec_exp d - e)
                 else half_even (dec_coef d) (nat (e - dec_exp d)))
        in if num_digits c > dec_prec then None
           else Some (d\<lparr>dec_coef := c, dec_exp := e\<rparr>))"

text \<open>Rounding a result to the context's precision.\<close>

definition dec_fix :: "decimal \<Rightarrow> decimal" where
  "dec_fix d =
     (let k = num_digits (dec_coef d) - dec_prec
      in if k = 0 then d
         else let c = half_even (dec_coef d) k
              in if num_digits c > dec_prec
                 then d\<lparr>dec_coef := c div 10, dec_exp := dec_exp d + int k + 1\<rparr>
                 else d\<lparr>dec_coef := c, dec_exp := dec_exp d + int k\<rparr>)"

text \<open>Removing trailing zeros while the exponent is below the ideal one (\<open>n\<close> steps at most).\<close>

fun strip_zeros :: "nat \<Rightarrow> int \<Rightarrow> int \<Rightarrow> int \<times> int" where
  "strip_zeros 0 c e = (c, e)"
| "strip_zeros (Suc n) c e =
     (if c mod 10 = 0 then strip_zeros n (c div 10) (e + 1) else (c, e))"

text \<open>
  \<open>x / y\<close> for a nonzero \<open>y\<close>: two guard digits with a sticky last one when the division is
  inexact, the ideal exponent when it is exact, then one rounding.
\<close>

definition dec_div :: "decimal \<Rightarrow> decimal \<Rightarrow> decimal" where
  "dec_div x y =
     (let sign = (dec_neg x \<noteq> dec_neg y);
          ideal = dec_exp x - dec_exp y
      in if dec_coef x = 0 then \<lparr>dec_neg = sign, dec_coef = 0, dec_exp = ideal\<rparr>
         else
           let shift = int (num_digits (dec_coef y)) - int (num_digits (dec_coef x))
                 + int dec_prec + 1;
               e = ideal - shift;
               num = (if 0 \<le> shift then dec_coef x * 10 ^ nat shift else dec_coef x);
               den = (if 0 \<le> shift then dec_coef y else dec_coef y * 10 ^ nat (- shift));
               q = num div den
           in if num mod den \<noteq> 0
              then dec_fix \<lparr>dec_neg = sign, dec_coef = (if q mod 5 = 0 then q + 1 else q),
                     dec_exp = e\<rparr>
              else (case strip_zeros (nat (ideal - e)) q e of
                      (c, e') \<Rightarrow> dec_fix \<lparr>dec_neg = sign, dec_coef = c, dec_exp = e'\<rparr>))"

section \<open>Text of a decimal\<close>

text \<open>\<open>str(d)\<close>: plain notation for exponents up to 0, scientific notation otherwise.\<close>

definition dec_str :: "decimal \<Rightarrow> string" where
  "dec_str d =
     (let ds = int_digits (dec_coef d); n = int (length ds);
          left = dec_exp d + n;
          dot = (if dec_exp d \<le> 0 \<and> -6 < left then left else 1);
          body = (if dot \<le> 0 then ''0.'' @ replicate (nat (- dot)) (CHR ''0'') @ ds
                  else if n \<le> dot then ds @ replicate (nat (dot - n)) (CHR ''0'')
                  else take (nat dot) ds @ ''.'' @ drop (nat dot) ds);
          ex = (if left = dot then []
                else ''E'' @ (if left - dot < 0 then int_str (left - dot)
                              else ''+'' @ int_str (left - dot)))
      in (if dec_neg d then ''-'' else []) @ body @ ex)"

text \<open>\<open>format(d, "f")\<close> for an exponent up to 0.\<close>

definition dec_fixed :: "decimal \<Rightarrow> string" where
  "dec_fixed d =
     (let p = nat (- dec_exp d); ds = zpad (p + 1) (int_digits (dec_coef d)); k = length ds - p
      in (if dec_neg d then ''-'' else []) @ take k ds @
         (if p = 0 then [] else ''.'' @ drop k ds))"

section \<open>Money columns\<close>

datatype dialect = SQLite | PostgreSQL

text \<open>What a money cell holds: a scaled integer on SQLite, an exact numeric on PostgreSQL.\<close>

datatype money_cell = IntCell int | NumCell decimal

definition MONEY_PRECISION :: nat where "MONEY_PRECISION = 18"

definition MONEY_SCALE :: nat where "MONEY_SCALE = 4"

definition MONEY_FACTOR :: int where "MONEY_FACTOR = 10 ^ MONEY_SCALE"

text \<open>\<open>MONEY_QUANTUM\<close> is one unit of the fourth decimal place; only its exponent is used.\<close>

definition MONEY_QUANTUM_EXP :: int where "MONEY_QUANTUM_EXP = - int MONEY_SCALE"

definition process_bind_param :: "dialect \<Rightarrow> decimal \<Rightarrow> money_cell option" where
  "process_bind_param dia v =
     (case quantize MONEY_QUANTUM_EXP v of
        None \<Rightarrow> None
      | Some normalized \<Rightarrow>
          (case dia of
             SQLite \<Rightarrow> Some (IntCell (dec_signed normalized))
           | PostgreSQL \<Rightarrow> Some (NumCell normalized)))"

definition cell_decimal :: "money_cell \<Rightarrow> decimal" where
  "cell_decimal v = (case v of IntCell i \<Rightarrow> dec_of_int i | NumCell d \<Rightarrow> d)"

definition process_result_value :: "dialect \<Rightarrow> money_cell \<Rightarrow> decimal option" where
  "process_result_value dia v =
     (case dia of
        SQLite \<Rightarrow> Some (dec_div (cell_decimal v) (dec_of_int MONEY_FACTOR))
      | PostgreSQL \<Rightarrow> quantize MONEY_QUANTUM_EXP (cell_decimal v))"

text \<open>
  What the column gives back: a NUMERIC column has no signed zero, a BIGINT column gives the
  integer it was given.
\<close>

definition stored_cell :: "money_cell \<Rightarrow> money_cell" where
  "stored_cell v = (case v of
     IntCell i \<Rightarrow> IntCell i
   | NumCell d \<Rightarrow> NumCell (d\<lparr>dec_neg := dec_neg d \<and> dec_coef d \<noteq> 0\<rparr>))"

text \<open>
  The number a money value stands for, in units of the fourth decimal place: what both
  dialects store. The text a money value is hashed as has exactly four decimal places.
\<close>

definition money_units :: "decimal \<Rightarrow> int option" where
  "money_units v = map_option dec_signed (quantize MONEY_QUANTUM_EXP v)"

definition money_text :: "decimal \<Rightarrow> string option" where
  "money_text v = map_option dec_fixed (quantize MONEY_QUANTUM_EXP v)"

section \<open>Digit counts\<close>

lemma num_digits_simps:
  "num_digits n = (if n < 10 then 1 else Suc (num_digits (n div 10)))"
  by (simp add: num_digits_def int_digits.simps [of n])

lemma num_digits_pos [simp]: "0 < num_digits n"
  by (subst num_digits_simps) simp

lemma num_digits_upper: "n < 10 ^ num_digits n"
proof (induction n rule: int_digits.induct)
  case (1 n)
  show ?case
  proof (cases "n < 10")
    case True
    then show ?thesis by (subst num_digits_simps) simp
  next
    case False
    with 1 have "n div 10 < 10 ^ num_digits (n div 10)" by simp
    then have "n < 10 * 10 ^ num_digits (n div 10)" by linarith
    with False show ?thesis by (subst num_digits_simps) simp
  qed
qed

lemma num_digits_lower: "0 < n \<Longrightarrow> 10 ^ (num_digits n - 1) \<le> n"
proof (induction n rule: int_digits.induct)
  case (1 n)
  show ?case
  proof (cases "n < 10")
    case True
    with 1 show ?thesis by (subst num_digits_simps) simp
  next
    case False
    with 1 have "10 ^ (num_digits (n div 10) - 1) \<le> n div 10" by simp
    then have "10 * 10 ^ (num_digits (n div 10) - 1) \<le> n" by linarith
    moreover have "10 * 10 ^ (num_digits (n div 10) - 1) = (10::int) ^ num_digits (n div 10)"
      by (metis Suc_pred' num_digits_pos power_Suc)
    ultimately show ?thesis using False by (subst num_digits_simps) simp
  qed
qed

lemma num_digits_le: "0 < k \<Longrightarrow> n < 10 ^ k \<Longrightarrow> num_digits n \<le> k"
proof (rule ccontr)
  assume k: "0 < k" "n < 10 ^ k" "\<not> num_digits n \<le> k"
  then have "0 < n" by (subst (asm) num_digits_simps) (auto split: if_splits)
  then have "10 ^ (num_digits n - 1) \<le> n" by (rule num_digits_lower)
  moreover have "(10::int) ^ k \<le> 10 ^ (num_digits n - 1)"
    by (rule power_increasing) (use k in auto)
  ultimately show False using k(2) by linarith
qed

lemma num_digits_le_iff: "0 < k \<Longrightarrow> num_digits n \<le> k \<longleftrightarrow> n < 10 ^ k"
proof
  assume "num_digits n \<le> k"
  then have "(10::int) ^ num_digits n \<le> 10 ^ k" by (intro power_increasing) auto
  with num_digits_upper [of n] show "n < 10 ^ k" by linarith
qed (rule num_digits_le)

section \<open>Exact division by the money factor\<close>

lemma strip_zeros_spec:
  assumes "strip_zeros n c e = (c', e')"
  shows "\<exists>k \<le> n. c = c' * 10 ^ k \<and> e' = e + int k \<and> (k = n \<or> c' mod 10 \<noteq> 0)"
  using assms
proof (induction n c e rule: strip_zeros.induct)
  case (1 c e)
  then show ?case by simp
next
  case (2 n c e)
  show ?case
  proof (cases "c mod 10 = 0")
    case True
    with 2 obtain k where "k \<le> n" "c div 10 = c' * 10 ^ k" "e' = e + 1 + int k"
      "k = n \<or> c' mod 10 \<noteq> 0" by auto
    with True show ?thesis by (intro exI [of _ "Suc k"]) auto
  next
    case False
    with 2 show ?thesis by (intro exI [of _ 0]) auto
  qed
qed

lemma dec_fix_small: "dec_coef d < 10 ^ dec_prec \<Longrightarrow> dec_fix d = d"
  using num_digits_le [of dec_prec "dec_coef d"] by (simp add: dec_fix_def dec_prec_def)

lemma num_digits_factor: "num_digits 10000 = 5"
  by code_simp

text \<open>
  Reading a scaled integer back divides it by the money factor: the quotient is exact, has an
  exponent between -4 and 0 and the integer's value.
\<close>

lemma dec_div_money_factor:
  assumes i: "i \<noteq> 0" "\<bar>i\<bar> < 10 ^ dec_prec"
  shows "\<exists>c e. dec_div (dec_of_int i) (dec_of_int MONEY_FACTOR)
           = \<lparr>dec_neg = (i < 0), dec_coef = c, dec_exp = e\<rparr>
         \<and> -4 \<le> e \<and> e \<le> 0 \<and> c * 10 ^ nat (e + 4) = \<bar>i\<bar>"
proof -
  let ?x = "\<bar>i\<bar>"
  define sh :: nat where "sh = 34 - num_digits ?x"
  have dg: "num_digits ?x \<le> 28"
    using i num_digits_le [of 28 ?x] by (simp add: dec_prec_def)
  then have sh: "6 \<le> sh" "int (num_digits 10000) - int (num_digits ?x) + int dec_prec + 1 = int sh"
    by (simp_all add: sh_def dec_prec_def num_digits_factor)
  define m where "m = sh - 4"
  have m: "sh = m + 4" "2 \<le> m" using sh(1) by (auto simp: m_def)
  have q: "?x * 10 ^ sh = (?x * 10 ^ m) * 10000" by (simp add: m(1) power_add)
  obtain c e where ce: "strip_zeros sh (?x * 10 ^ m) (- int sh) = (c, e)" by fastforce
  from strip_zeros_spec [OF ce] obtain k where
    k: "k \<le> sh" "?x * 10 ^ m = c * 10 ^ k" "e = - int sh + int k" "k = sh \<or> c mod 10 \<noteq> 0"
    by blast
  have mk: "m \<le> k"
  proof (rule ccontr)
    assume "\<not> m \<le> k"
    then have "m = (m - k - 1) + 1 + k" by simp
    then have "(10::int) ^ m = 10 ^ (m - k - 1) * 10 * 10 ^ k"
      using power_add [of "10::int" "m - k - 1 + 1" k] by simp
    then have "?x * 10 ^ m = (?x * 10 ^ (m - k - 1) * 10) * 10 ^ k"
      by (simp add: mult.assoc)
    with k(2) have "c = ?x * 10 ^ (m - k - 1) * 10" by simp
    then have "c mod 10 = 0" by simp
    with k(4) \<open>\<not> m \<le> k\<close> m show False by simp
  qed
  have cx: "c * 10 ^ (k - m) = ?x"
  proof -
    have "c * 10 ^ k = c * 10 ^ (k - m) * 10 ^ m" using mk by (simp flip: power_add mult.assoc)
    with k(2) show ?thesis by simp
  qed
  have p1: "(1::int) \<le> 10 ^ (k - m)" by simp
  have c0: "0 \<le> c"
  proof (rule ccontr)
    assume "\<not> 0 \<le> c"
    then have "c * 10 ^ (k - m) < 0" by (simp add: mult_neg_pos)
    with cx show False by linarith
  qed
  have "c * 1 \<le> c * 10 ^ (k - m)" by (rule mult_left_mono [OF p1 c0])
  then have "c \<le> ?x" using cx by simp
  then have small: "c < 10 ^ dec_prec" using i(2) by linarith
  have "dec_div (dec_of_int i) (dec_of_int MONEY_FACTOR)
      = \<lparr>dec_neg = (i < 0), dec_coef = c, dec_exp = e\<rparr>"
    using i(1) sh(2) q ce small
    by (simp add: dec_div_def dec_of_int_def MONEY_FACTOR_def MONEY_SCALE_def Let_def
        dec_fix_small)
  moreover have "-4 \<le> e" "e \<le> 0" "nat (e + 4) = k - m" using k(1,3) mk m by auto
  ultimately show ?thesis using cx by auto
qed

section \<open>Money round trip\<close>

definition dec_wf :: "decimal \<Rightarrow> bool" where
  "dec_wf d \<longleftrightarrow> 0 \<le> dec_coef d"

lemma half_even_nonneg: "0 \<le> c \<Longrightarrow> 0 \<le> half_even c k"
  by (auto simp: half_even_def Let_def pos_imp_zdiv_nonneg_iff)

lemma quantize_SomeD:
  assumes "quantize e d = Some q" and "dec_wf d"
  shows "dec_exp q = e" "dec_neg q = dec_neg d" "0 \<le> dec_coef q" "dec_coef q < 10 ^ dec_prec"
proof -
  have lt: "num_digits c \<le> dec_prec \<Longrightarrow> c < 10 ^ dec_prec" for c
    using num_digits_le_iff [of dec_prec c] by (simp add: dec_prec_def)
  show "dec_exp q = e" "dec_neg q = dec_neg d"
    using assms by (auto simp: quantize_def Let_def split: if_splits)
  show "0 \<le> dec_coef q"
    using assms by (auto simp: quantize_def Let_def dec_wf_def half_even_nonneg split: if_splits)
  show "dec_coef q < 10 ^ dec_prec"
    using assms by (auto simp: quantize_def Let_def not_less intro: lt split: if_splits)
qed

text \<open>A value with at most four decimal places below the precision is quantized exactly.\<close>

lemma quantize_exact:
  assumes "c * 10 ^ nat (e + 4) = x" and "-4 \<le> e" and "0 < x" and "x < 10 ^ dec_prec"
  shows "quantize (-4) \<lparr>dec_neg = s, dec_coef = c, dec_exp = e\<rparr>
           = Some \<lparr>dec_neg = s, dec_coef = x, dec_exp = -4\<rparr>"
proof -
  have c0: "0 < c" using assms(1,3) by (metis zero_less_mult_pos2 zero_less_power zero_less_numeral)
  have x: "num_digits x \<le> dec_prec" using assms(4) by (intro num_digits_le) (auto simp: dec_prec_def)
  have "int (num_digits c) + e + 4 \<le> int dec_prec"
  proof (rule ccontr)
    assume "\<not> ?thesis"
    then have "dec_prec \<le> (num_digits c - 1) + nat (e + 4)" using assms(2) by simp
    then have "(10::int) ^ dec_prec \<le> 10 ^ (num_digits c - 1) * 10 ^ nat (e + 4)"
      by (simp flip: power_add)
    also have "\<dots> \<le> c * 10 ^ nat (e + 4)"
      by (rule mult_right_mono [OF num_digits_lower [OF c0]]) simp
    finally show False using assms(1,4) by simp
  qed
  then show ?thesis using assms(1,2) c0 x by (simp add: quantize_def Let_def)
qed

lemma quantize_zero: "dec_coef d = 0 \<Longrightarrow> quantize e d = Some (d\<lparr>dec_exp := e\<rparr>)"
  by (simp add: quantize_def)

lemma dec_div_zero_coef: "dec_div (dec_of_int 0) y = \<lparr>dec_neg = dec_neg y, dec_coef = 0, dec_exp = - dec_exp y\<rparr>"
  by (simp add: dec_div_def dec_of_int_def Let_def)

text \<open>
  A money value written to a column and read back has the quantized sign and coefficient it was
  written with, whatever the dialect; only a negative zero loses its sign.
\<close>

lemma money_roundtrip_quantized:
  assumes wf: "dec_wf v" and q: "quantize MONEY_QUANTUM_EXP v = Some q"
    and c: "process_bind_param dia v = Some c"
  shows "\<exists>v'. process_result_value dia (stored_cell c) = Some v'
           \<and> quantize MONEY_QUANTUM_EXP v' = Some (q\<lparr>dec_neg := dec_neg q \<and> dec_coef q \<noteq> 0\<rparr>)"
proof -
  have me: "MONEY_QUANTUM_EXP = -4" by (simp add: MONEY_QUANTUM_EXP_def MONEY_SCALE_def)
  note D = quantize_SomeD [OF q wf, unfolded me]
  obtain s x where qe: "q = \<lparr>dec_neg = s, dec_coef = x, dec_exp = -4\<rparr>"
    using D(1) by (cases q) auto
  note D' = D(3,4) [unfolded qe, simplified]
  show ?thesis
  proof (cases dia)
    case PostgreSQL
    with c q have ce: "c = NumCell q" by (simp add: process_bind_param_def)
    show ?thesis
    proof (cases "x = 0")
      case True
      with PostgreSQL ce qe show ?thesis
        by (simp add: process_result_value_def stored_cell_def cell_decimal_def me quantize_zero)
    next
      case False
      with D' have "quantize (-4) \<lparr>dec_neg = s, dec_coef = x, dec_exp = -4\<rparr> = Some q"
        using quantize_exact [of x "-4" x s] qe by simp
      with False PostgreSQL ce qe show ?thesis
        by (simp add: process_result_value_def stored_cell_def cell_decimal_def me)
    qed
  next
    case SQLite
    with c q qe have ce: "c = IntCell (if s then - x else x)"
      by (auto simp: process_bind_param_def dec_signed_def)
    show ?thesis
    proof (cases "x = 0")
      case True
      with SQLite ce qe show ?thesis
        by (simp add: process_result_value_def stored_cell_def cell_decimal_def me
            dec_div_zero_coef quantize_zero dec_of_int_def [of "10 ^ _"] MONEY_FACTOR_def)
    next
      case False
      let ?i = "if s then - x else x"
      have i: "?i \<noteq> 0" "\<bar>?i\<bar> < 10 ^ dec_prec" "\<bar>?i\<bar> = x" "(?i < 0) = s"
        using False D' by auto
      from dec_div_money_factor [OF i(1,2)] obtain cc e where
        dv: "dec_div (dec_of_int ?i) (dec_of_int MONEY_FACTOR)
               = \<lparr>dec_neg = s, dec_coef = cc, dec_exp = e\<rparr>" "-4 \<le> e" "cc * 10 ^ nat (e + 4) = x"
        using i(3,4) by auto
      have "quantize (-4) \<lparr>dec_neg = s, dec_coef = cc, dec_exp = e\<rparr> = Some q"
        using quantize_exact [OF dv(3,2)] False D' qe by simp
      with False SQLite ce qe dv(1) show ?thesis
        by (simp add: process_result_value_def stored_cell_def cell_decimal_def me)
    qed
  qed
qed

lemma bind_param_total:
  "quantize MONEY_QUANTUM_EXP v = Some q \<Longrightarrow> \<exists>c. process_bind_param dia v = Some c"
  by (cases dia) (auto simp: process_bind_param_def)

end
