(* ===== verification/Hashing.thy ===== *)
theory Hashing
  imports Decimals
begin

text \<open>
  \<open>services/hashing.py\<close>: canonical JSON, its SHA-256 digests, the checksum chain of a run's
  batches and the commit receipt. The digest function is the parameter \<open>H\<close>, bytes to
  hexadecimal text (\<open>hashlib.sha256(...).hexdigest()\<close>); nothing is assumed of it here.
\<close>

section \<open>Canonical JSON\<close>

datatype json =
    JNull
  | JBool bool
  | JInt int
  | JStr string
  | JArr "json list"
  | JObj "(string \<times> json) list"

text \<open>String escapes of \<open>json.dumps(ensure_ascii=False)\<close>.\<close>

definition escape_char :: "char \<Rightarrow> string" where
  "escape_char c =
     (if c = CHR 0x22 then [CHR 0x5C, CHR 0x22]
      else if c = CHR 0x5C then [CHR 0x5C, CHR 0x5C]
      else if c = CHR 0x0A then [CHR 0x5C, CHR ''n'']
      else if c = CHR 0x0D then [CHR 0x5C, CHR ''r'']
      else if c = CHR 0x09 then [CHR 0x5C, CHR ''t'']
      else if c = CHR 0x0C then [CHR 0x5C, CHR ''f'']
      else if c = CHR 0x08 then [CHR 0x5C, CHR ''b'']
      else if of_char c < (32::int)
      then [CHR 0x5C, CHR ''u'', CHR ''0'', CHR ''0''] @ hex_digits 2 (of_char c)
      else [c])"

definition quote_str :: "string \<Rightarrow> string" where
  "quote_str s = [CHR 0x22] @ concat (map escape_char s) @ [CHR 0x22]"

text \<open>
  \<open>json.dumps(..., separators=(",", ":"), sort_keys=True)\<close>: no spaces, members in key order.
\<close>

fun dumps :: "json \<Rightarrow> string" where
  "dumps JNull = ''null''"
| "dumps (JBool b) = (if b then ''true'' else ''false'')"
| "dumps (JInt i) = int_str i"
| "dumps (JStr s) = quote_str s"
| "dumps (JArr js) = ''['' @ join '','' (map dumps js) @ '']''"
| "dumps (JObj kvs) =
     ''{'' @ join '','' (map (\<lambda>(k, t). quote_str k @ '':'' @ t)
               (sort_key fst (map (\<lambda>(k, j). (k, dumps j)) kvs))) @ ''}''"

text \<open>UTF-8: a code point below 128 is one byte, below 256 two.\<close>

definition utf8_char :: "char \<Rightarrow> nat list" where
  "utf8_char c = (let n = of_char c :: nat in
     if n < 128 then [n] else [192 + n div 64, 128 + n mod 64])"

definition utf8 :: "string \<Rightarrow> nat list" where
  "utf8 s = concat (map utf8_char s)"

definition canonical_json :: "json \<Rightarrow> nat list" where
  "canonical_json j = utf8 (dumps j)"

section \<open>Digests\<close>

definition sha256_hex :: "(nat list \<Rightarrow> string) \<Rightarrow> json \<Rightarrow> string" where
  "sha256_hex H j = H (canonical_json j)"

text \<open>\<open>checksum_chain\<close>: each ASCII checksum followed by a line feed goes into one digest.\<close>

definition checksum_chain :: "(nat list \<Rightarrow> string) \<Rightarrow> string list \<Rightarrow> string" where
  "checksum_chain H cs = H (concat (map (\<lambda>c. utf8 c @ [10]) cs))"

definition stable_receipt :: "(nat list \<Rightarrow> string) \<Rightarrow> string \<Rightarrow> string \<Rightarrow> string \<Rightarrow> string" where
  "stable_receipt H run_id checksum committed_at =
     H (utf8 (run_id @ '':'' @ checksum @ '':'' @ committed_at))"

section \<open>Key order does not matter\<close>

lemma inj_on_fst_distinct: "distinct (map fst kvs) \<Longrightarrow> inj_on fst (set kvs)"
  by (simp add: distinct_map)

lemma canonical_json_perm:
  assumes "mset kvs = mset kvs'" and "distinct (map fst kvs)"
  shows "canonical_json (JObj kvs) = canonical_json (JObj kvs')"
proof -
  let ?f = "\<lambda>(k, j). (k, dumps j)"
  have "mset (map ?f kvs) = mset (map ?f kvs')" using assms(1) by simp
  moreover have "inj_on fst (set (map ?f kvs))"
    by (rule inj_on_fst_distinct) (use assms(2) in \<open>simp add: comp_def case_prod_beta\<close>)
  ultimately have "sort_key fst (map ?f kvs) = sort_key fst (map ?f kvs')"
    by (rule sort_key_perm)
  then show ?thesis by (simp add: canonical_json_def)
qed

lemma quote_str_inj_example: "dumps (JObj [(''b'', JInt 2), (''a'', JArr [JNull, JBool True])])
    = ''{'' @ quote_str ''a'' @ '':[null,true],'' @ quote_str ''b'' @ '':2}''"
  by code_simp

end
