(* ===== verification/Errors.thy ===== *)
theory Errors
  imports PyLib
begin

text \<open>
  \<open>services/errors.py\<close> and the other ways a request fails. A \<open>domain_error\<close> carries the
  three attributes of the exception; every \<open>raise\<close> of the services is a named constant built
  by \<open>DomainError\<close>, \<open>ConflictError\<close> or \<open>NotFoundError\<close> (in the theory of the service). \<open>err\<close>
  adds what the code does not raise itself: a rejected database write, a missing dictionary
  key, a failed validation, an overflow.
\<close>

record domain_error =
  err_message :: string
  err_code :: string
  err_status :: int

definition DomainError_with :: "string \<Rightarrow> string \<Rightarrow> int \<Rightarrow> domain_error" where
  "DomainError_with message code status_code =
     \<lparr>err_message = message, err_code = code, err_status = status_code\<rparr>"

definition DomainError :: "string \<Rightarrow> string \<Rightarrow> domain_error" where
  "DomainError message code = DomainError_with message code 400"

definition ConflictError :: "string \<Rightarrow> string \<Rightarrow> domain_error" where
  "ConflictError message code = DomainError_with message code 409"

definition NotFoundError :: "string \<Rightarrow> string \<Rightarrow> domain_error" where
  "NotFoundError message code = DomainError_with message code 404"

lemma err_attributes [simp]:
  "err_status (DomainError m c) = 400" "err_code (DomainError m c) = c"
  "err_status (ConflictError m c) = 409" "err_code (ConflictError m c) = c"
  "err_status (NotFoundError m c) = 404" "err_code (NotFoundError m c) = c"
  "err_status (DomainError_with m c s) = s" "err_code (DomainError_with m c s) = c"
  by (simp_all add: DomainError_def ConflictError_def NotFoundError_def DomainError_with_def)

text \<open>What a database write can violate: the kind of constraint and the table.\<close>

datatype constraint =
    PrimaryKey string
  | UniqueKey string
  | ForeignKey string
  | CheckFailed string
  | TriggerAbort string

datatype err =
    Domain domain_error
  | Integrity constraint
  | KeyError
  | ValidationError
  | OverflowError
  | InvalidOperation
  | TypeError
  | ValueError
  | RuntimeError

type_synonym 'a res = "err + 'a"

text \<open>The errors the service raises on purpose, as opposed to an unhandled exception.\<close>

definition is_domain_error :: "err \<Rightarrow> bool" where
  "is_domain_error e = (case e of Domain d \<Rightarrow> True | _ \<Rightarrow> False)"

lemma is_domain_error_simps [simp]:
  "is_domain_error (Domain d)" "\<not> is_domain_error (Integrity c)" "\<not> is_domain_error KeyError"
  "\<not> is_domain_error ValidationError" "\<not> is_domain_error OverflowError"
  "\<not> is_domain_error InvalidOperation" "\<not> is_domain_error TypeError"
  "\<not> is_domain_error ValueError" "\<not> is_domain_error RuntimeError"
  by (simp_all add: is_domain_error_def)

end
