(* ===== verification/Schemas.thy ===== *)
theory Schemas
  imports Hashing Errors
begin

text \<open>
  \<open>schemas/config.py\<close> and \<open>schemas/refresh.py\<close>: the request models, their validation and
  their JSON form. A request is a record of typed fields; \<open>validate_*\<close> is the construction of
  the pydantic model: white space is stripped where the model says so, every declared field
  constraint is checked, then the \<open>mode="after"\<close> validators run. \<open>*_json\<close> is
  \<open>model_dump(mode="json")\<close>: a decimal becomes its text, a date its ISO text.
\<close>

section \<open>Field constraints\<close>

definition len_between :: "nat \<Rightarrow> nat \<Rightarrow> 'a list \<Rightarrow> bool" where
  "len_between lo hi xs \<longleftrightarrow> lo \<le> length xs \<and> length xs \<le> hi"

definition opt_ok :: "('a \<Rightarrow> bool) \<Rightarrow> 'a option \<Rightarrow> bool" where
  "opt_ok p x = (case x of None \<Rightarrow> True | Some y \<Rightarrow> p y)"

definition char_in :: "char \<Rightarrow> char \<Rightarrow> char \<Rightarrow> bool" where
  "char_in lo hi c \<longleftrightarrow> of_char lo \<le> (of_char c :: int) \<and> of_char c \<le> (of_char hi :: int)"

text \<open>\<open>^[a-z][a-z0-9_-]{0,63}$\<close> and \<open>^[A-Z]{3}$\<close>.\<close>

definition key_pattern :: "string \<Rightarrow> bool" where
  "key_pattern s = (case s of [] \<Rightarrow> False
     | c # cs \<Rightarrow> char_in (CHR ''a'') (CHR ''z'') c \<and> length cs \<le> 63 \<and>
         list_all (\<lambda>d. char_in (CHR ''a'') (CHR ''z'') d \<or> char_in (CHR ''0'') (CHR ''9'') d
                     \<or> d = CHR ''_'' \<or> d = CHR ''-'') cs)"

definition currency_pattern :: "string \<Rightarrow> bool" where
  "currency_pattern s \<longleftrightarrow> length s = 3 \<and> list_all (char_in (CHR ''A'') (CHR ''Z'')) s"

text \<open>
  \<open>Field(ge=0, max_digits=18, decimal_places=4)\<close>: trailing zeros after the point do not count,
  so the value without them has at most four decimal places, at most 18 digits and at most 14
  before the point.
\<close>

definition dec_normal :: "decimal \<Rightarrow> decimal" where
  "dec_normal d = (if dec_coef d = 0 then d\<lparr>dec_exp := 0\<rparr>
     else case strip_zeros (num_digits (dec_coef d)) (dec_coef d) (dec_exp d) of
            (c, e) \<Rightarrow> d\<lparr>dec_coef := c, dec_exp := e\<rparr>)"

definition decimal_places :: "decimal \<Rightarrow> int" where
  "decimal_places d = max 0 (- dec_exp d)"

definition decimal_digits :: "decimal \<Rightarrow> int" where
  "decimal_digits d = max (int (num_digits (dec_coef d)) + max 0 (dec_exp d)) (decimal_places d)"

definition money_field :: "decimal \<Rightarrow> bool" where
  "money_field d \<longleftrightarrow> 0 \<le> dec_coef d \<and> (dec_neg d \<longrightarrow> dec_coef d = 0) \<and>
     (let n = dec_normal d in
        decimal_places n \<le> 4 \<and> decimal_digits n \<le> 18 \<and>
        decimal_digits n - decimal_places n \<le> 14)"

section \<open>Configuration requests\<close>

record category_input =
  ci_key :: string
  ci_name :: string
  ci_icon :: "string option"
  ci_sort_order :: int
  ci_budget_limit :: decimal
  ci_budget_currency :: string
  ci_lookback_days :: int
  ci_classification_instruction :: string
  ci_enabled :: bool

record config_request =
  cr_timezone :: string
  cr_display_currency :: string
  cr_aggregation_version :: int
  cr_categories :: "category_input list"

definition strip_category :: "category_input \<Rightarrow> category_input" where
  "strip_category c = c\<lparr>
     ci_key := strip_ws (ci_key c),
     ci_name := strip_ws (ci_name c),
     ci_icon := map_option strip_ws (ci_icon c),
     ci_budget_currency := strip_ws (ci_budget_currency c),
     ci_classification_instruction := strip_ws (ci_classification_instruction c)\<rparr>"

definition category_ok :: "category_input \<Rightarrow> bool" where
  "category_ok c \<longleftrightarrow>
     key_pattern (ci_key c) \<and>
     len_between 1 120 (ci_name c) \<and>
     opt_ok (len_between 0 32) (ci_icon c) \<and>
     0 \<le> ci_sort_order c \<and> ci_sort_order c \<le> 10000 \<and>
     money_field (ci_budget_limit c) \<and>
     currency_pattern (ci_budget_currency c) \<and>
     1 \<le> ci_lookback_days c \<and> ci_lookback_days c \<le> 3650 \<and>
     len_between 1 4000 (ci_classification_instruction c)"

definition CategoryConfigInput :: "category_input \<Rightarrow> category_input res" where
  "CategoryConfigInput c =
     (let c' = strip_category c in if category_ok c' then Inr c' else Inl ValidationError)"

definition config_fields_ok :: "config_request \<Rightarrow> bool" where
  "config_fields_ok r \<longleftrightarrow>
     len_between 1 64 (cr_timezone r) \<and>
     currency_pattern (cr_display_currency r) \<and>
     1 \<le> cr_aggregation_version r \<and>
     len_between 1 100 (cr_categories r)"

definition unique_category_keys :: "config_request \<Rightarrow> bool" where
  "unique_category_keys r \<longleftrightarrow> distinct (map ci_key (cr_categories r))"

definition ConfigPutRequest :: "config_request \<Rightarrow> config_request res" where
  "ConfigPutRequest r =
     bindR (map_each CategoryConfigInput (cr_categories r)) (\<lambda>cats.
       let r' = r\<lparr>cr_timezone := strip_ws (cr_timezone r),
                  cr_display_currency := strip_ws (cr_display_currency r),
                  cr_categories := cats\<rparr>
       in if config_fields_ok r' \<and> unique_category_keys r' then Inr r' else Inl ValidationError)"

section \<open>Refresh requests\<close>

definition account_id_ok :: "string \<Rightarrow> bool" where
  "account_id_ok a \<longleftrightarrow> len_between 1 128 a"

definition date_ok :: "date \<Rightarrow> bool" where
  "date_ok d \<longleftrightarrow> date_min \<le> d \<and> d \<le> date_max"

record begin_request =
  br_mode :: string
  br_source_from_date :: date
  br_source_to_date :: date
  br_expected_accounts :: "string list"

definition RefreshBeginRequest :: "begin_request \<Rightarrow> begin_request res" where
  "RefreshBeginRequest r =
     (let accounts = map strip_ws (br_expected_accounts r) in
      if br_mode r \<in> {''INCREMENTAL'', ''FULL_REBUILD''} \<and>
         date_ok (br_source_from_date r) \<and> date_ok (br_source_to_date r) \<and>
         len_between 1 100 accounts \<and> list_all account_id_ok accounts \<and>
         br_source_from_date r \<le> br_source_to_date r \<and>
         distinct accounts
      then Inr (r\<lparr>br_expected_accounts := sort accounts\<rparr>)
      else Inl ValidationError)"

record transaction_upload =
  tu_account_id :: string
  tu_account_name :: "string option"
  tu_source_id :: string
  tu_date :: date
  tu_amount :: decimal
  tu_currency :: string
  tu_categories :: "string list"
  tu_pending :: bool
  tu_pending_source_id :: "string option"
  tu_name :: "string option"
  tu_merchant :: "string option"
  tu_refunded :: bool
  tu_refund_amount :: decimal

definition strip_upload :: "transaction_upload \<Rightarrow> transaction_upload" where
  "strip_upload t = t\<lparr>
     tu_account_id := strip_ws (tu_account_id t),
     tu_account_name := map_option strip_ws (tu_account_name t),
     tu_source_id := strip_ws (tu_source_id t),
     tu_currency := strip_ws (tu_currency t),
     tu_categories := map strip_ws (tu_categories t),
     tu_pending_source_id := map_option strip_ws (tu_pending_source_id t),
     tu_name := map_option strip_ws (tu_name t),
     tu_merchant := map_option strip_ws (tu_merchant t)\<rparr>"

definition upload_fields_ok :: "transaction_upload \<Rightarrow> bool" where
  "upload_fields_ok t \<longleftrightarrow>
     account_id_ok (tu_account_id t) \<and>
     opt_ok (len_between 1 255) (tu_account_name t) \<and>
     len_between 1 192 (tu_source_id t) \<and>
     date_ok (tu_date t) \<and>
     money_field (tu_amount t) \<and>
     currency_pattern (tu_currency t) \<and>
     len_between 1 100 (tu_categories t) \<and>
     opt_ok (len_between 1 192) (tu_pending_source_id t) \<and>
     opt_ok (len_between 0 1000) (tu_name t) \<and>
     opt_ok (len_between 0 256) (tu_merchant t) \<and>
     money_field (tu_refund_amount t)"

definition dec_zero :: decimal where
  "dec_zero = \<lparr>dec_neg = False, dec_coef = 0, dec_exp = 0\<rparr>"

definition validate_transaction :: "transaction_upload \<Rightarrow> transaction_upload res" where
  "validate_transaction t =
     (if \<not> distinct (tu_categories t) then Inl ValidationError
      else
        let t = t\<lparr>tu_categories := sort (tu_categories t)\<rparr> in
        if dec_lt (tu_amount t) (tu_refund_amount t) then Inl ValidationError
        else if tu_refunded t \<noteq> dec_lt dec_zero (tu_refund_amount t) then Inl ValidationError
        else case tu_pending_source_id t of
               None \<Rightarrow> Inr t
             | Some p \<Rightarrow> if tu_pending t then Inl ValidationError
                         else if p = tu_source_id t then Inl ValidationError
                         else Inr t)"

definition TransactionUpload :: "transaction_upload \<Rightarrow> transaction_upload res" where
  "TransactionUpload t =
     (let t' = strip_upload t in
      if upload_fields_ok t' then validate_transaction t' else Inl ValidationError)"

record batch_request =
  bq_idempotency_key :: string
  bq_transactions :: "transaction_upload list"

definition RefreshBatchRequest :: "batch_request \<Rightarrow> batch_request res" where
  "RefreshBatchRequest b =
     bindR (map_each TransactionUpload (bq_transactions b)) (\<lambda>items.
       if len_between 8 255 (bq_idempotency_key b) \<and> len_between 1 1000 items
       then Inr (b\<lparr>bq_transactions := items\<rparr>) else Inl ValidationError)"

record commit_request =
  cq_expected_batch_count :: int
  cq_completed_accounts :: "string list"

definition RefreshCommitRequest :: "commit_request \<Rightarrow> commit_request res" where
  "RefreshCommitRequest r =
     (let accounts = map strip_ws (cq_completed_accounts r) in
      if 0 \<le> cq_expected_batch_count r \<and>
         len_between 1 100 accounts \<and> list_all account_id_ok accounts \<and> distinct accounts
      then Inr (r\<lparr>cq_completed_accounts := sort accounts\<rparr>)
      else Inl ValidationError)"

section \<open>JSON form\<close>

definition opt_json :: "('a \<Rightarrow> json) \<Rightarrow> 'a option \<Rightarrow> json" where
  "opt_json f x = (case x of None \<Rightarrow> JNull | Some y \<Rightarrow> f y)"

definition category_json_with :: "json \<Rightarrow> category_input \<Rightarrow> json" where
  "category_json_with limit c = JObj
     [(''key'', JStr (ci_key c)),
      (''name'', JStr (ci_name c)),
      (''icon'', opt_json JStr (ci_icon c)),
      (''sort_order'', JInt (ci_sort_order c)),
      (''budget_limit'', limit),
      (''budget_currency'', JStr (ci_budget_currency c)),
      (''lookback_days'', JInt (ci_lookback_days c)),
      (''classification_instruction'', JStr (ci_classification_instruction c)),
      (''enabled'', JBool (ci_enabled c))]"

definition category_json :: "category_input \<Rightarrow> json" where
  "category_json c = category_json_with (JStr (dec_str (ci_budget_limit c))) c"

definition begin_json :: "begin_request \<Rightarrow> json" where
  "begin_json r = JObj
     [(''mode'', JStr (br_mode r)),
      (''source_from_date'', JStr (date_iso (br_source_from_date r))),
      (''source_to_date'', JStr (date_iso (br_source_to_date r))),
      (''expected_accounts'', JArr (map JStr (br_expected_accounts r)))]"

definition upload_json :: "transaction_upload \<Rightarrow> json" where
  "upload_json t = JObj
     [(''account_id'', JStr (tu_account_id t)),
      (''account_name'', opt_json JStr (tu_account_name t)),
      (''source_id'', JStr (tu_source_id t)),
      (''date'', JStr (date_iso (tu_date t))),
      (''amount'', JStr (dec_str (tu_amount t))),
      (''currency'', JStr (tu_currency t)),
      (''categories'', JArr (map JStr (tu_categories t))),
      (''pending'', JBool (tu_pending t)),
      (''pending_source_id'', opt_json JStr (tu_pending_source_id t)),
      (''name'', opt_json JStr (tu_name t)),
      (''merchant'', opt_json JStr (tu_merchant t)),
      (''refunded'', JBool (tu_refunded t)),
      (''refund_amount'', JStr (dec_str (tu_refund_amount t)))]"

definition batch_json :: "batch_request \<Rightarrow> json" where
  "batch_json b = JObj
     [(''idempotency_key'', JStr (bq_idempotency_key b)),
      (''transactions'', JArr (map upload_json (bq_transactions b)))]"

section \<open>Validation is idempotent\<close>

lemma strip_category_idem [simp]: "strip_category (strip_category c) = strip_category c"
  by (simp add: strip_category_def option.map_comp)

lemma CategoryConfigInput_eq_Inr:
  "CategoryConfigInput c = Inr c' \<longleftrightarrow> c' = strip_category c \<and> category_ok c'"
  by (auto simp: CategoryConfigInput_def Let_def)

lemma CategoryConfigInput_idem:
  "CategoryConfigInput c = Inr c' \<Longrightarrow> CategoryConfigInput c' = Inr c'"
  by (auto simp: CategoryConfigInput_eq_Inr)

definition config_request_wf :: "config_request \<Rightarrow> bool" where
  "config_request_wf r \<longleftrightarrow> ConfigPutRequest r = Inr r"

lemma ConfigPutRequest_wf:
  assumes "ConfigPutRequest r = Inr r'"
  shows "config_request_wf r'"
proof -
  obtain cats where cats: "map_each CategoryConfigInput (cr_categories r) = Inr cats"
    and r': "r' = r\<lparr>cr_timezone := strip_ws (cr_timezone r),
                  cr_display_currency := strip_ws (cr_display_currency r),
                  cr_categories := cats\<rparr>"
    and ok: "config_fields_ok r'" "unique_category_keys r'"
    using assms by (auto simp: ConfigPutRequest_def Let_def result_simps split: if_splits)
  have "map_each CategoryConfigInput cats = Inr cats"
    using cats by (auto simp: map_each_eq_Inr list_all2_conv_all_nth
        intro: CategoryConfigInput_idem)
  then show ?thesis
    using r' ok by (simp add: config_request_wf_def ConfigPutRequest_def)
qed

lemma config_request_wfD:
  assumes "config_request_wf r"
  shows "\<And>c. c \<in> set (cr_categories r) \<Longrightarrow> category_ok c"
    and "\<And>c. c \<in> set (cr_categories r) \<Longrightarrow> strip_category c = c"
    and "distinct (map ci_key (cr_categories r))"
    and "config_fields_ok r"
    and "strip_ws (cr_timezone r) = cr_timezone r"
    and "strip_ws (cr_display_currency r) = cr_display_currency r"
proof -
  from assms obtain cats where cats: "map_each CategoryConfigInput (cr_categories r) = Inr cats"
    and r: "r = r\<lparr>cr_timezone := strip_ws (cr_timezone r),
                  cr_display_currency := strip_ws (cr_display_currency r),
                  cr_categories := cats\<rparr>"
    and ok: "config_fields_ok r" "unique_category_keys r"
    by (auto simp: config_request_wf_def ConfigPutRequest_def Let_def result_simps split: if_splits)
  from r have f: "cr_timezone r = strip_ws (cr_timezone r)"
    "cr_display_currency r = strip_ws (cr_display_currency r)" "cr_categories r = cats"
    by (cases r, simp)+
  then have m: "map_each CategoryConfigInput (cr_categories r) = Inr (cr_categories r)"
    using cats by simp
  have each: "CategoryConfigInput c = Inr c" if "c \<in> set (cr_categories r)" for c
    using m that by (auto simp: map_each_eq_Inr list_all2_conv_all_nth in_set_conv_nth)
  show "\<And>c. c \<in> set (cr_categories r) \<Longrightarrow> category_ok c"
    "\<And>c. c \<in> set (cr_categories r) \<Longrightarrow> strip_category c = c"
    using each by (auto simp: CategoryConfigInput_eq_Inr)
  show "distinct (map ci_key (cr_categories r))" "config_fields_ok r"
    using ok by (auto simp: unique_category_keys_def)
  show "strip_ws (cr_timezone r) = cr_timezone r"
    "strip_ws (cr_display_currency r) = cr_display_currency r"
    using f by simp_all
qed

lemma config_request_wfI:
  assumes "\<And>c. c \<in> set (cr_categories r) \<Longrightarrow> category_ok c \<and> strip_category c = c"
    and "distinct (map ci_key (cr_categories r))" and "config_fields_ok r"
    and "strip_ws (cr_timezone r) = cr_timezone r"
    and "strip_ws (cr_display_currency r) = cr_display_currency r"
  shows "config_request_wf r"
proof -
  have "map_each CategoryConfigInput (cr_categories r) = Inr (map id (cr_categories r))"
    by (rule map_each_Inr_map) (simp add: assms(1) CategoryConfigInput_eq_Inr)
  then show ?thesis using assms(2-5)
    by (simp add: config_request_wf_def ConfigPutRequest_def unique_category_keys_def)
qed

end
