(* ===== verification/Models.thy ===== *)
theory Models
  imports Schemas
begin

text \<open>
  \<open>db/models.py\<close>: the enumerations, one record per mapped class with the columns the services
  read or write, and the database as one list of rows per table, in insertion order. A money
  column of a transaction holds the scaled integer the column type stores; a category's
  \<open>budget_limit\<close> is the attribute of the mapped object, which a session keeps as it was
  assigned until the row is loaded again (\<open>reload_categories\<close>). Timestamps no code reads
  (\<open>created_at\<close> and \<open>updated_at\<close> of categories, rules, links and batches) are left out.
\<close>

datatype config_status = PENDING | ACTIVE | SUPERSEDED
datatype refresh_mode = INCREMENTAL | FULL
datatype run_state = CREATED | UPLOADED | VALIDATED | COMMITTED | FAILED

definition config_status_value :: "config_status \<Rightarrow> string" where
  "config_status_value s = (case s of
     PENDING \<Rightarrow> ''pending'' | ACTIVE \<Rightarrow> ''active'' | SUPERSEDED \<Rightarrow> ''superseded'')"

definition refresh_mode_value :: "refresh_mode \<Rightarrow> string" where
  "refresh_mode_value m = (case m of INCREMENTAL \<Rightarrow> ''incremental'' | FULL \<Rightarrow> ''full'')"

definition run_state_value :: "run_state \<Rightarrow> string" where
  "run_state_value s = (case s of
     CREATED \<Rightarrow> ''created'' | UPLOADED \<Rightarrow> ''uploaded'' | VALIDATED \<Rightarrow> ''validated''
   | COMMITTED \<Rightarrow> ''committed'' | FAILED \<Rightarrow> ''failed'')"

record category =
  cat_id :: uuid
  cat_key :: string
  cat_name :: string
  cat_icon :: "string option"
  cat_sort_order :: int
  cat_budget_limit :: decimal
  cat_budget_currency :: string

record rule_version =
  rv_id :: uuid
  rv_category_id :: uuid
  rv_version :: int
  rv_lookback_days :: int
  rv_classification_instruction :: string
  rv_is_enabled :: bool
  rv_rule_hash :: string

record config_version =
  cv_id :: uuid
  cv_version :: int
  cv_status :: config_status
  cv_timezone :: string
  cv_display_currency :: string
  cv_aggregation_version :: int
  cv_config_hash :: string
  cv_source_config :: config_request
  cv_created_at :: timestamp
  cv_activated_at :: "timestamp option"
  cv_superseded_at :: "timestamp option"

record config_version_rule =
  cvr_config_version_id :: uuid
  cvr_category_id :: uuid
  cvr_rule_version_id :: uuid

record refresh_run =
  run_id :: uuid
  run_idempotency_key :: string
  run_request_hash :: string
  run_mode :: refresh_mode
  run_state :: run_state
  run_config_version_id :: uuid
  run_source_from_date :: "date option"
  run_source_to_date :: "date option"
  run_expected_accounts :: "string list"
  run_completed_accounts :: "string list option"
  run_expected_batch_count :: "int option"
  run_computed_checksum :: "string option"
  run_sync_revision_before :: "int option"
  run_received_batch_count :: int
  run_actual_item_count :: int
  run_created_at :: timestamp
  run_uploaded_at :: "timestamp option"
  run_validated_at :: "timestamp option"
  run_committed_at :: "timestamp option"
  run_failed_at :: "timestamp option"
  run_error_code :: "string option"

record refresh_batch =
  rb_run_id :: uuid
  rb_batch_index :: int
  rb_idempotency_key :: string
  rb_request_hash :: string
  rb_checksum :: string
  rb_item_count :: int

record staged_transaction =
  st_run_id :: uuid
  st_config_version_id :: uuid
  st_account_id :: string
  st_account_name :: "string option"
  st_source_id :: string
  st_batch_index :: int
  st_transaction_date :: date
  st_amount :: int
  st_currency :: string
  st_pending :: bool
  st_merchant :: "string option"
  st_name :: "string option"
  st_refunded :: bool
  st_refund_amount :: int
  st_pending_source_id :: "string option"
  st_source_hash :: string

record staged_transaction_category =
  sc_run_id :: uuid
  sc_config_version_id :: uuid
  sc_account_id :: string
  sc_source_id :: string
  sc_category_id :: uuid
  sc_rule_version_id :: uuid

record transaction =
  tx_account_id :: string
  tx_account_name :: "string option"
  tx_source_id :: string
  tx_transaction_date :: date
  tx_amount :: int
  tx_currency :: string
  tx_pending :: bool
  tx_merchant :: "string option"
  tx_name :: "string option"
  tx_refunded :: bool
  tx_refund_amount :: int
  tx_pending_source_id :: "string option"
  tx_source_hash :: string
  tx_config_version_id :: uuid
  tx_first_refresh_run_id :: uuid
  tx_last_refresh_run_id :: uuid
  tx_first_seen_at :: timestamp
  tx_last_seen_at :: timestamp

record transaction_category =
  tc_account_id :: string
  tc_source_id :: string
  tc_category_id :: uuid
  tc_config_version_id :: uuid
  tc_rule_version_id :: uuid

record sync_state =
  ss_id :: int
  ss_config_version_id :: uuid
  ss_last_refresh_run_id :: uuid
  ss_revision :: int
  ss_updated_at :: timestamp

record db =
  categories :: "category list"
  rule_versions :: "rule_version list"
  config_versions :: "config_version list"
  config_version_rules :: "config_version_rule list"
  refresh_runs :: "refresh_run list"
  refresh_batches :: "refresh_batch list"
  staged_transactions :: "staged_transaction list"
  staged_transaction_categories :: "staged_transaction_category list"
  transactions :: "transaction list"
  transaction_categories :: "transaction_category list"
  sync_states :: "sync_state list"

definition empty_db :: db where
  "empty_db = \<lparr>categories = [], rule_versions = [], config_versions = [],
     config_version_rules = [], refresh_runs = [], refresh_batches = [],
     staged_transactions = [], staged_transaction_categories = [],
     transactions = [], transaction_categories = [], sync_states = []\<rparr>"

section \<open>Keys\<close>

definition rb_key :: "refresh_batch \<Rightarrow> uuid \<times> int" where
  "rb_key b = (rb_run_id b, rb_batch_index b)"

definition st_identity :: "staged_transaction \<Rightarrow> string \<times> string" where
  "st_identity s = (st_account_id s, st_source_id s)"

definition st_key :: "staged_transaction \<Rightarrow> uuid \<times> string \<times> string" where
  "st_key s = (st_run_id s, st_account_id s, st_source_id s)"

definition sc_key :: "staged_transaction_category \<Rightarrow> (uuid \<times> string \<times> string) \<times> uuid" where
  "sc_key c = ((sc_run_id c, sc_account_id c, sc_source_id c), sc_category_id c)"

definition tx_key :: "transaction \<Rightarrow> string \<times> string" where
  "tx_key t = (tx_account_id t, tx_source_id t)"

definition tc_tx_key :: "transaction_category \<Rightarrow> string \<times> string" where
  "tc_tx_key c = (tc_account_id c, tc_source_id c)"

definition tc_key :: "transaction_category \<Rightarrow> (string \<times> string) \<times> uuid" where
  "tc_key c = (tc_tx_key c, tc_category_id c)"

definition cvr_key :: "config_version_rule \<Rightarrow> uuid \<times> uuid" where
  "cvr_key l = (cvr_config_version_id l, cvr_category_id l)"

definition cvr_mapping :: "config_version_rule \<Rightarrow> uuid \<times> uuid \<times> uuid" where
  "cvr_mapping l = (cvr_config_version_id l, cvr_category_id l, cvr_rule_version_id l)"

end
