(* ===== verification/Triggers.thy ===== *)
theory Triggers
  imports Models
begin

text \<open>
  The guards the migrations install in the database. Each definition is the condition under
  which the write is let through. SQLite has one trigger per guard
  (\<open>migrations/sqlite_support.py\<close>, replaced for refresh runs and sync state by
  \<open>0003_single_user.py\<close>); PostgreSQL has one function per table (\<open>0001_initial.py\<close>, replaced
  by \<open>0003_single_user.py\<close>). The two agree on configuration versions, and on refresh runs except
  for two writes that only PostgreSQL lets through (\<open>run_guards_agree\<close>).
\<close>

section \<open>Config versions\<close>

definition config_content_unchanged :: "config_version \<Rightarrow> config_version \<Rightarrow> bool" where
  "config_content_unchanged old new \<longleftrightarrow>
     cv_version new = cv_version old \<and>
     cv_timezone new = cv_timezone old \<and>
     cv_display_currency new = cv_display_currency old \<and>
     cv_aggregation_version new = cv_aggregation_version old \<and>
     cv_config_hash new = cv_config_hash old \<and>
     cv_source_config new = cv_source_config old \<and>
     cv_created_at new = cv_created_at old"

definition config_status_guard :: "config_version \<Rightarrow> config_version \<Rightarrow> bool" where
  "config_status_guard old new \<longleftrightarrow>
     \<not> (cv_status new \<noteq> cv_status old \<and>
        \<not> ((cv_status old = PENDING \<and> cv_status new \<in> {ACTIVE, SUPERSEDED}) \<or>
           (cv_status old = ACTIVE \<and> cv_status new = SUPERSEDED)))"

definition config_guard_postgres :: "config_version \<Rightarrow> config_version \<Rightarrow> bool" where
  "config_guard_postgres old new =
     (if \<not> config_content_unchanged old new then False
      else if cv_status new \<noteq> cv_status old \<and>
              \<not> ((cv_status old = PENDING \<and> cv_status new \<in> {ACTIVE, SUPERSEDED}) \<or>
                 (cv_status old = ACTIVE \<and> cv_status new = SUPERSEDED))
      then False else True)"

definition config_guard :: "dialect \<Rightarrow> config_version \<Rightarrow> config_version \<Rightarrow> bool" where
  "config_guard dia old new = (case dia of
     SQLite \<Rightarrow> config_content_unchanged old new \<and> config_status_guard old new
   | PostgreSQL \<Rightarrow> config_guard_postgres old new)"

text \<open>A version becomes active by an update only after a committed full rebuild of it.\<close>

definition activation_guard :: "refresh_run list \<Rightarrow> config_version \<Rightarrow> config_version \<Rightarrow> bool" where
  "activation_guard runs old new \<longleftrightarrow>
     \<not> (cv_status new = ACTIVE \<and> cv_status old \<noteq> ACTIVE \<and>
        \<not> list_ex (\<lambda>r. run_config_version_id r = cv_id new \<and> run_mode r = FULL \<and>
                       run_state r = COMMITTED) runs)"

section \<open>Refresh runs\<close>

definition run_identity_unchanged :: "refresh_run \<Rightarrow> refresh_run \<Rightarrow> bool" where
  "run_identity_unchanged old new \<longleftrightarrow>
     run_id new = run_id old \<and>
     run_idempotency_key new = run_idempotency_key old \<and>
     run_request_hash new = run_request_hash old \<and>
     run_mode new = run_mode old \<and>
     run_config_version_id new = run_config_version_id old \<and>
     run_source_from_date new = run_source_from_date old \<and>
     run_source_to_date new = run_source_to_date old \<and>
     run_expected_accounts new = run_expected_accounts old \<and>
     run_sync_revision_before new = run_sync_revision_before old \<and>
     run_created_at new = run_created_at old"

definition run_not_terminal :: "refresh_run \<Rightarrow> bool" where
  "run_not_terminal old \<longleftrightarrow> run_state old \<notin> {COMMITTED, FAILED}"

definition coalesce :: "int option \<Rightarrow> int \<Rightarrow> int" where
  "coalesce x d = (case x of None \<Rightarrow> d | Some y \<Rightarrow> y)"

definition run_state_guard :: "refresh_run \<Rightarrow> refresh_run \<Rightarrow> bool" where
  "run_state_guard old new \<longleftrightarrow>
     \<not> (run_state new \<noteq> run_state old \<and>
        \<not> ((run_state old = CREATED \<and> run_state new \<in> {UPLOADED, FAILED}) \<or>
           (run_state old = CREATED \<and> run_state new = VALIDATED \<and>
              coalesce (run_expected_batch_count new) (-1) = 0 \<and>
              run_received_batch_count new = 0 \<and> run_actual_item_count new = 0) \<or>
           (run_state old = UPLOADED \<and> run_state new \<in> {VALIDATED, FAILED}) \<or>
           (run_state old = VALIDATED \<and> run_state new \<in> {COMMITTED, FAILED})))"

definition run_guard_sqlite :: "refresh_run \<Rightarrow> refresh_run \<Rightarrow> bool" where
  "run_guard_sqlite old new \<longleftrightarrow>
     run_identity_unchanged old new \<and> run_not_terminal old \<and> run_state_guard old new"

text \<open>
  \<open>NEW.expected_batch_count = 0\<close> is null, so not true, when the count is null: the exception
  is raised only when the whole condition is true, and a null conjunct makes the negated
  disjunction null unless another disjunct holds.
\<close>

datatype sql_bool = SqlTrue | SqlFalse | SqlNull

definition sql_of :: "bool \<Rightarrow> sql_bool" where
  "sql_of b = (if b then SqlTrue else SqlFalse)"

definition sql_and :: "sql_bool \<Rightarrow> sql_bool \<Rightarrow> sql_bool" where
  "sql_and a b = (if a = SqlFalse \<or> b = SqlFalse then SqlFalse
     else if a = SqlNull \<or> b = SqlNull then SqlNull else SqlTrue)"

definition sql_or :: "sql_bool \<Rightarrow> sql_bool \<Rightarrow> sql_bool" where
  "sql_or a b = (if a = SqlTrue \<or> b = SqlTrue then SqlTrue
     else if a = SqlNull \<or> b = SqlNull then SqlNull else SqlFalse)"

definition sql_not :: "sql_bool \<Rightarrow> sql_bool" where
  "sql_not a = (case a of SqlTrue \<Rightarrow> SqlFalse | SqlFalse \<Rightarrow> SqlTrue | SqlNull \<Rightarrow> SqlNull)"

definition sql_eq :: "int option \<Rightarrow> int \<Rightarrow> sql_bool" where
  "sql_eq x k = (case x of None \<Rightarrow> SqlNull | Some y \<Rightarrow> sql_of (y = k))"

definition run_guard_postgres :: "refresh_run \<Rightarrow> refresh_run \<Rightarrow> bool" where
  "run_guard_postgres old new =
     (if \<not> run_identity_unchanged old new then False
      else if run_state old \<in> {COMMITTED, FAILED} \<and> new \<noteq> old then False
      else if sql_and (sql_of (run_state new \<noteq> run_state old)) (sql_not
                (sql_or (sql_of (run_state old = CREATED \<and> run_state new \<in> {UPLOADED, FAILED}))
                (sql_or (sql_and (sql_of (run_state old = CREATED \<and> run_state new = VALIDATED))
                           (sql_and (sql_eq (run_expected_batch_count new) 0)
                           (sql_and (sql_of (run_received_batch_count new = 0))
                                    (sql_of (run_actual_item_count new = 0)))))
                (sql_or (sql_of (run_state old = UPLOADED \<and> run_state new \<in> {VALIDATED, FAILED}))
                        (sql_of (run_state old = VALIDATED \<and> run_state new \<in> {COMMITTED, FAILED})))))) = SqlTrue
      then False else True)"

definition run_guard :: "dialect \<Rightarrow> refresh_run \<Rightarrow> refresh_run \<Rightarrow> bool" where
  "run_guard dia old new = (case dia of
     SQLite \<Rightarrow> run_guard_sqlite old new | PostgreSQL \<Rightarrow> run_guard_postgres old new)"

definition incremental_guard :: "config_version list \<Rightarrow> refresh_run \<Rightarrow> bool" where
  "incremental_guard configs new \<longleftrightarrow>
     \<not> (run_mode new = INCREMENTAL \<and>
        \<not> list_ex (\<lambda>c. cv_id c = run_config_version_id new \<and> cv_status c = ACTIVE) configs)"

section \<open>Batches and sync state\<close>

definition batch_open_guard :: "refresh_run list \<Rightarrow> refresh_batch \<Rightarrow> bool" where
  "batch_open_guard runs new \<longleftrightarrow>
     list_ex (\<lambda>r. run_id r = rb_run_id new \<and> run_state r \<in> {CREATED, UPLOADED}) runs"

definition sync_guard :: "refresh_run list \<Rightarrow> sync_state \<Rightarrow> bool" where
  "sync_guard runs new \<longleftrightarrow>
     list_ex (\<lambda>r. run_id r = ss_last_refresh_run_id new \<and>
                  run_config_version_id r = ss_config_version_id new \<and>
                  run_state r = COMMITTED) runs"

section \<open>The two dialects agree\<close>

lemma config_guards_agree: "config_guard SQLite old new = config_guard PostgreSQL old new"
  by (auto simp: config_guard_def config_guard_postgres_def config_status_guard_def)

text \<open>
  The null-valued comparison is the only difference in the state guard: from CREATED straight
  to VALIDATED with no expected batch count PostgreSQL's condition is null and the write passes.
\<close>

lemma sql_bool_ops [simp]:
  "sql_and SqlTrue a = a" "sql_and SqlFalse a = SqlFalse" "sql_and a SqlTrue = a"
  "sql_and a SqlFalse = SqlFalse" "sql_or SqlFalse a = a" "sql_or SqlTrue a = SqlTrue"
  "sql_or a SqlFalse = a" "sql_or a SqlTrue = SqlTrue"
  "sql_of True = SqlTrue" "sql_of False = SqlFalse"
  "sql_not SqlTrue = SqlFalse" "sql_not SqlFalse = SqlTrue" "sql_not SqlNull = SqlNull"
  "sql_and SqlNull SqlNull = SqlNull"
  by (cases a; simp add: sql_and_def sql_or_def sql_of_def sql_not_def)+

text \<open>That write, and the one to a terminal run that changes nothing, are all PostgreSQL lets through in addition.\<close>

definition run_passes_postgres_only :: "refresh_run \<Rightarrow> refresh_run \<Rightarrow> bool" where
  "run_passes_postgres_only old new \<longleftrightarrow>
     (run_state old \<in> {COMMITTED, FAILED} \<and> new = old) \<or>
     (run_state old = CREATED \<and> run_state new = VALIDATED \<and> run_identity_unchanged old new \<and>
        run_expected_batch_count new = None \<and> run_received_batch_count new = 0 \<and> run_actual_item_count new = 0)"

lemma run_guard_terminal_state:
  assumes "run_state old \<in> {COMMITTED, FAILED}"
  shows "run_guard PostgreSQL old new \<longleftrightarrow> new = old" and "\<not> run_guard SQLite old new"
  using assms by (auto simp: run_guard_def run_guard_sqlite_def run_guard_postgres_def run_not_terminal_def
      run_identity_unchanged_def)

lemma run_guards_agree:
  "run_guard PostgreSQL old new \<longleftrightarrow> run_guard SQLite old new \<or> run_passes_postgres_only old new"
proof (cases "run_state old")
  case CREATED
  show ?thesis
    by (cases "run_state new"; cases "run_expected_batch_count new"; cases "run_received_batch_count new = 0";
        cases "run_actual_item_count new = 0")
      (auto simp: CREATED run_guard_def run_guard_sqlite_def run_guard_postgres_def run_state_guard_def
        run_not_terminal_def run_passes_postgres_only_def coalesce_def sql_eq_def sql_of_def sql_and_def sql_or_def sql_not_def)
next
  case UPLOADED
  then show ?thesis
    by (cases "run_state new") (simp_all add: run_guard_def run_guard_sqlite_def
        run_guard_postgres_def run_state_guard_def run_not_terminal_def run_passes_postgres_only_def)
next
  case VALIDATED
  then show ?thesis
    by (cases "run_state new") (simp_all add: run_guard_def run_guard_sqlite_def
        run_guard_postgres_def run_state_guard_def run_not_terminal_def run_passes_postgres_only_def)
qed (simp_all add: run_guard_terminal_state run_passes_postgres_only_def)

text \<open>What either dialect guarantees of a run that changes state with its counts filled in.\<close>

lemma run_guard_keeps_identity: "run_guard dia old new \<Longrightarrow> run_identity_unchanged old new"
  by (cases dia) (auto simp: run_guard_def run_guard_sqlite_def run_guard_postgres_def
      split: if_splits)

lemma run_guard_terminal: "run_guard dia old new \<Longrightarrow> \<not> run_not_terminal old \<Longrightarrow> new = old"
  by (cases dia) (auto simp: run_guard_def run_guard_sqlite_def run_guard_postgres_def
      run_not_terminal_def split: if_splits)

end
