(* ===== verification/Tables.thy ===== *)
theory Tables
  imports Triggers
begin

text \<open>
  The database writes. Each operation is one INSERT, UPDATE or DELETE of \<open>db/models.py\<close>'s
  tables: it checks the triggers, the keys, the foreign keys and the CHECK constraints the
  table declares, in this order, and answers an integrity error or the changed database. The
  services flush a write before a query that depends on it, so a write takes effect at once.
\<close>

section \<open>The environment of a request\<close>

text \<open>
  What a request reads from outside: the database dialect, \<open>hashlib.sha256\<close>, the time zone
  database (which names it knows, and which of the others \<open>ZoneInfo\<close> refuses as malformed keys),
  the clock (one reading for the request) and the identifiers \<open>uuid4\<close> draws, one for each place
  that draws one.
\<close>

datatype draw_site = NewCategory string | NewRule string | NewConfig | NewRun

record env =
  env_dialect :: dialect
  env_sha256 :: "nat list \<Rightarrow> string"
  env_zone_known :: "string \<Rightarrow> bool"
  env_zone_malformed :: "string \<Rightarrow> bool"
  env_local_date :: "string \<Rightarrow> timestamp \<Rightarrow> date"
  env_now :: timestamp
  env_uuid :: "draw_site \<Rightarrow> uuid"

text \<open>\<open>server_default=func.now()\<close>: SQLite's CURRENT_TIMESTAMP has whole seconds.\<close>

definition server_now :: "env \<Rightarrow> timestamp" where
  "server_now en = (case env_dialect en of
     SQLite \<Rightarrow> env_now en - env_now en mod 1000000 | PostgreSQL \<Rightarrow> env_now en)"

section \<open>Checking a write\<close>

fun guard :: "(bool \<times> constraint) list \<Rightarrow> unit res" where
  "guard [] = Inr ()"
| "guard ((ok, c) # gs) = (if ok then guard gs else Inl (Integrity c))"

lemma guard_eq_Inr [result_simps]: "guard gs = Inr u \<longleftrightarrow> list_all fst gs"
  by (induction gs rule: guard.induct) (auto simp: guard.simps)

lemma guard_eq_Inl: "guard gs = Inl e \<Longrightarrow> \<exists>c. e = Integrity c"
  by (induction gs rule: guard.induct) (auto simp: guard.simps split: if_splits)

declare guard.simps(2) [simp del]

definition has_key :: "('r \<Rightarrow> 'k) \<Rightarrow> 'k \<Rightarrow> 'r list \<Rightarrow> bool" where
  "has_key key k rows = list_ex (\<lambda>r. key r = k) rows"

lemma has_key_iff: "has_key key k rows \<longleftrightarrow> k \<in> key ` set rows"
  by (auto simp: has_key_def list_ex_iff)

definition get_row :: "('r \<Rightarrow> 'k) \<Rightarrow> 'k \<Rightarrow> 'r list \<Rightarrow> 'r option" where
  "get_row key k rows = find (\<lambda>r. key r = k) rows"

definition put_row :: "('r \<Rightarrow> 'k) \<Rightarrow> 'r \<Rightarrow> 'r list \<Rightarrow> 'r list" where
  "put_row key r rows = map (\<lambda>x. if key x = key r then r else x) rows"

definition drop_rows :: "('r \<Rightarrow> bool) \<Rightarrow> 'r list \<Rightarrow> 'r list" where
  "drop_rows p rows = filter (\<lambda>r. \<not> p r) rows"

section \<open>Look-up laws of a keyed table\<close>

lemma get_row_SomeD: "get_row key k rows = Some r \<Longrightarrow> r \<in> set rows \<and> key r = k"
  by (auto simp: get_row_def find_Some_iff)

lemma get_row_None: "get_row key k rows = None \<longleftrightarrow> k \<notin> key ` set rows"
  by (auto simp: get_row_def find_None_iff)

lemma get_row_distinct:
  "distinct (map key rows) \<Longrightarrow> r \<in> set rows \<Longrightarrow> get_row key (key r) rows = Some r"
  by (induction rows) (auto simp: get_row_def)

lemma get_row_iff:
  "distinct (map key rows) \<Longrightarrow> get_row key k rows = Some r \<longleftrightarrow> r \<in> set rows \<and> key r = k"
  by (auto dest: get_row_SomeD intro: get_row_distinct)

lemma get_row_append [table_simps]:
  "k \<notin> key ` set rows \<Longrightarrow> get_row key k (rows @ [r]) = (if key r = k then Some r else None)"
  by (induction rows) (auto simp: get_row_def)

lemma get_row_append_old [table_simps]:
  "k \<in> key ` set rows \<Longrightarrow> get_row key k (rows @ rs) = get_row key k rows"
  by (induction rows) (auto simp: get_row_def)

lemma keys_put_row [simp]: "map key (put_row key r rows) = map key rows"
  by (induction rows) (auto simp: put_row_def)

lemma keys_put_row_set [simp]: "key ` set (put_row key r rows) = key ` set rows"
  by (metis keys_put_row list.set_map)

lemma get_row_put_row [table_simps]:
  "get_row key k (put_row key r rows) =
     (if k = key r \<and> k \<in> key ` set rows then Some r else get_row key k rows)"
  by (induction rows) (auto simp: get_row_def put_row_def)

lemma in_put_rowD: "x \<in> set (put_row key r rows) \<Longrightarrow> x = r \<or> (x \<in> set rows \<and> key x \<noteq> key r)"
  by (auto simp: put_row_def split: if_splits)

lemma in_put_row_iff:
  "x \<in> set (put_row key r rows) \<longleftrightarrow>
     (x = r \<and> key r \<in> key ` set rows) \<or> (x \<in> set rows \<and> key x \<noteq> key r)"
  by (induction rows) (auto simp: put_row_def)

lemma put_row_self [simp]:
  "distinct (map key rows) \<Longrightarrow> r \<in> set rows \<Longrightarrow> put_row key r rows = rows"
  unfolding put_row_def by (rule map_idI) (metis get_row_distinct option.inject)

lemma set_drop_rows [simp]: "set (drop_rows p rows) = {r \<in> set rows. \<not> p r}"
  by (auto simp: drop_rows_def)

lemma distinct_drop_rows [simp]: "distinct (map key rows) \<Longrightarrow> distinct (map key (drop_rows p rows))"
  by (simp add: drop_rows_def distinct_map_filter)

lemma put_row_filter_other:
  "(\<And>x. key x = key r \<Longrightarrow> p x = p r) \<Longrightarrow> \<not> p r \<Longrightarrow> filter p (put_row key r rows) = filter p rows"
  by (induction rows) (auto simp: put_row_def)

section \<open>Categories and rules\<close>

definition insert_category :: "category \<Rightarrow> db \<Rightarrow> db res" where
  "insert_category c db =
     bindR (require InvalidOperation (money_units (cat_budget_limit c))) (\<lambda>units.
     bindR (guard
       [(\<not> has_key cat_id (cat_id c) (categories db), PrimaryKey ''categories''),
        (\<not> has_key cat_key (cat_key c) (categories db), UniqueKey ''categories.key''),
        (0 \<le> units, CheckFailed ''budget_limit_nonnegative''),
        (0 \<le> cat_sort_order c, CheckFailed ''sort_order_nonnegative'')]) (\<lambda>_.
     Inr (db\<lparr>categories := categories db @ [c]\<rparr>)))"

definition update_category :: "category \<Rightarrow> db \<Rightarrow> db res" where
  "update_category c db =
     bindR (require InvalidOperation (money_units (cat_budget_limit c))) (\<lambda>units.
     bindR (guard
       [(\<not> list_ex (\<lambda>x. cat_key x = cat_key c \<and> cat_id x \<noteq> cat_id c) (categories db),
           UniqueKey ''categories.key''),
        (0 \<le> units, CheckFailed ''budget_limit_nonnegative''),
        (0 \<le> cat_sort_order c, CheckFailed ''sort_order_nonnegative'')]) (\<lambda>_.
     Inr (db\<lparr>categories := put_row cat_id c (categories db)\<rparr>)))"

text \<open>
  Rows loaded by a later session have the money value the column gives back. A value that was
  flushed is quantized, so loading it cannot fail; \<open>None\<close> keeps the attribute.
\<close>

definition reload_limit :: "dialect \<Rightarrow> decimal \<Rightarrow> decimal" where
  "reload_limit dia v =
     (case process_bind_param dia v of None \<Rightarrow> v
      | Some c \<Rightarrow> (case process_result_value dia (stored_cell c) of None \<Rightarrow> v | Some v' \<Rightarrow> v'))"

definition reload_categories :: "dialect \<Rightarrow> db \<Rightarrow> db" where
  "reload_categories dia db = db\<lparr>categories :=
     map (\<lambda>c. c\<lparr>cat_budget_limit := reload_limit dia (cat_budget_limit c)\<rparr>) (categories db)\<rparr>"

definition insert_rule_version :: "rule_version \<Rightarrow> db \<Rightarrow> db res" where
  "insert_rule_version r db =
     bindR (guard
       [(\<not> has_key rv_id (rv_id r) (rule_versions db), PrimaryKey ''rule_versions''),
        (\<not> has_key (\<lambda>x. (rv_category_id x, rv_version x)) (rv_category_id r, rv_version r)
             (rule_versions db), UniqueKey ''uq_rule_versions_category_version''),
        (\<not> has_key (\<lambda>x. (rv_category_id x, rv_rule_hash x)) (rv_category_id r, rv_rule_hash r)
             (rule_versions db), UniqueKey ''uq_rule_versions_category_hash''),
        (has_key cat_id (rv_category_id r) (categories db), ForeignKey ''rule_versions''),
        (0 < rv_version r, CheckFailed ''version_positive''),
        (0 < rv_lookback_days r \<and> rv_lookback_days r \<le> 3660, CheckFailed ''lookback_days_range''),
        (length (rv_rule_hash r) = 64, CheckFailed ''rule_hash_sha256'')]) (\<lambda>_.
     Inr (db\<lparr>rule_versions := rule_versions db @ [r]\<rparr>))"

section \<open>Configuration versions\<close>

definition config_checks :: "config_version \<Rightarrow> (bool \<times> constraint) list" where
  "config_checks c =
     [(0 < cv_version c, CheckFailed ''version_positive''),
      (0 < cv_aggregation_version c, CheckFailed ''aggregation_version_positive''),
      (length (cv_config_hash c) = 64, CheckFailed ''config_hash_sha256''),
      (cv_status c \<noteq> ACTIVE \<or> cv_activated_at c \<noteq> None, CheckFailed ''active_has_timestamp''),
      (cv_status c \<noteq> SUPERSEDED \<or> cv_superseded_at c \<noteq> None,
         CheckFailed ''superseded_has_timestamp'')]"

definition one_active :: "config_version \<Rightarrow> config_version list \<Rightarrow> bool" where
  "one_active c rows \<longleftrightarrow>
     cv_status c = ACTIVE \<longrightarrow> \<not> list_ex (\<lambda>x. cv_status x = ACTIVE \<and> cv_id x \<noteq> cv_id c) rows"

definition insert_config_version :: "config_version \<Rightarrow> db \<Rightarrow> db res" where
  "insert_config_version c db =
     bindR (guard
       ([(\<not> has_key cv_id (cv_id c) (config_versions db), PrimaryKey ''config_versions''),
         (\<not> has_key cv_version (cv_version c) (config_versions db),
            UniqueKey ''config_versions.version''),
         (one_active c (config_versions db), UniqueKey ''uq_config_versions_one_active'')]
        @ config_checks c)) (\<lambda>_.
     Inr (db\<lparr>config_versions := config_versions db @ [c]\<rparr>))"

text \<open>
  An UPDATE of the mapped object: \<open>old\<close> is the row as loaded. The activation trigger is
  deferred to COMMIT on PostgreSQL; the run it asks for is terminal once committed, so a
  check that passes at the statement passes at COMMIT.
\<close>

definition update_config_version :: "dialect \<Rightarrow> config_version \<Rightarrow> config_version \<Rightarrow> db \<Rightarrow> db res" where
  "update_config_version dia old new db =
     bindR (guard
       ([(config_guard dia old new, TriggerAbort ''config_versions''),
         (one_active new (config_versions db), UniqueKey ''uq_config_versions_one_active'')]
        @ config_checks new
        @ [(activation_guard (refresh_runs db) old new,
              TriggerAbort ''trg_config_activation_requires_rebuild'')])) (\<lambda>_.
     Inr (db\<lparr>config_versions := put_row cv_id new (config_versions db)\<rparr>))"

definition insert_config_version_rule :: "config_version_rule \<Rightarrow> db \<Rightarrow> db res" where
  "insert_config_version_rule l db =
     bindR (guard
       [(\<not> has_key cvr_key (cvr_key l) (config_version_rules db), PrimaryKey ''config_version_rules''),
        (has_key cv_id (cvr_config_version_id l) (config_versions db),
           ForeignKey ''config_version_rules''),
        (has_key (\<lambda>r. (rv_id r, rv_category_id r)) (cvr_rule_version_id l, cvr_category_id l)
             (rule_versions db), ForeignKey ''fk_config_version_rules_rule_category'')]) (\<lambda>_.
     Inr (db\<lparr>config_version_rules := config_version_rules db @ [l]\<rparr>))"

section \<open>Refresh runs and batches\<close>

definition run_checks :: "refresh_run \<Rightarrow> (bool \<times> constraint) list" where
  "run_checks r =
     [((case (run_source_from_date r, run_source_to_date r) of
          (Some f, Some t) \<Rightarrow> f \<le> t | _ \<Rightarrow> True), CheckFailed ''source_date_range''),
      (opt_ok (\<lambda>n. 0 \<le> n) (run_expected_batch_count r),
         CheckFailed ''expected_batch_count_nonnegative''),
      (0 \<le> run_received_batch_count r, CheckFailed ''received_batch_count_nonnegative''),
      (0 \<le> run_actual_item_count r, CheckFailed ''actual_item_count_nonnegative''),
      (opt_ok (\<lambda>n. 0 \<le> n) (run_sync_revision_before r),
         CheckFailed ''sync_revision_before_nonnegative''),
      (length (run_request_hash r) = 64, CheckFailed ''request_hash_sha256''),
      (opt_ok (\<lambda>h. length h = 64) (run_computed_checksum r),
         CheckFailed ''computed_checksum_sha256''),
      (run_state r \<noteq> FAILED \<or> run_failed_at r \<noteq> None, CheckFailed ''failed_has_timestamp''),
      (run_state r \<noteq> COMMITTED \<or>
         (run_expected_batch_count r \<noteq> None \<and> run_computed_checksum r \<noteq> None \<and>
          run_expected_batch_count r = Some (run_received_batch_count r) \<and>
          run_completed_accounts r \<noteq> None \<and>
          (run_expected_batch_count r = Some 0 \<or> run_uploaded_at r \<noteq> None) \<and>
          run_validated_at r \<noteq> None \<and> run_committed_at r \<noteq> None),
         CheckFailed ''committed_refresh_complete'')]"

definition insert_refresh_run :: "refresh_run \<Rightarrow> db \<Rightarrow> db res" where
  "insert_refresh_run r db =
     bindR (guard
       ([(incremental_guard (config_versions db) r, TriggerAbort ''trg_refresh_runs_active_incremental''),
         (\<not> has_key run_id (run_id r) (refresh_runs db), PrimaryKey ''refresh_runs''),
         (\<not> has_key run_idempotency_key (run_idempotency_key r) (refresh_runs db),
            UniqueKey ''refresh_runs.idempotency_key''),
         (has_key cv_id (run_config_version_id r) (config_versions db), ForeignKey ''refresh_runs'')]
        @ run_checks r)) (\<lambda>_.
     Inr (db\<lparr>refresh_runs := refresh_runs db @ [r]\<rparr>))"

definition update_refresh_run :: "dialect \<Rightarrow> refresh_run \<Rightarrow> refresh_run \<Rightarrow> db \<Rightarrow> db res" where
  "update_refresh_run dia old new db =
     bindR (guard ((run_guard dia old new, TriggerAbort ''refresh_runs'') # run_checks new)) (\<lambda>_.
     Inr (db\<lparr>refresh_runs := put_row run_id new (refresh_runs db)\<rparr>))"

definition insert_refresh_batch :: "refresh_batch \<Rightarrow> db \<Rightarrow> db res" where
  "insert_refresh_batch b db =
     bindR (guard
       [(batch_open_guard (refresh_runs db) b, TriggerAbort ''trg_refresh_batches_open_run''),
        (\<not> has_key rb_key (rb_key b) (refresh_batches db), PrimaryKey ''refresh_batches''),
        (\<not> has_key (\<lambda>x. (rb_run_id x, rb_idempotency_key x)) (rb_run_id b, rb_idempotency_key b)
             (refresh_batches db), UniqueKey ''uq_refresh_batches_run_idempotency''),
        (has_key run_id (rb_run_id b) (refresh_runs db), ForeignKey ''refresh_batches''),
        (0 \<le> rb_batch_index b, CheckFailed ''batch_index_nonnegative''),
        (0 \<le> rb_item_count b, CheckFailed ''item_count_nonnegative''),
        (length (rb_request_hash b) = 64, CheckFailed ''request_hash_sha256''),
        (length (rb_checksum b) = 64, CheckFailed ''checksum_sha256'')]) (\<lambda>_.
     Inr (db\<lparr>refresh_batches := refresh_batches db @ [b]\<rparr>))"

section \<open>Staged transactions\<close>

definition refund_consistent :: "bool \<Rightarrow> int \<Rightarrow> int \<Rightarrow> bool" where
  "refund_consistent refunded refund_amount amount \<longleftrightarrow>
     (\<not> refunded \<and> refund_amount = 0) \<or>
     (refunded \<and> refund_amount > 0 \<and> refund_amount \<le> amount)"

definition insert_staged_transaction :: "staged_transaction \<Rightarrow> db \<Rightarrow> db res" where
  "insert_staged_transaction s db =
     bindR (guard
       [(\<not> has_key st_key (st_key s) (staged_transactions db), PrimaryKey ''staged_transactions''),
        (has_key (\<lambda>r. (run_id r, run_config_version_id r)) (st_run_id s, st_config_version_id s)
             (refresh_runs db), ForeignKey ''fk_staged_transactions_run_config''),
        (has_key rb_key (st_run_id s, st_batch_index s) (refresh_batches db),
           ForeignKey ''fk_staged_transactions_batch''),
        (0 \<le> st_batch_index s, CheckFailed ''batch_index_nonnegative''),
        (0 \<le> st_amount s, CheckFailed ''amount_nonnegative''),
        (0 \<le> st_refund_amount s, CheckFailed ''refund_amount_nonnegative''),
        (refund_consistent (st_refunded s) (st_refund_amount s) (st_amount s),
           CheckFailed ''refund_consistent''),
        (length (st_source_hash s) = 64, CheckFailed ''source_hash_sha256'')]) (\<lambda>_.
     Inr (db\<lparr>staged_transactions := staged_transactions db @ [s]\<rparr>))"

definition insert_staged_category :: "staged_transaction_category \<Rightarrow> db \<Rightarrow> db res" where
  "insert_staged_category c db =
     bindR (guard
       [(\<not> has_key sc_key (sc_key c) (staged_transaction_categories db),
           PrimaryKey ''staged_transaction_categories''),
        (has_key (\<lambda>s. (st_key s, st_config_version_id s))
             ((sc_run_id c, sc_account_id c, sc_source_id c), sc_config_version_id c)
             (staged_transactions db), ForeignKey ''fk_staged_transaction_categories_transaction''),
        (has_key cvr_mapping (sc_config_version_id c, sc_category_id c, sc_rule_version_id c)
             (config_version_rules db), ForeignKey ''fk_staged_transaction_categories_config_rule'')]) (\<lambda>_.
     Inr (db\<lparr>staged_transaction_categories := staged_transaction_categories db @ [c]\<rparr>))"

text \<open>Deleting a run's staged rows cascades to their categories.\<close>

definition delete_staged :: "uuid \<Rightarrow> db \<Rightarrow> db" where
  "delete_staged rid db = db\<lparr>
     staged_transactions := drop_rows (\<lambda>s. st_run_id s = rid) (staged_transactions db),
     staged_transaction_categories :=
       drop_rows (\<lambda>c. sc_run_id c = rid) (staged_transaction_categories db)\<rparr>"

section \<open>Live transactions\<close>

definition insert_transaction :: "transaction \<Rightarrow> db \<Rightarrow> db res" where
  "insert_transaction t db =
     bindR (guard
       [(\<not> has_key tx_key (tx_key t) (transactions db), PrimaryKey ''transactions''),
        (has_key run_id (tx_first_refresh_run_id t) (refresh_runs db),
           ForeignKey ''fk_transactions_first_run''),
        (has_key (\<lambda>r. (run_id r, run_config_version_id r))
             (tx_last_refresh_run_id t, tx_config_version_id t) (refresh_runs db),
           ForeignKey ''fk_transactions_last_run_config''),
        (0 \<le> tx_amount t, CheckFailed ''amount_nonnegative''),
        (0 \<le> tx_refund_amount t, CheckFailed ''refund_amount_nonnegative''),
        (refund_consistent (tx_refunded t) (tx_refund_amount t) (tx_amount t),
           CheckFailed ''refund_consistent''),
        (length (tx_source_hash t) = 64, CheckFailed ''source_hash_sha256'')]) (\<lambda>_.
     Inr (db\<lparr>transactions := transactions db @ [t]\<rparr>))"

definition insert_transaction_category :: "transaction_category \<Rightarrow> db \<Rightarrow> db res" where
  "insert_transaction_category c db =
     bindR (guard
       [(\<not> has_key tc_key (tc_key c) (transaction_categories db), PrimaryKey ''transaction_categories''),
        (has_key (\<lambda>t. (tx_key t, tx_config_version_id t)) (tc_tx_key c, tc_config_version_id c)
             (transactions db), ForeignKey ''fk_transaction_categories_transaction''),
        (has_key cvr_mapping (tc_config_version_id c, tc_category_id c, tc_rule_version_id c)
             (config_version_rules db), ForeignKey ''fk_transaction_categories_config_rule'')]) (\<lambda>_.
     Inr (db\<lparr>transaction_categories := transaction_categories db @ [c]\<rparr>))"

definition delete_transaction_categories :: "(transaction_category \<Rightarrow> bool) \<Rightarrow> db \<Rightarrow> db" where
  "delete_transaction_categories p db =
     db\<lparr>transaction_categories := drop_rows p (transaction_categories db)\<rparr>"

text \<open>Deleting transactions cascades to their category links.\<close>

definition delete_transactions :: "(transaction \<Rightarrow> bool) \<Rightarrow> db \<Rightarrow> db" where
  "delete_transactions p db =
     (let gone = map tx_key (filter p (transactions db)) in
      db\<lparr>transactions := drop_rows p (transactions db),
         transaction_categories :=
           drop_rows (\<lambda>c. tc_tx_key c \<in> set gone) (transaction_categories db)\<rparr>)"

section \<open>Sync state\<close>

definition sync_checks :: "sync_state \<Rightarrow> db \<Rightarrow> (bool \<times> constraint) list" where
  "sync_checks s db =
     [(sync_guard (refresh_runs db) s, TriggerAbort ''sync_states''),
      (\<not> list_ex (\<lambda>x. ss_last_refresh_run_id x = ss_last_refresh_run_id s \<and> ss_id x \<noteq> ss_id s)
           (sync_states db), UniqueKey ''sync_states.last_refresh_run_id''),
      (has_key (\<lambda>r. (run_id r, run_config_version_id r))
           (ss_last_refresh_run_id s, ss_config_version_id s) (refresh_runs db),
         ForeignKey ''fk_sync_states_last_run_config''),
      (ss_id s = 1, CheckFailed ''singleton''),
      (0 \<le> ss_revision s, CheckFailed ''revision_nonnegative'')]"

definition insert_sync_state :: "sync_state \<Rightarrow> db \<Rightarrow> db res" where
  "insert_sync_state s db =
     bindR (guard ((\<not> has_key ss_id (ss_id s) (sync_states db), PrimaryKey ''sync_states'')
                   # sync_checks s db)) (\<lambda>_.
     Inr (db\<lparr>sync_states := sync_states db @ [s]\<rparr>))"

definition update_sync_state :: "sync_state \<Rightarrow> db \<Rightarrow> db res" where
  "update_sync_state s db =
     bindR (guard (sync_checks s db)) (\<lambda>_.
     Inr (db\<lparr>sync_states := put_row ss_id s (sync_states db)\<rparr>))"

end
