(* ===== verification/ConfigService.thy ===== *)
theory ConfigService
  imports Tables
begin

text \<open>
  \<open>services/config_service.py\<close>: hashing of a configuration's rules and of its editable
  snapshot, the compare-and-set PUT with its three outcomes (edit the active version in place,
  keep an identical pending version, create a new version) and the views. The locks
  (\<open>lock_config_state\<close>, \<open>begin_write_transaction\<close>, FOR UPDATE) are in \<open>Session\<close>: one request
  here runs alone. A request that raises leaves the database as it was; what it answers is
  \<open>Inl\<close>.
\<close>

section \<open>The errors it raises\<close>

definition InvalidTimezone :: err where
  "InvalidTimezone = Domain (DomainError ''Unknown IANA timezone'' ''invalid_timezone'')"

definition ConfigCategoryMissing :: err where
  "ConfigCategoryMissing = Domain (DomainError ''Configuration references a missing category''
     ''config_category_missing'')"

definition MixedBudgetCurrency :: err where
  "MixedBudgetCurrency = Domain (DomainError
     ''Each category budget_currency must match display_currency in v1''
     ''mixed_budget_currency_not_supported'')"

definition NoConfigUseNullHash :: err where
  "NoConfigUseNullHash = Domain (ConflictError
     ''No configuration exists; fetch it and retry with a null base hash''
     ''config_version_conflict'')"

definition ConfigHashRequired :: err where
  "ConfigHashRequired = Domain (ConflictError
     ''A current configuration hash is required; fetch it and retry''
     ''config_version_required'')"

definition ConfigBaseChanged :: err where
  "ConfigBaseChanged = Domain (ConflictError
     ''The configuration being edited changed; fetch it and retry''
     ''config_version_conflict'')"

definition NoConfigForIfMatch :: err where
  "NoConfigForIfMatch = Domain (ConflictError
     ''No configuration exists; retry without If-Match'' ''config_version_conflict'')"

section \<open>Hashes\<close>

text \<open>
  Only \<open>ZoneInfoNotFoundError\<close> is caught. For a malformed key, which is absolute or not
  normalised, \<open>ZoneInfo\<close> raises ValueError, which the service does not answer.
\<close>

definition validate_timezone :: "env \<Rightarrow> string \<Rightarrow> unit res" where
  "validate_timezone en name = raise_if (\<not> env_zone_known en name)
     (if env_zone_malformed en name then ValueError else InvalidTimezone)"

definition rule_json :: "string \<Rightarrow> int \<Rightarrow> string \<Rightarrow> bool \<Rightarrow> json" where
  "rule_json key lookback_days instruction enabled = JObj
     [(''category_key'', JStr key),
      (''lookback_days'', JInt lookback_days),
      (''classification_instruction'', JStr instruction),
      (''enabled'', JBool enabled)]"

definition rule_hash :: "env \<Rightarrow> category_input \<Rightarrow> string" where
  "rule_hash en c = sha256_hex (env_sha256 en)
     (rule_json (ci_key c) (ci_lookback_days c) (ci_classification_instruction c) (ci_enabled c))"

definition semantics_json :: "string \<Rightarrow> string \<Rightarrow> int \<Rightarrow> (string \<times> string) list \<Rightarrow> json" where
  "semantics_json timezone currency aggregation rules = JObj
     [(''timezone'', JStr timezone),
      (''display_currency'', JStr currency),
      (''aggregation_version'', JInt aggregation),
      (''rules'', JArr (map (\<lambda>(key, h). JObj
         [(''category_key'', JStr key), (''rule_hash'', JStr h)]) rules))]"

definition config_hash :: "env \<Rightarrow> config_request \<Rightarrow> (string \<times> string) list \<Rightarrow> string" where
  "config_hash en request rule_hashes = sha256_hex (env_sha256 en)
     (semantics_json (cr_timezone request) (cr_display_currency request)
        (cr_aggregation_version request)
        (map (\<lambda>key. (key, the (map_of rule_hashes key))) (sort (map fst rule_hashes))))"

text \<open>The join of a version's links with their rules and categories, in display order.\<close>

definition rules_for_config ::
    "db \<Rightarrow> uuid \<Rightarrow> (config_version_rule \<times> rule_version \<times> category) list" where
  "rules_for_config db config_id =
     sort_key (\<lambda>(l, r, c). (cat_sort_order c, cat_key c))
       [(l, r, c).
          l \<leftarrow> config_version_rules db, cvr_config_version_id l = config_id,
          r \<leftarrow> rule_versions db, rv_id r = cvr_rule_version_id l,
          c \<leftarrow> categories db, cat_id c = cvr_category_id l]"

definition semantic_hash_for_config :: "env \<Rightarrow> db \<Rightarrow> config_version \<Rightarrow> string" where
  "semantic_hash_for_config en db config = sha256_hex (env_sha256 en)
     (semantics_json (cv_timezone config) (cv_display_currency config)
        (cv_aggregation_version config)
        (map (\<lambda>(l, r, c). (cat_key c, rv_rule_hash r))
           (sort_key (\<lambda>(l, r, c). cat_key c) (rules_for_config db (cv_id config)))))"

definition normalized_edit_payload :: "config_request \<Rightarrow> json res" where
  "normalized_edit_payload request =
     bindR (map_each (\<lambda>c. bindR (require InvalidOperation (money_text (ci_budget_limit c)))
                (\<lambda>limit. Inr (ci_key c, category_json_with (JStr limit) c))) (cr_categories request))
       (\<lambda>items. Inr (JObj
          [(''timezone'', JStr (cr_timezone request)),
           (''display_currency'', JStr (cr_display_currency request)),
           (''aggregation_version'', JInt (cr_aggregation_version request)),
           (''categories'', JArr (map snd (sort_key fst items)))]))"

definition snapshot_item :: "rule_version \<Rightarrow> category \<Rightarrow> category_input" where
  "snapshot_item rule category =
     \<lparr>ci_key = cat_key category,
      ci_name = cat_name category,
      ci_icon = cat_icon category,
      ci_sort_order = cat_sort_order category,
      ci_budget_limit = cat_budget_limit category,
      ci_budget_currency = cat_budget_currency category,
      ci_lookback_days = rv_lookback_days rule,
      ci_classification_instruction = rv_classification_instruction rule,
      ci_enabled = rv_is_enabled rule\<rparr>"

definition active_snapshot :: "db \<Rightarrow> config_version \<Rightarrow> config_request res" where
  "active_snapshot db config =
     bindR (map_each (\<lambda>(l, rule, category). CategoryConfigInput (snapshot_item rule category))
              (rules_for_config db (cv_id config)))
       (\<lambda>cats. ConfigPutRequest
          \<lparr>cr_timezone = cv_timezone config,
           cr_display_currency = cv_display_currency config,
           cr_aggregation_version = cv_aggregation_version config,
           cr_categories = cats\<rparr>)"

definition editable_snapshot_for_config :: "db \<Rightarrow> config_version \<Rightarrow> config_request res" where
  "editable_snapshot_for_config db config =
     (if cv_status config = PENDING then ConfigPutRequest (cv_source_config config)
      else active_snapshot db config)"

definition edit_hash_for_request :: "env \<Rightarrow> config_request \<Rightarrow> string res" where
  "edit_hash_for_request en request =
     bindR (normalized_edit_payload request) (\<lambda>payload. Inr (sha256_hex (env_sha256 en) payload))"

definition edit_hash_for_config :: "env \<Rightarrow> db \<Rightarrow> config_version \<Rightarrow> string res" where
  "edit_hash_for_config en db config =
     bindR (editable_snapshot_for_config db config) (edit_hash_for_request en)"

section \<open>Current versions\<close>

definition first_of :: "'a list \<Rightarrow> 'a option" where
  "first_of xs = (case xs of [] \<Rightarrow> None | x # _ \<Rightarrow> Some x)"

definition active_version :: "db \<Rightarrow> config_version option" where
  "active_version db = first_of (filter (\<lambda>c. cv_status c = ACTIVE) (config_versions db))"

definition pending_version :: "db \<Rightarrow> config_version option" where
  "pending_version db = first_of (sort_key (\<lambda>c. - cv_version c)
     (filter (\<lambda>c. cv_status c = PENDING) (config_versions db)))"

definition get_versions :: "db \<Rightarrow> config_version option \<times> config_version option" where
  "get_versions db = (active_version db, pending_version db)"

section \<open>Presentation\<close>

definition present :: "category_input \<Rightarrow> category \<Rightarrow> category" where
  "present item category = category\<lparr>
     cat_name := ci_name item,
     cat_icon := ci_icon item,
     cat_sort_order := ci_sort_order item,
     cat_budget_limit := ci_budget_limit item,
     cat_budget_currency := ci_budget_currency item\<rparr>"

definition apply_config_presentation :: "config_version \<Rightarrow> db \<Rightarrow> db res" where
  "apply_config_presentation config db =
     bindR (editable_snapshot_for_config db config) (\<lambda>snapshot.
     let keys = map ci_key (cr_categories snapshot);
         loaded = map (\<lambda>c. (cat_key c, c)) (filter (\<lambda>c. cat_key c \<in> set keys) (categories db))
     in for_each (\<lambda>db item.
          bindR (require ConfigCategoryMissing (map_of loaded (ci_key item)))
            (\<lambda>category. update_category (present item category) db))
        db (cr_categories snapshot))"

section \<open>Views\<close>

record category_view =
  cw_id :: string
  cw_item :: category_input
  cw_rule_version :: int
  cw_rule_hash :: string

record config_version_view =
  vv_id :: string
  vv_version :: int
  vv_status :: config_status
  vv_timezone :: string
  vv_display_currency :: string
  vv_aggregation_version :: int
  vv_config_hash :: string
  vv_requires_full_rebuild :: bool
  vv_created_at :: timestamp
  vv_activated_at :: "timestamp option"
  vv_categories :: "category_view list"

record config_view =
  view_active :: "config_version_view option"
  view_pending :: "config_version_view option"

definition get_sync_state :: "db \<Rightarrow> sync_state option" where
  "get_sync_state db = get_row ss_id 1 (sync_states db)"

definition requires_full_rebuild :: "db \<Rightarrow> config_version \<Rightarrow> bool" where
  "requires_full_rebuild db config \<longleftrightarrow>
     cv_status config = PENDING \<or>
     (cv_status config = ACTIVE \<and>
        (case get_sync_state db of None \<Rightarrow> True
         | Some s \<Rightarrow> ss_config_version_id s \<noteq> cv_id config))"

definition version_view :: "env \<Rightarrow> db \<Rightarrow> config_version \<Rightarrow> config_version_view res" where
  "version_view en db config =
     bindR (editable_snapshot_for_config db config) (\<lambda>snapshot.
     let rows_by_key = dict_of (map (\<lambda>(l, rule, category). (cat_key category, (rule, category)))
                                  (rules_for_config db (cv_id config)))
     in bindR (map_each (\<lambda>item.
              bindR (require KeyError (map_of rows_by_key (ci_key item))) (\<lambda>(rule, category).
              bindR (CategoryConfigInput item) (\<lambda>item.
              Inr \<lparr>cw_id = uuid_str (cat_id category), cw_item = item,
                   cw_rule_version = rv_version rule, cw_rule_hash = rv_rule_hash rule\<rparr>)))
            (sort_key (\<lambda>c. (ci_sort_order c, ci_key c)) (cr_categories snapshot))) (\<lambda>cats.
        bindR (edit_hash_for_config en db config) (\<lambda>hash.
        Inr \<lparr>vv_id = uuid_str (cv_id config),
             vv_version = cv_version config,
             vv_status = cv_status config,
             vv_timezone = cr_timezone snapshot,
             vv_display_currency = cr_display_currency snapshot,
             vv_aggregation_version = cr_aggregation_version snapshot,
             vv_config_hash = hash,
             vv_requires_full_rebuild = requires_full_rebuild db config,
             vv_created_at = cv_created_at config,
             vv_activated_at = cv_activated_at config,
             vv_categories = cats\<rparr>)))"

definition optional_view ::
    "env \<Rightarrow> db \<Rightarrow> config_version option \<Rightarrow> config_version_view option res" where
  "optional_view en db config = (case config of None \<Rightarrow> Inr None
     | Some c \<Rightarrow> bindR (version_view en db c) (\<lambda>v. Inr (Some v)))"

definition get_config :: "env \<Rightarrow> db \<Rightarrow> config_view res" where
  "get_config en db =
     (case get_versions db of (active, pending) \<Rightarrow>
        bindR (optional_view en db active) (\<lambda>a.
        bindR (optional_view en db pending) (\<lambda>p.
        Inr \<lparr>view_active = a, view_pending = p\<rparr>)))"

definition get_config_by_id :: "db \<Rightarrow> uuid \<Rightarrow> config_version option" where
  "get_config_by_id db config_id = get_row cv_id config_id (config_versions db)"

definition commit_config_view :: "env \<Rightarrow> db \<Rightarrow> (config_view \<times> db) res" where
  "commit_config_view en db =
     bindR (get_config en db) (\<lambda>view. Inr (view, reload_categories (env_dialect en) db))"

section \<open>PUT\<close>

definition strip_quotes :: "string \<Rightarrow> string" where
  "strip_quotes = strip_chars (\<lambda>c. c = CHR 0x22)"

text \<open>The compare-and-set of the version being edited, for both callers.\<close>

definition check_base ::
    "env \<Rightarrow> db \<Rightarrow> string option \<Rightarrow> bool \<Rightarrow> string option \<Rightarrow> config_version option \<Rightarrow> unit res" where
  "check_base en db if_match check_expected_base expected_base_hash base =
     bindR
       (if check_expected_base then
          (case base of
             None \<Rightarrow> raise_if (expected_base_hash \<noteq> None) NoConfigUseNullHash
           | Some b \<Rightarrow>
               (case expected_base_hash of
                  None \<Rightarrow> Inl ConfigHashRequired
                | Some h \<Rightarrow> bindR (edit_hash_for_config en db b) (\<lambda>current.
                    raise_if (strip_quotes h \<noteq> current) ConfigBaseChanged)))
        else Inr ()) (\<lambda>_.
      if check_expected_base then Inr ()
      else
        (case base of
           None \<Rightarrow> raise_if (if_match \<noteq> None) NoConfigForIfMatch
         | Some b \<Rightarrow>
             (case if_match of
                None \<Rightarrow> Inl ConfigHashRequired
              | Some h \<Rightarrow> bindR (edit_hash_for_config en db b) (\<lambda>current.
                  raise_if (strip_quotes h \<noteq> current) ConfigBaseChanged))))"

text \<open>\<open>current_pending or active\<close>.\<close>

definition or_else :: "'a option \<Rightarrow> 'a option \<Rightarrow> 'a option" where
  "or_else a b = (case a of None \<Rightarrow> b | Some x \<Rightarrow> Some x)"

definition supersede :: "env \<Rightarrow> config_version \<Rightarrow> config_version" where
  "supersede en c = c\<lparr>cv_status := SUPERSEDED, cv_superseded_at := Some (env_now en)\<rparr>"

definition supersede_pending :: "env \<Rightarrow> config_version option \<Rightarrow> db \<Rightarrow> db res" where
  "supersede_pending en pending db = (case pending of None \<Rightarrow> Inr db
     | Some p \<Rightarrow> update_config_version (env_dialect en) p (supersede en p) db)"

text \<open>The requested rules are the active ones: only budgets and presentation change.\<close>

definition edit_active :: "env \<Rightarrow> config_request \<Rightarrow> config_version \<Rightarrow> config_version option \<Rightarrow> db \<Rightarrow> db res" where
  "edit_active en request active current_pending db =
     bindR (supersede_pending en current_pending db) (\<lambda>db.
     let active_by_key = dict_of (map (\<lambda>(l, r, c). (cat_key c, c)) (rules_for_config db (cv_id active)))
     in for_each (\<lambda>db item.
          bindR (require KeyError (map_of active_by_key (ci_key item)))
            (\<lambda>live. update_category (present item live) db))
        db (cr_categories request))"

definition next_number :: "int list \<Rightarrow> int" where
  "next_number xs = foldr max xs 0 + 1"

definition new_category :: "env \<Rightarrow> category_input \<Rightarrow> category" where
  "new_category en item =
     \<lparr>cat_id = env_uuid en (NewCategory (ci_key item)),
      cat_key = ci_key item,
      cat_name = ci_name item,
      cat_icon = ci_icon item,
      cat_sort_order = ci_sort_order item,
      cat_budget_limit = ci_budget_limit item,
      cat_budget_currency = ci_budget_currency item\<rparr>"

definition new_rule :: "env \<Rightarrow> category_input \<Rightarrow> string \<Rightarrow> uuid \<Rightarrow> db \<Rightarrow> rule_version" where
  "new_rule en item hash category_id db =
     \<lparr>rv_id = env_uuid en (NewRule (ci_key item)),
      rv_category_id = category_id,
      rv_version = next_number (map rv_version
                     (filter (\<lambda>r. rv_category_id r = category_id) (rule_versions db))),
      rv_lookback_days = ci_lookback_days item,
      rv_classification_instruction = ci_classification_instruction item,
      rv_is_enabled = ci_enabled item,
      rv_rule_hash = hash\<rparr>"

type_synonym selection = "db \<times> (string \<times> category) list \<times> (string \<times> rule_version) list"

text \<open>One iteration of the loop: find or create the category, then its rule.\<close>

definition pick_category ::
    "env \<Rightarrow> category_input \<Rightarrow> db \<Rightarrow> (string \<times> category) list \<Rightarrow>
     (db \<times> (string \<times> category) list \<times> category) res" where
  "pick_category en item db existing =
     (case map_of existing (ci_key item) of
        Some category \<Rightarrow> Inr (db, existing, category)
      | None \<Rightarrow>
          let category = new_category en item in
          bindR (insert_category category db) (\<lambda>db.
            Inr (db, dict_set (ci_key item) category existing, category)))"

definition pick_rule ::
    "env \<Rightarrow> category_input \<Rightarrow> string \<Rightarrow> category \<Rightarrow> db \<Rightarrow> (db \<times> rule_version) res" where
  "pick_rule en item hash category db =
     (case find (\<lambda>r. rv_category_id r = cat_id category \<and> rv_rule_hash r = hash)
             (rule_versions db) of
        Some rule \<Rightarrow> Inr (db, rule)
      | None \<Rightarrow>
          let rule = new_rule en item hash (cat_id category) db in
          bindR (insert_rule_version rule db) (\<lambda>db. Inr (db, rule)))"

definition select_rule :: "env \<Rightarrow> (string \<times> string) list \<Rightarrow> selection \<Rightarrow> category_input \<Rightarrow> selection res" where
  "select_rule en rule_hashes sel item =
     (case sel of (db, existing, selected) \<Rightarrow>
      bindR (pick_category en item db existing) (\<lambda>(db, existing, category).
      bindR (pick_rule en item (the (map_of rule_hashes (ci_key item))) category db) (\<lambda>(db, rule).
      Inr (db, existing, dict_set (ci_key item) rule selected))))"

definition new_config :: "env \<Rightarrow> config_request \<Rightarrow> string \<Rightarrow> bool \<Rightarrow> db \<Rightarrow> config_version" where
  "new_config en request desired_hash is_first db =
     \<lparr>cv_id = env_uuid en NewConfig,
      cv_version = next_number (map cv_version (config_versions db)),
      cv_status = (if is_first then ACTIVE else PENDING),
      cv_timezone = cr_timezone request,
      cv_display_currency = cr_display_currency request,
      cv_aggregation_version = cr_aggregation_version request,
      cv_config_hash = desired_hash,
      cv_source_config = request,
      cv_created_at = server_now en,
      cv_activated_at = (if is_first then Some (env_now en) else None),
      cv_superseded_at = None\<rparr>"

definition link_rule ::
    "uuid \<Rightarrow> (string \<times> category) list \<Rightarrow> db \<Rightarrow> string \<times> rule_version \<Rightarrow> db res" where
  "link_rule config_id existing db selected = (case selected of (key, rule) \<Rightarrow>
     bindR (require KeyError (map_of existing key)) (\<lambda>category.
     insert_config_version_rule
       \<lparr>cvr_config_version_id = config_id,
        cvr_category_id = cat_id category,
        cvr_rule_version_id = rv_id rule\<rparr> db))"

definition create_version ::
    "env \<Rightarrow> config_request \<Rightarrow> (string \<times> string) list \<Rightarrow> string \<Rightarrow> config_version option \<Rightarrow>
     config_version option \<Rightarrow> db \<Rightarrow> db res" where
  "create_version en request rule_hashes desired_hash active current_pending db =
     (let existing = map (\<lambda>c. (cat_key c, c))
            (filter (\<lambda>c. cat_key c \<in> ci_key ` set (cr_categories request)) (categories db))
      in bindR (for_each (select_rule en rule_hashes) (db, existing, []) (cr_categories request))
           (\<lambda>(db, existing, selected).
         bindR (supersede_pending en current_pending db) (\<lambda>db.
         let is_first = (active = None);
             config = new_config en request desired_hash is_first db
         in bindR (insert_config_version config db) (\<lambda>db.
            bindR (for_each (link_rule (cv_id config) existing) db selected) (\<lambda>db.
            if is_first then apply_config_presentation config db else Inr db)))))"

text \<open>The active version when its rules are the requested ones.\<close>

definition semantic_match :: "env \<Rightarrow> db \<Rightarrow> string \<Rightarrow> config_version option \<Rightarrow> config_version option" where
  "semantic_match en db desired_hash active = (case active of None \<Rightarrow> None
     | Some a \<Rightarrow> if semantic_hash_for_config en db a = desired_hash then Some a else None)"

definition pending_matches ::
    "env \<Rightarrow> db \<Rightarrow> string \<Rightarrow> string \<Rightarrow> config_version option \<Rightarrow> bool res" where
  "pending_matches en db desired_hash desired_edit_hash pending = (case pending of None \<Rightarrow> Inr False
     | Some p \<Rightarrow>
         if semantic_hash_for_config en db p = desired_hash
         then bindR (edit_hash_for_config en db p) (\<lambda>h. Inr (h = desired_edit_hash))
         else Inr False)"

definition put_config_impl ::
    "env \<Rightarrow> config_request \<Rightarrow> string option \<Rightarrow> bool \<Rightarrow> string option \<Rightarrow> db \<Rightarrow> (config_view \<times> db) res" where
  "put_config_impl en request if_match check_expected_base expected_base_hash db =
     bindR (validate_timezone en (cr_timezone request)) (\<lambda>_.
     bindR (raise_if (list_ex (\<lambda>c. ci_budget_currency c \<noteq> cr_display_currency request)
                        (cr_categories request)) MixedBudgetCurrency) (\<lambda>_.
     case get_versions db of (active, current_pending) \<Rightarrow>
     bindR (check_base en db if_match check_expected_base expected_base_hash
              (or_else current_pending active)) (\<lambda>_.
     let rule_hashes = dict_of (map (\<lambda>c. (ci_key c, rule_hash en c)) (cr_categories request));
         desired_hash = config_hash en request rule_hashes
     in bindR (edit_hash_for_request en request) (\<lambda>desired_edit_hash.
        case semantic_match en db desired_hash active of
          Some a \<Rightarrow> bindR (edit_active en request a current_pending db) (commit_config_view en)
        | None \<Rightarrow>
            bindR (pending_matches en db desired_hash desired_edit_hash current_pending) (\<lambda>same.
            if same then commit_config_view en db
            else bindR (create_version en request rule_hashes desired_hash active
                          current_pending db) (commit_config_view en))))))"

definition put_config :: "env \<Rightarrow> config_request \<Rightarrow> string option \<Rightarrow> db \<Rightarrow> (config_view \<times> db) res" where
  "put_config en request if_match db = put_config_impl en request if_match False None db"

definition put_config_checked ::
    "env \<Rightarrow> config_request \<Rightarrow> string option \<Rightarrow> db \<Rightarrow> (config_view \<times> db) res" where
  "put_config_checked en request expected_config_hash db =
     put_config_impl en request None True expected_config_hash db"

end
