(* ===== verification/RefreshService.thy ===== *)
theory RefreshService
  imports ConfigService
begin

text \<open>
  \<open>services/refresh_service.py\<close> up to the commit: starting a refresh run, uploading a batch
  of classified transactions into the staging tables, and the view of a run. Both writes are
  idempotent: a retry with the same key and content answers as the first call did and writes
  nothing; other content under the same key is a conflict.
\<close>

section \<open>The errors it raises\<close>

definition IdempotencyConflict :: err where
  "IdempotencyConflict = Domain (ConflictError
     ''Idempotency-Key was already used for a different refresh request''
     ''idempotency_conflict'')"

definition ConfigMissing :: err where
  "ConfigMissing = Domain (ConflictError
     ''Refresh configuration no longer exists'' ''config_missing'')"

definition ConfigRequired :: err where
  "ConfigRequired = Domain (ConflictError
     ''Create a configuration before refreshing'' ''config_required'')"

definition PendingNeedsFullRebuild :: err where
  "PendingNeedsFullRebuild = Domain (ConflictError
     ''A pending configuration requires a FULL_REBUILD first'' ''full_rebuild_required'')"

definition FullWindowIncomplete :: "date \<Rightarrow> err" where
  "FullWindowIncomplete required_start = Domain (ConflictError
     (''FULL_REBUILD must start on or before '' @ date_iso required_start)
     ''full_window_incomplete'')"

definition FirstRefreshMustBeFull :: err where
  "FirstRefreshMustBeFull = Domain (ConflictError
     ''The first successful refresh must be a complete FULL_REBUILD'' ''full_rebuild_required'')"

definition AccountSetChanged :: err where
  "AccountSetChanged = Domain (ConflictError
     ''The connected account set changed; retry with a complete FULL_REBUILD''
     ''account_scope_changed'')"

definition InvalidBatchIndex :: err where
  "InvalidBatchIndex = Domain (DomainError
     ''batch_index must be nonnegative'' ''invalid_batch_index'')"

definition BatchTooManyItems :: "int \<Rightarrow> err" where
  "BatchTooManyItems n = Domain (DomainError_with
     (''Batch contains more than '' @ int_str n @ '' transactions'') ''batch_too_large'' 413)"

definition BatchTooManyBytes :: "int \<Rightarrow> err" where
  "BatchTooManyBytes n = Domain (DomainError_with
     (''Batch exceeds the '' @ int_str n @ ''-byte request limit'') ''batch_too_large'' 413)"

definition RunNotFound :: err where
  "RunNotFound = Domain (NotFoundError ''Refresh run not found'' ''refresh_run_not_found'')"

definition BatchContentConflict :: err where
  "BatchContentConflict = Domain (ConflictError
     ''This batch index already contains different content'' ''batch_content_conflict'')"

definition BatchIdempotencyConflict :: err where
  "BatchIdempotencyConflict = Domain (ConflictError
     ''Batch idempotency_key was already used at another index''
     ''batch_idempotency_conflict'')"

definition RunNotUploadable :: "run_state \<Rightarrow> err" where
  "RunNotUploadable s = Domain (ConflictError
     (''Cannot upload to a '' @ run_state_value s @ '' refresh run'')
     ''refresh_run_not_uploadable'')"

definition InvalidRefreshWindow :: err where
  "InvalidRefreshWindow = Domain (ConflictError
     ''Refresh run has no source window'' ''invalid_refresh_window'')"

definition DuplicateInBatch :: err where
  "DuplicateInBatch = Domain (ConflictError
     ''A transaction identity occurs more than once in the batch'' ''duplicate_transaction'')"

definition UnexpectedAccount :: err where
  "UnexpectedAccount = Domain (ConflictError
     ''Transaction account is not in expected_accounts'' ''unexpected_account'')"

definition CurrencyMismatch :: err where
  "CurrencyMismatch = Domain (DomainError
     ''Transaction currency must match the configured display currency'' ''currency_mismatch'')"

definition OutsideRunWindow :: err where
  "OutsideRunWindow = Domain (DomainError
     ''Transaction date is outside the refresh source window'' ''transaction_outside_run_window'')"

definition UnknownCategories :: "string list \<Rightarrow> err" where
  "UnknownCategories ks = Domain (DomainError
     (''Unknown or disabled categories: '' @ join '', '' ks) ''unknown_category'')"

definition DuplicateAcrossBatches :: err where
  "DuplicateAcrossBatches = Domain (ConflictError
     ''A transaction identity was already uploaded in another batch'' ''duplicate_transaction'')"

section \<open>Starting a run\<close>

definition mode_of :: "string \<Rightarrow> refresh_mode" where
  "mode_of mode_name = (if mode_name = ''FULL_REBUILD'' then FULL else INCREMENTAL)"

definition active_and_pending :: "db \<Rightarrow> config_version option \<times> config_version option" where
  "active_and_pending db = (active_version db, pending_version db)"

record rule_entry =
  re_category_key :: string
  re_lookback_days :: int
  re_classification_instruction :: string
  re_enabled :: bool
  re_rule_version :: int
  re_rule_hash :: string

record begin_response_view =
  bv_run_id :: uuid
  bv_state :: run_state
  bv_mode :: string
  bv_config_version_id :: uuid
  bv_config_version :: int
  bv_rules :: "rule_entry list"
  bv_max_batch_items :: int
  bv_max_request_bytes :: int

definition mode_text :: "refresh_mode \<Rightarrow> string" where
  "mode_text m = (if m = FULL then ''FULL_REBUILD'' else ''INCREMENTAL'')"

definition begin_response ::
    "db \<Rightarrow> refresh_run \<Rightarrow> config_version \<Rightarrow> int \<Rightarrow> int \<Rightarrow> begin_response_view" where
  "begin_response db run config max_batch_items max_request_bytes =
     \<lparr>bv_run_id = run_id run,
      bv_state = run_state run,
      bv_mode = mode_text (run_mode run),
      bv_config_version_id = cv_id config,
      bv_config_version = cv_version config,
      bv_rules = map (\<lambda>(l, rule, category).
        \<lparr>re_category_key = cat_key category,
         re_lookback_days = rv_lookback_days rule,
         re_classification_instruction = rv_classification_instruction rule,
         re_enabled = rv_is_enabled rule,
         re_rule_version = rv_version rule,
         re_rule_hash = rv_rule_hash rule\<rparr>) (rules_for_config db (cv_id config)),
      bv_max_batch_items = max_batch_items,
      bv_max_request_bytes = max_request_bytes\<rparr>"

definition max_lookback :: "db \<Rightarrow> uuid \<Rightarrow> int" where
  "max_lookback db config_id =
     (case [rv_lookback_days r. (l, r, c) \<leftarrow> rules_for_config db config_id, rv_is_enabled r] of
        [] \<Rightarrow> 1
      | x # xs \<Rightarrow> foldr max xs x)"

text \<open>A full rebuild must reach back to the start of the longest enabled window.\<close>

definition check_full_window :: "db \<Rightarrow> begin_request \<Rightarrow> config_version \<Rightarrow> unit res" where
  "check_full_window db request target =
     bindR (require OverflowError
              (date_minus_days (br_source_to_date request) (max_lookback db (cv_id target) - 1)))
       (\<lambda>required_start.
          raise_if (br_source_from_date request > required_start)
            (FullWindowIncomplete required_start))"

definition check_incremental :: "db \<Rightarrow> begin_request \<Rightarrow> sync_state option \<Rightarrow> unit res" where
  "check_incremental db request sync =
     (case sync of
        None \<Rightarrow> Inl FirstRefreshMustBeFull
      | Some s \<Rightarrow>
          (case get_row run_id (ss_last_refresh_run_id s) (refresh_runs db) of
             None \<Rightarrow> Inr ()
           | Some previous_run \<Rightarrow>
               raise_if (set (run_expected_accounts previous_run)
                           \<noteq> set (br_expected_accounts request)) AccountSetChanged))"

definition new_run ::
    "env \<Rightarrow> begin_request \<Rightarrow> string \<Rightarrow> string \<Rightarrow> config_version \<Rightarrow> sync_state option \<Rightarrow> refresh_run" where
  "new_run en request idempotency_key request_hash target sync =
     \<lparr>run_id = env_uuid en NewRun,
      run_idempotency_key = idempotency_key,
      run_request_hash = request_hash,
      run_mode = mode_of (br_mode request),
      run_state = CREATED,
      run_config_version_id = cv_id target,
      run_source_from_date = Some (br_source_from_date request),
      run_source_to_date = Some (br_source_to_date request),
      run_expected_accounts = sort (br_expected_accounts request),
      run_completed_accounts = None,
      run_expected_batch_count = None,
      run_computed_checksum = None,
      run_sync_revision_before = map_option ss_revision sync,
      run_received_batch_count = 0,
      run_actual_item_count = 0,
      run_created_at = server_now en,
      run_uploaded_at = None,
      run_validated_at = None,
      run_committed_at = None,
      run_failed_at = None,
      run_error_code = None\<rparr>"

text \<open>A key that was used before: the same request gets the run it started.\<close>

definition replay_begin ::
    "db \<Rightarrow> refresh_run \<Rightarrow> string \<Rightarrow> int \<Rightarrow> int \<Rightarrow> (begin_response_view \<times> db) res" where
  "replay_begin db existing request_hash max_batch_items max_request_bytes =
     bindR (raise_if (run_request_hash existing \<noteq> request_hash) IdempotencyConflict) (\<lambda>_.
     bindR (require ConfigMissing (get_row cv_id (run_config_version_id existing) (config_versions db)))
       (\<lambda>config. Inr (begin_response db existing config max_batch_items max_request_bytes, db)))"

definition begin_target :: "refresh_mode \<Rightarrow> config_version \<Rightarrow> config_version option \<Rightarrow> config_version" where
  "begin_target mode active pending =
     (case pending of Some p \<Rightarrow> if mode = FULL then p else active | None \<Rightarrow> active)"

definition begin_refresh ::
    "env \<Rightarrow> begin_request \<Rightarrow> string \<Rightarrow> int \<Rightarrow> int \<Rightarrow> db \<Rightarrow> (begin_response_view \<times> db) res" where
  "begin_refresh en request idempotency_key max_batch_items max_request_bytes db =
     (let request_hash = sha256_hex (env_sha256 en) (begin_json request) in
      case get_row run_idempotency_key idempotency_key (refresh_runs db) of
        Some existing \<Rightarrow> replay_begin db existing request_hash max_batch_items max_request_bytes
      | None \<Rightarrow>
          (case active_and_pending db of (active_opt, pending) \<Rightarrow>
           bindR (require ConfigRequired active_opt) (\<lambda>active.
           let mode = mode_of (br_mode request);
               target = begin_target mode active pending
           in bindR (raise_if (mode = INCREMENTAL \<and> pending \<noteq> None) PendingNeedsFullRebuild) (\<lambda>_.
              bindR (if mode = FULL then check_full_window db request target else Inr ()) (\<lambda>_.
              let sync = get_sync_state db in
              bindR (if mode = INCREMENTAL then check_incremental db request sync else Inr ()) (\<lambda>_.
              let run = new_run en request idempotency_key request_hash target sync in
              bindR (insert_refresh_run run db) (\<lambda>db.
              Inr (begin_response db run target max_batch_items max_request_bytes, db))))))))"

section \<open>Uploading a batch\<close>

record batch_response_view =
  uv_run_id :: uuid
  uv_batch_index :: int
  uv_item_count :: int
  uv_replayed :: bool

definition batch_response :: "refresh_batch \<Rightarrow> bool \<Rightarrow> batch_response_view" where
  "batch_response batch replayed =
     \<lparr>uv_run_id = rb_run_id batch,
      uv_batch_index = rb_batch_index batch,
      uv_item_count = rb_item_count batch,
      uv_replayed = replayed\<rparr>"

text \<open>The enabled categories of the run's configuration, by key.\<close>

definition allowed_categories :: "db \<Rightarrow> uuid \<Rightarrow> (string \<times> uuid \<times> uuid) list" where
  "allowed_categories db config_id =
     dict_of [(cat_key c, cat_id c, rv_id r).
                (l, r, c) \<leftarrow> rules_for_config db config_id, rv_is_enabled r]"

definition check_item ::
    "db \<Rightarrow> refresh_run \<Rightarrow> string \<Rightarrow> date \<Rightarrow> date \<Rightarrow> (string \<times> uuid \<times> uuid) list \<Rightarrow>
     (string \<times> string) set \<Rightarrow> transaction_upload \<Rightarrow> (string \<times> string) set res" where
  "check_item db run currency from_date to_date allowed identities item =
     (let identity = (tu_account_id item, tu_source_id item);
          unknown = filter (\<lambda>k. map_of allowed k = None) (sort (remdups (tu_categories item))) in
      bindR (raise_if (identity \<in> identities) DuplicateInBatch) (\<lambda>_.
      bindR (raise_if (tu_account_id item \<notin> set (run_expected_accounts run)) UnexpectedAccount) (\<lambda>_.
      bindR (raise_if (tu_currency item \<noteq> currency) CurrencyMismatch) (\<lambda>_.
      bindR (raise_if (tu_date item > to_date \<or> (run_mode run = FULL \<and> tu_date item < from_date))
               OutsideRunWindow) (\<lambda>_.
      bindR (raise_if (unknown \<noteq> []) (UnknownCategories unknown)) (\<lambda>_.
      bindR (raise_if (has_key st_key (run_id run, tu_account_id item, tu_source_id item)
                         (staged_transactions db)) DuplicateAcrossBatches) (\<lambda>_.
      Inr (insert identity identities))))))))"

definition staged_row ::
    "env \<Rightarrow> refresh_run \<Rightarrow> int \<Rightarrow> transaction_upload \<Rightarrow> int \<Rightarrow> int \<Rightarrow> staged_transaction" where
  "staged_row en run batch_index item amount refund_amount =
     \<lparr>st_run_id = run_id run,
      st_config_version_id = run_config_version_id run,
      st_account_id = tu_account_id item,
      st_account_name = tu_account_name item,
      st_source_id = tu_source_id item,
      st_batch_index = batch_index,
      st_transaction_date = tu_date item,
      st_amount = amount,
      st_currency = tu_currency item,
      st_pending = tu_pending item,
      st_merchant = tu_merchant item,
      st_name = tu_name item,
      st_refunded = tu_refunded item,
      st_refund_amount = refund_amount,
      st_pending_source_id = tu_pending_source_id item,
      st_source_hash = sha256_hex (env_sha256 en) (upload_json item)\<rparr>"

definition stage_category ::
    "refresh_run \<Rightarrow> (string \<times> uuid \<times> uuid) list \<Rightarrow> transaction_upload \<Rightarrow> db \<Rightarrow> string \<Rightarrow> db res" where
  "stage_category run allowed item db key =
     bindR (require KeyError (map_of allowed key)) (\<lambda>(category_id, rule_version_id).
     insert_staged_category
       \<lparr>sc_run_id = run_id run,
        sc_config_version_id = run_config_version_id run,
        sc_account_id = tu_account_id item,
        sc_source_id = tu_source_id item,
        sc_category_id = category_id,
        sc_rule_version_id = rule_version_id\<rparr> db)"

definition stage_item ::
    "env \<Rightarrow> refresh_run \<Rightarrow> int \<Rightarrow> (string \<times> uuid \<times> uuid) list \<Rightarrow> db \<Rightarrow> transaction_upload \<Rightarrow> db res" where
  "stage_item en run batch_index allowed db item =
     bindR (require InvalidOperation (money_units (tu_amount item))) (\<lambda>amount.
     bindR (require InvalidOperation (money_units (tu_refund_amount item))) (\<lambda>refund_amount.
     bindR (insert_staged_transaction (staged_row en run batch_index item amount refund_amount) db)
       (\<lambda>db. for_each (stage_category run allowed item) db (tu_categories item))))"

definition uploaded_run :: "env \<Rightarrow> refresh_batch \<Rightarrow> refresh_run \<Rightarrow> refresh_run" where
  "uploaded_run en batch run = run\<lparr>
     run_received_batch_count := run_received_batch_count run + 1,
     run_actual_item_count := run_actual_item_count run + rb_item_count batch,
     run_state := UPLOADED,
     run_uploaded_at := Some (env_now en)\<rparr>"

text \<open>What \<open>upload_batch\<close> does once it knows the index and the key are new.\<close>

definition store_batch ::
    "env \<Rightarrow> refresh_run \<Rightarrow> refresh_batch \<Rightarrow> transaction_upload list \<Rightarrow> db \<Rightarrow> db res" where
  "store_batch en run batch items db =
     bindR (raise_if (run_state run \<notin> {CREATED, UPLOADED}) (RunNotUploadable (run_state run))) (\<lambda>_.
     let allowed = allowed_categories db (run_config_version_id run) in
     bindR (require ConfigMissing (get_row cv_id (run_config_version_id run) (config_versions db)))
       (\<lambda>config.
     bindR (require InvalidRefreshWindow (run_source_from_date run)) (\<lambda>from_date.
     bindR (require InvalidRefreshWindow (run_source_to_date run)) (\<lambda>to_date.
     bindR (for_each (check_item db run (cv_display_currency config) from_date to_date allowed)
              {} items) (\<lambda>_.
     bindR (insert_refresh_batch batch db) (\<lambda>db.
     bindR (for_each (stage_item en run (rb_batch_index batch) allowed) db items) (\<lambda>db.
     update_refresh_run (env_dialect en) run (uploaded_run en batch run) db)))))))"

definition upload_batch ::
    "env \<Rightarrow> uuid \<Rightarrow> int \<Rightarrow> batch_request \<Rightarrow> int \<Rightarrow> int \<Rightarrow> db \<Rightarrow> (batch_response_view \<times> db) res" where
  "upload_batch en rid batch_index request max_batch_items max_request_bytes db =
     (let items = bq_transactions request;
          request_hash = sha256_hex (env_sha256 en) (batch_json request);
          checksum = sha256_hex (env_sha256 en) (JArr (map upload_json items))
      in
      bindR (raise_if (batch_index < 0) InvalidBatchIndex) (\<lambda>_.
      bindR (raise_if (int (length items) > max_batch_items) (BatchTooManyItems max_batch_items)) (\<lambda>_.
      bindR (raise_if (int (length (canonical_json (batch_json request))) > max_request_bytes)
               (BatchTooManyBytes max_request_bytes)) (\<lambda>_.
      bindR (require RunNotFound (get_row run_id rid (refresh_runs db))) (\<lambda>run.
      case get_row rb_key (rid, batch_index) (refresh_batches db) of
        Some existing \<Rightarrow>
          if rb_request_hash existing \<noteq> request_hash \<or> rb_checksum existing \<noteq> checksum
          then Inl BatchContentConflict
          else Inr (batch_response existing True, db)
      | None \<Rightarrow>
          bindR (raise_if (has_key (\<lambda>b. (rb_run_id b, rb_idempotency_key b))
                             (rid, bq_idempotency_key request) (refresh_batches db))
                   BatchIdempotencyConflict) (\<lambda>_.
          let batch = \<lparr>rb_run_id = run_id run, rb_batch_index = batch_index,
                       rb_idempotency_key = bq_idempotency_key request,
                       rb_request_hash = request_hash, rb_checksum = checksum,
                       rb_item_count = int (length items)\<rparr>
          in bindR (store_batch en run batch items db) (\<lambda>db.
             Inr (batch_response batch False, db))))))))"

section \<open>The view of a run\<close>

record run_view =
  wv_run_id :: uuid
  wv_state :: run_state
  wv_mode :: string
  wv_config_version_id :: uuid
  wv_batch_count :: int
  wv_item_count :: int
  wv_receipt :: "string option"
  wv_created_at :: timestamp
  wv_committed_at :: "timestamp option"
  wv_error_code :: "string option"

text \<open>SQLite gives timestamps back without a zone, PostgreSQL in UTC.\<close>

definition run_view_of :: "env \<Rightarrow> refresh_run \<Rightarrow> run_view" where
  "run_view_of en run =
     \<lparr>wv_run_id = run_id run,
      wv_state = run_state run,
      wv_mode = mode_text (run_mode run),
      wv_config_version_id = run_config_version_id run,
      wv_batch_count = run_received_batch_count run,
      wv_item_count = run_actual_item_count run,
      wv_receipt = (case (run_committed_at run, run_computed_checksum run) of
         (Some at, Some checksum) \<Rightarrow>
           Some (stable_receipt (env_sha256 en) (uuid_str (run_id run)) checksum
                   (timestamp_iso (env_dialect en = PostgreSQL) at))
       | _ \<Rightarrow> None),
      wv_created_at = run_created_at run,
      wv_committed_at = run_committed_at run,
      wv_error_code = run_error_code run\<rparr>"

definition get_refresh_run :: "env \<Rightarrow> uuid \<Rightarrow> db \<Rightarrow> run_view res" where
  "get_refresh_run en rid db =
     bindR (require RunNotFound (get_row run_id rid (refresh_runs db))) (\<lambda>run.
     Inr (run_view_of en run))"

end
