(* ===== verification/RefreshCommit.thy ===== *)
theory RefreshCommit
  imports RefreshService
begin

text \<open>
  \<open>services/refresh_service.py\<close>, \<open>commit_refresh\<close>: the checks that the run is complete and
  still the current one, the two publications of staged transactions (replace everything,
  merge), the pruning of transactions that left every window, the activation of a pending
  configuration and the advance of the sync state, all in one database transaction.
\<close>

section \<open>The errors it raises\<close>

definition CommitReplayConflict :: err where
  "CommitReplayConflict = Domain (ConflictError
     ''Committed run was retried with different completion data'' ''commit_replay_conflict'')"

definition RunNotCommittable :: "run_state \<Rightarrow> err" where
  "RunNotCommittable s = Domain (ConflictError
     (''Cannot commit a '' @ run_state_value s @ '' refresh run'') ''refresh_run_not_committable'')"

definition TargetSuperseded :: err where
  "TargetSuperseded = Domain (ConflictError
     ''The target configuration was superseded during this run'' ''config_version_conflict'')"

definition TargetNotActive :: err where
  "TargetNotActive = Domain (ConflictError
     ''Incremental refresh target is no longer active'' ''config_version_conflict'')"

definition PendingCreatedMeanwhile :: err where
  "PendingCreatedMeanwhile = Domain (ConflictError
     ''A pending configuration was created after this refresh began'' ''full_rebuild_required'')"

definition TargetChanged :: err where
  "TargetChanged = Domain (ConflictError
     ''The target configuration changed after this refresh began'' ''config_version_conflict'')"

definition MissingBatch :: err where
  "MissingBatch = Domain (ConflictError
     ''One or more upload batches are missing'' ''missing_batch'')"

definition CompletedAccountsMismatch :: err where
  "CompletedAccountsMismatch = Domain (ConflictError
     ''completed_accounts does not match expected_accounts'' ''completed_accounts_mismatch'')"

definition RunSuperseded :: err where
  "RunSuperseded = Domain (ConflictError
     ''Another refresh committed after this run began'' ''refresh_run_superseded'')"

definition AccountSetChangedMeanwhile :: err where
  "AccountSetChangedMeanwhile = Domain (ConflictError
     (''The connected account set changed after this run began; retry with a complete '' @
      ''FULL_REBUILD'') ''account_scope_changed'')"

definition ReplacementInvalid :: err where
  "ReplacementInvalid = Domain (ConflictError
     ''A pending replacement link is invalid'' ''pending_replacement_conflict'')"

definition ReplacementDuplicate :: err where
  "ReplacementDuplicate = Domain (ConflictError
     ''More than one transaction replaces the same pending transaction''
     ''pending_replacement_conflict'')"

definition ReplacementStagedPosted :: err where
  "ReplacementStagedPosted = Domain (ConflictError
     ''A pending replacement link targets a non-pending staged transaction''
     ''pending_replacement_conflict'')"

definition ReplacementLivePosted :: err where
  "ReplacementLivePosted = Domain (ConflictError
     ''A pending replacement link targets a non-pending live transaction''
     ''pending_replacement_conflict'')"

definition StagedWithoutCategories :: err where
  "StagedWithoutCategories = Domain (ConflictError
     ''Staged transaction has no categories'' ''invalid_staging_data'')"

section \<open>Replacements of pending transactions\<close>

definition staged_of_run :: "db \<Rightarrow> uuid \<Rightarrow> staged_transaction list" where
  "staged_of_run db rid = filter (\<lambda>s. st_run_id s = rid) (staged_transactions db)"

definition check_replacement ::
    "db \<Rightarrow> staged_transaction list \<Rightarrow> (string \<times> string) set \<Rightarrow> staged_transaction \<Rightarrow>
     (string \<times> string) set res" where
  "check_replacement db staged_items targets staged =
     (case st_pending_source_id staged of
        None \<Rightarrow> Inr targets
      | Some pending_source_id \<Rightarrow>
          let target = (st_account_id staged, pending_source_id) in
          bindR (raise_if (st_pending staged \<or> target = st_identity staged) ReplacementInvalid) (\<lambda>_.
          bindR (raise_if (target \<in> targets) ReplacementDuplicate) (\<lambda>_.
          bindR (raise_if (case get_row st_identity target staged_items of
                             None \<Rightarrow> False | Some t \<Rightarrow> \<not> st_pending t) ReplacementStagedPosted) (\<lambda>_.
          bindR (raise_if (case get_row tx_key target (transactions db) of
                             None \<Rightarrow> False | Some t \<Rightarrow> \<not> tx_pending t) ReplacementLivePosted) (\<lambda>_.
          Inr (insert target targets))))))"

definition validate_pending_replacements ::
    "db \<Rightarrow> refresh_run \<Rightarrow> (string \<times> string) set res" where
  "validate_pending_replacements db run =
     (let staged_items = staged_of_run db (run_id run) in
      for_each (check_replacement db staged_items) {} staged_items)"

section \<open>Publishing staged transactions\<close>

definition delete_live_identity :: "string \<Rightarrow> string \<Rightarrow> db \<Rightarrow> db" where
  "delete_live_identity account source_id db =
     delete_transactions (\<lambda>t. tx_account_id t = account \<and> tx_source_id t = source_id)
       (delete_transaction_categories
          (\<lambda>c. tc_account_id c = account \<and> tc_source_id c = source_id) db)"

text \<open>A live row made of a staged one; a replacement keeps the first-seen provenance.\<close>

definition live_row :: "env \<Rightarrow> refresh_run \<Rightarrow> staged_transaction \<Rightarrow> transaction option \<Rightarrow> transaction" where
  "live_row en run staged existing =
     \<lparr>tx_account_id = st_account_id staged,
      tx_account_name = st_account_name staged,
      tx_source_id = st_source_id staged,
      tx_transaction_date = st_transaction_date staged,
      tx_amount = st_amount staged,
      tx_currency = st_currency staged,
      tx_pending = st_pending staged,
      tx_merchant = st_merchant staged,
      tx_name = st_name staged,
      tx_refunded = st_refunded staged,
      tx_refund_amount = st_refund_amount staged,
      tx_pending_source_id = st_pending_source_id staged,
      tx_source_hash = st_source_hash staged,
      tx_config_version_id = run_config_version_id run,
      tx_first_refresh_run_id = (case existing of None \<Rightarrow> run_id run
         | Some e \<Rightarrow> tx_first_refresh_run_id e),
      tx_last_refresh_run_id = run_id run,
      tx_first_seen_at = (case existing of None \<Rightarrow> env_now en | Some e \<Rightarrow> tx_first_seen_at e),
      tx_last_seen_at = env_now en\<rparr>"

definition publish_category ::
    "refresh_run \<Rightarrow> staged_transaction \<Rightarrow> db \<Rightarrow> staged_transaction_category \<Rightarrow> db res" where
  "publish_category run staged db category = insert_transaction_category
     \<lparr>tc_account_id = st_account_id staged,
      tc_source_id = st_source_id staged,
      tc_category_id = sc_category_id category,
      tc_config_version_id = run_config_version_id run,
      tc_rule_version_id = sc_rule_version_id category\<rparr> db"

definition store_staged ::
    "env \<Rightarrow> refresh_run \<Rightarrow> staged_transaction \<Rightarrow> transaction option \<Rightarrow> db \<Rightarrow> db res" where
  "store_staged en run staged existing db =
     (let db = (case existing of None \<Rightarrow> db
                | Some e \<Rightarrow> delete_live_identity (st_account_id staged) (st_source_id staged) db)
      in bindR (insert_transaction (live_row en run staged existing) db) (\<lambda>db.
         let cats = filter (\<lambda>c. sc_run_id c = run_id run \<and>
                      sc_account_id c = st_account_id staged \<and>
                      sc_source_id c = st_source_id staged) (staged_transaction_categories db)
         in bindR (raise_if (cats = []) StagedWithoutCategories) (\<lambda>_.
            for_each (publish_category run staged) db cats)))"

definition replace_all_transactions ::
    "env \<Rightarrow> refresh_run \<Rightarrow> (string \<times> string) set \<Rightarrow> db \<Rightarrow> db res" where
  "replace_all_transactions en run replacement_targets db =
     (let db = delete_transactions (\<lambda>_. True) (delete_transaction_categories (\<lambda>_. True) db) in
      for_each (\<lambda>db staged.
          if st_identity staged \<in> replacement_targets then Inr db
          else store_staged en run staged None db)
        db (staged_of_run db (run_id run)))"

definition merge_item ::
    "env \<Rightarrow> refresh_run \<Rightarrow> (string \<times> string) set \<Rightarrow> db \<Rightarrow> staged_transaction \<Rightarrow> db res" where
  "merge_item en run replacement_targets db staged =
     (if st_identity staged \<in> replacement_targets then Inr db
      else
        let db = (case st_pending_source_id staged of None \<Rightarrow> db
                  | Some p \<Rightarrow> delete_live_identity (st_account_id staged) p db)
        in store_staged en run staged (get_row tx_key (st_identity staged) (transactions db)) db)"

definition merge_incremental ::
    "env \<Rightarrow> refresh_run \<Rightarrow> (string \<times> string) set \<Rightarrow> db \<Rightarrow> db res" where
  "merge_incremental en run replacement_targets db =
     for_each (merge_item en run replacement_targets) db (staged_of_run db (run_id run))"

section \<open>Pruning\<close>

text \<open>The links of a category to transactions before the start of its window.\<close>

definition old_link :: "db \<Rightarrow> uuid \<Rightarrow> date \<Rightarrow> transaction_category \<Rightarrow> bool" where
  "old_link db category_id cutoff c \<longleftrightarrow> tc_category_id c = category_id \<and>
     list_ex (\<lambda>t. tx_key t = tc_tx_key c \<and> tx_transaction_date t < cutoff) (transactions db)"

definition prune_category :: "date \<Rightarrow> db \<Rightarrow> (config_version_rule \<times> rule_version \<times> category) \<Rightarrow> db res" where
  "prune_category to_date db entry = (case entry of (l, rule, category) \<Rightarrow>
     bindR (require OverflowError (date_minus_days to_date (rv_lookback_days rule - 1))) (\<lambda>cutoff.
     Inr (delete_transaction_categories (old_link db (cat_id category) cutoff) db)))"

definition prune_outside_windows :: "refresh_run \<Rightarrow> db \<Rightarrow> db res" where
  "prune_outside_windows run db =
     (case run_source_to_date run of
        None \<Rightarrow> Inr db
      | Some to_date \<Rightarrow>
          bindR (for_each (prune_category to_date) db
                   (rules_for_config db (run_config_version_id run))) (\<lambda>db.
          Inr (delete_transactions
                 (\<lambda>t. \<not> list_ex (\<lambda>c. tc_tx_key c = tx_key t) (transaction_categories db)) db)))"

section \<open>Commit\<close>

definition run_batches :: "db \<Rightarrow> uuid \<Rightarrow> refresh_batch list" where
  "run_batches db rid =
     sort_key rb_batch_index (filter (\<lambda>b. rb_run_id b = rid) (refresh_batches db))"

text \<open>The version a run of this mode publishes now.\<close>

definition current_target :: "db \<Rightarrow> refresh_mode \<Rightarrow> config_version option" where
  "current_target db mode = (case active_and_pending db of (active, pending) \<Rightarrow>
     if mode = FULL \<and> pending \<noteq> None then pending else active)"

definition check_target :: "db \<Rightarrow> refresh_run \<Rightarrow> config_version res" where
  "check_target db run =
     bindR (require ConfigMissing (get_row cv_id (run_config_version_id run) (config_versions db)))
       (\<lambda>config.
     bindR (raise_if (cv_status config = SUPERSEDED) TargetSuperseded) (\<lambda>_.
     bindR (raise_if (run_mode run = INCREMENTAL \<and> cv_status config \<noteq> ACTIVE) TargetNotActive) (\<lambda>_.
     bindR (raise_if (run_mode run = INCREMENTAL \<and> pending_version db \<noteq> None)
              PendingCreatedMeanwhile) (\<lambda>_.
     bindR (raise_if (case current_target db (run_mode run) of
                        None \<Rightarrow> True | Some t \<Rightarrow> cv_id t \<noteq> cv_id config) TargetChanged) (\<lambda>_.
     Inr config)))))"

definition check_complete :: "db \<Rightarrow> refresh_run \<Rightarrow> commit_request \<Rightarrow> unit res" where
  "check_complete db run request =
     bindR (raise_if (map rb_batch_index (run_batches db (run_id run))
                        \<noteq> [0..cq_expected_batch_count request - 1]) MissingBatch) (\<lambda>_.
     raise_if (cq_completed_accounts request \<noteq> sort (run_expected_accounts run))
       CompletedAccountsMismatch)"

definition check_current :: "db \<Rightarrow> refresh_run \<Rightarrow> unit res" where
  "check_current db run =
     (let sync = get_sync_state db in
      bindR (raise_if (map_option ss_revision sync \<noteq> run_sync_revision_before run) RunSuperseded) (\<lambda>_.
      if run_mode run = INCREMENTAL then
        raise_if
          (case (case sync of None \<Rightarrow> None
                 | Some s \<Rightarrow> get_row run_id (ss_last_refresh_run_id s) (refresh_runs db)) of
             None \<Rightarrow> True
           | Some previous_run \<Rightarrow>
               set (run_expected_accounts previous_run) \<noteq> set (run_expected_accounts run))
          AccountSetChangedMeanwhile
      else Inr ()))"

definition validated_run :: "env \<Rightarrow> db \<Rightarrow> commit_request \<Rightarrow> refresh_run \<Rightarrow> refresh_run" where
  "validated_run en db request run =
     (let batches = run_batches db (run_id run) in run\<lparr>
        run_state := VALIDATED,
        run_validated_at := Some (env_now en),
        run_uploaded_at := Some (case run_uploaded_at run of None \<Rightarrow> env_now en | Some t \<Rightarrow> t),
        run_expected_batch_count := Some (cq_expected_batch_count request),
        run_received_batch_count := int (length batches),
        run_actual_item_count := sum_list (map rb_item_count batches),
        run_computed_checksum := Some (checksum_chain (env_sha256 en) (map rb_checksum batches)),
        run_completed_accounts := Some (cq_completed_accounts request)\<rparr>)"

definition committed_run :: "env \<Rightarrow> refresh_run \<Rightarrow> refresh_run" where
  "committed_run en run = run\<lparr>run_state := COMMITTED, run_committed_at := Some (env_now en)\<rparr>"

definition activated :: "env \<Rightarrow> config_version \<Rightarrow> config_version" where
  "activated en c = c\<lparr>cv_status := ACTIVE, cv_activated_at := Some (env_now en)\<rparr>"

text \<open>Publishing a pending version: its presentation, the old active row, then the new one.\<close>

definition activate_config :: "env \<Rightarrow> config_version \<Rightarrow> db \<Rightarrow> db res" where
  "activate_config en config db =
     (if cv_status config \<noteq> PENDING then Inr db
      else
        bindR (apply_config_presentation config db) (\<lambda>db.
        bindR (case active_version db of
                 None \<Rightarrow> Inr db
               | Some old_active \<Rightarrow>
                   if cv_id old_active \<noteq> cv_id config
                   then update_config_version (env_dialect en) old_active (supersede en old_active) db
                   else Inr db) (\<lambda>db.
        update_config_version (env_dialect en) config (activated en config) db)))"

definition advance_sync :: "env \<Rightarrow> config_version \<Rightarrow> refresh_run \<Rightarrow> sync_state option \<Rightarrow> db \<Rightarrow> db res" where
  "advance_sync en config run sync db =
     (case sync of
        None \<Rightarrow> insert_sync_state
          \<lparr>ss_id = 1, ss_config_version_id = cv_id config, ss_last_refresh_run_id = run_id run,
           ss_revision = 1, ss_updated_at = server_now en\<rparr> db
      | Some s \<Rightarrow> update_sync_state
          (s\<lparr>ss_config_version_id := cv_id config, ss_last_refresh_run_id := run_id run,
             ss_revision := ss_revision s + 1, ss_updated_at := env_now en\<rparr>) db)"

definition publish :: "env \<Rightarrow> refresh_run \<Rightarrow> db \<Rightarrow> db res" where
  "publish en run db =
     bindR (validate_pending_replacements db run) (\<lambda>replacement_targets.
     bindR (if run_mode run = FULL then replace_all_transactions en run replacement_targets db
            else merge_incremental en run replacement_targets db) (\<lambda>db.
     prune_outside_windows run db))"

definition replay_commit :: "env \<Rightarrow> refresh_run \<Rightarrow> commit_request \<Rightarrow> db \<Rightarrow> (run_view \<times> db) res" where
  "replay_commit en run request db =
     bindR (raise_if (\<not> (run_expected_batch_count run = Some (cq_expected_batch_count request) \<and>
                          sort (case run_completed_accounts run of None \<Rightarrow> [] | Some a \<Rightarrow> a)
                            = cq_completed_accounts request)) CommitReplayConflict) (\<lambda>_.
     Inr (run_view_of en run, db))"

definition commit_run :: "env \<Rightarrow> refresh_run \<Rightarrow> commit_request \<Rightarrow> db \<Rightarrow> (run_view \<times> db) res" where
  "commit_run en run request db =
     bindR (check_target db run) (\<lambda>config.
     bindR (check_complete db run request) (\<lambda>_.
     bindR (check_current db run) (\<lambda>_.
     let validated = validated_run en db request run;
         sync = get_sync_state db in
     bindR (update_refresh_run (env_dialect en) run validated db) (\<lambda>db.
     bindR (publish en validated db) (\<lambda>db.
     let committed = committed_run en validated in
     bindR (update_refresh_run (env_dialect en) validated committed db) (\<lambda>db.
     bindR (activate_config en config db) (\<lambda>db.
     bindR (advance_sync en config committed sync db) (\<lambda>db.
     Inr (run_view_of en committed,
          reload_categories (env_dialect en) (delete_staged (run_id run) db))))))))))"

definition commit_refresh :: "env \<Rightarrow> uuid \<Rightarrow> commit_request \<Rightarrow> db \<Rightarrow> (run_view \<times> db) res" where
  "commit_refresh en rid request db =
     bindR (require RunNotFound (get_row run_id rid (refresh_runs db))) (\<lambda>run.
     if run_state run = COMMITTED then replay_commit en run request db
     else
       bindR (raise_if (run_state run \<noteq> UPLOADED \<and>
                        \<not> (run_state run = CREATED \<and> cq_expected_batch_count request = 0))
                (RunNotCommittable (run_state run))) (\<lambda>_.
       commit_run en run request db))"

end
