(* ===== verification/Units.thy ===== *)
theory Units
  imports Schemas
begin

text \<open>
  Decimal arithmetic of the dashboard and the value of a money decimal. \<open>has_units d u\<close>: the
  decimal has at most four places and stands for \<open>u\<close> units of the fourth place. Sums and
  differences of such decimals below the context's precision are exact. A value accepted by
  the money constraint of the schemas has such units below \<open>10 ^ 18\<close>, and every decimal with
  such units is accepted.
\<close>

section \<open>Decimal arithmetic\<close>

text \<open>
  \<open>a + b\<close> for operands whose exponents differ by less than the precision: exact at the smaller
  exponent, then one rounding; a zero sum is negative only if both operands are.
\<close>

definition dec_add :: "decimal \<Rightarrow> decimal \<Rightarrow> decimal" where
  "dec_add a b =
     (let s = dec_align a b + dec_align b a in
      dec_fix \<lparr>dec_neg = (s < 0 \<or> (s = 0 \<and> dec_neg a \<and> dec_neg b)), dec_coef = \<bar>s\<bar>,
               dec_exp = min (dec_exp a) (dec_exp b)\<rparr>)"

definition dec_negate :: "decimal \<Rightarrow> decimal" where
  "dec_negate d = d\<lparr>dec_neg := \<not> dec_neg d\<rparr>"

definition dec_sub :: "decimal \<Rightarrow> decimal \<Rightarrow> decimal" where
  "dec_sub a b = dec_add a (dec_negate b)"

text \<open>\<open>sum(xs, Decimal("0"))\<close> and \<open>max(x, Decimal("0"))\<close>.\<close>

definition dec_sum :: "decimal list \<Rightarrow> decimal" where
  "dec_sum xs = foldl dec_add dec_zero xs"

definition max_zero :: "decimal \<Rightarrow> decimal" where
  "max_zero x = (if dec_lt x dec_zero then dec_zero else x)"

text \<open>The attribute of a transaction loaded from its scaled integer.\<close>

definition load_money :: "dialect \<Rightarrow> int \<Rightarrow> decimal" where
  "load_money dia u = (case dia of
     SQLite \<Rightarrow> dec_div (dec_of_int u) (dec_of_int MONEY_FACTOR)
   | PostgreSQL \<Rightarrow> \<lparr>dec_neg = (u < 0), dec_coef = \<bar>u\<bar>, dec_exp = MONEY_QUANTUM_EXP\<rparr>)"

section \<open>Decimals as units\<close>

definition has_units :: "decimal \<Rightarrow> int \<Rightarrow> bool" where
  "has_units d u \<longleftrightarrow> 0 \<le> dec_coef d \<and> -4 \<le> dec_exp d \<and> dec_exp d \<le> 0 \<and>
     dec_signed d * 10 ^ nat (dec_exp d + 4) = u"

lemma has_units_zero: "has_units dec_zero 0"
  by (simp add: has_units_def dec_zero_def dec_signed_def)

lemma has_units_negate: "has_units a x \<Longrightarrow> has_units (dec_negate a) (- x)"
  by (auto simp: has_units_def dec_negate_def dec_signed_def)

lemma has_units_align:
  assumes "has_units a x" and "has_units b y"
  shows "dec_align a b * 10 ^ nat (min (dec_exp a) (dec_exp b) + 4) = x"
proof -
  have "nat (dec_exp a - min (dec_exp a) (dec_exp b)) + nat (min (dec_exp a) (dec_exp b) + 4)
      = nat (dec_exp a + 4)"
    using assms by (auto simp: has_units_def)
  then show ?thesis
    using assms(1) by (simp add: dec_align_def has_units_def mult.assoc flip: power_add)
qed

lemma has_units_add:
  assumes a: "has_units a x" and b: "has_units b y" and bound: "\<bar>x + y\<bar> < 10 ^ dec_prec"
  shows "has_units (dec_add a b) (x + y)"
proof -
  let ?m = "min (dec_exp a) (dec_exp b)"
  let ?s = "dec_align a b + dec_align b a"
  have m: "-4 \<le> ?m" "?m \<le> 0" using a b by (auto simp: has_units_def)
  have s: "?s * 10 ^ nat (?m + 4) = x + y"
    using has_units_align [OF a b] has_units_align [OF b a]
    by (simp add: distrib_right min.commute)
  have "\<bar>?s\<bar> * 1 \<le> \<bar>?s\<bar> * 10 ^ nat (?m + 4)" by (rule mult_left_mono) auto
  also have "\<dots> = \<bar>x + y\<bar>" by (simp add: abs_mult flip: s)
  finally have "\<bar>?s\<bar> < 10 ^ dec_prec" using bound by simp
  then have add: "dec_add a b = \<lparr>dec_neg = (?s < 0 \<or> (?s = 0 \<and> dec_neg a \<and> dec_neg b)),
      dec_coef = \<bar>?s\<bar>, dec_exp = ?m\<rparr>"
    by (simp add: dec_add_def Let_def dec_fix_small)
  then have "dec_signed (dec_add a b) = ?s" by (simp add: dec_signed_def abs_if)
  with add m s show ?thesis by (simp add: has_units_def)
qed

lemma has_units_sub:
  "has_units a x \<Longrightarrow> has_units b y \<Longrightarrow> \<bar>x - y\<bar> < 10 ^ dec_prec \<Longrightarrow> has_units (dec_sub a b) (x - y)"
  using has_units_add [OF _ has_units_negate, of a x b y] by (simp add: dec_sub_def)

lemma has_units_lt:
  assumes "has_units a x" and "has_units b y"
  shows "dec_lt a b \<longleftrightarrow> x < y"
proof -
  have "dec_align a b * 10 ^ nat (min (dec_exp a) (dec_exp b) + 4) = x"
    "dec_align b a * 10 ^ nat (min (dec_exp a) (dec_exp b) + 4) = y"
    using has_units_align [OF assms] has_units_align [OF assms(2,1)] by (simp_all add: min.commute)
  then show ?thesis unfolding dec_lt_def
    by (metis mult_less_cancel_right_pos zero_less_power zero_less_numeral)
qed

lemma has_units_max_zero: "has_units a x \<Longrightarrow> has_units (max_zero a) (max x 0)"
  using has_units_lt [OF _ has_units_zero, of a x]
  by (auto simp: max_zero_def has_units_zero max_def)

lemma has_units_load:
  assumes "\<bar>u\<bar> < 10 ^ dec_prec"
  shows "has_units (load_money dia u) u"
proof (cases dia)
  case PostgreSQL
  then show ?thesis
    by (simp add: load_money_def has_units_def dec_signed_def MONEY_QUANTUM_EXP_def MONEY_SCALE_def)
next
  case SQLite
  show ?thesis
  proof (cases "u = 0")
    case True
    have "dec_of_int MONEY_FACTOR = \<lparr>dec_neg = False, dec_coef = 10000, dec_exp = 0\<rparr>"
      unfolding dec_of_int_def by (simp add: MONEY_FACTOR_def MONEY_SCALE_def)
    with True SQLite show ?thesis
      by (simp add: load_money_def dec_div_zero_coef has_units_def dec_signed_def)
  next
    case False
    with assms obtain c e where d: "dec_div (dec_of_int u) (dec_of_int MONEY_FACTOR)
           = \<lparr>dec_neg = (u < 0), dec_coef = c, dec_exp = e\<rparr>"
      "-4 \<le> e" "e \<le> 0" "c * 10 ^ nat (e + 4) = \<bar>u\<bar>"
      using dec_div_money_factor by blast
    have "0 \<le> c" using d(4)
      by (metis abs_ge_zero zero_le_mult_iff zero_less_power zero_less_numeral linorder_not_le mult_neg_pos)
    with SQLite d show ?thesis
      by (auto simp: load_money_def has_units_def dec_signed_def)
  qed
qed

section \<open>The money constraint\<close>

lemma num_digits_shift: "0 < c \<Longrightarrow> num_digits (c * 10 ^ k) = num_digits c + k"
proof (induction k)
  case (Suc k)
  have "10 \<le> c * 10 ^ Suc k"
  proof -
    have "1 * 10 \<le> c * (10 ^ k * 10)" using Suc.prems
      by (intro mult_mono) (auto simp: Suc_le_eq)
    then show ?thesis by (simp add: mult.commute)
  qed
  then have "num_digits (c * 10 ^ Suc k) = Suc (num_digits (c * 10 ^ Suc k div 10))"
    by (subst num_digits_simps) simp
  also have "c * 10 ^ Suc k div 10 = c * 10 ^ k" by simp
  finally show ?case using Suc by simp
qed simp

lemma dec_normal_nonzero:
  assumes "0 < dec_coef d"
  obtains c k where "dec_normal d = d\<lparr>dec_coef := c, dec_exp := dec_exp d + int k\<rparr>"
    "dec_coef d = c * 10 ^ k" "0 < c"
proof -
  obtain c e where ce: "strip_zeros (num_digits (dec_coef d)) (dec_coef d) (dec_exp d) = (c, e)"
    by fastforce
  from strip_zeros_spec [OF ce] obtain k where
    k: "dec_coef d = c * 10 ^ k" "e = dec_exp d + int k" by blast
  have "0 < c" using k(1) assms by (metis zero_less_mult_pos2 zero_less_power zero_less_numeral)
  with k ce assms that show thesis by (simp add: dec_normal_def)
qed

text \<open>An accepted value is a whole number of units below \<open>10 ^ 18\<close>; quantizing it is exact.\<close>

lemma money_field_quantize:
  assumes "money_field d"
  obtains u where "quantize (-4) d = Some \<lparr>dec_neg = dec_neg d, dec_coef = u, dec_exp = -4\<rparr>"
    "0 \<le> u" "u < 10 ^ 18" "dec_neg d \<longrightarrow> u = 0"
proof (cases "dec_coef d = 0")
  case True
  then have "quantize (-4) d = Some \<lparr>dec_neg = dec_neg d, dec_coef = 0, dec_exp = -4\<rparr>"
    by (cases d) (simp add: quantize_def)
  then show thesis by (rule that) simp_all
next
  case False
  with assms have pos: "0 < dec_coef d" and neg: "\<not> dec_neg d"
    by (auto simp: money_field_def)
  obtain c k where n: "dec_normal d = d\<lparr>dec_coef := c, dec_exp := dec_exp d + int k\<rparr>"
    "dec_coef d = c * 10 ^ k" "0 < c"
    using dec_normal_nonzero [OF pos] .
  let ?e = "dec_exp d + int k"
  have b: "-4 \<le> ?e" "int (num_digits c) + ?e \<le> 14"
    using assms n(1) by (auto simp: money_field_def Let_def decimal_places_def decimal_digits_def
        max_def split: if_splits)
  define u where "u = c * 10 ^ nat (?e + 4)"
  have u0: "0 < u" using n(3) by (simp add: u_def)
  have nu: "num_digits u = num_digits c + nat (?e + 4)" by (simp add: u_def num_digits_shift n(3))
  then have "num_digits u \<le> 18" using b by linarith
  then have u18: "u < 10 ^ 18" using num_digits_le_iff [of 18 u] by simp
  have nd: "num_digits (dec_coef d) = num_digits c + k" by (simp add: n(2,3) num_digits_shift)
  have small: "\<not> int dec_prec < int (num_digits (dec_coef d)) + dec_exp d - (-4)"
    using b nd by (simp add: dec_prec_def)
  have coef: "(if -4 \<le> dec_exp d then dec_coef d * 10 ^ nat (dec_exp d - (-4))
      else half_even (dec_coef d) (nat (-4 - dec_exp d))) = u"
  proof (cases "-4 \<le> dec_exp d")
    case True
    then have "nat (?e + 4) = k + nat (dec_exp d + 4)" by simp
    with True show ?thesis by (simp add: u_def n(2) power_add)
  next
    case False
    let ?j = "nat (-4 - dec_exp d)"
    have "k = nat (?e + 4) + ?j" using False b(1) by simp
    then have "dec_coef d = u * 10 ^ ?j" by (metis n(2) u_def mult.assoc power_add)
    with False show ?thesis by (simp add: half_even_def Let_def)
  qed
  have "num_digits u \<le> dec_prec" using \<open>num_digits u \<le> 18\<close> by (simp add: dec_prec_def)
  with False small coef have "quantize (-4) d = Some (d\<lparr>dec_coef := u, dec_exp := -4\<rparr>)"
    unfolding quantize_def Let_def by simp
  moreover have "d\<lparr>dec_coef := u, dec_exp := -4\<rparr> = \<lparr>dec_neg = dec_neg d, dec_coef = u, dec_exp = -4\<rparr>"
    by (cases d) simp
  ultimately show thesis using u0 u18 neg that by simp
qed

lemma money_field_wf: "money_field d \<Longrightarrow> dec_wf d"
  by (simp add: money_field_def dec_wf_def)

lemma MONEY_QUANTUM_EXP_eq: "MONEY_QUANTUM_EXP = -4"
  by (simp add: MONEY_QUANTUM_EXP_def MONEY_SCALE_def)

lemma money_field_units:
  assumes "money_field d"
  obtains u where "money_units d = Some u" "0 \<le> u" "u < 10 ^ 18"
proof -
  obtain u where "quantize (-4) d = Some \<lparr>dec_neg = dec_neg d, dec_coef = u, dec_exp = -4\<rparr>"
    "0 \<le> u" "u < 10 ^ 18" "dec_neg d \<longrightarrow> u = 0"
    using money_field_quantize [OF assms] .
  then show thesis
    by (intro that [of u]) (auto simp: money_units_def MONEY_QUANTUM_EXP_eq dec_signed_def)
qed

lemma money_field_text: "money_field d \<Longrightarrow> \<exists>t. money_text d = Some t"
  by (erule money_field_quantize) (simp add: money_text_def MONEY_QUANTUM_EXP_eq)

lemma has_units_money_field:
  assumes u: "has_units d u" "0 \<le> u" "u < 10 ^ 18" and neg: "dec_neg d \<longrightarrow> dec_coef d = 0"
  shows "money_field d"
proof (cases "dec_coef d = 0")
  case True
  have "num_digits 0 = 1" by (subst num_digits_simps) simp
  with True assms show ?thesis
    by (simp add: money_field_def dec_normal_def decimal_places_def decimal_digits_def)
next
  case False
  with u(1) neg have pos: "0 < dec_coef d" "\<not> dec_neg d" by (auto simp: has_units_def)
  obtain c k where n: "dec_normal d = d\<lparr>dec_coef := c, dec_exp := dec_exp d + int k\<rparr>"
    "dec_coef d = c * 10 ^ k" "0 < c"
    using dec_normal_nonzero [OF pos(1)] .
  have e: "-4 \<le> dec_exp d" and "dec_coef d * 10 ^ nat (dec_exp d + 4) = u"
    using u(1) pos by (auto simp: has_units_def dec_signed_def)
  moreover have "nat (dec_exp d + int k + 4) = k + nat (dec_exp d + 4)" using e by simp
  ultimately have "c * 10 ^ nat (dec_exp d + int k + 4) = u" by (simp add: n(2) power_add)
  then have "num_digits u = num_digits c + nat (dec_exp d + int k + 4)"
    using n(3) num_digits_shift by metis
  moreover have "num_digits u \<le> 18" using u(3) by (intro num_digits_le) auto
  ultimately have "int (num_digits c) + dec_exp d + int k \<le> 14" using e by linarith
  then show ?thesis using n(1,3) e pos num_digits_pos [of c]
    by (auto simp: money_field_def Let_def decimal_places_def decimal_digits_def max_def)
qed

end
