(* ===== verification/Dashboard.thy ===== *)
theory Dashboard
  imports RefreshCommit Units
begin

text \<open>
  \<open>services/dashboard_service.py\<close>: the per-category totals of the active configuration over
  its rolling windows, the budget status and the freshness. Sums, differences and the progress
  ratio are Python decimals; \<open>has_units\<close> relates a decimal to the integer number of units of
  the fourth place it stands for, so the totals can be stated as integer sums.
\<close>

section \<open>The response\<close>

record dashboard_category =
  dc_key :: string
  dc_name :: string
  dc_icon :: "string option"
  dc_sort_order :: int
  dc_window_days :: int
  dc_window_start :: date
  dc_window_end :: date
  dc_currency :: string
  dc_spent :: decimal
  dc_budget :: decimal
  dc_remaining :: decimal
  dc_over :: decimal
  dc_progress :: decimal
  dc_status :: string
  dc_transaction_count :: int
  dc_pending_count :: int
  dc_pending_amount :: decimal
  dc_refund_count :: int
  dc_refund_amount :: decimal

record dashboard_freshness =
  df_status :: string
  df_last_successful_refresh_at :: "timestamp option"
  df_stale_after_hours :: int

record dashboard_response =
  dr_as_of :: date
  dr_timezone :: string
  dr_display_currency :: string
  dr_config_version :: int
  dr_config_hash :: string
  dr_pending_config_version :: "int option"
  dr_full_rebuild_required :: bool
  dr_freshness :: dashboard_freshness
  dr_categories :: "dashboard_category list"

definition DashboardConfigRequired :: err where
  "DashboardConfigRequired = Domain (ConflictError
     ''Create a configuration first'' ''config_required'')"

section \<open>One category\<close>

text \<open>The join of transactions and links for one category, one row for each link.\<close>

definition window_rows :: "db \<Rightarrow> uuid \<Rightarrow> uuid \<Rightarrow> date \<Rightarrow> date \<Rightarrow> transaction list" where
  "window_rows db config_id category_id window_start window_end =
     [t. t \<leftarrow> transactions db,
         c \<leftarrow> transaction_categories db, tc_tx_key c = tx_key t,
         tx_config_version_id t = config_id \<and> tc_category_id c = category_id \<and>
         window_start \<le> tx_transaction_date t \<and> tx_transaction_date t \<le> window_end]"

definition net_amount :: "dialect \<Rightarrow> transaction \<Rightarrow> decimal" where
  "net_amount dia t = dec_sub (load_money dia (tx_amount t)) (load_money dia (tx_refund_amount t))"

definition dec_one :: decimal where
  "dec_one = \<lparr>dec_neg = False, dec_coef = 1, dec_exp = 0\<rparr>"

definition near_limit_ratio :: decimal where
  "near_limit_ratio = \<lparr>dec_neg = False, dec_coef = 8, dec_exp = -1\<rparr>"

definition progress_of :: "decimal \<Rightarrow> decimal \<Rightarrow> decimal" where
  "progress_of spent budget_limit =
     (if dec_lt dec_zero budget_limit then dec_div spent budget_limit
      else if dec_lt dec_zero spent then dec_one else dec_zero)"

definition status_of :: "decimal \<Rightarrow> decimal \<Rightarrow> string" where
  "status_of over progress =
     (if dec_lt dec_zero over then ''over''
      else if dec_le near_limit_ratio progress then ''near_limit''
      else ''ok'')"

definition category_totals ::
    "dialect \<Rightarrow> db \<Rightarrow> uuid \<Rightarrow> date \<Rightarrow> rule_version \<Rightarrow> category \<Rightarrow> dashboard_category res" where
  "category_totals dia db config_id window_end rule category =
     bindR (require OverflowError (date_minus_days window_end (rv_lookback_days rule - 1)))
       (\<lambda>window_start.
     let rows = window_rows db config_id (cat_id category) window_start window_end;
         spent = dec_sum (map (net_amount dia) rows);
         pending_rows = filter tx_pending rows;
         pending_amount = dec_sum (map (net_amount dia) pending_rows);
         refunds = filter tx_refunded rows;
         refund_amount = dec_sum (map (\<lambda>t. load_money dia (tx_refund_amount t)) refunds);
         remaining = max_zero (dec_sub (cat_budget_limit category) spent);
         over = max_zero (dec_sub spent (cat_budget_limit category));
         progress = progress_of spent (cat_budget_limit category)
     in Inr \<lparr>dc_key = cat_key category,
             dc_name = cat_name category,
             dc_icon = cat_icon category,
             dc_sort_order = cat_sort_order category,
             dc_window_days = rv_lookback_days rule,
             dc_window_start = window_start,
             dc_window_end = window_end,
             dc_currency = cat_budget_currency category,
             dc_spent = spent,
             dc_budget = cat_budget_limit category,
             dc_remaining = remaining,
             dc_over = over,
             dc_progress = progress,
             dc_status = status_of over progress,
             dc_transaction_count = int (length rows),
             dc_pending_count = int (length pending_rows),
             dc_pending_amount = pending_amount,
             dc_refund_count = int (length refunds),
             dc_refund_amount = refund_amount\<rparr>)"

section \<open>Freshness\<close>

definition hours :: "int \<Rightarrow> int" where
  "hours n = n * 3600 * 1000000"

definition freshness_of :: "env \<Rightarrow> db \<Rightarrow> date \<Rightarrow> int \<Rightarrow> dashboard_freshness" where
  "freshness_of en db window_end stale_after_hours =
     (case get_sync_state db of
        None \<Rightarrow> \<lparr>df_status = ''never_refreshed'', df_last_successful_refresh_at = None,
                df_stale_after_hours = stale_after_hours\<rparr>
      | Some s \<Rightarrow>
          let age = env_now en - ss_updated_at s;
              source_is_behind =
                (case get_row run_id (ss_last_refresh_run_id s) (refresh_runs db) of
                   None \<Rightarrow> True
                 | Some r \<Rightarrow> (case run_source_to_date r of None \<Rightarrow> True | Some d \<Rightarrow> d < window_end))
          in \<lparr>df_status = (if age > hours stale_after_hours \<or> source_is_behind
                            then ''stale'' else ''fresh''),
              df_last_successful_refresh_at = Some (ss_updated_at s),
              df_stale_after_hours = stale_after_hours\<rparr>)"

section \<open>The dashboard\<close>

definition enabled_rules :: "db \<Rightarrow> uuid \<Rightarrow> (rule_version \<times> category) list" where
  "enabled_rules db config_id =
     [(rule, category). (l, rule, category) \<leftarrow> rules_for_config db config_id, rv_is_enabled rule]"

definition get_dashboard :: "env \<Rightarrow> date option \<Rightarrow> int \<Rightarrow> db \<Rightarrow> dashboard_response res" where
  "get_dashboard en as_of stale_after_hours db =
     bindR (require DashboardConfigRequired (active_version db)) (\<lambda>active.
     let pending_config = pending_version db;
         local_today = env_local_date en (cv_timezone active) (env_now en);
         window_end = (case as_of of None \<Rightarrow> local_today | Some d \<Rightarrow> d)
     in bindR (map_each (\<lambda>(rule, category).
                 category_totals (env_dialect en) db (cv_id active) window_end rule category)
                 (enabled_rules db (cv_id active))) (\<lambda>cats.
        bindR (edit_hash_for_config en db active) (\<lambda>hash.
        Inr \<lparr>dr_as_of = window_end,
             dr_timezone = cv_timezone active,
             dr_display_currency = cv_display_currency active,
             dr_config_version = cv_version active,
             dr_config_hash = hash,
             dr_pending_config_version = map_option cv_version pending_config,
             dr_full_rebuild_required =
               (pending_config \<noteq> None \<or>
                (case get_sync_state db of None \<Rightarrow> True
                 | Some s \<Rightarrow> ss_config_version_id s \<noteq> cv_id active)),
             dr_freshness = freshness_of en db window_end stale_after_hours,
             dr_categories = cats\<rparr>)))"

end
