(* ===== verification/Integrity.thy ===== *)
theory Integrity
  imports Dashboard
begin

text \<open>
  The integrity of the stored data: keys are unique and every foreign key names a row. Each
  database write keeps it (\<open>integrity_*\<close>), because the write checks what it needs or cascades;
  so every service operation keeps it whatever else it does. The lemmas \<open>*_InrD\<close> say what a
  successful write did.
\<close>

section \<open>What successful writes did\<close>

lemma insert_category_InrD:
  assumes "insert_category c db = Inr db'"
  shows "db' = db\<lparr>categories := categories db @ [c]\<rparr>"
    "cat_id c \<notin> cat_id ` set (categories db)" "cat_key c \<notin> cat_key ` set (categories db)"
  using assms by (auto simp: insert_category_def result_simps has_key_iff)

lemma update_category_InrD:
  assumes "update_category c db = Inr db'"
  shows "db' = db\<lparr>categories := put_row cat_id c (categories db)\<rparr>"
    "\<And>x. x \<in> set (categories db) \<Longrightarrow> cat_key x = cat_key c \<Longrightarrow> cat_id x = cat_id c"
  using assms by (auto simp: update_category_def result_simps list_ex_iff)

lemma insert_rule_version_InrD:
  assumes "insert_rule_version r db = Inr db'"
  shows "db' = db\<lparr>rule_versions := rule_versions db @ [r]\<rparr>"
    "rv_id r \<notin> rv_id ` set (rule_versions db)" "rv_category_id r \<in> cat_id ` set (categories db)"
  using assms by (auto simp: insert_rule_version_def result_simps has_key_iff)

lemma insert_config_version_InrD:
  assumes "insert_config_version c db = Inr db'"
  shows "db' = db\<lparr>config_versions := config_versions db @ [c]\<rparr>"
    "cv_id c \<notin> cv_id ` set (config_versions db)" "cv_version c \<notin> cv_version ` set (config_versions db)"
    "cv_status c = ACTIVE \<Longrightarrow> x \<in> set (config_versions db) \<Longrightarrow> cv_status x \<noteq> ACTIVE"
  using assms by (auto simp: insert_config_version_def result_simps has_key_iff one_active_def
      list_ex_iff image_iff)

lemma update_config_version_InrD:
  assumes "update_config_version dia old new db = Inr db'"
  shows "db' = db\<lparr>config_versions := put_row cv_id new (config_versions db)\<rparr>"
    "config_content_unchanged old new"
    "cv_status new = ACTIVE \<Longrightarrow> x \<in> set (config_versions db) \<Longrightarrow> cv_status x = ACTIVE \<Longrightarrow> cv_id x = cv_id new"
  using assms by (cases dia; auto simp: update_config_version_def result_simps one_active_def
      list_ex_iff config_guard_def config_guard_postgres_def split: if_splits)+

lemma insert_config_version_rule_InrD:
  assumes "insert_config_version_rule l db = Inr db'"
  shows "db' = db\<lparr>config_version_rules := config_version_rules db @ [l]\<rparr>"
    "cvr_key l \<notin> cvr_key ` set (config_version_rules db)"
    "cvr_config_version_id l \<in> cv_id ` set (config_versions db)"
    "\<exists>r \<in> set (rule_versions db). rv_id r = cvr_rule_version_id l \<and> rv_category_id r = cvr_category_id l"
  using assms by (auto simp: insert_config_version_rule_def result_simps has_key_iff)

lemma insert_refresh_run_InrD:
  assumes "insert_refresh_run r db = Inr db'"
  shows "db' = db\<lparr>refresh_runs := refresh_runs db @ [r]\<rparr>"
    "run_id r \<notin> run_id ` set (refresh_runs db)"
    "run_idempotency_key r \<notin> run_idempotency_key ` set (refresh_runs db)"
    "run_config_version_id r \<in> cv_id ` set (config_versions db)"
  using assms by (auto simp: insert_refresh_run_def result_simps has_key_iff)

lemma update_refresh_run_InrD:
  assumes "update_refresh_run dia old new db = Inr db'"
  shows "db' = db\<lparr>refresh_runs := put_row run_id new (refresh_runs db)\<rparr>"
    "run_guard dia old new" "run_identity_unchanged old new"
  using assms by (auto simp: update_refresh_run_def result_simps run_guard_keeps_identity)

lemma insert_refresh_batch_InrD:
  assumes "insert_refresh_batch b db = Inr db'"
  shows "db' = db\<lparr>refresh_batches := refresh_batches db @ [b]\<rparr>"
    "rb_key b \<notin> rb_key ` set (refresh_batches db)"
    "\<exists>r \<in> set (refresh_runs db). run_id r = rb_run_id b \<and> run_state r \<in> {CREATED, UPLOADED}"
  using assms by (auto simp: insert_refresh_batch_def result_simps has_key_iff batch_open_guard_def
      list_ex_iff)

lemma insert_staged_transaction_InrD:
  assumes "insert_staged_transaction s db = Inr db'"
  shows "db' = db\<lparr>staged_transactions := staged_transactions db @ [s]\<rparr>"
    "st_key s \<notin> st_key ` set (staged_transactions db)"
    "\<exists>r \<in> set (refresh_runs db). run_id r = st_run_id s \<and> run_config_version_id r = st_config_version_id s"
    "(st_run_id s, st_batch_index s) \<in> rb_key ` set (refresh_batches db)"
    "refund_consistent (st_refunded s) (st_refund_amount s) (st_amount s)"
  using assms by (auto simp: insert_staged_transaction_def result_simps has_key_iff)

lemma insert_staged_category_InrD:
  assumes "insert_staged_category c db = Inr db'"
  shows "db' = db\<lparr>staged_transaction_categories := staged_transaction_categories db @ [c]\<rparr>"
    "sc_key c \<notin> sc_key ` set (staged_transaction_categories db)"
    "\<exists>s \<in> set (staged_transactions db). st_key s = (sc_run_id c, sc_account_id c, sc_source_id c)
        \<and> st_config_version_id s = sc_config_version_id c"
    "(sc_config_version_id c, sc_category_id c, sc_rule_version_id c)
        \<in> cvr_mapping ` set (config_version_rules db)"
  using assms by (auto simp: insert_staged_category_def result_simps has_key_iff)

lemma insert_transaction_InrD:
  assumes "insert_transaction t db = Inr db'"
  shows "db' = db\<lparr>transactions := transactions db @ [t]\<rparr>"
    "tx_key t \<notin> tx_key ` set (transactions db)"
    "tx_first_refresh_run_id t \<in> run_id ` set (refresh_runs db)"
    "\<exists>r \<in> set (refresh_runs db). run_id r = tx_last_refresh_run_id t
        \<and> run_config_version_id r = tx_config_version_id t"
  using assms by (auto simp: insert_transaction_def result_simps has_key_iff)

lemma insert_transaction_category_InrD:
  assumes "insert_transaction_category c db = Inr db'"
  shows "db' = db\<lparr>transaction_categories := transaction_categories db @ [c]\<rparr>"
    "tc_key c \<notin> tc_key ` set (transaction_categories db)"
    "\<exists>t \<in> set (transactions db). tx_key t = tc_tx_key c \<and> tx_config_version_id t = tc_config_version_id c"
    "(tc_config_version_id c, tc_category_id c, tc_rule_version_id c)
        \<in> cvr_mapping ` set (config_version_rules db)"
  using assms by (auto simp: insert_transaction_category_def result_simps has_key_iff)

lemma insert_sync_state_InrD:
  assumes "insert_sync_state s db = Inr db'"
  shows "db' = db\<lparr>sync_states := sync_states db @ [s]\<rparr>"
    "ss_id s \<notin> ss_id ` set (sync_states db)" "ss_id s = 1"
    "\<exists>r \<in> set (refresh_runs db). run_id r = ss_last_refresh_run_id s
        \<and> run_config_version_id r = ss_config_version_id s \<and> run_state r = COMMITTED"
  using assms by (auto simp: insert_sync_state_def sync_checks_def result_simps has_key_iff
      sync_guard_def list_ex_iff)

lemma update_sync_state_InrD:
  assumes "update_sync_state s db = Inr db'"
  shows "db' = db\<lparr>sync_states := put_row ss_id s (sync_states db)\<rparr>" "ss_id s = 1"
    "\<exists>r \<in> set (refresh_runs db). run_id r = ss_last_refresh_run_id s
        \<and> run_config_version_id r = ss_config_version_id s \<and> run_state r = COMMITTED"
  using assms by (auto simp: update_sync_state_def sync_checks_def result_simps has_key_iff
      sync_guard_def list_ex_iff)

section \<open>Integrity\<close>

definition keys_unique :: "db \<Rightarrow> bool" where
  "keys_unique db \<longleftrightarrow>
     distinct (map cat_id (categories db)) \<and>
     distinct (map cat_key (categories db)) \<and>
     distinct (map rv_id (rule_versions db)) \<and>
     distinct (map cv_id (config_versions db)) \<and>
     distinct (map cv_version (config_versions db)) \<and>
     distinct (map cvr_key (config_version_rules db)) \<and>
     distinct (map run_id (refresh_runs db)) \<and>
     distinct (map run_idempotency_key (refresh_runs db)) \<and>
     distinct (map rb_key (refresh_batches db)) \<and>
     distinct (map st_key (staged_transactions db)) \<and>
     distinct (map sc_key (staged_transaction_categories db)) \<and>
     distinct (map tx_key (transactions db)) \<and>
     distinct (map tc_key (transaction_categories db)) \<and>
     distinct (map ss_id (sync_states db))"

definition config_refs :: "db \<Rightarrow> bool" where
  "config_refs db \<longleftrightarrow>
     rv_category_id ` set (rule_versions db) \<subseteq> cat_id ` set (categories db) \<and>
     cvr_config_version_id ` set (config_version_rules db) \<subseteq> cv_id ` set (config_versions db) \<and>
     (\<lambda>l. (cvr_rule_version_id l, cvr_category_id l)) ` set (config_version_rules db)
       \<subseteq> (\<lambda>r. (rv_id r, rv_category_id r)) ` set (rule_versions db) \<and>
     run_config_version_id ` set (refresh_runs db) \<subseteq> cv_id ` set (config_versions db)"

definition run_config :: "refresh_run \<Rightarrow> uuid \<times> uuid" where
  "run_config r = (run_id r, run_config_version_id r)"

definition st_parent :: "staged_transaction \<Rightarrow> (uuid \<times> string \<times> string) \<times> uuid" where
  "st_parent s = (st_key s, st_config_version_id s)"

definition sc_parent :: "staged_transaction_category \<Rightarrow> (uuid \<times> string \<times> string) \<times> uuid" where
  "sc_parent c = ((sc_run_id c, sc_account_id c, sc_source_id c), sc_config_version_id c)"

definition sc_mapping :: "staged_transaction_category \<Rightarrow> uuid \<times> uuid \<times> uuid" where
  "sc_mapping c = (sc_config_version_id c, sc_category_id c, sc_rule_version_id c)"

definition tx_parent :: "transaction \<Rightarrow> (string \<times> string) \<times> uuid" where
  "tx_parent t = (tx_key t, tx_config_version_id t)"

definition tc_parent :: "transaction_category \<Rightarrow> (string \<times> string) \<times> uuid" where
  "tc_parent c = (tc_tx_key c, tc_config_version_id c)"

definition tc_mapping :: "transaction_category \<Rightarrow> uuid \<times> uuid \<times> uuid" where
  "tc_mapping c = (tc_config_version_id c, tc_category_id c, tc_rule_version_id c)"

definition refresh_refs :: "db \<Rightarrow> bool" where
  "refresh_refs db \<longleftrightarrow>
     rb_run_id ` set (refresh_batches db) \<subseteq> run_id ` set (refresh_runs db) \<and>
     (\<lambda>s. (st_run_id s, st_config_version_id s)) ` set (staged_transactions db)
       \<subseteq> run_config ` set (refresh_runs db) \<and>
     (\<lambda>s. (st_run_id s, st_batch_index s)) ` set (staged_transactions db)
       \<subseteq> rb_key ` set (refresh_batches db) \<and>
     sc_parent ` set (staged_transaction_categories db) \<subseteq> st_parent ` set (staged_transactions db) \<and>
     sc_mapping ` set (staged_transaction_categories db)
       \<subseteq> cvr_mapping ` set (config_version_rules db)"

definition live_refs :: "db \<Rightarrow> bool" where
  "live_refs db \<longleftrightarrow>
     tx_first_refresh_run_id ` set (transactions db) \<subseteq> run_id ` set (refresh_runs db) \<and>
     (\<lambda>t. (tx_last_refresh_run_id t, tx_config_version_id t)) ` set (transactions db)
       \<subseteq> run_config ` set (refresh_runs db) \<and>
     tc_parent ` set (transaction_categories db) \<subseteq> tx_parent ` set (transactions db) \<and>
     tc_mapping ` set (transaction_categories db) \<subseteq> cvr_mapping ` set (config_version_rules db) \<and>
     ss_id ` set (sync_states db) \<subseteq> {1} \<and>
     (\<lambda>s. (ss_last_refresh_run_id s, ss_config_version_id s)) ` set (sync_states db)
       \<subseteq> run_config ` set (refresh_runs db)"

definition integrity :: "db \<Rightarrow> bool" where
  "integrity db \<longleftrightarrow> keys_unique db \<and> config_refs db \<and> refresh_refs db \<and> live_refs db"

lemmas integrity_defs = integrity_def keys_unique_def config_refs_def refresh_refs_def live_refs_def

lemma integrity_empty: "integrity empty_db"
  by (simp add: integrity_defs empty_db_def)

section \<open>Reading it off\<close>

lemma integrity_inj:
  assumes "integrity db"
  shows "inj_on cat_id (set (categories db))" "inj_on cat_key (set (categories db))"
    "inj_on rv_id (set (rule_versions db))" "inj_on cv_id (set (config_versions db))"
    "inj_on cv_version (set (config_versions db))"
    "inj_on cvr_key (set (config_version_rules db))" "inj_on run_id (set (refresh_runs db))"
    "inj_on rb_key (set (refresh_batches db))" "inj_on st_key (set (staged_transactions db))"
    "inj_on tx_key (set (transactions db))" "inj_on tc_key (set (transaction_categories db))"
  using assms by (simp_all add: integrity_def keys_unique_def distinct_map)

lemma integrity_distinct:
  assumes "integrity db"
  shows "distinct (map cat_id (categories db))" "distinct (map cat_key (categories db))"
    "distinct (map cv_id (config_versions db))" "distinct (map run_id (refresh_runs db))"
    "distinct (map run_idempotency_key (refresh_runs db))"
    "distinct (map rb_key (refresh_batches db))" "distinct (map st_key (staged_transactions db))"
    "distinct (map sc_key (staged_transaction_categories db))"
    "distinct (map tx_key (transactions db))" "distinct (map tc_key (transaction_categories db))"
    "distinct (map ss_id (sync_states db))"
  using assms by (simp_all add: integrity_def keys_unique_def)

lemma rule_has_category:
  assumes "integrity db" and "r \<in> set (rule_versions db)"
  shows "\<exists>c \<in> set (categories db). cat_id c = rv_category_id r"
proof -
  have "rv_category_id r \<in> cat_id ` set (categories db)"
    using assms(1) imageI [OF assms(2), of rv_category_id]
    unfolding integrity_def config_refs_def by (meson in_mono)
  then show ?thesis by (metis (no_types, lifting) imageE prod.inject)
qed

lemma link_has_rule:
  assumes "integrity db" and "l \<in> set (config_version_rules db)"
  shows "\<exists>r \<in> set (rule_versions db). rv_id r = cvr_rule_version_id l \<and> rv_category_id r = cvr_category_id l"
proof -
  have "(cvr_rule_version_id l, cvr_category_id l)
      \<in> (\<lambda>r. (rv_id r, rv_category_id r)) ` set (rule_versions db)"
    using assms(1) imageI [OF assms(2), of "\<lambda>l. (cvr_rule_version_id l, cvr_category_id l)"]
    unfolding integrity_def config_refs_def by (meson in_mono)
  then show ?thesis by (metis (no_types, lifting) imageE prod.inject)
qed

lemma link_has_config:
  assumes "integrity db" and "l \<in> set (config_version_rules db)"
  shows "\<exists>c \<in> set (config_versions db). cv_id c = cvr_config_version_id l"
proof -
  have "cvr_config_version_id l \<in> cv_id ` set (config_versions db)"
    using assms(1) imageI [OF assms(2), of cvr_config_version_id]
    unfolding integrity_def config_refs_def by (meson in_mono)
  then show ?thesis by (metis (no_types, lifting) imageE prod.inject)
qed

section \<open>Every write keeps it\<close>

lemma distinct_put_row_other:
  assumes "distinct (map f rows)" and "\<And>x. x \<in> set rows \<Longrightarrow> f x = f r \<Longrightarrow> key x = key r"
    and "distinct (map key rows)"
  shows "distinct (map f (put_row key r rows))"
  using assms
proof (induction rows)
  case (Cons x rows)
  have sub: "set (put_row key r rows) \<subseteq> insert r (set rows)" by (auto simp: put_row_def)
  show ?case
  proof (cases "key x = key r")
    case True
    have same: "map (\<lambda>x. if key x = key r then r else x) rows = rows"
      by (rule map_idI) (use True Cons.prems(3) in \<open>auto simp: image_iff\<close>)
    have "f r \<notin> f ` set rows"
    proof
      assume "f r \<in> f ` set rows"
      then obtain y where "y \<in> set rows" "f y = f r" by auto
      with Cons.prems(2,3) True show False by (auto simp: image_iff)
    qed
    with True same Cons.prems show ?thesis by (simp add: put_row_def)
  next
    case False
    then have "f x \<noteq> f r" using Cons.prems(2) by auto
    with False Cons sub show ?thesis by (auto simp: put_row_def image_iff)
  qed
qed (simp add: put_row_def)

lemma image_put_row_same:
  assumes "old \<in> set rows" and "key old = key new" and "f old = f new"
    and "distinct (map key rows)"
  shows "f ` set (put_row key new rows) = f ` set rows"
proof -
  have "x = old" if "x \<in> set rows" "key x = key new" for x
    using that assms(1,2,4) by (simp add: distinct_map inj_on_def)
  then have "f (if key x = key new then new else x) = f x" if "x \<in> set rows" for x
    using that assms(3) by auto
  then have "(\<lambda>x. f (if key x = key new then new else x)) ` set rows = f ` set rows"
    by (rule image_cong [OF refl])
  then show ?thesis unfolding put_row_def list.set_map image_image .
qed

lemma integrity_insert_category:
  assumes "integrity db" and "insert_category c db = Inr db'"
  shows "integrity db'"
  using assms(1) insert_category_InrD [OF assms(2)]
  by (simp add: integrity_defs subset_insertI2)

lemma integrity_update_category:
  assumes "integrity db" and "update_category c db = Inr db'"
  shows "integrity db'"
proof -
  note D = update_category_InrD [OF assms(2)]
  have "distinct (map cat_key (put_row cat_id c (categories db)))"
    by (rule distinct_put_row_other) (use assms(1) D(2) in \<open>auto simp: integrity_defs\<close>)
  with assms(1) D(1) show ?thesis by (simp add: integrity_defs)
qed

lemma integrity_insert_rule_version:
  assumes "integrity db" and "insert_rule_version r db = Inr db'"
  shows "integrity db'"
  using assms(1) insert_rule_version_InrD [OF assms(2)]
  by (simp add: integrity_defs subset_insertI2)

lemma integrity_insert_config_version:
  assumes "integrity db" and "insert_config_version c db = Inr db'"
  shows "integrity db'"
  using assms(1) insert_config_version_InrD(1-3) [OF assms(2)]
  by (simp add: integrity_defs subset_insertI2)

lemma integrity_update_config_version:
  assumes "integrity db" and "update_config_version dia old new db = Inr db'"
    and "old \<in> set (config_versions db)" and "cv_id new = cv_id old"
  shows "integrity db'"
proof -
  note D = update_config_version_InrD(1,2) [OF assms(2)]
  have "distinct (map cv_version (put_row cv_id new (config_versions db)))"
  proof (rule distinct_put_row_other)
    fix x assume "x \<in> set (config_versions db)" "cv_version x = cv_version new"
    moreover have "cv_version new = cv_version old"
      using D(2) by (simp add: config_content_unchanged_def)
    ultimately have "x = old"
      using assms(1,3) by (metis distinct_map inj_onD integrity_defs(1,2))
    then show "cv_id x = cv_id new" using assms(4) by simp
  qed (use assms(1) in \<open>simp_all add: integrity_defs\<close>)
  with assms(1) D(1) show ?thesis by (simp add: integrity_defs)
qed

lemma integrity_insert_config_version_rule:
  assumes "integrity db" and "insert_config_version_rule l db = Inr db'"
  shows "integrity db'"
proof -
  note D = insert_config_version_rule_InrD [OF assms(2)]
  have "(cvr_rule_version_id l, cvr_category_id l)
      \<in> (\<lambda>r. (rv_id r, rv_category_id r)) ` set (rule_versions db)"
    using D(4) by force
  with assms(1) D(1-3) show ?thesis by (simp add: integrity_defs subset_insertI2)
qed

lemma integrity_insert_refresh_run:
  assumes "integrity db" and "insert_refresh_run r db = Inr db'"
  shows "integrity db'"
  using assms(1) insert_refresh_run_InrD [OF assms(2)]
  by (simp add: integrity_defs subset_insertI2)

lemma integrity_update_refresh_run:
  assumes "integrity db" and "update_refresh_run dia old new db = Inr db'"
    and "old \<in> set (refresh_runs db)"
  shows "integrity db'"
proof -
  note D = update_refresh_run_InrD [OF assms(2)]
  have k: "distinct (map run_id (refresh_runs db))" "distinct (map run_idempotency_key (refresh_runs db))"
    using assms(1) by (simp_all add: integrity_defs)
  have id: "run_id old = run_id new" "run_config old = run_config new"
    "run_config_version_id old = run_config_version_id new"
    "run_idempotency_key old = run_idempotency_key new"
    using D(3) by (simp_all add: run_identity_unchanged_def run_config_def)
  note same = image_put_row_same [OF assms(3) id(1) _ k(1)]
  have "distinct (map run_idempotency_key (put_row run_id new (refresh_runs db)))"
  proof (rule distinct_put_row_other [OF k(2) _ k(1)])
    fix x assume "x \<in> set (refresh_runs db)" "run_idempotency_key x = run_idempotency_key new"
    then have "x = old" using k(2) assms(3) id(4) by (metis distinct_map inj_onD)
    then show "run_id x = run_id new" using id(1) by simp
  qed
  with assms(1) D(1) same [OF id(2)] same [OF id(3)] show ?thesis by (simp add: integrity_defs)
qed

lemma integrity_insert_refresh_batch:
  assumes "integrity db" and "insert_refresh_batch b db = Inr db'"
  shows "integrity db'"
proof -
  note D = insert_refresh_batch_InrD [OF assms(2)]
  have "rb_run_id b \<in> run_id ` set (refresh_runs db)" using D(3) by force
  with assms(1) D(1,2) show ?thesis by (simp add: integrity_defs subset_insertI2)
qed

lemma integrity_insert_staged_transaction:
  assumes "integrity db" and "insert_staged_transaction s db = Inr db'"
  shows "integrity db'"
proof -
  note D = insert_staged_transaction_InrD [OF assms(2)]
  have "(st_run_id s, st_config_version_id s) \<in> run_config ` set (refresh_runs db)"
    using D(3) by (force simp: run_config_def)
  with assms(1) D(1,2,4) show ?thesis by (simp add: integrity_defs subset_insertI2)
qed

lemma integrity_insert_staged_category:
  assumes "integrity db" and "insert_staged_category c db = Inr db'"
  shows "integrity db'"
proof -
  note D = insert_staged_category_InrD [OF assms(2)]
  have "sc_parent c \<in> st_parent ` set (staged_transactions db)"
    "sc_mapping c \<in> cvr_mapping ` set (config_version_rules db)"
    using D(3,4) by (force simp: sc_parent_def st_parent_def sc_mapping_def)+
  with assms(1) D(1,2) show ?thesis by (simp add: integrity_defs)
qed

lemma integrity_insert_transaction:
  assumes "integrity db" and "insert_transaction t db = Inr db'"
  shows "integrity db'"
proof -
  note D = insert_transaction_InrD [OF assms(2)]
  have "(tx_last_refresh_run_id t, tx_config_version_id t) \<in> run_config ` set (refresh_runs db)"
    using D(4) by (force simp: run_config_def)
  with assms(1) D(1-3) show ?thesis by (simp add: integrity_defs subset_insertI2)
qed

lemma integrity_insert_transaction_category:
  assumes "integrity db" and "insert_transaction_category c db = Inr db'"
  shows "integrity db'"
proof -
  note D = insert_transaction_category_InrD [OF assms(2)]
  have "tc_parent c \<in> tx_parent ` set (transactions db)"
    "tc_mapping c \<in> cvr_mapping ` set (config_version_rules db)"
    using D(3,4) by (force simp: tc_parent_def tx_parent_def tc_mapping_def)+
  with assms(1) D(1,2) show ?thesis by (simp add: integrity_defs)
qed

lemma integrity_insert_sync_state:
  assumes "integrity db" and "insert_sync_state s db = Inr db'"
  shows "integrity db'"
proof -
  note D = insert_sync_state_InrD [OF assms(2)]
  have "(ss_last_refresh_run_id s, ss_config_version_id s) \<in> run_config ` set (refresh_runs db)"
    using D(4) by (force simp: run_config_def)
  with assms(1) D(1-3) show ?thesis by (simp add: integrity_defs)
qed

lemma image_put_row_subset:
  "f ` set rows \<subseteq> S \<Longrightarrow> f r \<in> S \<Longrightarrow> f ` set (put_row key r rows) \<subseteq> S"
  by (auto simp: put_row_def)

lemma integrity_update_sync_state:
  assumes "integrity db" and "update_sync_state s db = Inr db'"
  shows "integrity db'"
proof -
  note D = update_sync_state_InrD [OF assms(2)]
  have "(ss_last_refresh_run_id s, ss_config_version_id s) \<in> run_config ` set (refresh_runs db)"
    using D(3) by (force simp: run_config_def)
  with assms(1) D(1,2) show ?thesis by (simp add: integrity_defs image_put_row_subset)
qed

section \<open>Deletions\<close>

lemma subset_drop_rows: "f ` set rows \<subseteq> S \<Longrightarrow> f ` set (drop_rows p rows) \<subseteq> S"
  by auto

lemma integrity_delete_transaction_categories:
  "integrity db \<Longrightarrow> integrity (delete_transaction_categories p db)"
  by (simp add: integrity_defs delete_transaction_categories_def subset_drop_rows
      del: set_drop_rows)

lemma integrity_delete_transactions:
  assumes "integrity db"
  shows "integrity (delete_transactions p db)"
proof -
  let ?gone = "tx_key ` set (filter p (transactions db))"
  have "tc_parent ` set (drop_rows (\<lambda>c. tc_tx_key c \<in> ?gone) (transaction_categories db))
      \<subseteq> tx_parent ` set (drop_rows p (transactions db))"
  proof
    fix y assume "y \<in> tc_parent ` set (drop_rows (\<lambda>c. tc_tx_key c \<in> ?gone) (transaction_categories db))"
    then obtain c where c: "c \<in> set (transaction_categories db)" "tc_tx_key c \<notin> ?gone" "y = tc_parent c"
      by auto
    then obtain t where t: "t \<in> set (transactions db)" "tc_parent c = tx_parent t"
      using assms by (auto simp: integrity_defs)
    then have "tx_key t = tc_tx_key c" by (simp add: tc_parent_def tx_parent_def)
    with t c have "\<not> p t" by (auto simp: image_iff)
    with t c show "y \<in> tx_parent ` set (drop_rows p (transactions db))" by auto
  qed
  with assms show ?thesis
    by (simp add: integrity_defs delete_transactions_def Let_def subset_drop_rows del: set_drop_rows)
qed

lemma integrity_delete_staged:
  assumes "integrity db"
  shows "integrity (delete_staged rid db)"
proof -
  have "sc_parent ` set (drop_rows (\<lambda>c. sc_run_id c = rid) (staged_transaction_categories db))
      \<subseteq> st_parent ` set (drop_rows (\<lambda>s. st_run_id s = rid) (staged_transactions db))"
    using assms by (force simp: integrity_defs sc_parent_def st_parent_def st_key_def)
  with assms show ?thesis
    by (simp add: integrity_defs delete_staged_def subset_drop_rows del: set_drop_rows)
qed

lemma integrity_reload: "integrity db \<Longrightarrow> integrity (reload_categories dia db)"
  by (simp add: integrity_defs reload_categories_def comp_def image_image)

lemmas integrity_intros =
  integrity_insert_category integrity_update_category integrity_insert_rule_version
  integrity_insert_config_version integrity_insert_config_version_rule
  integrity_insert_refresh_run integrity_insert_refresh_batch integrity_insert_staged_transaction
  integrity_insert_staged_category integrity_insert_transaction integrity_insert_transaction_category
  integrity_insert_sync_state integrity_update_sync_state integrity_delete_transaction_categories
  integrity_delete_transactions integrity_delete_staged integrity_reload

end
