(* ===== verification/ConfigFacts.thy ===== *)
theory ConfigFacts
  imports Integrity
begin

text \<open>
  Facts about \<open>ConfigService\<close> the invariants rest on: what loading a category again does to
  its budget, the current versions, the join of a version with its rules and categories, and
  the snapshot that is hashed and viewed.
\<close>

section \<open>Budgets after a reload\<close>

lemma has_units_quantize:
  assumes "has_units d u" and "0 \<le> u" and "u < 10 ^ dec_prec" and "\<not> dec_neg d"
  shows "quantize (-4) d = Some \<lparr>dec_neg = False, dec_coef = u, dec_exp = -4\<rparr>"
proof (cases "u = 0")
  case True
  then have "dec_coef d = 0" using assms(1,4) by (auto simp: has_units_def dec_signed_def)
  with True assms(4) show ?thesis by (cases d) (simp add: quantize_zero)
next
  case False
  have "dec_coef d * 10 ^ nat (dec_exp d + 4) = u" "-4 \<le> dec_exp d"
    using assms(1,4) by (auto simp: has_units_def dec_signed_def)
  from quantize_exact [OF this _ assms(3), of "dec_neg d"] False assms(2,4)
  show ?thesis by (cases d) simp
qed

lemma reload_limit_units:
  assumes "money_field v"
  obtains u where "money_units v = Some u" "0 \<le> u" "u < 10 ^ 18"
    "has_units (reload_limit dia v) u" "\<not> dec_neg (reload_limit dia v)"
    "money_text v = Some (dec_fixed \<lparr>dec_neg = dec_neg v, dec_coef = u, dec_exp = -4\<rparr>)"
    "money_text (reload_limit dia v) = Some (dec_fixed \<lparr>dec_neg = False, dec_coef = u, dec_exp = -4\<rparr>)"
    "reload_limit dia v = load_money dia u" "money_units (reload_limit dia v) = Some u"
proof -
  obtain u where q: "quantize (-4) v = Some \<lparr>dec_neg = dec_neg v, dec_coef = u, dec_exp = -4\<rparr>"
    and u: "0 \<le> u" "u < 10 ^ 18" "dec_neg v \<longrightarrow> u = 0"
    using money_field_quantize [OF assms] .
  have u28: "u < 10 ^ dec_prec" using u(2) by (simp add: dec_prec_def)
  have signed: "dec_signed \<lparr>dec_neg = dec_neg v, dec_coef = u, dec_exp = -4\<rparr> = u"
    using u(3) by (auto simp: dec_signed_def)
  have r: "has_units (reload_limit dia v) u \<and> \<not> dec_neg (reload_limit dia v)
      \<and> reload_limit dia v = load_money dia u"
  proof (cases dia)
    case SQLite
    have "reload_limit dia v = load_money SQLite u"
      using SQLite q signed by (simp add: reload_limit_def process_bind_param_def
          MONEY_QUANTUM_EXP_eq process_result_value_def stored_cell_def cell_decimal_def load_money_def)
    moreover have "\<not> dec_neg (load_money SQLite u)"
    proof (cases "u = 0")
      case True
      then show ?thesis
        by (simp add: load_money_def dec_div_def dec_of_int_def MONEY_FACTOR_def Let_def)
    next
      case False
      then show ?thesis using dec_div_money_factor [of u] u28 u(1) by (auto simp: load_money_def)
    qed
    ultimately show ?thesis using has_units_load [of u] u28 u(1) SQLite by simp
  next
    case PostgreSQL
    have "quantize (-4) \<lparr>dec_neg = False, dec_coef = u, dec_exp = -4\<rparr>
        = Some \<lparr>dec_neg = False, dec_coef = u, dec_exp = -4\<rparr>"
      by (rule has_units_quantize) (use u(1) u28 in \<open>simp_all add: has_units_def dec_signed_def\<close>)
    then have "reload_limit dia v = \<lparr>dec_neg = False, dec_coef = u, dec_exp = -4\<rparr>"
      using PostgreSQL q u(3) by (auto simp: reload_limit_def process_bind_param_def
          MONEY_QUANTUM_EXP_eq process_result_value_def stored_cell_def cell_decimal_def)
    then show ?thesis using u(1) PostgreSQL
      by (simp add: has_units_def dec_signed_def load_money_def MONEY_QUANTUM_EXP_eq)
  qed
  have "quantize (-4) (reload_limit dia v) = Some \<lparr>dec_neg = False, dec_coef = u, dec_exp = -4\<rparr>"
    using has_units_quantize r u(1) u28 by blast
  then have w: "money_units (reload_limit dia v) = Some u"
      "money_text (reload_limit dia v) = Some (dec_fixed \<lparr>dec_neg = False, dec_coef = u, dec_exp = -4\<rparr>)"
    by (simp_all add: money_units_def money_text_def MONEY_QUANTUM_EXP_eq dec_signed_def)
  have v: "money_units v = Some u"
      "money_text v = Some (dec_fixed \<lparr>dec_neg = dec_neg v, dec_coef = u, dec_exp = -4\<rparr>)"
    using q signed by (simp_all add: money_units_def money_text_def MONEY_QUANTUM_EXP_eq)
  show thesis using that [OF v(1) u(1,2) _ _ v(2) w(2) _ w(1)] r by blast
qed

lemma money_field_reload: "money_field v \<Longrightarrow> money_field (reload_limit dia v)"
  by (erule reload_limit_units [of v dia]) (auto intro: has_units_money_field)

lemma reload_limit_idem: "money_field v \<Longrightarrow> reload_limit dia (reload_limit dia v) = reload_limit dia v"
proof -
  assume v: "money_field v"
  obtain u where u: "reload_limit dia v = load_money dia u" "money_units (reload_limit dia v) = Some u"
    using reload_limit_units [OF v, of dia] .
  then have "money_field (load_money dia u)" using money_field_reload v by metis
  then obtain u' where "reload_limit dia (load_money dia u) = load_money dia u'"
    "money_units (load_money dia u) = Some u'" using reload_limit_units [of "load_money dia u" dia] by metis
  with u show ?thesis by simp
qed

lemma money_text_reload:
  "money_field v \<Longrightarrow> \<not> dec_neg v \<Longrightarrow> money_text (reload_limit dia v) = money_text v"
  by (erule reload_limit_units [of v dia]) simp

section \<open>Current versions\<close>

lemma first_of_SomeD: "first_of xs = Some x \<Longrightarrow> x \<in> set xs"
  by (cases xs) (auto simp: first_of_def)

lemma first_of_None [simp]: "first_of xs = None \<longleftrightarrow> xs = []"
  by (cases xs) (auto simp: first_of_def)

lemma active_version_SomeD:
  "active_version db = Some a \<Longrightarrow> a \<in> set (config_versions db) \<and> cv_status a = ACTIVE"
  by (auto simp: active_version_def dest: first_of_SomeD)

lemma active_version_None:
  "active_version db = None \<longleftrightarrow> (\<forall>c \<in> set (config_versions db). cv_status c \<noteq> ACTIVE)"
  by (auto simp: active_version_def filter_empty_conv)

lemma pending_version_SomeD:
  "pending_version db = Some p \<Longrightarrow> p \<in> set (config_versions db) \<and> cv_status p = PENDING"
  by (auto simp: pending_version_def dest: first_of_SomeD)

lemma pending_version_None:
  "pending_version db = None \<longleftrightarrow> (\<forall>c \<in> set (config_versions db). cv_status c \<noteq> PENDING)"
  by (auto simp: pending_version_def filter_empty_conv dest: arg_cong [of _ _ set])

section \<open>The rules of a version\<close>

text \<open>The join as a set, and that the order by display position does not change it.\<close>

definition joined :: "db \<Rightarrow> uuid \<Rightarrow> (config_version_rule \<times> rule_version \<times> category) set" where
  "joined db config_id = {(l, r, c).
     l \<in> set (config_version_rules db) \<and> cvr_config_version_id l = config_id \<and>
     r \<in> set (rule_versions db) \<and> rv_id r = cvr_rule_version_id l \<and>
     c \<in> set (categories db) \<and> cat_id c = cvr_category_id l}"

lemma set_rules_for_config: "set (rules_for_config db config_id) = joined db config_id"
  by (auto simp: rules_for_config_def joined_def)

text \<open>No category is linked twice to one version, so keys identify the rows of the join.\<close>

lemma joined_unique:
  assumes "integrity db" and "(l, r, c) \<in> joined db config_id" and "(l', r', c') \<in> joined db config_id"
    and "cat_key c = cat_key c'"
  shows "l = l' \<and> r = r' \<and> c = c'"
proof -
  note u = integrity_inj [OF assms(1)]
  note j = assms(2,3) [unfolded joined_def, simplified]
  have c: "c = c'" using u(2) j assms(4) by (simp add: inj_on_def)
  then have "cvr_key l = cvr_key l'" using j by (simp add: cvr_key_def)
  then have l: "l = l'" using u(6) j by (simp add: inj_on_def)
  then have "r = r'" using u(3) j by (simp add: inj_on_def)
  with c l show ?thesis by simp
qed

lemma joined_total:
  assumes "integrity db" and "l \<in> set (config_version_rules db)"
  obtains r c where "(l, r, c) \<in> joined db (cvr_config_version_id l)"
    "rv_category_id r = cat_id c"
proof -
  from link_has_rule [OF assms] obtain r where r: "r \<in> set (rule_versions db)"
    "rv_id r = cvr_rule_version_id l" "rv_category_id r = cvr_category_id l" by blast
  from rule_has_category [OF assms(1) r(1)] obtain c where
    "c \<in> set (categories db)" "cat_id c = cvr_category_id l" using r(3) by auto
  with r assms(2) that show thesis by (simp add: joined_def)
qed

end
