(* ===== verification/ConfigInvariant.thy ===== *)
theory ConfigInvariant
  imports ConfigFacts
begin

text \<open>
  The invariant of the configuration tables and the three outcomes of a PUT. \<open>config_inv\<close>:
  the stored data has integrity; at most one version is active and at most one is pending, and
  a version exists only beside an active one; every stored rule carries the hash of its own
  content; every version is linked to exactly the rules of the request it was created from.
  \<open>present_all\<close> is what publishing a snapshot does to the category rows.
\<close>

section \<open>Publishing presentation fields\<close>

definition present_all :: "category_input list \<Rightarrow> category list \<Rightarrow> category list" where
  "present_all items cats = map (\<lambda>c.
     case find (\<lambda>i. ci_key i = cat_key c) items of None \<Rightarrow> c | Some i \<Rightarrow> present i c) cats"

lemma present_keys [simp]: "cat_id (present i c) = cat_id c" "cat_key (present i c) = cat_key c"
  by (simp_all add: present_def)

lemma present_overwrites:
  "cat_id c = cat_id d \<Longrightarrow> cat_key c = cat_key d \<Longrightarrow> present i c = present i d"
  by (cases c; cases d) (simp add: present_def)

lemma present_all_Nil [simp]: "present_all [] cats = cats"
  by (simp add: present_all_def)

lemma present_all_ids [simp]:
  "map cat_id (present_all items cats) = map cat_id cats"
  "map cat_key (present_all items cats) = map cat_key cats"
  by (auto simp: present_all_def split: option.splits)

lemma find_append: "find p (xs @ ys) = (case find p xs of None \<Rightarrow> find p ys | Some x \<Rightarrow> Some x)"
  by (induction xs) auto

lemma present_all_snoc:
  assumes "inj_on cat_id (set cats)" and "inj_on cat_key (set cats)"
    and live: "live \<in> set cats" "cat_key live = ci_key x" "cat_id row = cat_id live" "cat_key row = cat_key live"
    and new: "ci_key x \<notin> ci_key ` set ys"
  shows "put_row cat_id (present x row) (present_all ys cats) = present_all (ys @ [x]) cats"
proof -
  let ?f = "\<lambda>ys c. case find (\<lambda>i. ci_key i = cat_key c) ys of None \<Rightarrow> c | Some i \<Rightarrow> present i c"
  have id: "cat_id (?f ys c) = cat_id c" for c by (simp split: option.splits)
  have "(if cat_id (?f ys c) = cat_id (present x row) then present x row else ?f ys c)
      = ?f (ys @ [x]) c" if c: "c \<in> set cats" for c
  proof (cases "cat_id c = cat_id live")
    case True
    then have cl: "c = live" using assms(1) c live(1) by (simp add: inj_on_def)
    have "find (\<lambda>i. ci_key i = cat_key c) ys = None"
      using new cl live(2) by (auto simp: find_None_iff) (metis imageI)
    moreover have "present x row = present x c"
      by (rule present_overwrites) (use cl live in simp_all)
    ultimately show ?thesis using True id live cl by (simp add: find_append)
  next
    case False
    then have "cat_key c \<noteq> ci_key x" using assms(2) c live by (metis inj_onD)
    with False id live(3) show ?thesis by (auto simp: find_append split: option.splits)
  qed
  then show ?thesis by (simp add: put_row_def present_all_def)
qed

text \<open>The loop both \<open>_put_config\<close> and \<open>apply_config_presentation\<close> run.\<close>

lemma present_loop:
  assumes "for_each (\<lambda>db item. bindR (require e (map_of m (ci_key item)))
             (\<lambda>live. update_category (present item live) db)) db items = Inr db'"
    and I: "integrity db" and "distinct (map ci_key items)"
    and m: "\<And>k c. map_of m k = Some c \<Longrightarrow> cat_key c = k \<and>
              (\<exists>c' \<in> set (categories db). cat_id c' = cat_id c \<and> cat_key c' = k)"
  shows "db' = db\<lparr>categories := present_all items (categories db)\<rparr>"
  using assms(1)
proof (rule for_each_prefix_inv
    [where P = "\<lambda>ys t. t = db\<lparr>categories := present_all ys (categories db)\<rparr>"])
  fix ys x zs t t'
  assume items: "items = ys @ x # zs" and t: "t = db\<lparr>categories := present_all ys (categories db)\<rparr>"
    and step: "bindR (require e (map_of m (ci_key x)))
             (\<lambda>live. update_category (present x live) t) = Inr t'"
  from step obtain live where live: "map_of m (ci_key x) = Some live"
    "update_category (present x live) t = Inr t'" by (auto simp: result_simps)
  from m [OF live(1)] obtain c' where c': "cat_key live = ci_key x" "c' \<in> set (categories db)"
    "cat_id c' = cat_id live" "cat_key c' = ci_key x" by blast
  have "put_row cat_id (present x live) (present_all ys (categories db))
      = present_all (ys @ [x]) (categories db)"
    by (rule present_all_snoc [OF integrity_inj(1,2) [OF I] c'(2)])
      (use c' items assms(3) in auto)
  with update_category_InrD(1) [OF live(2)] t
  show "t' = db\<lparr>categories := present_all (ys @ [x]) (categories db)\<rparr>" by simp
qed simp

lemma present_all_integrity:
  "integrity db \<Longrightarrow> integrity (db\<lparr>categories := present_all items (categories db)\<rparr>)"
proof -
  have "cat_id ` set (present_all items (categories db)) = cat_id ` set (categories db)"
    by (metis list.set_map present_all_ids(1))
  then show "integrity db \<Longrightarrow> integrity (db\<lparr>categories := present_all items (categories db)\<rparr>)"
    by (simp add: integrity_defs)
qed

section \<open>The invariant\<close>

definition status_inv :: "db \<Rightarrow> bool" where
  "status_inv db \<longleftrightarrow>
     (\<forall>c \<in> set (config_versions db). \<forall>d \<in> set (config_versions db).
        cv_status c = ACTIVE \<longrightarrow> cv_status d = ACTIVE \<longrightarrow> c = d) \<and>
     (\<forall>c \<in> set (config_versions db). \<forall>d \<in> set (config_versions db).
        cv_status c = PENDING \<longrightarrow> cv_status d = PENDING \<longrightarrow> c = d) \<and>
     (config_versions db \<noteq> [] \<longrightarrow> (\<exists>c \<in> set (config_versions db). cv_status c = ACTIVE))"

definition item_wf :: "category_input \<Rightarrow> bool" where
  "item_wf i \<longleftrightarrow> category_ok i \<and> strip_category i = i"

definition category_row_ok :: "category \<Rightarrow> bool" where
  "category_row_ok c \<longleftrightarrow>
     key_pattern (cat_key c) \<and> strip_ws (cat_key c) = cat_key c \<and>
     len_between 1 120 (cat_name c) \<and> strip_ws (cat_name c) = cat_name c \<and>
     opt_ok (len_between 0 32) (cat_icon c) \<and> map_option strip_ws (cat_icon c) = cat_icon c \<and>
     0 \<le> cat_sort_order c \<and> cat_sort_order c \<le> 10000 \<and>
     money_field (cat_budget_limit c) \<and>
     currency_pattern (cat_budget_currency c) \<and>
     strip_ws (cat_budget_currency c) = cat_budget_currency c"

definition rule_row_ok :: "(nat list \<Rightarrow> string) \<Rightarrow> category \<Rightarrow> rule_version \<Rightarrow> bool" where
  "rule_row_ok H c r \<longleftrightarrow>
     rv_rule_hash r = sha256_hex H (rule_json (cat_key c) (rv_lookback_days r)
        (rv_classification_instruction r) (rv_is_enabled r)) \<and>
     1 \<le> rv_lookback_days r \<and> rv_lookback_days r \<le> 3650 \<and>
     len_between 1 4000 (rv_classification_instruction r) \<and>
     strip_ws (rv_classification_instruction r) = rv_classification_instruction r"

definition rules_inv :: "(nat list \<Rightarrow> string) \<Rightarrow> db \<Rightarrow> bool" where
  "rules_inv H db \<longleftrightarrow>
     (\<forall>c \<in> set (categories db). category_row_ok c) \<and>
     (\<forall>r \<in> set (rule_versions db). \<forall>c \<in> set (categories db).
        cat_id c = rv_category_id r \<longrightarrow> rule_row_ok H c r)"

text \<open>The key and rule hash of every rule a version links, and of every requested category.\<close>

definition link_hashes :: "db \<Rightarrow> uuid \<Rightarrow> (string \<times> string) set" where
  "link_hashes db config_id = {(k, h). \<exists>l \<in> set (config_version_rules db).
     cvr_config_version_id l = config_id \<and>
     (cvr_rule_version_id l, h) \<in> (\<lambda>r. (rv_id r, rv_rule_hash r)) ` set (rule_versions db) \<and>
     (cvr_category_id l, k) \<in> (\<lambda>c. (cat_id c, cat_key c)) ` set (categories db)}"

definition item_hash :: "(nat list \<Rightarrow> string) \<Rightarrow> category_input \<Rightarrow> string" where
  "item_hash H c = sha256_hex H
     (rule_json (ci_key c) (ci_lookback_days c) (ci_classification_instruction c) (ci_enabled c))"

definition request_hashes :: "(nat list \<Rightarrow> string) \<Rightarrow> config_request \<Rightarrow> (string \<times> string) set" where
  "request_hashes H request = (\<lambda>i. (ci_key i, item_hash H i)) ` set (cr_categories request)"

definition version_inv :: "(nat list \<Rightarrow> string) \<Rightarrow> db \<Rightarrow> config_version \<Rightarrow> bool" where
  "version_inv H db v \<longleftrightarrow>
     config_request_wf (cv_source_config v) \<and>
     cv_timezone v = cr_timezone (cv_source_config v) \<and>
     cv_display_currency v = cr_display_currency (cv_source_config v) \<and>
     cv_aggregation_version v = cr_aggregation_version (cv_source_config v) \<and>
     link_hashes db (cv_id v) = request_hashes H (cv_source_config v)"

definition config_inv :: "(nat list \<Rightarrow> string) \<Rightarrow> db \<Rightarrow> bool" where
  "config_inv H db \<longleftrightarrow> integrity db \<and> status_inv db \<and> rules_inv H db \<and>
     (\<forall>v \<in> set (config_versions db). version_inv H db v)"

lemma config_inv_empty: "config_inv H empty_db"
  using integrity_empty by (simp add: config_inv_def status_inv_def rules_inv_def empty_db_def)

text \<open>The link hashes are those of the join.\<close>

lemma link_hashes_joined:
  "link_hashes db config_id = (\<lambda>(l, r, c). (cat_key c, rv_rule_hash r)) ` joined db config_id"
proof (intro set_eqI iffI)
  fix x assume "x \<in> link_hashes db config_id"
  then obtain l r c where "l \<in> set (config_version_rules db)" "cvr_config_version_id l = config_id"
    "r \<in> set (rule_versions db)" "rv_id r = cvr_rule_version_id l"
    "c \<in> set (categories db)" "cat_id c = cvr_category_id l" "x = (cat_key c, rv_rule_hash r)"
    by (auto simp: link_hashes_def)
  then show "x \<in> (\<lambda>(l, r, c). (cat_key c, rv_rule_hash r)) ` joined db config_id"
    by (intro image_eqI [of _ _ "(l, r, c)"]) (simp_all add: joined_def)
next
  fix x assume "x \<in> (\<lambda>(l, r, c). (cat_key c, rv_rule_hash r)) ` joined db config_id"
  then obtain l r c where "(l, r, c) \<in> joined db config_id" and x: "x = (cat_key c, rv_rule_hash r)"
    by auto
  then have j: "l \<in> set (config_version_rules db)" "cvr_config_version_id l = config_id"
    "r \<in> set (rule_versions db)" "rv_id r = cvr_rule_version_id l"
    "c \<in> set (categories db)" "cat_id c = cvr_category_id l"
    by (simp_all add: joined_def)
  have "(cvr_rule_version_id l, rv_rule_hash r)
      \<in> (\<lambda>r. (rv_id r, rv_rule_hash r)) ` set (rule_versions db)"
    by (rule image_eqI [of _ _ r]) (use j in simp_all)
  moreover have "(cvr_category_id l, cat_key c) \<in> (\<lambda>c. (cat_id c, cat_key c)) ` set (categories db)"
    by (rule image_eqI [of _ _ c]) (use j in simp_all)
  ultimately show "x \<in> link_hashes db config_id"
    using j(1,2) x unfolding link_hashes_def by blast
qed

lemma version_inv_cong:
  assumes "config_version_rules db' = config_version_rules db"
    and "(\<lambda>r. (rv_id r, rv_rule_hash r)) ` set (rule_versions db')
       = (\<lambda>r. (rv_id r, rv_rule_hash r)) ` set (rule_versions db)"
    and "(\<lambda>c. (cat_id c, cat_key c)) ` set (categories db')
       = (\<lambda>c. (cat_id c, cat_key c)) ` set (categories db)"
  shows "version_inv H db' v = version_inv H db v"
  by (simp add: version_inv_def link_hashes_def assms)

end
