(* ===== verification/ConfigPut.thy ===== *)
theory ConfigPut
  imports ConfigInvariant
begin

text \<open>
  The three outcomes of a PUT, each with what it does to the database and that it keeps
  \<open>config_inv\<close>: \<open>edit_active\<close> (the rules are the active ones), \<open>create_version\<close> (new rules) and
  the retry that changes nothing.
\<close>

section \<open>Superseding the pending version\<close>

definition retire_pending :: "env \<Rightarrow> config_version list \<Rightarrow> config_version list" where
  "retire_pending en configs =
     map (\<lambda>c. if cv_status c = PENDING then supersede en c else c) configs"

lemma supersede_simps [simp]:
  "cv_id (supersede en c) = cv_id c" "cv_version (supersede en c) = cv_version c"
  "cv_status (supersede en c) = SUPERSEDED"
  "cv_source_config (supersede en c) = cv_source_config c"
  by (simp_all add: supersede_def)

lemma retire_pending_ids [simp]:
  "map cv_id (retire_pending en configs) = map cv_id configs"
  "map cv_version (retire_pending en configs) = map cv_version configs"
  by (auto simp: retire_pending_def)

lemma retire_pending_id_set [simp]: "cv_id ` set (retire_pending en configs) = cv_id ` set configs"
  by (metis list.set_map retire_pending_ids(1))

lemma retire_pending_none: "\<forall>c \<in> set configs. cv_status c \<noteq> PENDING \<Longrightarrow> retire_pending en configs = configs"
  unfolding retire_pending_def by (rule map_idI) simp

lemma supersede_pending_spec:
  assumes "supersede_pending en (pending_version db) db = Inr db'"
    and "integrity db" and "status_inv db"
  shows "db' = db\<lparr>config_versions := retire_pending en (config_versions db)\<rparr>"
proof (cases "pending_version db")
  case None
  with assms(1) show ?thesis
    by (auto simp: supersede_pending_def pending_version_None retire_pending_none)
next
  case (Some p)
  with assms(1) have db': "db' = db\<lparr>config_versions := put_row cv_id (supersede en p) (config_versions db)\<rparr>"
    by (auto simp: supersede_pending_def dest: update_config_version_InrD(1))
  have p: "p \<in> set (config_versions db)" "cv_status p = PENDING"
    using pending_version_SomeD [OF Some] by auto
  have "(if cv_id c = cv_id (supersede en p) then supersede en p else c)
      = (if cv_status c = PENDING then supersede en c else c)" if "c \<in> set (config_versions db)" for c
  proof (cases "c = p")
    case False
    then have "cv_id c \<noteq> cv_id p"
      using integrity_inj(4) [OF assms(2)] that p(1) by (auto dest: inj_onD)
    moreover have "cv_status c \<noteq> PENDING"
      using False that p assms(3) by (auto simp: status_inv_def)
    ultimately show ?thesis by simp
  qed (use p in simp)
  then show ?thesis by (simp add: db' put_row_def retire_pending_def)
qed

lemma in_retire_pending:
  "x \<in> set (retire_pending en configs) \<longleftrightarrow>
     (\<exists>c \<in> set configs. x = (if cv_status c = PENDING then supersede en c else c))"
  by (auto simp: retire_pending_def)

lemma retire_pending_active:
  "x \<in> set (retire_pending en configs) \<Longrightarrow> cv_status x = ACTIVE \<Longrightarrow> x \<in> set configs"
  by (auto simp: retire_pending_def split: if_splits)

lemma retire_pending_status:
  "x \<in> set (retire_pending en configs) \<Longrightarrow> cv_status x \<noteq> PENDING"
  by (auto simp: retire_pending_def split: if_splits)

lemma retire_pending_keeps:
  "x \<in> set configs \<Longrightarrow> cv_status x \<noteq> PENDING \<Longrightarrow> x \<in> set (retire_pending en configs)"
  by (auto simp: retire_pending_def image_iff intro!: bexI [of _ x])

lemma status_inv_retire:
  assumes "status_inv db"
  shows "status_inv (db\<lparr>config_versions := retire_pending en (config_versions db)\<rparr>)"
proof -
  have "x = y" if "x \<in> set (retire_pending en (config_versions db))" "cv_status x = ACTIVE"
    "y \<in> set (retire_pending en (config_versions db))" "cv_status y = ACTIVE" for x y
    using assms that by (auto simp: status_inv_def dest!: retire_pending_active)
  moreover have "\<exists>c \<in> set (retire_pending en (config_versions db)). cv_status c = ACTIVE"
    if "retire_pending en (config_versions db) \<noteq> []"
  proof -
    have "config_versions db \<noteq> []" using that by (auto simp: retire_pending_def)
    then obtain c where "c \<in> set (config_versions db)" "cv_status c = ACTIVE"
      using assms by (auto simp: status_inv_def)
    then show ?thesis using retire_pending_keeps [of c] by auto
  qed
  ultimately show ?thesis by (simp add: status_inv_def retire_pending_status)
qed

lemma version_inv_supersede: "version_inv H db (supersede en v) = version_inv H db v"
  by (simp add: version_inv_def supersede_def)

lemma integrity_configs:
  assumes "integrity db" and "map cv_id cs = map cv_id (config_versions db)"
    and "map cv_version cs = map cv_version (config_versions db)"
  shows "integrity (db\<lparr>config_versions := cs\<rparr>)"
proof -
  have "cv_id ` set cs = cv_id ` set (config_versions db)" using assms(2) by (metis list.set_map)
  with assms show ?thesis by (simp add: integrity_defs)
qed

lemma config_inv_retire:
  assumes "config_inv H db"
  shows "config_inv H (db\<lparr>config_versions := retire_pending en (config_versions db)\<rparr>)"
proof -
  have v: "version_inv H (db\<lparr>config_versions := cs\<rparr>) v = version_inv H db v" for cs v
    by (rule version_inv_cong) simp_all
  show ?thesis
    using assms status_inv_retire [of db en]
    by (auto simp: config_inv_def integrity_configs rules_inv_def v version_inv_supersede
        in_retire_pending)
qed

section \<open>Editing the active version\<close>

lemma present_row_ok:
  assumes "category_row_ok c" and "item_wf i"
  shows "category_row_ok (present i c)"
proof -
  have "ci_name i = strip_ws (ci_name i)" "ci_icon i = map_option strip_ws (ci_icon i)"
    "ci_budget_currency i = strip_ws (ci_budget_currency i)"
    using assms(2) by (cases i; simp add: item_wf_def strip_category_def)+
  with assms show ?thesis
    by (simp add: category_row_ok_def present_def item_wf_def category_ok_def)
qed

lemma present_all_row_ok:
  assumes "\<forall>c \<in> set cats. category_row_ok c" and "\<forall>i \<in> set items. item_wf i"
  shows "\<forall>c \<in> set (present_all items cats). category_row_ok c"
  using assms by (auto simp: present_all_def split: option.splits
      simp: find_Some_iff intro!: present_row_ok)

lemma in_present_allD:
  "x \<in> set (present_all items cats) \<Longrightarrow> \<exists>c \<in> set cats. cat_id x = cat_id c \<and> cat_key x = cat_key c"
  by (auto simp: present_all_def split: option.splits)

lemma present_all_pairs:
  "(\<lambda>c. (cat_id c, cat_key c)) ` set (present_all items cats) = (\<lambda>c. (cat_id c, cat_key c)) ` set cats"
  by (auto simp: present_all_def image_iff split: option.splits)

lemma rule_row_ok_cong: "cat_key c = cat_key d \<Longrightarrow> rule_row_ok H c r = rule_row_ok H d r"
  by (simp add: rule_row_ok_def)

lemma config_inv_present:
  assumes "config_inv H db" and "\<forall>i \<in> set items. item_wf i"
  shows "config_inv H (db\<lparr>categories := present_all items (categories db)\<rparr>)"
proof -
  let ?db = "db\<lparr>categories := present_all items (categories db)\<rparr>"
  have v: "version_inv H ?db v = version_inv H db v" for v
    by (rule version_inv_cong) (simp_all add: present_all_pairs)
  have "rule_row_ok H c r" if h: "r \<in> set (rule_versions db)"
    "c \<in> set (present_all items (categories db))" "cat_id c = rv_category_id r" for r c
  proof -
    obtain d where "d \<in> set (categories db)" "cat_id c = cat_id d" "cat_key c = cat_key d"
      using in_present_allD [OF h(2)] by blast
    with h assms(1) show ?thesis
      using rule_row_ok_cong [of c d] by (auto simp: config_inv_def rules_inv_def)
  qed
  then have "rules_inv H ?db"
    using assms present_all_row_ok [of "categories db" items]
    by (auto simp: config_inv_def rules_inv_def)
  with assms(1) show ?thesis
    by (simp add: config_inv_def present_all_integrity v status_inv_def)
qed

lemma edit_active_spec:
  assumes "edit_active en request a (pending_version db) db = Inr db'"
    and I: "integrity db" "status_inv db" and "distinct (map ci_key (cr_categories request))"
  shows "db' = db\<lparr>config_versions := retire_pending en (config_versions db),
                 categories := present_all (cr_categories request) (categories db)\<rparr>"
proof -
  let ?db = "db\<lparr>config_versions := retire_pending en (config_versions db)\<rparr>"
  from assms(1) obtain t where t: "supersede_pending en (pending_version db) db = Inr t"
    and loop: "for_each (\<lambda>db item. bindR (require KeyError (map_of (dict_of (map (\<lambda>(l, r, c).
        (cat_key c, c)) (rules_for_config t (cv_id a)))) (ci_key item)))
        (\<lambda>live. update_category (present item live) db)) t (cr_categories request) = Inr db'"
    by (auto simp: edit_active_def result_simps Let_def)
  have t: "t = ?db" by (rule supersede_pending_spec [OF t I])
  have "integrity t" using I(1) t by (simp add: integrity_configs)
  have "db' = t\<lparr>categories := present_all (cr_categories request) (categories t)\<rparr>"
    using loop \<open>integrity t\<close> assms(4)
  proof (rule present_loop)
    fix k c
    assume "map_of (dict_of (map (\<lambda>(l, r, c). (cat_key c, c)) (rules_for_config t (cv_id a)))) k = Some c"
    from map_of_dict_ofD [OF this]
    show "cat_key c = k \<and> (\<exists>c' \<in> set (categories t). cat_id c' = cat_id c \<and> cat_key c' = k)"
      by (auto simp: set_rules_for_config joined_def)
  qed
  then show ?thesis by (simp add: t)
qed

lemma edit_active_inv:
  assumes "edit_active en request a (pending_version db) db = Inr db'"
    and I: "config_inv H db" and "config_request_wf request"
  shows "config_inv H db'"
proof -
  let ?db = "db\<lparr>config_versions := retire_pending en (config_versions db)\<rparr>"
  have i: "integrity db" "status_inv db" using I by (simp_all add: config_inv_def)
  note wf = config_request_wfD [OF assms(3)]
  have "db' = ?db\<lparr>categories := present_all (cr_categories request) (categories ?db)\<rparr>"
    using edit_active_spec [OF assms(1) i wf(3)] by simp
  moreover have "\<forall>i \<in> set (cr_categories request). item_wf i"
    using wf(1,2) by (simp add: item_wf_def)
  ultimately show ?thesis using config_inv_present [OF config_inv_retire [OF I]] by metis
qed

section \<open>Creating a version\<close>

text \<open>
  What the selection loop has done after the requested categories \<open>ys\<close>: the database has new
  categories and rules only; every requested key has a category, and a selected rule of that
  category with the requested hash.
\<close>

definition grown :: "env \<Rightarrow> db \<Rightarrow> category_input set \<Rightarrow> db \<Rightarrow> bool" where
  "grown en db0 ys db \<longleftrightarrow>
     (\<exists>nc nr. db = db0\<lparr>categories := categories db0 @ nc, rule_versions := rule_versions db0 @ nr\<rparr>
        \<and> (\<forall>c \<in> set nc. \<exists>y \<in> ys. c = new_category en y)) \<and>
     integrity db \<and> rules_inv (env_sha256 en) db"

definition found_categories :: "db \<Rightarrow> (string \<times> category) list \<Rightarrow> bool" where
  "found_categories db existing \<longleftrightarrow>
     (\<forall>k c. map_of existing k = Some c \<longrightarrow> cat_key c = k \<and> c \<in> set (categories db))"

definition selected_ok ::
    "env \<Rightarrow> category_input set \<Rightarrow> db \<Rightarrow> (string \<times> category) list \<Rightarrow> string \<times> rule_version \<Rightarrow> bool" where
  "selected_ok en ys db existing kr \<longleftrightarrow> (case kr of (k, r) \<Rightarrow>
     \<exists>y \<in> ys. ci_key y = k \<and> rv_rule_hash r = rule_hash en y \<and> r \<in> set (rule_versions db) \<and>
        (\<exists>c. map_of existing k = Some c \<and> rv_category_id r = cat_id c))"

definition selection_inv :: "env \<Rightarrow> db \<Rightarrow> category_input list \<Rightarrow> selection \<Rightarrow> bool" where
  "selection_inv en db0 ys sel \<longleftrightarrow> (case sel of (db, existing, selected) \<Rightarrow>
     grown en db0 (set ys) db \<and> found_categories db existing \<and>
     map fst selected = map ci_key ys \<and>
     (\<forall>kr \<in> set selected. selected_ok en (set ys) db existing kr))"

lemma rule_hash_item_hash: "rule_hash en i = item_hash (env_sha256 en) i"
  by (simp add: rule_hash_def item_hash_def)

lemma new_category_row_ok: "item_wf i \<Longrightarrow> category_row_ok (new_category en i)"
proof -
  assume i: "item_wf i"
  then have "ci_name i = strip_ws (ci_name i)" "ci_icon i = map_option strip_ws (ci_icon i)"
    "ci_key i = strip_ws (ci_key i)" "ci_budget_currency i = strip_ws (ci_budget_currency i)"
    by (cases i; simp add: item_wf_def strip_category_def)+
  with i show ?thesis
    by (simp add: category_row_ok_def new_category_def item_wf_def category_ok_def)
qed

lemma new_rule_row_ok:
  assumes "item_wf i" and "cat_key c = ci_key i"
  shows "rule_row_ok (env_sha256 en) c (new_rule en i (rule_hash en i) cid db)"
proof -
  have "ci_classification_instruction i = strip_ws (ci_classification_instruction i)"
    using assms(1) by (cases i; simp add: item_wf_def strip_category_def)
  with assms show ?thesis
    by (simp add: rule_row_ok_def new_rule_def item_wf_def category_ok_def rule_hash_def)
qed

lemma rules_inv_insert_category:
  assumes "integrity db" and "rules_inv H db" and "insert_category c db = Inr db'" and "category_row_ok c"
  shows "rules_inv H db'"
proof -
  note D = insert_category_InrD [OF assms(3)]
  have "\<forall>r \<in> set (rule_versions db). cat_id c \<noteq> rv_category_id r"
    using rule_has_category [OF assms(1)] D(2) by (metis imageI)
  with assms(2,4) D(1) show ?thesis by (auto simp: rules_inv_def)
qed

lemma rules_inv_insert_rule:
  assumes "rules_inv H db" and "insert_rule_version r db = Inr db'"
    and "\<And>c. c \<in> set (categories db) \<Longrightarrow> cat_id c = rv_category_id r \<Longrightarrow> rule_row_ok H c r"
  shows "rules_inv H db'"
  using assms(1,3) insert_rule_version_InrD(1) [OF assms(2)] by (auto simp: rules_inv_def)

lemma pick_category_spec:
  assumes "pick_category en x db existing = Inr (db', existing', c)"
    and g: "grown en db0 ys db" and f: "found_categories db existing" and x: "item_wf x"
  shows "grown en db0 (insert x ys) db'" "found_categories db' existing'"
    "map_of existing' (ci_key x) = Some c" "c \<in> set (categories db')" "cat_key c = ci_key x"
    "rule_versions db' = rule_versions db"
    "\<And>k d. map_of existing k = Some d \<Longrightarrow> map_of existing' k = Some d"
proof -
  have "grown en db0 (insert x ys) db' \<and> found_categories db' existing' \<and>
    map_of existing' (ci_key x) = Some c \<and> c \<in> set (categories db') \<and> cat_key c = ci_key x \<and>
    rule_versions db' = rule_versions db \<and>
    (\<forall>k d. map_of existing k = Some d \<longrightarrow> map_of existing' k = Some d)"
proof (cases "map_of existing (ci_key x)")
  case (Some d)
  then show ?thesis
    using assms by (auto simp: pick_category_def found_categories_def grown_def)
next
  case None
  let ?c = "new_category en x"
  from None assms(1) have ins: "insert_category ?c db = Inr db'" and c: "c = ?c"
    and e: "existing' = dict_set (ci_key x) ?c existing"
    by (auto simp: pick_category_def result_simps Let_def)
  note D = insert_category_InrD [OF ins]
  have i: "integrity db'" "rules_inv (env_sha256 en) db'"
    using g integrity_insert_category [OF _ ins]
      rules_inv_insert_category [OF _ _ ins new_category_row_ok [OF x]]
    by (auto simp: grown_def)
  from g obtain nc nr where n: "db = db0\<lparr>categories := categories db0 @ nc,
      rule_versions := rule_versions db0 @ nr\<rparr>" "\<forall>c \<in> set nc. \<exists>y \<in> ys. c = new_category en y"
    by (auto simp: grown_def)
  have "db' = db0\<lparr>categories := categories db0 @ (nc @ [?c]), rule_versions := rule_versions db0 @ nr\<rparr>
      \<and> (\<forall>c \<in> set (nc @ [?c]). \<exists>y \<in> insert x ys. c = new_category en y)"
    using D(1) n by auto
  then have "grown en db0 (insert x ys) db'" using i unfolding grown_def by blast
  moreover have "cat_key ?c = ci_key x" by (simp add: new_category_def)
  ultimately show ?thesis
    using f None D(1) c e by (auto simp: found_categories_def)
qed
  then show "grown en db0 (insert x ys) db'" "found_categories db' existing'"
    "map_of existing' (ci_key x) = Some c" "c \<in> set (categories db')" "cat_key c = ci_key x"
    "rule_versions db' = rule_versions db"
    "\<And>k d. map_of existing k = Some d \<Longrightarrow> map_of existing' k = Some d"
    by blast+
qed

lemma pick_rule_spec:
  assumes "pick_rule en x (rule_hash en x) c db = Inr (db', r)"
    and g: "grown en db0 ys db" and x: "item_wf x"
    and c: "c \<in> set (categories db)" "cat_key c = ci_key x"
  shows "grown en db0 ys db'" "categories db' = categories db" "r \<in> set (rule_versions db')"
    "rv_rule_hash r = rule_hash en x" "rv_category_id r = cat_id c"
    "set (rule_versions db) \<subseteq> set (rule_versions db')"
proof -
  have "grown en db0 ys db' \<and> categories db' = categories db \<and> r \<in> set (rule_versions db') \<and>
    rv_rule_hash r = rule_hash en x \<and> rv_category_id r = cat_id c \<and>
    set (rule_versions db) \<subseteq> set (rule_versions db')"
proof (cases "find (\<lambda>r. rv_category_id r = cat_id c \<and> rv_rule_hash r = rule_hash en x)
    (rule_versions db)")
  case (Some s)
  then show ?thesis
    using assms find_SomeD [OF Some] by (auto simp: pick_rule_def)
next
  case None
  let ?r = "new_rule en x (rule_hash en x) (cat_id c) db"
  from None assms(1) have ins: "insert_rule_version ?r db = Inr db'" and r: "r = ?r"
    by (auto simp: pick_rule_def result_simps Let_def)
  note D = insert_rule_version_InrD [OF ins]
  have inj: "inj_on cat_id (set (categories db))" using g by (auto simp: grown_def integrity_inj)
  have "rule_row_ok (env_sha256 en) d ?r" if "d \<in> set (categories db)" "cat_id d = rv_category_id ?r" for d
  proof -
    have "d = c" using inj that c(1) by (auto simp: new_rule_def dest: inj_onD)
    then show ?thesis using new_rule_row_ok [OF x, of d] c(2) by simp
  qed
  then have i: "integrity db'" "rules_inv (env_sha256 en) db'"
    using g integrity_insert_rule_version [OF _ ins] rules_inv_insert_rule [OF _ ins]
    by (auto simp: grown_def)
  from g obtain nc nr where n: "db = db0\<lparr>categories := categories db0 @ nc,
      rule_versions := rule_versions db0 @ nr\<rparr>" "\<forall>c \<in> set nc. \<exists>y \<in> ys. c = new_category en y"
    by (auto simp: grown_def)
  have "db' = db0\<lparr>categories := categories db0 @ nc, rule_versions := rule_versions db0 @ (nr @ [?r])\<rparr>"
    using D(1) n(1) by simp
  then have "grown en db0 ys db'" using i n(2) unfolding grown_def by blast
  then show ?thesis
    using D(1) r by (auto simp: new_rule_def)
qed
  then show "grown en db0 ys db'" "categories db' = categories db" "r \<in> set (rule_versions db')"
    "rv_rule_hash r = rule_hash en x" "rv_category_id r = cat_id c"
    "set (rule_versions db) \<subseteq> set (rule_versions db')"
    by blast+
qed

lemma selection_step:
  assumes "selection_inv en db0 ys sel" and "select_rule en rh sel x = Inr sel'"
    and "item_wf x" and "ci_key x \<notin> ci_key ` set ys"
    and "map_of rh (ci_key x) = Some (rule_hash en x)"
  shows "selection_inv en db0 (ys @ [x]) sel'"
proof -
  obtain db existing selected where sel: "sel = (db, existing, selected)" by (cases sel)
  with assms(2,5) obtain db1 existing1 c db2 r where
    p1: "pick_category en x db existing = Inr (db1, existing1, c)" and
    p2: "pick_rule en x (rule_hash en x) c db1 = Inr (db2, r)" and
    sel': "sel' = (db2, existing1, dict_set (ci_key x) r selected)"
    by (auto simp: select_rule_def result_simps)
  have s: "grown en db0 (set ys) db" "found_categories db existing"
    "map fst selected = map ci_key ys" "\<forall>kr \<in> set selected. selected_ok en (set ys) db existing kr"
    using assms(1) sel by (auto simp: selection_inv_def)
  note A = pick_category_spec [OF p1 s(1,2) assms(3)]
  note B = pick_rule_spec [OF p2 A(1) assms(3) A(4,5)]
  have new: "dict_set (ci_key x) r selected = selected @ [(ci_key x, r)]"
    by (rule dict_set_new) (use assms(4) s(3) in \<open>metis list.set_map\<close>)
  have f: "found_categories db2 existing1" using A(2) B(2) by (simp add: found_categories_def)
  have o: "selected_ok en (set (ys @ [x])) db2 existing1 kr" if "kr \<in> set selected" for kr
    using s(4) that A(6,7) B(6) by (fastforce simp: selected_ok_def)
  have n: "selected_ok en (set (ys @ [x])) db2 existing1 (ci_key x, r)"
    using A(3) B(3-5) by (auto simp: selected_ok_def)
  show ?thesis using B(1) f s(3) o n by (simp add: selection_inv_def sel' new)
qed

lemma grown_joined:
  assumes "grown en db0 ys db" and "integrity db0"
  shows "joined db config_id = joined db0 config_id"
proof -
  from assms(1) obtain nc nr where n: "db = db0\<lparr>categories := categories db0 @ nc,
      rule_versions := rule_versions db0 @ nr\<rparr>" and I: "integrity db"
    by (auto simp: grown_def)
  have "r \<in> set (rule_versions db0) \<and> c \<in> set (categories db0)"
    if j: "(l, r, c) \<in> joined db config_id" for l r c
  proof -
    have l: "l \<in> set (config_version_rules db0)" and r: "r \<in> set (rule_versions db)"
      "rv_id r = cvr_rule_version_id l" and c: "c \<in> set (categories db)" "cat_id c = cvr_category_id l"
      using j n by (auto simp: joined_def)
    from joined_total [OF assms(2) l] obtain r0 c0 where
      j0: "(l, r0, c0) \<in> joined db0 (cvr_config_version_id l)" by blast
    then have "r0 \<in> set (rule_versions db)" "rv_id r0 = rv_id r" "c0 \<in> set (categories db)"
      "cat_id c0 = cat_id c" using n r(2) c(2) by (auto simp: joined_def)
    then have "r = r0" "c = c0" using integrity_inj(1,3) [OF I] r(1) c(1) by (auto dest: inj_onD)
    with j0 show ?thesis by (auto simp: joined_def)
  qed
  then show ?thesis using n by (auto simp: joined_def)
qed

definition new_link :: "uuid \<Rightarrow> (string \<times> category) list \<Rightarrow> string \<times> rule_version \<Rightarrow> config_version_rule" where
  "new_link config_id existing kr =
     \<lparr>cvr_config_version_id = config_id,
      cvr_category_id = cat_id (the (map_of existing (fst kr))),
      cvr_rule_version_id = rv_id (snd kr)\<rparr>"

lemma link_loop:
  assumes "for_each (link_rule config_id existing) db selected = Inr db'" and "integrity db"
  shows "db' = db\<lparr>config_version_rules := config_version_rules db @ map (new_link config_id existing) selected\<rparr>
    \<and> integrity db'"
  using assms(1)
proof (rule for_each_prefix_inv [where P = "\<lambda>ys t. t = db\<lparr>config_version_rules :=
    config_version_rules db @ map (new_link config_id existing) ys\<rparr> \<and> integrity t"])
  fix ys x zs t t'
  assume t: "t = db\<lparr>config_version_rules := config_version_rules db @ map (new_link config_id existing) ys\<rparr>
      \<and> integrity t" and step: "link_rule config_id existing t x = Inr t'"
  have ins: "insert_config_version_rule (new_link config_id existing x) t = Inr t'"
    using step by (cases x) (auto simp: link_rule_def result_simps new_link_def)
  have "integrity t'" using t integrity_insert_config_version_rule [OF _ ins] by blast
  then show "t' = db\<lparr>config_version_rules := config_version_rules db @ map (new_link config_id existing) (ys @ [x])\<rparr>
      \<and> integrity t'"
    using t insert_config_version_rule_InrD(1) [OF ins] by simp
qed (use assms(2) in simp)

lemma apply_config_presentation_spec:
  assumes "apply_config_presentation config db = Inr db'" and "integrity db"
  obtains snapshot where "editable_snapshot_for_config db config = Inr snapshot"
    "config_request_wf snapshot"
    "db' = db\<lparr>categories := present_all (cr_categories snapshot) (categories db)\<rparr>"
proof -
  from assms(1) obtain snapshot where s: "editable_snapshot_for_config db config = Inr snapshot"
    and loop: "for_each (\<lambda>t item. bindR (require ConfigCategoryMissing (map_of (map (\<lambda>c. (cat_key c, c))
        (filter (\<lambda>c. cat_key c \<in> set (map ci_key (cr_categories snapshot))) (categories db))) (ci_key item)))
        (\<lambda>category. update_category (present item category) t)) db (cr_categories snapshot) = Inr db'"
    by (auto simp: apply_config_presentation_def result_simps Let_def)
  have wf: "config_request_wf snapshot"
    using s by (auto simp: editable_snapshot_for_config_def active_snapshot_def result_simps
        intro: ConfigPutRequest_wf split: if_splits)
  have "db' = db\<lparr>categories := present_all (cr_categories snapshot) (categories db)\<rparr>"
    using loop assms(2) config_request_wfD(3) [OF wf]
    by (rule present_loop) (auto dest!: map_of_SomeD)
  with s wf that show thesis by blast
qed

text \<open>The links of the new version are the selected rules, those of the others are unchanged.\<close>

lemma new_link_hashes:
  assumes I: "integrity db" and I': "integrity (db\<lparr>config_version_rules :=
        config_version_rules db @ map (new_link cid existing) selected\<rparr>)"
    and new: "\<forall>l \<in> set (config_version_rules db). cvr_config_version_id l \<noteq> cid"
    and f: "found_categories db existing"
    and s: "\<forall>kr \<in> set selected. selected_ok en ys db existing kr"
  shows "link_hashes (db\<lparr>config_version_rules :=
        config_version_rules db @ map (new_link cid existing) selected\<rparr>) cid
      = (\<lambda>(k, r). (k, rv_rule_hash r)) ` set selected"
proof -
  let ?db = "db\<lparr>config_version_rules := config_version_rules db @ map (new_link cid existing) selected\<rparr>"
  note inj = integrity_inj(1,3) [OF I]
  have entry: "\<exists>c. map_of existing k = Some c \<and> c \<in> set (categories db) \<and> cat_key c = k
      \<and> r \<in> set (rule_versions db)" if "(k, r) \<in> set selected" for k r
    using s f that by (fastforce simp: selected_ok_def found_categories_def)
  show ?thesis unfolding link_hashes_joined
  proof (intro equalityI subsetI)
    fix x assume "x \<in> (\<lambda>(l, r, c). (cat_key c, rv_rule_hash r)) ` joined ?db cid"
    then obtain l r c where j: "(l, r, c) \<in> joined ?db cid" and x: "x = (cat_key c, rv_rule_hash r)" by auto
    then obtain k r' where kr: "(k, r') \<in> set selected" "l = new_link cid existing (k, r')"
      using new by (auto simp: joined_def)
    obtain c' where c': "map_of existing k = Some c'" "c' \<in> set (categories db)" "cat_key c' = k"
      "r' \<in> set (rule_versions db)" using entry [OF kr(1)] by blast
    have "r = r'" using inj(2) j kr c'(4) by (auto simp: joined_def new_link_def dest: inj_onD)
    moreover have "c = c'" using inj(1) j kr c' by (auto simp: joined_def new_link_def dest: inj_onD)
    ultimately show "x \<in> (\<lambda>(k, r). (k, rv_rule_hash r)) ` set selected"
      using x kr(1) c'(3) by force
  next
    fix x assume "x \<in> (\<lambda>(k, r). (k, rv_rule_hash r)) ` set selected"
    then obtain k r where kr: "(k, r) \<in> set selected" "x = (k, rv_rule_hash r)" by auto
    obtain c where c: "map_of existing k = Some c" "c \<in> set (categories db)" "cat_key c = k"
      "r \<in> set (rule_versions db)" using entry [OF kr(1)] by blast
    have "new_link cid existing (k, r) \<in> set (config_version_rules ?db)"
      using imageI [OF kr(1), of "new_link cid existing"] by simp
    then have "(new_link cid existing (k, r), r, c) \<in> joined ?db cid"
      using c by (simp add: joined_def) (simp add: new_link_def)
    then show "x \<in> (\<lambda>(l, r, c). (cat_key c, rv_rule_hash r)) ` joined ?db cid"
      using kr(2) c(3) by force
  qed
qed

lemma other_link_hashes:
  "config_id \<noteq> cid \<Longrightarrow> link_hashes (db\<lparr>config_version_rules :=
        config_version_rules db @ map (new_link cid existing) selected\<rparr>) config_id
    = link_hashes db config_id"
  by (auto simp: link_hashes_def new_link_def)

lemma selected_hashes:
  assumes "map fst selected = map ci_key ys" and "distinct (map ci_key ys)"
    and "\<forall>kr \<in> set selected. selected_ok en (set ys) db existing kr"
  shows "(\<lambda>(k, r). (k, rv_rule_hash r)) ` set selected = (\<lambda>i. (ci_key i, rule_hash en i)) ` set ys"
proof (intro equalityI subsetI)
  fix x assume "x \<in> (\<lambda>(k, r). (k, rv_rule_hash r)) ` set selected"
  then show "x \<in> (\<lambda>i. (ci_key i, rule_hash en i)) ` set ys"
    using assms(3) by (fastforce simp: selected_ok_def)
next
  fix x assume "x \<in> (\<lambda>i. (ci_key i, rule_hash en i)) ` set ys"
  then obtain i where i: "i \<in> set ys" "x = (ci_key i, rule_hash en i)" by auto
  then have "ci_key i \<in> fst ` set selected" using assms(1) by (metis imageI list.set_map)
  then obtain r where r: "(ci_key i, r) \<in> set selected" by auto
  then obtain y where "y \<in> set ys" "ci_key y = ci_key i" "rv_rule_hash r = rule_hash en y"
    using assms(3) by (fastforce simp: selected_ok_def)
  then have "y = i" using assms(2) i(1) by (simp add: distinct_map inj_on_def)
  with i(2) r \<open>rv_rule_hash r = rule_hash en y\<close>
  show "x \<in> (\<lambda>(k, r). (k, rv_rule_hash r)) ` set selected" by force
qed

text \<open>
  What creating a version does: the pending version is superseded, a new version is appended
  (active when there was none), linked to the selected rules; only a first version touches the
  presentation of existing categories.
\<close>

lemma create_version_spec:
  assumes "create_version en request rh desired (active_version db) (pending_version db) db = Inr db'"
    and I: "config_inv (env_sha256 en) db" and wf: "config_request_wf request"
    and rh: "rh = dict_of (map (\<lambda>c. (ci_key c, rule_hash en c)) (cr_categories request))"
  obtains db1 existing selected db2 cv where
    "selection_inv en db (cr_categories request) (db1, existing, selected)"
    "db2 = db1\<lparr>config_versions := retire_pending en (config_versions db) @ [cv]\<rparr>"
    "integrity db2"
    "cv = new_config en request desired (active_version db = None)
            (db1\<lparr>config_versions := retire_pending en (config_versions db)\<rparr>)"
    "cv_id cv \<notin> cv_id ` set (config_versions db)"
    "integrity (db2\<lparr>config_version_rules := config_version_rules db @ map (new_link (cv_id cv) existing) selected\<rparr>)"
    "(if active_version db = None then apply_config_presentation cv
        (db2\<lparr>config_version_rules := config_version_rules db @ map (new_link (cv_id cv) existing) selected\<rparr>)
      else Inr (db2\<lparr>config_version_rules := config_version_rules db @ map (new_link (cv_id cv) existing) selected\<rparr>))
      = Inr db'"
proof -
  let ?items = "cr_categories request"
  let ?ex = "map (\<lambda>c. (cat_key c, c)) (filter (\<lambda>c. cat_key c \<in> ci_key ` set ?items) (categories db))"
  note w = config_request_wfD [OF wf]
  have rh': "map_of rh (ci_key x) = Some (rule_hash en x)" if "x \<in> set ?items" for x
  proof -
    have "distinct (map fst (map (\<lambda>c. (ci_key c, rule_hash en c)) ?items))"
      using w(3) by (simp add: comp_def)
    then show ?thesis using that by (simp add: rh dict_of_distinct)
  qed
  from assms(1) obtain db1 existing selected dbr cv dbc dbl where
    sel: "for_each (select_rule en rh) (db, ?ex, []) ?items = Inr (db1, existing, selected)" and
    ret: "supersede_pending en (pending_version db) db1 = Inr dbr" and
    cv: "cv = new_config en request desired (active_version db = None) dbr" and
    ins: "insert_config_version cv dbr = Inr dbc" and
    lnk: "for_each (link_rule (cv_id cv) existing) dbc selected = Inr dbl" and
    fin: "(if active_version db = None then apply_config_presentation cv dbl else Inr dbl) = Inr db'"
    by (auto simp: create_version_def result_simps Let_def)
  have s0: "selection_inv en db [] (db, ?ex, [])"
  proof -
    have "db = db\<lparr>categories := categories db @ [], rule_versions := rule_versions db @ []\<rparr>" by simp
    then have "grown en db (set []) db" using I unfolding grown_def config_inv_def
      by (intro conjI exI [of _ "[]"]) auto
    then show ?thesis by (auto simp: selection_inv_def found_categories_def dest!: map_of_SomeD)
  qed
  have s1: "selection_inv en db ?items (db1, existing, selected)"
    using sel s0
  proof (rule for_each_prefix_inv)
    fix ys x zs t t'
    assume h: "?items = ys @ x # zs" "selection_inv en db ys t" "select_rule en rh t x = Inr t'"
    show "selection_inv en db (ys @ [x]) t'"
    proof (rule selection_step [OF h(2,3)])
      show "item_wf x" using w(1,2) h(1) by (simp add: item_wf_def)
      show "ci_key x \<notin> ci_key ` set ys" using w(3) h(1) by auto
      show "map_of rh (ci_key x) = Some (rule_hash en x)" using rh' h(1) by simp
    qed
  qed
  then have g: "grown en db (set ?items) db1" by (simp add: selection_inv_def)
  then have c1: "config_versions db1 = config_versions db" "integrity db1"
    "config_version_rules db1 = config_version_rules db"
    by (auto simp: grown_def)
  then have p1: "pending_version db1 = pending_version db" by (simp add: pending_version_def)
  have st1: "status_inv db1" using I c1 by (simp add: config_inv_def status_inv_def)
  have dbr: "dbr = db1\<lparr>config_versions := retire_pending en (config_versions db)\<rparr>"
    using supersede_pending_spec [of en db1 dbr] ret c1 st1 p1 by simp
  have ir: "integrity dbr" using c1 by (simp add: dbr integrity_configs)
  note Dc = insert_config_version_InrD(1,2) [OF ins]
  have ic: "integrity dbc" by (rule integrity_insert_config_version [OF ir ins])
  have L: "dbl = dbc\<lparr>config_version_rules := config_version_rules dbc @ map (new_link (cv_id cv) existing) selected\<rparr>
      \<and> integrity dbl"
    by (rule link_loop [OF lnk ic])
  have dbc: "dbc = db1\<lparr>config_versions := retire_pending en (config_versions db) @ [cv]\<rparr>"
    using Dc(1) dbr by simp
  have nid: "cv_id cv \<notin> cv_id ` set (config_versions db)"
    using Dc(2) by (simp add: dbr)
  have cv': "cv = new_config en request desired (active_version db = None)
      (db1\<lparr>config_versions := retire_pending en (config_versions db)\<rparr>)"
    using cv unfolding dbr .
  have rules: "config_version_rules dbc = config_version_rules db"
    unfolding dbc using c1(3) by simp
  have dbl: "dbl = dbc\<lparr>config_version_rules := config_version_rules db @ map (new_link (cv_id cv) existing) selected\<rparr>"
    using L unfolding rules by blast
  show thesis
    by (rule that [OF s1 dbc ic cv' nid conjunct2 [OF L, unfolded dbl] fin [unfolded dbl]])
qed

lemma status_inv_append:
  assumes "status_inv db"
    and "cv_status cv = (if active_version db = None then ACTIVE else PENDING)"
  shows "status_inv (d\<lparr>config_versions := retire_pending en (config_versions db) @ [cv]\<rparr>)"
proof -
  let ?r = "retire_pending en (config_versions db)"
  have r: "status_inv (db\<lparr>config_versions := ?r\<rparr>)" by (rule status_inv_retire [OF assms(1)])
  show ?thesis
  proof (cases "active_version db")
    case None
    then have "config_versions db = []"
      using assms(1) by (auto simp: status_inv_def active_version_None)
    with None assms(2) show ?thesis by (auto simp: status_inv_def retire_pending_def)
  next
    case (Some a)
    then have a: "a \<in> set ?r" "cv_status a = ACTIVE"
      using active_version_SomeD [OF Some] retire_pending_keeps [of a] by auto
    have "cv_status cv = PENDING" using Some assms(2) by simp
    with r a retire_pending_status [of _ en "config_versions db"] show ?thesis
      by (auto simp: status_inv_def)
  qed
qed

lemma create_version_inv:
  assumes "create_version en request rh desired (active_version db) (pending_version db) db = Inr db'"
    and I: "config_inv (env_sha256 en) db" and wf: "config_request_wf request"
    and rh: "rh = dict_of (map (\<lambda>c. (ci_key c, rule_hash en c)) (cr_categories request))"
  shows "config_inv (env_sha256 en) db'"
proof -
  obtain db1 existing selected db2 cv where
    s: "selection_inv en db (cr_categories request) (db1, existing, selected)" and
    db2: "db2 = db1\<lparr>config_versions := retire_pending en (config_versions db) @ [cv]\<rparr>" and
    I2: "integrity db2" and
    cv: "cv = new_config en request desired (active_version db = None)
            (db1\<lparr>config_versions := retire_pending en (config_versions db)\<rparr>)" and
    nid: "cv_id cv \<notin> cv_id ` set (config_versions db)" and
    IL: "integrity (db2\<lparr>config_version_rules := config_version_rules db @ map (new_link (cv_id cv) existing) selected\<rparr>)" and
    fin: "(if active_version db = None then apply_config_presentation cv
        (db2\<lparr>config_version_rules := config_version_rules db @ map (new_link (cv_id cv) existing) selected\<rparr>)
      else Inr (db2\<lparr>config_version_rules := config_version_rules db @ map (new_link (cv_id cv) existing) selected\<rparr>))
      = Inr db'"
    by (rule create_version_spec [OF assms])
  let ?L = "db2\<lparr>config_version_rules := config_version_rules db @ map (new_link (cv_id cv) existing) selected\<rparr>"
  have i0: "integrity db" "status_inv db" using I by (simp_all add: config_inv_def)
  have g: "grown en db (set (cr_categories request)) db1" and f: "found_categories db1 existing"
    and k: "map fst selected = map ci_key (cr_categories request)"
    and so: "\<forall>kr \<in> set selected. selected_ok en (set (cr_categories request)) db1 existing kr"
    using s by (simp_all add: selection_inv_def)
  have same: "config_version_rules db1 = config_version_rules db" using g by (auto simp: grown_def)
  have stat: "status_inv ?L"
    using status_inv_append [OF i0(2), where cv = cv and en = en and d = db1]
    by (simp add: cv new_config_def db2 status_inv_def)
  have rul: "rules_inv (env_sha256 en) ?L" using g by (simp add: grown_def rules_inv_def db2)
  have hash1: "link_hashes db2 v = link_hashes db v" for v
  proof -
    have "link_hashes db2 v = link_hashes db1 v" by (simp add: link_hashes_def db2)
    then show ?thesis using grown_joined [OF g i0(1)] by (simp add: link_hashes_joined)
  qed
  have L: "?L = db2\<lparr>config_version_rules := config_version_rules db2 @ map (new_link (cv_id cv) existing) selected\<rparr>"
    by (simp add: db2 same)
  have old: "version_inv (env_sha256 en) ?L v" if v: "v \<in> set (config_versions db)" for v
  proof -
    have "cv_id v \<noteq> cv_id cv" using nid v by (metis imageI)
    then have "link_hashes ?L (cv_id v) = link_hashes db (cv_id v)"
      using other_link_hashes [of "cv_id v" "cv_id cv" db2] hash1 by (simp add: L)
    with I v show ?thesis by (simp add: config_inv_def version_inv_def)
  qed
  have "link_hashes ?L (cv_id cv) = (\<lambda>(k, r). (k, rv_rule_hash r)) ` set selected"
    unfolding L
  proof (rule new_link_hashes [OF I2])
    show "\<forall>l \<in> set (config_version_rules db2). cvr_config_version_id l \<noteq> cv_id cv"
    proof
      fix l assume "l \<in> set (config_version_rules db2)"
      then have "l \<in> set (config_version_rules db)" by (simp add: db2 same)
      from link_has_config [OF i0(1) this] nid
      show "cvr_config_version_id l \<noteq> cv_id cv" by (metis imageI)
    qed
    show "found_categories db2 existing" using f by (simp add: found_categories_def db2)
    show "\<forall>kr \<in> set selected. selected_ok en (set (cr_categories request)) db2 existing kr"
      using so by (auto simp: selected_ok_def db2)
  qed (use IL L in simp)
  then have "link_hashes ?L (cv_id cv) = request_hashes (env_sha256 en) request"
    using selected_hashes [OF k config_request_wfD(3) [OF wf] so]
    by (simp add: request_hashes_def rule_hash_item_hash)
  then have new: "version_inv (env_sha256 en) ?L cv"
    using wf by (simp add: version_inv_def cv new_config_def)
  have "config_inv (env_sha256 en) ?L"
    unfolding config_inv_def
  proof (intro conjI ballI IL stat rul)
    fix v assume "v \<in> set (config_versions ?L)"
    then show "version_inv (env_sha256 en) ?L v"
      using old new by (auto simp: db2 in_retire_pending version_inv_supersede)
  qed
  then show ?thesis
  proof (cases "active_version db")
    case None
    with fin have "apply_config_presentation cv ?L = Inr db'" by simp
    then obtain sn where sn: "config_request_wf sn"
      "db' = ?L\<lparr>categories := present_all (cr_categories sn) (categories ?L)\<rparr>"
      by (rule apply_config_presentation_spec [OF _ IL])
    have "\<forall>i \<in> set (cr_categories sn). item_wf i"
      using config_request_wfD(1,2) [OF sn(1)] by (simp add: item_wf_def)
    then show ?thesis
      using config_inv_present [OF \<open>config_inv (env_sha256 en) ?L\<close>] sn(2) by simp
  next
    case (Some a)
    with fin \<open>config_inv (env_sha256 en) ?L\<close> show ?thesis by simp
  qed
qed

section \<open>PUT\<close>

text \<open>What a successful PUT went through.\<close>

lemma put_config_impl_InrD:
  assumes "put_config_impl en request if_match checked expected db = Inr (view, db')"
  obtains db1 where
    "env_zone_known en (cr_timezone request)"
    "\<And>c. c \<in> set (cr_categories request) \<Longrightarrow> ci_budget_currency c = cr_display_currency request"
    "check_base en db if_match checked expected (or_else (pending_version db) (active_version db)) = Inr ()"
    "get_config en db1 = Inr view"
    "db' = reload_categories (env_dialect en) db1"
    "db1 = db \<or>
     (\<exists>a. active_version db = Some a \<and> edit_active en request a (pending_version db) db = Inr db1) \<or>
     create_version en request (dict_of (map (\<lambda>c. (ci_key c, rule_hash en c)) (cr_categories request)))
       (config_hash en request (dict_of (map (\<lambda>c. (ci_key c, rule_hash en c)) (cr_categories request))))
       (active_version db) (pending_version db) db = Inr db1"
proof -
  let ?rh = "dict_of (map (\<lambda>c. (ci_key c, rule_hash en c)) (cr_categories request))"
  let ?h = "config_hash en request ?rh"
  from assms obtain eh where
    c: "env_zone_known en (cr_timezone request)"
      "\<And>c. c \<in> set (cr_categories request) \<Longrightarrow> ci_budget_currency c = cr_display_currency request"
      "check_base en db if_match checked expected (or_else (pending_version db) (active_version db)) = Inr ()"
    and r: "(case semantic_match en db ?h (active_version db) of
          Some a \<Rightarrow> bindR (edit_active en request a (pending_version db) db) (commit_config_view en)
        | None \<Rightarrow>
            bindR (pending_matches en db ?h eh (pending_version db)) (\<lambda>same.
            if same then commit_config_view en db
            else bindR (create_version en request ?rh ?h (active_version db)
                          (pending_version db) db) (commit_config_view en))) = Inr (view, db')"
    by (auto simp: put_config_impl_def get_versions_def result_simps Let_def list_ex_iff
        validate_timezone_def)
  have v: "commit_config_view en d = Inr (view, db') \<Longrightarrow>
      get_config en d = Inr view \<and> db' = reload_categories (env_dialect en) d" for d
    by (auto simp: commit_config_view_def result_simps)
  show thesis
  proof (cases "semantic_match en db ?h (active_version db)")
    case (Some a)
    then have "active_version db = Some a"
      by (auto simp: semantic_match_def split: option.splits if_splits)
    moreover from Some r obtain d where "edit_active en request a (pending_version db) db = Inr d"
      "commit_config_view en d = Inr (view, db')" by (auto simp: result_simps)
    ultimately show thesis using that [OF c] v by blast
  next
    case None
    with r obtain same where s: "(if same then commit_config_view en db
            else bindR (create_version en request ?rh ?h (active_version db)
                          (pending_version db) db) (commit_config_view en)) = Inr (view, db')"
      by (auto simp: result_simps)
    show thesis
    proof (cases same)
      case True
      with s v have "get_config en db = Inr view \<and> db' = reload_categories (env_dialect en) db"
        by simp
      then show thesis using that [OF c] by blast
    next
      case False
      with s obtain d where "create_version en request ?rh ?h (active_version db) (pending_version db) db = Inr d"
        "commit_config_view en d = Inr (view, db')" by (auto simp: result_simps)
      with that [OF c] v show thesis by blast
    qed
  qed
qed

lemma reload_keys [simp]:
  "map cat_id (categories (reload_categories dia db)) = map cat_id (categories db)"
  by (simp add: reload_categories_def)

lemma config_inv_reload:
  assumes "config_inv H db"
  shows "config_inv H (reload_categories dia db)"
proof -
  let ?f = "\<lambda>c. c\<lparr>cat_budget_limit := reload_limit dia (cat_budget_limit c)\<rparr>"
  have v: "version_inv H (reload_categories dia db) v = version_inv H db v" for v
    by (rule version_inv_cong) (simp_all add: reload_categories_def image_image)
  have "category_row_ok (?f c)" if "category_row_ok c" for c
    using that money_field_reload by (simp add: category_row_ok_def)
  moreover have "rule_row_ok H (?f c) r = rule_row_ok H c r" for c r
    by (rule rule_row_ok_cong) simp
  ultimately have "rules_inv H (reload_categories dia db)"
    using assms by (auto simp: config_inv_def rules_inv_def reload_categories_def)
  with assms show ?thesis
    by (simp add: config_inv_def integrity_reload v) (simp add: status_inv_def reload_categories_def)
qed

lemma put_config_inv:
  assumes "put_config_impl en request if_match checked expected db = Inr (view, db')"
    and I: "config_inv (env_sha256 en) db" and wf: "config_request_wf request"
  shows "config_inv (env_sha256 en) db'"
proof -
  obtain db1 where db': "db' = reload_categories (env_dialect en) db1" and
    cases: "db1 = db \<or>
     (\<exists>a. active_version db = Some a \<and> edit_active en request a (pending_version db) db = Inr db1) \<or>
     create_version en request (dict_of (map (\<lambda>c. (ci_key c, rule_hash en c)) (cr_categories request)))
       (config_hash en request (dict_of (map (\<lambda>c. (ci_key c, rule_hash en c)) (cr_categories request))))
       (active_version db) (pending_version db) db = Inr db1"
    by (rule put_config_impl_InrD [OF assms(1)])
  have "config_inv (env_sha256 en) db1"
    using cases I edit_active_inv [OF _ I wf] create_version_inv [OF _ I wf refl] by blast
  then show ?thesis unfolding db' by (rule config_inv_reload)
qed

end
