(* ===== verification/ConfigCorrect.thy ===== *)
theory ConfigCorrect
  imports ConfigPut
begin

text \<open>
  What \<open>config_service.py\<close> promises: a PUT keeps the invariant, never overwrites an edit it has
  not seen, publishes exactly the requested presentation when the rules are the active ones,
  leaves everything the dashboard shows alone when they are not, and GET never fails.
\<close>

section \<open>The join as a list\<close>

lemma concat_unique:
  "distinct (map f xs) \<Longrightarrow>
   concat (map (\<lambda>x. if f x = k then g x else []) xs)
     = (case get_row f k xs of None \<Rightarrow> [] | Some x \<Rightarrow> g x)"
proof (induction xs)
  case (Cons x xs)
  show ?case
  proof (cases "f x = k")
    case True
    then have "concat (map (\<lambda>x. if f x = k then g x else []) xs) = []"
      using Cons.prems by (auto simp: image_iff)
    with True show ?thesis by (simp add: get_row_def)
  next
    case False
    then show ?thesis using Cons by (simp add: get_row_def)
  qed
qed (simp add: get_row_def)

definition link_row :: "db \<Rightarrow> uuid \<Rightarrow> config_version_rule \<Rightarrow>
    (config_version_rule \<times> rule_version \<times> category) list" where
  "link_row db config_id l =
     (if cvr_config_version_id l = config_id then
        (case get_row rv_id (cvr_rule_version_id l) (rule_versions db) of None \<Rightarrow> []
         | Some r \<Rightarrow> (case get_row cat_id (cvr_category_id l) (categories db) of None \<Rightarrow> []
             | Some c \<Rightarrow> [(l, r, c)])) else [])"

lemma rules_for_config_rows:
  assumes "integrity db"
  shows "rules_for_config db config_id = sort_key (\<lambda>(l, r, c). (cat_sort_order c, cat_key c))
     (concat (map (link_row db config_id) (config_version_rules db)))"
proof -
  have d: "distinct (map rv_id (rule_versions db))" "distinct (map cat_id (categories db))"
    using assms by (simp_all add: integrity_def keys_unique_def)
  have "link_row db config_id = (\<lambda>l. if cvr_config_version_id l = config_id then
      concat (map (\<lambda>r. if rv_id r = cvr_rule_version_id l then
        concat (map (\<lambda>c. if cat_id c = cvr_category_id l then [(l, r, c)] else []) (categories db))
        else []) (rule_versions db)) else [])"
    by (auto simp: fun_eq_iff link_row_def concat_unique [OF d(1)] concat_unique [OF d(2)]
        split: option.splits)
  then show ?thesis by (simp add: rules_for_config_def)
qed

lemma distinct_concat_small:
  assumes "\<And>x. x \<in> set xs \<Longrightarrow> g x = [] \<or> (\<exists>y. g x = [y])"
    and "\<And>x x' y y'. x \<in> set xs \<Longrightarrow> x' \<in> set xs \<Longrightarrow> g x = [y] \<Longrightarrow> g x' = [y'] \<Longrightarrow> f y = f y' \<Longrightarrow> x = x'"
    and "distinct xs"
  shows "distinct (map f (concat (map g xs)))"
  using assms
proof (induction xs)
  case (Cons x xs)
  have IH: "distinct (map f (concat (map g xs)))" using Cons by (metis distinct.simps(2) list.set_intros(2))
  from Cons.prems(1) [of x] consider "g x = []" | y where "g x = [y]" by auto
  then show ?case
  proof cases
    case (2 y)
    have "f y \<notin> f ` set (concat (map g xs))"
    proof
      assume "f y \<in> f ` set (concat (map g xs))"
      then obtain x' y' where x': "x' \<in> set xs" "y' \<in> set (g x')" "f y = f y'" by auto
      then have "g x' = [y']" using Cons.prems(1) [of x'] by auto
      then have "x = x'" using Cons.prems(2) [of x x' y y'] 2 x' by simp
      with x'(1) Cons.prems(3) show False by simp
    qed
    with 2 IH show ?thesis by simp
  qed (use IH in simp)
qed simp

lemma distinct_rules_for_config:
  assumes "integrity db"
  shows "distinct (map (\<lambda>(l, r, c). cat_key c) (rules_for_config db config_id))"
proof -
  let ?f = "\<lambda>(l, r, c). cat_key c"
  have "distinct (map ?f (concat (map (link_row db config_id) (config_version_rules db))))"
  proof (rule distinct_concat_small)
    fix l l' y y' assume l: "l \<in> set (config_version_rules db)" "l' \<in> set (config_version_rules db)"
      "link_row db config_id l = [y]" "link_row db config_id l' = [y']" "?f y = ?f y'"
    have j: "z \<in> joined db config_id \<and> fst z = k" if "k \<in> set (config_version_rules db)"
      "link_row db config_id k = [z]" for k z
      using that by (auto simp: link_row_def joined_def split: if_splits option.splits dest!: get_row_SomeD)
    obtain r c r' c' where y: "y = (l, r, c)" "y' = (l', r', c')"
      using j [OF l(1,3)] j [OF l(2,4)] by (cases y; cases y') auto
    then show "l = l'"
      using joined_unique [OF assms, of l r c config_id l' r' c'] j [OF l(1,3)] j [OF l(2,4)] l(5) by simp
  next
    show "distinct (config_version_rules db)"
      using assms by (simp add: integrity_def keys_unique_def distinct_map)
  qed (auto simp: link_row_def split: option.splits)
  moreover have "mset (map ?f (rules_for_config db config_id))
      = mset (map ?f (concat (map (link_row db config_id) (config_version_rules db))))"
    unfolding rules_for_config_rows [OF assms] mset_map mset_sort ..
  ultimately show ?thesis by (metis mset_eq_imp_distinct_iff)
qed

section \<open>GET never fails\<close>

lemma snapshot_item_wf:
  assumes "category_row_ok c" and "rule_row_ok H c r"
  shows "item_wf (snapshot_item r c)"
  using assms by (simp add: item_wf_def category_ok_def strip_category_def snapshot_item_def
      category_row_ok_def rule_row_ok_def)

lemma item_wf_valid: "item_wf i \<Longrightarrow> CategoryConfigInput i = Inr i"
  by (simp add: item_wf_def CategoryConfigInput_eq_Inr)

lemma joined_rows_ok:
  assumes "config_inv H db" and "(l, r, c) \<in> joined db config_id"
  shows "category_row_ok c" "rule_row_ok H c r"
proof -
  have I: "integrity db" using assms(1) by (simp add: config_inv_def)
  have j: "l \<in> set (config_version_rules db)" "r \<in> set (rule_versions db)" "c \<in> set (categories db)"
    "rv_id r = cvr_rule_version_id l" "cat_id c = cvr_category_id l"
    using assms(2) by (simp_all add: joined_def)
  from link_has_rule [OF I j(1)] obtain r' where "r' \<in> set (rule_versions db)"
    "rv_id r' = cvr_rule_version_id l" "rv_category_id r' = cvr_category_id l" by blast
  then have "rv_category_id r = cat_id c"
    using integrity_inj(3) [OF I] j by (metis inj_onD)
  then show "category_row_ok c" "rule_row_ok H c r"
    using assms(1) j by (auto simp: config_inv_def rules_inv_def)
qed

text \<open>The snapshot of a version has the categories of the request it came from.\<close>

definition snapshot_of :: "db \<Rightarrow> config_version \<Rightarrow> config_request" where
  "snapshot_of db config =
     (if cv_status config = PENDING then cv_source_config config
      else \<lparr>cr_timezone = cv_timezone config, cr_display_currency = cv_display_currency config,
            cr_aggregation_version = cv_aggregation_version config,
            cr_categories = map (\<lambda>(l, r, c). snapshot_item r c) (rules_for_config db (cv_id config))\<rparr>)"

lemma ci_key_snapshot_item [simp]: "ci_key (snapshot_item r c) = cat_key c"
  by (simp add: snapshot_item_def)

lemma snapshot_of_keys:
  assumes "config_inv H db" and "v \<in> set (config_versions db)"
  shows "ci_key ` set (cr_categories (snapshot_of db v)) = ci_key ` set (cr_categories (cv_source_config v))"
    and "distinct (map ci_key (cr_categories (snapshot_of db v)))"
    and "(\<lambda>(l, r, c). cat_key c) ` joined db (cv_id v) = ci_key ` set (cr_categories (cv_source_config v))"
proof -
  have I: "integrity db" and V: "version_inv H db v" using assms by (simp_all add: config_inv_def)
  have "fst ` link_hashes db (cv_id v) = fst ` request_hashes H (cv_source_config v)"
    using V by (simp add: version_inv_def)
  then show k: "(\<lambda>(l, r, c). cat_key c) ` joined db (cv_id v) = ci_key ` set (cr_categories (cv_source_config v))"
    by (simp add: link_hashes_joined request_hashes_def image_image case_prod_beta)
  have keys: "ci_key ` (\<lambda>(l, r, c). snapshot_item r c) ` joined db (cv_id v)
      = (\<lambda>(l, r, c). cat_key c) ` joined db (cv_id v)"
    by (simp add: image_image case_prod_beta)
  show "ci_key ` set (cr_categories (snapshot_of db v)) = ci_key ` set (cr_categories (cv_source_config v))"
    using k keys by (simp add: snapshot_of_def set_rules_for_config)
  have "map (ci_key \<circ> (\<lambda>(l, r, c). snapshot_item r c)) (rules_for_config db (cv_id v))
      = map (\<lambda>(l, r, c). cat_key c) (rules_for_config db (cv_id v))"
    by auto
  then have d: "distinct (map (ci_key \<circ> (\<lambda>(l, r, c). snapshot_item r c)) (rules_for_config db (cv_id v)))"
    using distinct_rules_for_config [OF I, of "cv_id v"] by metis
  show "distinct (map ci_key (cr_categories (snapshot_of db v)))"
  proof (cases "cv_status v = PENDING")
    case True
    then show ?thesis using V config_request_wfD(3) by (simp add: snapshot_of_def version_inv_def)
  next
    case False
    then show ?thesis using d unfolding snapshot_of_def by (simp only: if_False config_request.simps map_map)
  qed
qed

lemma snapshot_of_length:
  assumes "config_inv H db" and "v \<in> set (config_versions db)"
  shows "length (cr_categories (snapshot_of db v)) = length (cr_categories (cv_source_config v))"
proof -
  have "distinct (map ci_key (cr_categories (cv_source_config v)))"
    using assms config_request_wfD(3) by (simp add: config_inv_def version_inv_def)
  then have "card (ci_key ` set (cr_categories (snapshot_of db v))) = length (cr_categories (cv_source_config v))"
    using snapshot_of_keys(1) [OF assms] by (metis distinct_card length_map list.set_map)
  then show ?thesis
    using snapshot_of_keys(2) [OF assms] by (metis distinct_card length_map list.set_map)
qed

lemma snapshot_of_wf:
  assumes "config_inv H db" and "v \<in> set (config_versions db)"
  shows "config_request_wf (snapshot_of db v)"
proof (cases "cv_status v = PENDING")
  case True
  with assms show ?thesis by (simp add: snapshot_of_def config_inv_def version_inv_def)
next
  case False
  have V: "version_inv H db v" using assms by (simp add: config_inv_def)
  note src = config_request_wfD [of "cv_source_config v"]
  have wf: "config_request_wf (cv_source_config v)" using V by (simp add: version_inv_def)
  have items: "item_wf i" if i: "i \<in> set (cr_categories (snapshot_of db v))" for i
  proof -
    obtain l r c where "(l, r, c) \<in> joined db (cv_id v)" "i = snapshot_item r c"
      using i False by (auto simp: snapshot_of_def set_rules_for_config)
    then show ?thesis using joined_rows_ok [OF assms(1)] snapshot_item_wf by metis
  qed
  show ?thesis
  proof (rule config_request_wfI)
    show "category_ok c \<and> strip_category c = c" if "c \<in> set (cr_categories (snapshot_of db v))" for c
      using items [OF that] by (simp add: item_wf_def)
    show "distinct (map ci_key (cr_categories (snapshot_of db v)))"
      by (rule snapshot_of_keys(2) [OF assms])
    show "config_fields_ok (snapshot_of db v)"
      using src(4) [OF wf] V snapshot_of_length [OF assms] False
      by (simp add: config_fields_ok_def snapshot_of_def version_inv_def len_between_def)
    show "strip_ws (cr_timezone (snapshot_of db v)) = cr_timezone (snapshot_of db v)"
      "strip_ws (cr_display_currency (snapshot_of db v)) = cr_display_currency (snapshot_of db v)"
      using src(5,6) [OF wf] V False by (simp_all add: snapshot_of_def version_inv_def)
  qed
qed

lemma editable_snapshot_total:
  assumes "config_inv H db" and "v \<in> set (config_versions db)"
  shows "editable_snapshot_for_config db v = Inr (snapshot_of db v)"
proof (cases "cv_status v = PENDING")
  case True
  with snapshot_of_wf [OF assms] show ?thesis
    by (simp add: editable_snapshot_for_config_def snapshot_of_def config_request_wf_def)
next
  case False
  have "map_each (\<lambda>(l, rule, category). CategoryConfigInput (snapshot_item rule category))
      (rules_for_config db (cv_id v))
    = Inr (map (\<lambda>(l, r, c). snapshot_item r c) (rules_for_config db (cv_id v)))"
  proof (rule map_each_Inr_map)
    fix x assume "x \<in> set (rules_for_config db (cv_id v))"
    then obtain l r c where x: "x = (l, r, c)" and j: "(l, r, c) \<in> joined db (cv_id v)"
      by (metis prod_cases3 set_rules_for_config)
    show "(case x of (l, rule, category) \<Rightarrow> CategoryConfigInput (snapshot_item rule category))
        = Inr (case x of (l, r, c) \<Rightarrow> snapshot_item r c)"
      using item_wf_valid [OF snapshot_item_wf [OF joined_rows_ok [OF assms(1) j]]] by (simp add: x)
  qed
  with False snapshot_of_wf [OF assms] show ?thesis
    by (simp add: editable_snapshot_for_config_def active_snapshot_def snapshot_of_def
        config_request_wf_def)
qed

lemma edit_hash_request_total:
  assumes "config_request_wf r"
  shows "\<exists>h. edit_hash_for_request en r = Inr h"
proof -
  have "\<exists>t. money_text (ci_budget_limit c) = Some t" if "c \<in> set (cr_categories r)" for c
    using config_request_wfD(1) [OF assms that] money_field_text by (simp add: category_ok_def)
  then have "map_each (\<lambda>c. bindR (require InvalidOperation (money_text (ci_budget_limit c)))
      (\<lambda>limit. Inr (ci_key c, category_json_with (JStr limit) c))) (cr_categories r)
    = Inr (map (\<lambda>c. (ci_key c, category_json_with (JStr (the (money_text (ci_budget_limit c)))) c))
        (cr_categories r))"
    by (intro map_each_Inr_map) fastforce
  then show ?thesis by (simp add: edit_hash_for_request_def normalized_edit_payload_def)
qed

lemma edit_hash_total:
  assumes "config_inv H db" and "v \<in> set (config_versions db)"
  shows "\<exists>h. edit_hash_for_config en db v = Inr h"
  using editable_snapshot_total [OF assms] edit_hash_request_total [OF snapshot_of_wf [OF assms]]
  by (simp add: edit_hash_for_config_def)

lemma version_view_total:
  assumes "config_inv H db" and "v \<in> set (config_versions db)"
  shows "\<exists>view. version_view en db v = Inr view \<and>
    edit_hash_for_config en db v = Inr (vv_config_hash view)"
proof -
  let ?s = "snapshot_of db v"
  let ?rows = "map (\<lambda>(l, rule, category). (cat_key category, (rule, category))) (rules_for_config db (cv_id v))"
  let ?f = "\<lambda>item. bindR (require KeyError (map_of (dict_of ?rows) (ci_key item))) (\<lambda>(rule, category).
      bindR (CategoryConfigInput item) (\<lambda>item. Inr \<lparr>cw_id = uuid_str (cat_id category), cw_item = item,
           cw_rule_version = rv_version rule, cw_rule_hash = rv_rule_hash rule\<rparr>))"
  obtain h where h: "edit_hash_for_config en db v = Inr h" using edit_hash_total [OF assms] by blast
  have each: "\<exists>w. ?f i = Inr w" if i: "i \<in> set (cr_categories ?s)" for i
  proof -
    have "ci_key i \<in> ci_key ` set (cr_categories (cv_source_config v))"
      using i snapshot_of_keys(1) [OF assms] by blast
    moreover have "fst ` set ?rows = (\<lambda>(l, r, c). cat_key c) ` joined db (cv_id v)"
      by (simp add: set_rules_for_config image_image case_prod_beta)
    ultimately have "ci_key i \<in> fst ` set ?rows"
      by (simp only: snapshot_of_keys(3) [OF assms])
    then have "ci_key i \<in> dom (map_of (dict_of ?rows))" by (simp only: dom_map_of_dict_of)
    then obtain rc where "map_of (dict_of ?rows) (ci_key i) = Some rc" by blast
    moreover have "CategoryConfigInput i = Inr i"
      using config_request_wfD(1,2) [OF snapshot_of_wf [OF assms] i]
      by (simp add: CategoryConfigInput_eq_Inr)
    ultimately show ?thesis by (cases rc) simp
  qed
  have "map_each ?f (sort_key (\<lambda>c. (ci_sort_order c, ci_key c)) (cr_categories ?s))
      = Inr (map (\<lambda>i. projr (?f i)) (sort_key (\<lambda>c. (ci_sort_order c, ci_key c)) (cr_categories ?s)))"
  proof (rule map_each_Inr_map)
    fix i assume "i \<in> set (sort_key (\<lambda>c. (ci_sort_order c, ci_key c)) (cr_categories ?s))"
    then obtain w where w: "?f i = Inr w" using each [of i] by auto
    show "?f i = Inr (projr (?f i))" unfolding w by simp
  qed
  then show ?thesis
    by (simp add: version_view_def editable_snapshot_total [OF assms] Let_def h)
qed

lemma get_config_total:
  assumes "config_inv H db"
  shows "\<exists>view. get_config en db = Inr view"
proof -
  have "\<exists>w. optional_view en db c = Inr w"
    if "c = None \<or> (\<exists>v \<in> set (config_versions db). c = Some v)" for c
    using that
  proof
    assume "\<exists>v \<in> set (config_versions db). c = Some v"
    then obtain v where v: "v \<in> set (config_versions db)" "c = Some v" by blast
    from version_view_total [OF assms v(1), where en = en] obtain w where "version_view en db v = Inr w"
      by blast
    with v(2) show ?thesis by (simp add: optional_view_def)
  qed (simp add: optional_view_def)
  then obtain a p where "optional_view en db (active_version db) = Inr a"
    "optional_view en db (pending_version db) = Inr p"
    using active_version_SomeD pending_version_SomeD by (metis option.exhaust)
  then show ?thesis by (simp add: get_config_def get_versions_def)
qed

section \<open>Hashes before and after the commit\<close>

definition reload_row :: "dialect \<Rightarrow> category \<Rightarrow> category" where
  "reload_row dia c = c\<lparr>cat_budget_limit := reload_limit dia (cat_budget_limit c)\<rparr>"

lemma rules_for_config_reload:
  "rules_for_config (reload_categories dia db) config_id
     = map (\<lambda>(l, r, c). (l, r, reload_row dia c)) (rules_for_config db config_id)"
proof -
  let ?g = "\<lambda>(l, r, c). (l, r, reload_row dia c)"
  let ?f = "\<lambda>(l, r, c). (cat_sort_order c, cat_key c)"
  let ?rows = "\<lambda>cats. [(l, r, c). l \<leftarrow> config_version_rules db, cvr_config_version_id l = config_id,
          r \<leftarrow> rule_versions db, rv_id r = cvr_rule_version_id l,
          c \<leftarrow> cats, cat_id c = cvr_category_id l]"
  have f: "(\<lambda>x. ?f (?g x)) = ?f" by (auto simp: fun_eq_iff reload_row_def)
  have id: "cat_id (reload_row dia c) = cat_id c" for c by (simp add: reload_row_def)
  have "?rows (map (reload_row dia) (categories db)) = map ?g (?rows (categories db))"
    by (simp add: map_concat comp_def id if_distrib [of "map ?g"] cong: if_cong)
  moreover have "categories (reload_categories dia db) = map (reload_row dia) (categories db)"
    "config_version_rules (reload_categories dia db) = config_version_rules db"
    "rule_versions (reload_categories dia db) = rule_versions db"
    by (simp_all add: reload_categories_def reload_row_def)
  ultimately have "rules_for_config (reload_categories dia db) config_id
      = sort_key ?f (map ?g (?rows (categories db)))"
    by (simp only: rules_for_config_def)
  then show ?thesis unfolding sort_key_map f rules_for_config_def .
qed

lemma edit_hash_cong:
  assumes "cr_timezone r' = cr_timezone r" and "cr_display_currency r' = cr_display_currency r"
    and "cr_aggregation_version r' = cr_aggregation_version r"
    and "list_all2 (\<lambda>a b. (\<forall>j. category_json_with j a = category_json_with j b) \<and> ci_key a = ci_key b \<and>
           money_text (ci_budget_limit a) = money_text (ci_budget_limit b)) (cr_categories r') (cr_categories r)"
  shows "edit_hash_for_request en r' = edit_hash_for_request en r"
proof -
  have "map_each (\<lambda>c. bindR (require InvalidOperation (money_text (ci_budget_limit c)))
      (\<lambda>limit. Inr (ci_key c, category_json_with (JStr limit) c))) (cr_categories r')
    = map_each (\<lambda>c. bindR (require InvalidOperation (money_text (ci_budget_limit c)))
      (\<lambda>limit. Inr (ci_key c, category_json_with (JStr limit) c))) (cr_categories r)"
    using assms(4) by (induction rule: list_all2_induct) auto
  then show ?thesis
    by (simp add: edit_hash_for_request_def normalized_edit_payload_def assms(1-3))
qed

definition nonneg_rows :: "db \<Rightarrow> bool" where
  "nonneg_rows db \<longleftrightarrow> (\<forall>c \<in> set (categories db). \<not> dec_neg (cat_budget_limit c))"

lemma edit_hash_reload:
  assumes I: "config_inv H db" and v: "v \<in> set (config_versions db)" and n: "nonneg_rows db"
  shows "edit_hash_for_config en (reload_categories dia db) v = edit_hash_for_config en db v"
proof -
  have I': "config_inv H (reload_categories dia db)" by (rule config_inv_reload [OF I])
  have v': "v \<in> set (config_versions (reload_categories dia db))"
    using v by (simp add: reload_categories_def)
  have "edit_hash_for_request en (snapshot_of (reload_categories dia db) v)
      = edit_hash_for_request en (snapshot_of db v)"
  proof (cases "cv_status v = PENDING")
    case False
    have "list_all2 (\<lambda>a b. (\<forall>j. category_json_with j a = category_json_with j b) \<and> ci_key a = ci_key b \<and>
           money_text (ci_budget_limit a) = money_text (ci_budget_limit b))
        (map (\<lambda>(l, r, c). snapshot_item r (reload_row dia c)) (rules_for_config db (cv_id v)))
        (map (\<lambda>(l, r, c). snapshot_item r c) (rules_for_config db (cv_id v)))"
    proof (simp add: list_all2_map1 list_all2_map2, rule list.rel_refl_strong)
      fix x assume "x \<in> set (rules_for_config db (cv_id v))"
      then obtain l r c where x: "x = (l, r, c)" and j: "(l, r, c) \<in> joined db (cv_id v)"
        by (metis prod_cases3 set_rules_for_config)
      have "money_field (cat_budget_limit c)" "\<not> dec_neg (cat_budget_limit c)"
        using joined_rows_ok(1) [OF I j] n j
        by (auto simp: category_row_ok_def nonneg_rows_def joined_def)
      then have t: "money_text (reload_limit dia (cat_budget_limit c)) = money_text (cat_budget_limit c)"
        by (rule money_text_reload)
      show "(\<forall>j. category_json_with j (case x of (l, r, c) \<Rightarrow> snapshot_item r (reload_row dia c)) =
             category_json_with j (case x of (l, xa, xb) \<Rightarrow> snapshot_item xa xb)) \<and>
             ci_key (case x of (l, r, c) \<Rightarrow> snapshot_item r (reload_row dia c)) =
             ci_key (case x of (l, xa, xb) \<Rightarrow> snapshot_item xa xb) \<and>
             money_text (ci_budget_limit (case x of (l, r, c) \<Rightarrow> snapshot_item r (reload_row dia c))) =
             money_text (ci_budget_limit (case x of (l, xa, xb) \<Rightarrow> snapshot_item xa xb))"
        by (simp add: x t snapshot_item_def reload_row_def category_json_with_def)
    qed
    with False show ?thesis
      by (intro edit_hash_cong)
        (simp_all add: snapshot_of_def rules_for_config_reload comp_def case_prod_unfold)
  qed (simp add: snapshot_of_def)
  then show ?thesis
    by (simp add: edit_hash_for_config_def editable_snapshot_total [OF I v]
        editable_snapshot_total [OF I' v'])
qed

text \<open>After a PUT without negative zeros no category row has one.\<close>

lemma nonneg_present:
  "nonneg_rows db \<Longrightarrow> \<forall>i \<in> set items. \<not> dec_neg (ci_budget_limit i) \<Longrightarrow>
   nonneg_rows (db\<lparr>categories := present_all items (categories db)\<rparr>)"
  by (auto simp: nonneg_rows_def present_all_def present_def split: option.splits dest!: find_SomeD)

lemma map_each_source:
  assumes "map_each f xs = Inr ys" and "y \<in> set ys"
  shows "\<exists>x \<in> set xs. f x = Inr y"
proof -
  have "list_all2 (\<lambda>x y. f x = Inr y) xs ys" using assms(1) by (simp add: map_each_eq_Inr)
  then show ?thesis using assms(2) by (induction rule: list_all2_induct) auto
qed

lemma active_snapshot_limits:
  assumes "active_snapshot db config = Inr s" and "nonneg_rows db"
  shows "\<forall>i \<in> set (cr_categories s). \<not> dec_neg (ci_budget_limit i)"
proof -
  have strip: "CategoryConfigInput a = Inr b \<Longrightarrow> ci_budget_limit b = ci_budget_limit a" for a b
    by (auto simp: CategoryConfigInput_eq_Inr strip_category_def)
  from assms(1) obtain cats where
    c: "map_each (\<lambda>(l, rule, category). CategoryConfigInput (snapshot_item rule category))
          (rules_for_config db (cv_id config)) = Inr cats" and
    r: "map_each CategoryConfigInput cats = Inr (cr_categories s)"
    by (auto simp: active_snapshot_def ConfigPutRequest_def Let_def result_simps split: if_splits)
  let ?f = "\<lambda>(l, rule, category). CategoryConfigInput (snapshot_item rule category)"
  have n: "\<not> dec_neg (ci_budget_limit i)" if i: "i \<in> set cats" for i
  proof -
    from map_each_source [OF c i] obtain x where x: "x \<in> set (rules_for_config db (cv_id config))"
      "?f x = Inr i" by blast
    obtain l r k where lrk: "x = (l, r, k)" by (metis prod_cases3)
    with x have "k \<in> set (categories db)" "CategoryConfigInput (snapshot_item r k) = Inr i"
      by (auto simp: set_rules_for_config joined_def)
    with assms(2) strip show ?thesis by (fastforce simp: nonneg_rows_def snapshot_item_def)
  qed
  show ?thesis
  proof
    fix i assume "i \<in> set (cr_categories s)"
    from map_each_source [OF r this] obtain j where "j \<in> set cats" "CategoryConfigInput j = Inr i" by blast
    with n strip show "\<not> dec_neg (ci_budget_limit i)" by metis
  qed
qed

lemma grown_nonneg:
  assumes g: "grown en db ys db1" and n: "nonneg_rows db" and y: "\<forall>y \<in> ys. \<not> dec_neg (ci_budget_limit y)"
  shows "nonneg_rows db1"
proof -
  from g obtain nc nr where
    d: "db1 = db\<lparr>categories := categories db @ nc, rule_versions := rule_versions db @ nr\<rparr>"
    and nc: "\<forall>c \<in> set nc. \<exists>y \<in> ys. c = new_category en y"
    unfolding grown_def by blast
  have c: "categories db1 = categories db @ nc" by (simp add: d)
  have "\<not> dec_neg (cat_budget_limit c)" if "c \<in> set nc" for c
  proof -
    from nc that obtain z where "z \<in> ys" "c = new_category en z" by blast
    with y show ?thesis by (simp add: new_category_def)
  qed
  with n show ?thesis by (auto simp: c nonneg_rows_def)
qed

lemma put_nonneg:
  assumes I: "config_inv (env_sha256 en) db" and wf: "config_request_wf request"
    and n: "nonneg_rows db" "\<forall>i \<in> set (cr_categories request). \<not> dec_neg (ci_budget_limit i)"
    and c: "db1 = db \<or>
     (\<exists>a. active_version db = Some a \<and> edit_active en request a (pending_version db) db = Inr db1) \<or>
     create_version en request (dict_of (map (\<lambda>c. (ci_key c, rule_hash en c)) (cr_categories request)))
       h (active_version db) (pending_version db) db = Inr db1"
  shows "nonneg_rows db1"
  using c
proof (elim disjE exE conjE)
  fix a assume e: "edit_active en request a (pending_version db) db = Inr db1"
  have "nonneg_rows (db\<lparr>config_versions := cs\<rparr>)" for cs using n(1) by (simp add: nonneg_rows_def)
  from nonneg_present [OF this n(2)] show ?thesis
    using edit_active_spec [OF e _ _ config_request_wfD(3) [OF wf]] I by (simp add: config_inv_def)
next
  assume "create_version en request (dict_of (map (\<lambda>c. (ci_key c, rule_hash en c)) (cr_categories request)))
       h (active_version db) (pending_version db) db = Inr db1"
  then obtain d existing selected db2 cv where
    s: "selection_inv en db (cr_categories request) (d, existing, selected)" and
    db2: "db2 = d\<lparr>config_versions := retire_pending en (config_versions db) @ [cv]\<rparr>" and
    IL: "integrity (db2\<lparr>config_version_rules := config_version_rules db @ map (new_link (cv_id cv) existing) selected\<rparr>)" and
    cv: "cv = new_config en request h (active_version db = None)
            (d\<lparr>config_versions := retire_pending en (config_versions db)\<rparr>)" and
    fin: "(if active_version db = None then apply_config_presentation cv
        (db2\<lparr>config_version_rules := config_version_rules db @ map (new_link (cv_id cv) existing) selected\<rparr>)
      else Inr (db2\<lparr>config_version_rules := config_version_rules db @ map (new_link (cv_id cv) existing) selected\<rparr>))
      = Inr db1"
    by (rule create_version_spec [OF _ I wf refl])
  let ?L = "db2\<lparr>config_version_rules := config_version_rules db @ map (new_link (cv_id cv) existing) selected\<rparr>"
  have "nonneg_rows d" using s n grown_nonneg by (auto simp: selection_inv_def)
  then have nL: "nonneg_rows ?L" by (simp add: db2 nonneg_rows_def)
  show ?thesis
  proof (cases "active_version db")
    case None
    with fin have "apply_config_presentation cv ?L = Inr db1" by simp
    then obtain sn where sn: "editable_snapshot_for_config ?L cv = Inr sn"
      "db1 = ?L\<lparr>categories := present_all (cr_categories sn) (categories ?L)\<rparr>"
      by (rule apply_config_presentation_spec [OF _ IL])
    have "cv_status cv = ACTIVE" using None by (simp add: cv new_config_def)
    with sn(1) have "active_snapshot ?L cv = Inr sn" by (simp add: editable_snapshot_for_config_def)
    from nonneg_present [OF nL active_snapshot_limits [OF this nL]] sn(2) show ?thesis by simp
  next
    case (Some a)
    with fin nL show ?thesis by simp
  qed
qed (use n(1) in simp)

end
