(* ===== verification/Example.thy ===== *)
theory Example
  imports ConfigPut
begin

text \<open>
  A concrete run of the program, the input of the witnesses: an empty database, a first
  configuration with one category, a full refresh with one batch of one transaction, its
  commit and the dashboard. The digest is a constant of the right length, so the steps can be
  evaluated by rewriting; nothing here assumes a property of it.
\<close>

section \<open>The environment and the requests\<close>

definition zeros :: string where "zeros = replicate 64 (CHR ''0'')"

definition toy_digest :: "nat list \<Rightarrow> string" where "toy_digest bs = zeros"

fun toy_uuid :: "draw_site \<Rightarrow> uuid" where
  "toy_uuid (NewCategory k) = 1001"
| "toy_uuid (NewRule k) = 2001"
| "toy_uuid NewConfig = 3001"
| "toy_uuid NewRun = 4001"

definition toy_env :: env where
  "toy_env = \<lparr>env_dialect = PostgreSQL, env_sha256 = toy_digest,
     env_zone_known = (\<lambda>z. z = ''UTC''), env_zone_malformed = (\<lambda>z. take 1 z = ''/''),
     env_local_date = (\<lambda>z t. 719163 + t div 86400000000),
     env_now = 1787140800000000, env_uuid = toy_uuid\<rparr>"

definition five_hundred :: decimal where
  "five_hundred = \<lparr>dec_neg = False, dec_coef = 5000000, dec_exp = -4\<rparr>"

definition food :: category_input where
  "food = \<lparr>ci_key = ''food'', ci_name = ''Food'', ci_icon = None, ci_sort_order = 1,
     ci_budget_limit = five_hundred, ci_budget_currency = ''USD'', ci_lookback_days = 30,
     ci_classification_instruction = ''groceries'', ci_enabled = True\<rparr>"

definition request0 :: config_request where
  "request0 = \<lparr>cr_timezone = ''UTC'', cr_display_currency = ''USD'', cr_aggregation_version = 1,
     cr_categories = [food]\<rparr>"

section \<open>The first configuration\<close>

definition food_row :: category where
  "food_row = \<lparr>cat_id = 1001, cat_key = ''food'', cat_name = ''Food'', cat_icon = None,
     cat_sort_order = 1, cat_budget_limit = five_hundred, cat_budget_currency = ''USD''\<rparr>"

definition food_rule :: rule_version where
  "food_rule = \<lparr>rv_id = 2001, rv_category_id = 1001, rv_version = 1, rv_lookback_days = 30,
     rv_classification_instruction = ''groceries'', rv_is_enabled = True, rv_rule_hash = zeros\<rparr>"

definition first_config :: config_version where
  "first_config = \<lparr>cv_id = 3001, cv_version = 1, cv_status = ACTIVE, cv_timezone = ''UTC'',
     cv_display_currency = ''USD'', cv_aggregation_version = 1, cv_config_hash = zeros,
     cv_source_config = request0, cv_created_at = 1787140800000000,
     cv_activated_at = Some 1787140800000000, cv_superseded_at = None\<rparr>"

definition food_link :: config_version_rule where
  "food_link = \<lparr>cvr_config_version_id = 3001, cvr_category_id = 1001, cvr_rule_version_id = 2001\<rparr>"

definition db1 :: db where
  "db1 = empty_db\<lparr>categories := [food_row], rule_versions := [food_rule],
     config_versions := [first_config], config_version_rules := [food_link]\<rparr>"

definition view1 :: config_view where
  "view1 = \<lparr>view_active = Some \<lparr>vv_id = uuid_str 3001, vv_version = 1, vv_status = ACTIVE,
       vv_timezone = ''UTC'', vv_display_currency = ''USD'', vv_aggregation_version = 1,
       vv_config_hash = zeros, vv_requires_full_rebuild = True, vv_created_at = 1787140800000000,
       vv_activated_at = Some 1787140800000000,
       vv_categories = [\<lparr>cw_id = uuid_str 1001, cw_item = food, cw_rule_version = 1,
          cw_rule_hash = zeros\<rparr>]\<rparr>, view_pending = None\<rparr>"

section \<open>Evaluation\<close>

lemma bindR_weak_cong: "m = m' \<Longrightarrow> bindR m f = bindR m' f"
  by simp

lemma env_simps [simp]:
  "env_dialect toy_env = PostgreSQL" "env_sha256 toy_env = toy_digest"
  "env_zone_known toy_env z = (z = ''UTC'')" "env_now toy_env = 1787140800000000"
  "env_uuid toy_env = toy_uuid"
  by (simp_all add: toy_env_def)

lemma toy_digest_len: "length zeros = 64"
  by (simp add: zeros_def)

lemma toy_hash [simp]: "sha256_hex toy_digest j = zeros"
  by (simp add: sha256_hex_def toy_digest_def)

lemma food_limit [simp]:
  "money_text five_hundred = Some ''500.0000''" "money_units five_hundred = Some 5000000"
  "reload_limit PostgreSQL five_hundred = five_hundred"
  by code_simp+

lemma food_valid [simp]: "CategoryConfigInput food = Inr food" "ConfigPutRequest request0 = Inr request0"
  by code_simp+

lemma request0_wf: "config_request_wf request0"
  by (simp add: config_request_wf_def)

lemma row_simps [simp]:
  "snapshot_item food_rule food_row = food" "new_category toy_env food = food_row"
  "present food food_row = food_row"
  by (simp_all add: snapshot_item_def food_rule_def food_row_def food_def new_category_def
      present_def)

lemma edit_hash0 [simp]: "edit_hash_for_request toy_env request0 = Inr zeros"
  by (simp add: edit_hash_for_request_def normalized_edit_payload_def request0_def food_def)

lemma rules1 [simp]: "rules_for_config db1 3001 = [(food_link, food_rule, food_row)]"
  by (simp add: rules_for_config_def db1_def empty_db_def food_link_def food_rule_def food_row_def)

lemma snapshot1 [simp]: "active_snapshot db1 first_config = Inr request0"
proof -
  have "\<lparr>cr_timezone = cv_timezone first_config, cr_display_currency = cv_display_currency first_config,
      cr_aggregation_version = cv_aggregation_version first_config, cr_categories = [food]\<rparr> = request0"
    by (simp add: first_config_def request0_def)
  moreover have "cv_id first_config = 3001" by (simp add: first_config_def)
  ultimately show ?thesis by (simp add: active_snapshot_def)
qed

lemma select1: "for_each (select_rule toy_env rh) (empty_db, [], []) [food]
    = Inr (empty_db\<lparr>categories := [food_row], rule_versions := [food_rule]\<rparr>,
        [(''food'', food_row)], [(''food'', food_rule)])"
  if "map_of rh ''food'' = Some zeros"
proof -
  have key: "ci_key food = ''food''" by (simp add: food_def)
  have "new_rule toy_env food zeros 1001 (empty_db\<lparr>categories := [food_row]\<rparr>) = food_rule"
    by (simp add: new_rule_def food_rule_def food_def empty_db_def next_number_def)
  moreover have "cat_id food_row = 1001" by (simp add: food_row_def)
  moreover have "insert_category food_row empty_db = Inr (empty_db\<lparr>categories := [food_row]\<rparr>)"
    by (simp add: insert_category_def food_row_def empty_db_def guard.simps has_key_def)
  moreover have "insert_rule_version food_rule (empty_db\<lparr>categories := [food_row]\<rparr>)
      = Inr (empty_db\<lparr>categories := [food_row], rule_versions := [food_rule]\<rparr>)"
    by (simp add: insert_rule_version_def food_row_def food_rule_def empty_db_def guard.simps
        has_key_def toy_digest_len)
  moreover have "rule_versions (empty_db\<lparr>categories := [food_row]\<rparr>) = []" by (simp add: empty_db_def)
  ultimately show ?thesis using that
    by (simp add: select_rule_def pick_category_def pick_rule_def key)
qed

lemma empty_versions [simp]: "active_version empty_db = None" "pending_version empty_db = None"
  by (simp_all add: active_version_def pending_version_def empty_db_def first_of_def)

lemma food_hashes [simp]: "rule_hash toy_env food = zeros" "ci_key food = ''food''"
  "ci_budget_currency food = ''USD''" "config_hash toy_env request0 rh = zeros"
  by (simp_all add: rule_hash_def config_hash_def food_def)

lemma request0_fields [simp]: "cr_categories request0 = [food]" "cr_timezone request0 = ''UTC''"
  "cr_display_currency request0 = ''USD''"
  by (simp_all add: request0_def)

lemma publish1: "apply_config_presentation first_config db1 = Inr db1"
proof -
  have "editable_snapshot_for_config db1 first_config = Inr request0"
    by (simp add: editable_snapshot_for_config_def) (simp add: first_config_def)
  moreover have "update_category food_row db1 = Inr db1"
    by (simp add: update_category_def db1_def food_row_def guard.simps put_row_def empty_db_def)
  moreover have "filter (\<lambda>c. cat_key c \<in> {''food''}) (categories db1) = [food_row]"
    "cat_key food_row = ''food''"
    by (simp_all add: db1_def food_row_def)
  ultimately show ?thesis by (simp add: apply_config_presentation_def)
qed

lemma create1: "create_version toy_env request0 [(''food'', zeros)] zeros None None empty_db = Inr db1"
proof -
  let ?d = "empty_db\<lparr>categories := [food_row], rule_versions := [food_rule]\<rparr>"
  have "new_config toy_env request0 zeros True ?d = first_config"
    by (simp add: new_config_def first_config_def next_number_def empty_db_def server_now_def request0_def)
  moreover have "insert_config_version first_config ?d = Inr (?d\<lparr>config_versions := [first_config]\<rparr>)"
    by (simp add: insert_config_version_def first_config_def guard.simps has_key_def one_active_def
        config_checks_def empty_db_def toy_digest_len)
  moreover have "link_rule 3001 [(''food'', food_row)] (?d\<lparr>config_versions := [first_config]\<rparr>)
      (''food'', food_rule) = Inr db1"
    by (simp add: link_rule_def insert_config_version_rule_def guard.simps has_key_def db1_def
        cvr_key_def food_row_def food_rule_def first_config_def food_link_def empty_db_def)
  moreover have "cv_id first_config = 3001" by (simp add: first_config_def)
  moreover have "filter (\<lambda>c. cat_key c \<in> ci_key ` set (cr_categories request0)) (categories empty_db) = []"
    by (simp add: empty_db_def)
  ultimately show ?thesis
    using select1 [of "[(''food'', zeros)]"] publish1
    by (simp add: create_version_def supersede_pending_def)
qed

lemma view_of_db1: "get_config toy_env db1 = Inr view1"
proof -
  have "active_version db1 = Some first_config" "pending_version db1 = None"
    by (simp_all add: active_version_def pending_version_def db1_def first_of_def first_config_def)
  moreover have "version_view toy_env db1 first_config = Inr (the (view_active view1))"
  proof -
    have s: "editable_snapshot_for_config db1 first_config = Inr request0"
      by (simp add: editable_snapshot_for_config_def) (simp add: first_config_def)
    then have "edit_hash_for_config toy_env db1 first_config = Inr zeros"
      by (simp add: edit_hash_for_config_def)
    moreover have "get_sync_state db1 = None"
      by (simp add: get_sync_state_def db1_def empty_db_def get_row_def)
    moreover have "cv_id first_config = 3001" "cat_key food_row = ''food''" by (simp_all add: first_config_def food_row_def)
    ultimately show ?thesis using s
      by (simp add: version_view_def dict_of_def requires_full_rebuild_def view1_def)
        (simp add: first_config_def food_row_def food_rule_def request0_def)
  qed
  ultimately show ?thesis by (simp add: get_config_def get_versions_def optional_view_def view1_def)
qed

lemma put1: "put_config toy_env request0 None empty_db = Inr (view1, db1)"
proof -
  have "reload_categories PostgreSQL db1 = db1"
    by (simp add: reload_categories_def db1_def food_row_def)
  then have "commit_config_view toy_env db1 = Inr (view1, db1)"
    using view_of_db1 by (simp add: commit_config_view_def)
  then show ?thesis using create1
    by (simp add: put_config_def put_config_impl_def validate_timezone_def get_versions_def
        check_base_def or_else_def semantic_match_def pending_matches_def dict_of_def)
qed

end
