(* ===== verification/ConfigTheorems.thy ===== *)
theory ConfigTheorems
  imports ConfigCorrect Example
begin

text \<open>
  The properties of the configuration service, each with an evaluation of its hypotheses on the
  run of \<open>Example\<close>.
\<close>

lemma put_validated:
  assumes "put_config_impl en request if_match checked expected db = Inr (view, db')"
    and "ConfigPutRequest raw = Inr request" and "config_inv (env_sha256 en) db"
  shows "config_inv (env_sha256 en) db'"
  using put_config_inv [OF assms(1,3) ConfigPutRequest_wf [OF assms(2)]] .

lemma current_version_in:
  "or_else (pending_version db) (active_version db) = Some b \<Longrightarrow> b \<in> set (config_versions db)"
  by (auto simp: or_else_def split: option.splits dest: pending_version_SomeD active_version_SomeD)

section \<open>The invariant\<close>

text \<open>
  C18: A PUT of a validated request, from the REST route or from the MCP tool, keeps the
  configuration invariant: unique keys and foreign keys, at most one active and one pending
  version and none without an active one, stored rule hashes equal to the hash of their rule,
  and every version linked to exactly the rules of the request it was created from.
\<close>

theorem put_keeps_config_inv:
  assumes "ConfigPutRequest raw = Inr request" and "config_inv (env_sha256 en) db"
    and "put_config en request if_match db = Inr (view, db')
       \<or> put_config_checked en request expected db = Inr (view, db')"
  shows "config_inv (env_sha256 en) db'"
  using assms(3) put_validated [OF _ assms(1,2)]
  by (auto simp: put_config_def put_config_checked_def)

lemma put_keeps_config_inv_witness: "config_inv (env_sha256 toy_env) db1"
  by (rule put_keeps_config_inv [OF food_valid(2), of toy_env empty_db None view1 db1 None])
    (simp_all add: config_inv_empty put1)

section \<open>Compare and set\<close>

lemma check_base_pass:
  assumes "check_base en db if_match checked expected base = Inr u"
  shows "case base of
       None \<Rightarrow> (if checked then expected else if_match) = None
     | Some b \<Rightarrow> \<exists>tag. (if checked then expected else if_match) = Some tag
          \<and> edit_hash_for_config en db b = Inr (strip_quotes tag)"
  using assms by (cases checked)
    (auto simp: check_base_def result_simps split: option.splits if_splits)

text \<open>
  C19: No edit is overwritten unseen. A PUT succeeds only when its If-Match tag, without quotes,
  is the edit hash of the version being edited: the pending one if there is one, else the
  active one; and with no version at all only without a tag.
\<close>

theorem put_compare_and_set:
  assumes "put_config en request if_match db = Inr (view, db')"
  shows "case or_else (pending_version db) (active_version db) of
       None \<Rightarrow> if_match = None
     | Some base \<Rightarrow> \<exists>tag. if_match = Some tag \<and> edit_hash_for_config en db base = Inr (strip_quotes tag)"
proof -
  have "check_base en db if_match False None (or_else (pending_version db) (active_version db)) = Inr ()"
    by (rule put_config_impl_InrD [OF assms [unfolded put_config_def]])
  from check_base_pass [OF this] show ?thesis by (simp only: if_False)
qed

lemma put_compare_and_set_witness:
  "or_else (pending_version empty_db) (active_version empty_db) = None"
  using put_compare_and_set [OF put1] by (auto simp: or_else_def split: option.splits)

text \<open>
  A stale tag is answered with the version conflict and nothing else, for both callers,
  when the request itself is acceptable.
\<close>

theorem put_stale_tag:
  assumes "config_inv H db" and "or_else (pending_version db) (active_version db) = Some base"
    and "env_zone_known en (cr_timezone request)"
    and "\<forall>c \<in> set (cr_categories request). ci_budget_currency c = cr_display_currency request"
    and "edit_hash_for_config en db base \<noteq> Inr (strip_quotes tag)"
  shows "put_config en request (Some tag) db = Inl ConfigBaseChanged
    \<and> put_config_checked en request (Some tag) db = Inl ConfigBaseChanged"
proof -
  obtain h where h: "edit_hash_for_config en db base = Inr h"
    using edit_hash_total [OF assms(1) current_version_in [OF assms(2)]] by blast
  have "raise_if (list_ex (\<lambda>c. ci_budget_currency c \<noteq> cr_display_currency request)
      (cr_categories request)) MixedBudgetCurrency = Inr ()"
    using assms(4) by (simp add: raise_if_def list_ex_iff)
  then show ?thesis
    using assms(2,3,5) h
    by (simp_all add: put_config_def put_config_checked_def put_config_impl_def validate_timezone_def
        get_versions_def check_base_def)
qed

lemma current1: "or_else (pending_version db1) (active_version db1) = Some first_config"
  by (simp add: or_else_def active_version_def pending_version_def db1_def first_of_def first_config_def)

lemma edit_hash1: "edit_hash_for_config toy_env db1 first_config = Inr zeros"
proof -
  have "editable_snapshot_for_config db1 first_config = Inr request0"
    by (simp add: editable_snapshot_for_config_def) (simp add: first_config_def)
  then show ?thesis by (simp add: edit_hash_for_config_def)
qed

lemma config_inv1: "config_inv toy_digest db1"
  using put_validated [OF put1 [unfolded put_config_def] food_valid(2)] by (simp add: config_inv_empty)

lemma put_stale_tag_witness:
  "put_config toy_env request0 (Some ''stale'') db1 = Inl ConfigBaseChanged
   \<and> put_config_checked toy_env request0 (Some ''stale'') db1 = Inl ConfigBaseChanged"
proof -
  have "strip_quotes ''stale'' = ''stale''" by code_simp
  moreover have "length zeros \<noteq> length ''stale''" by (simp add: toy_digest_len)
  then have "zeros \<noteq> ''stale''" by metis
  ultimately have s: "edit_hash_for_config toy_env db1 first_config \<noteq> Inr (strip_quotes ''stale'')"
    by (simp add: edit_hash1)
  have "env_zone_known toy_env (cr_timezone request0)"
    "\<forall>c \<in> set (cr_categories request0). ci_budget_currency c = cr_display_currency request0" by simp_all
  from put_stale_tag [OF config_inv1 current1 this s] show ?thesis by simp
qed

section \<open>GET\<close>

text \<open>
  In every state the invariant allows GET answers: no stored row makes a snapshot fail its
  own validation, no category of a snapshot is missing from the join, and every hash can be
  computed. The hash it shows for a version is the version's edit hash.
\<close>

theorem get_config_answers:
  assumes "config_inv H db"
  shows "\<exists>view. get_config en db = Inr view
    \<and> (case active_version db of None \<Rightarrow> view_active view = None
       | Some a \<Rightarrow> \<exists>w. view_active view = Some w \<and> edit_hash_for_config en db a = Inr (vv_config_hash w))
    \<and> (case pending_version db of None \<Rightarrow> view_pending view = None
       | Some p \<Rightarrow> \<exists>w. view_pending view = Some w \<and> edit_hash_for_config en db p = Inr (vv_config_hash w))"
proof -
  have v: "\<exists>w. optional_view en db c = Inr w \<and> (case c of None \<Rightarrow> w = None
      | Some v \<Rightarrow> \<exists>x. w = Some x \<and> edit_hash_for_config en db v = Inr (vv_config_hash x))"
    if "\<And>v. c = Some v \<Longrightarrow> v \<in> set (config_versions db)" for c
    using version_view_total [OF assms, of "the c" en] that
    by (cases c) (auto simp: optional_view_def)
  obtain a where "optional_view en db (active_version db) = Inr a \<and> (case active_version db of
      None \<Rightarrow> a = None | Some v \<Rightarrow> \<exists>x. a = Some x \<and> edit_hash_for_config en db v = Inr (vv_config_hash x))"
    using v [of "active_version db"] active_version_SomeD by blast
  moreover obtain p where "optional_view en db (pending_version db) = Inr p \<and> (case pending_version db of
      None \<Rightarrow> p = None | Some v \<Rightarrow> \<exists>x. p = Some x \<and> edit_hash_for_config en db v = Inr (vv_config_hash x))"
    using v [of "pending_version db"] pending_version_SomeD by blast
  ultimately show ?thesis
    by (auto simp: get_config_def get_versions_def split: option.splits)
qed

lemma get_config_answers_witness: "\<exists>view. get_config toy_env db1 = Inr view"
  using get_config_answers [OF config_inv1, of toy_env] by blast

section \<open>The hash a PUT returns\<close>

lemma put_reloaded:
  assumes "put_config_impl en request if_match checked expected db = Inr (view, db')"
    and I: "config_inv (env_sha256 en) db" and wf: "config_request_wf request"
    and n: "nonneg_rows db" "\<forall>i \<in> set (cr_categories request). \<not> dec_neg (ci_budget_limit i)"
  obtains db1 where "db' = reload_categories (env_dialect en) db1" "get_config en db1 = Inr view"
    "config_inv (env_sha256 en) db1" "nonneg_rows db1"
proof -
  obtain db1 where d: "get_config en db1 = Inr view" "db' = reload_categories (env_dialect en) db1" and
    cases: "db1 = db \<or>
     (\<exists>a. active_version db = Some a \<and> edit_active en request a (pending_version db) db = Inr db1) \<or>
     create_version en request (dict_of (map (\<lambda>c. (ci_key c, rule_hash en c)) (cr_categories request)))
       (config_hash en request (dict_of (map (\<lambda>c. (ci_key c, rule_hash en c)) (cr_categories request))))
       (active_version db) (pending_version db) db = Inr db1"
    by (rule put_config_impl_InrD [OF assms(1)])
  have "config_inv (env_sha256 en) db1"
    using cases I edit_active_inv [OF _ I wf] create_version_inv [OF _ I wf refl] by blast
  with that d put_nonneg [OF I wf n cases] show thesis by blast
qed

lemma view_hashes:
  assumes "get_config en db = Inr view"
  shows "map_option vv_config_hash (view_active view)
      = map_option (\<lambda>v. projr (edit_hash_for_config en db v)) (active_version db)"
    and "map_option vv_config_hash (view_pending view)
      = map_option (\<lambda>v. projr (edit_hash_for_config en db v)) (pending_version db)"
proof -
  have "map_option vv_config_hash w = map_option (\<lambda>v. projr (edit_hash_for_config en db v)) c"
    if "optional_view en db c = Inr w" for c w
    using that by (auto simp: optional_view_def version_view_def Let_def result_simps split: option.splits)
  with assms show "map_option vv_config_hash (view_active view)
      = map_option (\<lambda>v. projr (edit_hash_for_config en db v)) (active_version db)"
    "map_option vv_config_hash (view_pending view)
      = map_option (\<lambda>v. projr (edit_hash_for_config en db v)) (pending_version db)"
    by (auto simp: get_config_def get_versions_def result_simps)
qed

lemma versions_reload [simp]:
  "active_version (reload_categories dia db) = active_version db"
  "pending_version (reload_categories dia db) = pending_version db"
  by (simp_all add: active_version_def pending_version_def reload_categories_def)

text \<open>
  C22: The answer to a PUT is computed before COMMIT, from the objects in the session; the next
  GET computes it from the rows. When no budget is minus zero, neither in the request nor in the
  rows, the two show the same hashes, so the hash a client got from its PUT is the If-Match tag
  its next PUT needs. (With a minus zero they differ: \<open>negative_zero_budget\<close>.)
\<close>

theorem put_hash_is_next_etag:
  assumes "put_config en request if_match db = Inr (view, db')"
    and "config_inv (env_sha256 en) db" and "ConfigPutRequest raw = Inr request"
    and "nonneg_rows db" and "\<forall>i \<in> set (cr_categories request). \<not> dec_neg (ci_budget_limit i)"
  shows "\<exists>view'. get_config en db' = Inr view'
    \<and> map_option vv_config_hash (view_active view') = map_option vv_config_hash (view_active view)
    \<and> map_option vv_config_hash (view_pending view') = map_option vv_config_hash (view_pending view)"
proof -
  obtain db1 where d: "db' = reload_categories (env_dialect en) db1" "get_config en db1 = Inr view"
    "config_inv (env_sha256 en) db1" "nonneg_rows db1"
    by (rule put_reloaded [OF assms(1) [unfolded put_config_def] assms(2)
          ConfigPutRequest_wf [OF assms(3)] assms(4,5)])
  obtain view' where v: "get_config en db' = Inr view'"
    using get_config_total [OF config_inv_reload [OF d(3)]] d(1) by blast
  have h: "map_option (\<lambda>v. projr (edit_hash_for_config en db' v)) c
      = map_option (\<lambda>v. projr (edit_hash_for_config en db1 v)) c"
    if "\<And>v. c = Some v \<Longrightarrow> v \<in> set (config_versions db1)" for c
    using edit_hash_reload [OF d(3) _ d(4)] that by (cases c) (simp_all add: d(1))
  have "map_option vv_config_hash (view_active view') = map_option vv_config_hash (view_active view)"
    using view_hashes(1) [OF v] view_hashes(1) [OF d(2)] h [of "active_version db1"]
      active_version_SomeD [of db1] by (simp add: d(1))
  moreover have "map_option vv_config_hash (view_pending view') = map_option vv_config_hash (view_pending view)"
    using view_hashes(2) [OF v] view_hashes(2) [OF d(2)] h [of "pending_version db1"]
      pending_version_SomeD [of db1] by (simp add: d(1))
  ultimately show ?thesis using v by blast
qed

lemma put_hash_is_next_etag_witness:
  "\<exists>view'. get_config toy_env db1 = Inr view'
    \<and> map_option vv_config_hash (view_active view') = Some zeros"
proof -
  have "nonneg_rows empty_db" by (simp add: nonneg_rows_def empty_db_def)
  moreover have "\<forall>i \<in> set (cr_categories request0). \<not> dec_neg (ci_budget_limit i)"
    by (simp add: food_def five_hundred_def)
  ultimately show ?thesis
    using put_hash_is_next_etag [OF put1 _ food_valid(2)] by (auto simp: config_inv_empty view1_def)
qed

section \<open>The three outcomes\<close>

lemma put_of_match:
  assumes "put_config_impl en request if_match checked expected db = Inr (view, db')"
    and "semantic_match en db (config_hash en request
          (dict_of (map (\<lambda>c. (ci_key c, rule_hash en c)) (cr_categories request)))) (active_version db) = Some a"
  shows "\<exists>db1. edit_active en request a (pending_version db) db = Inr db1
    \<and> db' = reload_categories (env_dialect en) db1"
  using assms by (auto simp: put_config_impl_def get_versions_def result_simps Let_def commit_config_view_def)

lemma put_of_no_match:
  assumes "put_config_impl en request if_match checked expected db = Inr (view, db')"
    and "semantic_match en db (config_hash en request
          (dict_of (map (\<lambda>c. (ci_key c, rule_hash en c)) (cr_categories request)))) (active_version db) = None"
  shows "\<exists>db1. (db1 = db \<or> create_version en request
       (dict_of (map (\<lambda>c. (ci_key c, rule_hash en c)) (cr_categories request)))
       (config_hash en request (dict_of (map (\<lambda>c. (ci_key c, rule_hash en c)) (cr_categories request))))
       (active_version db) (pending_version db) db = Inr db1)
    \<and> db' = reload_categories (env_dialect en) db1"
  using assms by (auto simp: put_config_impl_def get_versions_def result_simps Let_def
      commit_config_view_def split: if_splits)

definition requested_hash :: "env \<Rightarrow> config_request \<Rightarrow> string" where
  "requested_hash en request = config_hash en request
     (dict_of (map (\<lambda>c. (ci_key c, rule_hash en c)) (cr_categories request)))"

text \<open>
  C21: A PUT whose rules are the active ones edits in place. It supersedes a pending version and
  writes the name, icon, position, budget and currency of exactly the requested categories; no
  version, rule, link, run or transaction is added or changed.
\<close>

theorem put_edits_in_place:
  assumes "put_config en request if_match db = Inr (view, db')"
    and "config_inv (env_sha256 en) db" and "ConfigPutRequest raw = Inr request"
    and "active_version db = Some a" and "semantic_hash_for_config en db a = requested_hash en request"
  shows "db' = reload_categories (env_dialect en)
    (db\<lparr>config_versions := retire_pending en (config_versions db),
        categories := present_all (cr_categories request) (categories db)\<rparr>)"
proof -
  have "semantic_match en db (requested_hash en request) (active_version db) = Some a"
    using assms(4,5) by (simp add: semantic_match_def)
  from put_of_match [OF assms(1) [unfolded put_config_def] this [unfolded requested_hash_def]]
  obtain db1 where e: "edit_active en request a (pending_version db) db = Inr db1"
    "db' = reload_categories (env_dialect en) db1" by blast
  have "integrity db" "status_inv db" using assms(2) by (simp_all add: config_inv_def)
  from edit_active_spec [OF e(1) this config_request_wfD(3) [OF ConfigPutRequest_wf [OF assms(3)]]]
  show ?thesis using e(2) by simp
qed

text \<open>The same rules with another name and budget, sent with the tag of \<open>db1\<close>.\<close>

definition dining :: category_input where
  "dining = food\<lparr>ci_name := ''Dining'', ci_budget_limit := \<lparr>dec_neg = False, dec_coef = 75, dec_exp = 0\<rparr>\<rparr>"

definition request1 :: config_request where
  "request1 = request0\<lparr>cr_categories := [dining]\<rparr>"

lemma dining_simps [simp]:
  "ConfigPutRequest request1 = Inr request1" "CategoryConfigInput dining = Inr dining"
  "money_text (ci_budget_limit dining) = Some ''75.0000''"
  "ci_key dining = ''food''" "ci_budget_currency dining = ''USD''" "cr_categories request1 = [dining]"
  "cr_timezone request1 = ''UTC''" "cr_display_currency request1 = ''USD''"
  by code_simp+

lemma hashes1 [simp]: "rule_hash toy_env c = zeros" "config_hash toy_env r rh = zeros"
  "semantic_hash_for_config toy_env db v = zeros"
  by (simp_all add: rule_hash_def config_hash_def semantic_hash_for_config_def)

lemma edit1: "edit_active toy_env request1 first_config None db1
    = Inr (db1\<lparr>categories := [present dining food_row]\<rparr>)"
proof -
  have "update_category (present dining food_row) db1 = Inr (db1\<lparr>categories := [present dining food_row]\<rparr>)"
    by (simp add: update_category_def db1_def food_row_def guard.simps put_row_def empty_db_def
        present_def dining_def food_def) code_simp
  moreover have "cv_id first_config = 3001" "cat_key food_row = ''food''"
    by (simp_all add: first_config_def food_row_def)
  ultimately show ?thesis
    by (simp add: edit_active_def supersede_pending_def dict_of_def)
qed

lemma versions1: "active_version db1 = Some first_config" "pending_version db1 = None"
  by (simp_all add: active_version_def pending_version_def db1_def first_of_def first_config_def)

lemma put2: "\<exists>view. put_config toy_env request1 (Some zeros) db1
    = Inr (view, reload_categories PostgreSQL (db1\<lparr>categories := [present dining food_row]\<rparr>))"
proof -
  let ?d = "db1\<lparr>categories := [present dining food_row]\<rparr>"
  have e: "edit_active toy_env request1 first_config (pending_version db1) db1 = Inr ?d"
    using edit1 by (simp add: versions1)
  have "config_inv toy_digest ?d"
    using edit_active_inv [OF e config_inv1 ConfigPutRequest_wf [OF dining_simps(1)]] .
  from get_config_total [OF this, of toy_env] obtain view where v: "get_config toy_env ?d = Inr view" ..
  have t: "strip_quotes zeros = zeros" "edit_hash_for_request toy_env request1 = Inr zeros"
    unfolding zeros_def by (code_simp, simp add: edit_hash_for_request_def normalized_edit_payload_def
        zeros_def [symmetric])
  show ?thesis
    using e v t edit_hash1 versions1
    by (simp add: put_config_def put_config_impl_def validate_timezone_def get_versions_def
        check_base_def or_else_def semantic_match_def commit_config_view_def)
qed

lemma put_edits_in_place_witness:
  "reload_categories PostgreSQL (db1\<lparr>categories := [present dining food_row]\<rparr>) = reload_categories PostgreSQL
    (db1\<lparr>config_versions := retire_pending toy_env [first_config],
         categories := present_all [dining] [food_row]\<rparr>)"
proof -
  obtain view where p: "put_config toy_env request1 (Some zeros) db1
      = Inr (view, reload_categories PostgreSQL (db1\<lparr>categories := [present dining food_row]\<rparr>))"
    using put2 ..
  have "semantic_hash_for_config toy_env db1 first_config = requested_hash toy_env request1"
    by (simp add: requested_hash_def)
  from put_edits_in_place [OF p _ dining_simps(1) versions1(1) this] config_inv1 show ?thesis
    by (simp add: db1_def)
qed

lemma filter_active_retire:
  "filter (\<lambda>c. cv_status c = ACTIVE) (retire_pending en configs) = filter (\<lambda>c. cv_status c = ACTIVE) configs"
  by (induction configs) (simp_all add: retire_pending_def)

lemma link_row_grown:
  assumes "grown en db ys d" and "integrity db" and "l \<in> set (config_version_rules db)"
  shows "link_row (d\<lparr>config_versions := cs, config_version_rules := ls\<rparr>) config_id l = link_row db config_id l"
proof -
  from assms(1) obtain nc nr where d: "d = db\<lparr>categories := categories db @ nc,
      rule_versions := rule_versions db @ nr\<rparr>" unfolding grown_def by blast
  obtain r c where j: "(l, r, c) \<in> joined db (cvr_config_version_id l)"
    by (rule joined_total [OF assms(2,3)])
  then have "cvr_rule_version_id l \<in> rv_id ` set (rule_versions db)"
    "cvr_category_id l \<in> cat_id ` set (categories db)"
    by (auto simp: joined_def image_iff intro: sym)
  then have "get_row rv_id (cvr_rule_version_id l) (rule_versions db @ nr)
      = get_row rv_id (cvr_rule_version_id l) (rule_versions db)"
    "get_row cat_id (cvr_category_id l) (categories db @ nc)
      = get_row cat_id (cvr_category_id l) (categories db)"
    by (simp_all add: get_row_append_old)
  then show ?thesis by (simp add: link_row_def d split: option.splits)
qed

lemma rules_after_create:
  assumes g: "grown en db ys d" and I: "integrity db"
    and I': "integrity (d\<lparr>config_versions := cs, config_version_rules := config_version_rules db @ ls\<rparr>)"
    and new: "\<forall>l \<in> set ls. cvr_config_version_id l \<noteq> config_id"
  shows "rules_for_config (d\<lparr>config_versions := cs, config_version_rules := config_version_rules db @ ls\<rparr>) config_id
    = rules_for_config db config_id"
proof -
  let ?d = "d\<lparr>config_versions := cs, config_version_rules := config_version_rules db @ ls\<rparr>"
  have "map (link_row ?d config_id) (config_version_rules db) = map (link_row db config_id) (config_version_rules db)"
    using link_row_grown [OF g I] by simp
  moreover have "concat (map (link_row ?d config_id) ls) = []"
    using new by (auto simp: link_row_def)
  moreover have "config_version_rules ?d = config_version_rules db @ ls" by simp
  ultimately show ?thesis
    unfolding rules_for_config_rows [OF I] rules_for_config_rows [OF I']
    by (simp only: map_append concat_append append_Nil2)
qed

lemma create_leaves_active:
  assumes e: "create_version en request (dict_of (map (\<lambda>c. (ci_key c, rule_hash en c)) (cr_categories request)))
       h (active_version db) (pending_version db) db = Inr e1"
    and I: "config_inv (env_sha256 en) db" and wf: "config_request_wf request"
    and a: "active_version db = Some a"
  shows "active_version e1 = Some a \<and> rules_for_config e1 (cv_id a) = rules_for_config db (cv_id a)
    \<and> transactions e1 = transactions db \<and> transaction_categories e1 = transaction_categories db
    \<and> refresh_runs e1 = refresh_runs db \<and> sync_states e1 = sync_states db
    \<and> refresh_batches e1 = refresh_batches db \<and> staged_transactions e1 = staged_transactions db
    \<and> staged_transaction_categories e1 = staged_transaction_categories db"
proof -
  obtain d existing selected db2 cv where
    s: "selection_inv en db (cr_categories request) (d, existing, selected)" and
    db2: "db2 = d\<lparr>config_versions := retire_pending en (config_versions db) @ [cv]\<rparr>" and
    cv: "cv = new_config en request h (active_version db = None)
            (d\<lparr>config_versions := retire_pending en (config_versions db)\<rparr>)" and
    new: "cv_id cv \<notin> cv_id ` set (config_versions db)" and
    IL: "integrity (db2\<lparr>config_version_rules := config_version_rules db @ map (new_link (cv_id cv) existing) selected\<rparr>)" and
    fin: "(if active_version db = None then apply_config_presentation cv
        (db2\<lparr>config_version_rules := config_version_rules db @ map (new_link (cv_id cv) existing) selected\<rparr>)
      else Inr (db2\<lparr>config_version_rules := config_version_rules db @ map (new_link (cv_id cv) existing) selected\<rparr>))
      = Inr e1"
    by (rule create_version_spec [OF e I wf refl])
  have I0: "integrity db" using I by (simp add: config_inv_def)
  have g: "grown en db (set (cr_categories request)) d" using s by (simp add: selection_inv_def)
  have e1: "e1 = d\<lparr>config_versions := retire_pending en (config_versions db) @ [cv],
      config_version_rules := config_version_rules db @ map (new_link (cv_id cv) existing) selected\<rparr>"
    using fin a by (simp add: db2)
  have ne: "cv_id a \<noteq> cv_id cv" using new active_version_SomeD [OF a] by (metis imageI)
  have "rules_for_config e1 (cv_id a) = rules_for_config db (cv_id a)"
    unfolding e1 by (rule rules_after_create [OF g I0])
      (use IL ne in \<open>auto simp: db2 new_link_def\<close>)
  moreover have "active_version e1 = active_version db"
    using a by (simp add: active_version_def e1 filter_active_retire cv new_config_def)
  moreover have "transactions d = transactions db \<and> transaction_categories d = transaction_categories db
      \<and> refresh_runs d = refresh_runs db \<and> sync_states d = sync_states db
      \<and> refresh_batches d = refresh_batches db \<and> staged_transactions d = staged_transactions db
      \<and> staged_transaction_categories d = staged_transaction_categories db"
    using g by (auto simp: grown_def)
  ultimately show ?thesis using a by (simp add: e1)
qed

text \<open>
  C20: A PUT with other rules cannot disturb what is shown: the active version, the rules and
  categories it links, the transactions with their links, the runs, their batches and staged
  rows and the sync state stay as they were (the budgets only as a reload shows them). The new
  version waits until a full rebuild commits it.
\<close>

theorem put_leaves_active_alone:
  assumes "put_config en request if_match db = Inr (view, db')"
    and "config_inv (env_sha256 en) db" and "ConfigPutRequest raw = Inr request"
    and "active_version db = Some a" and "semantic_hash_for_config en db a \<noteq> requested_hash en request"
  shows "active_version db' = Some a
    \<and> rules_for_config db' (cv_id a)
        = map (\<lambda>(l, r, c). (l, r, reload_row (env_dialect en) c)) (rules_for_config db (cv_id a))
    \<and> transactions db' = transactions db \<and> transaction_categories db' = transaction_categories db
    \<and> refresh_runs db' = refresh_runs db \<and> sync_states db' = sync_states db
    \<and> refresh_batches db' = refresh_batches db \<and> staged_transactions db' = staged_transactions db
    \<and> staged_transaction_categories db' = staged_transaction_categories db"
proof -
  have "semantic_match en db (requested_hash en request) (active_version db) = None"
    using assms(4,5) by (simp add: semantic_match_def)
  from put_of_no_match [OF assms(1) [unfolded put_config_def] this [unfolded requested_hash_def]]
  obtain db1 where d: "db' = reload_categories (env_dialect en) db1" and
    "db1 = db \<or> create_version en request
       (dict_of (map (\<lambda>c. (ci_key c, rule_hash en c)) (cr_categories request)))
       (config_hash en request (dict_of (map (\<lambda>c. (ci_key c, rule_hash en c)) (cr_categories request))))
       (active_version db) (pending_version db) db = Inr db1" by blast
  then have "active_version db1 = Some a \<and> rules_for_config db1 (cv_id a) = rules_for_config db (cv_id a)
    \<and> transactions db1 = transactions db \<and> transaction_categories db1 = transaction_categories db
    \<and> refresh_runs db1 = refresh_runs db \<and> sync_states db1 = sync_states db
    \<and> refresh_batches db1 = refresh_batches db \<and> staged_transactions db1 = staged_transactions db
    \<and> staged_transaction_categories db1 = staged_transaction_categories db"
    using create_leaves_active [OF _ assms(2) ConfigPutRequest_wf [OF assms(3)] assms(4)] assms(4) by blast
  then show ?thesis
    by (simp add: d rules_for_config_reload) (simp add: reload_categories_def)
qed

text \<open>Another aggregation version, under a digest that tells its rules from the active ones.\<close>

definition ones :: string where "ones = replicate 64 (CHR ''1'')"

definition digest2 :: "nat list \<Rightarrow> string" where
  "digest2 bs = (if bs = canonical_json (semantics_json ''UTC'' ''USD'' 2 [(''food'', zeros)])
     then ones else zeros)"

definition toy_env2 :: env where
  "toy_env2 = toy_env\<lparr>env_sha256 := digest2, env_uuid := (\<lambda>_. 3002)\<rparr>"

definition request2 :: config_request where
  "request2 = request0\<lparr>cr_aggregation_version := 2\<rparr>"

lemma env2_simps [simp]:
  "env_dialect toy_env2 = PostgreSQL" "env_sha256 toy_env2 = digest2" "env_uuid toy_env2 s = 3002"
  "env_zone_known toy_env2 z = (z = ''UTC'')" "env_now toy_env2 = 1787140800000000"
  by (simp_all add: toy_env2_def)

lemma request2_simps [simp]:
  "ConfigPutRequest request2 = Inr request2" "cr_categories request2 = [food]"
  "cr_timezone request2 = ''UTC''" "cr_display_currency request2 = ''USD''"
  "cr_aggregation_version request2 = 2"
  by code_simp+

lemma digest2_len [simp]: "length (digest2 bs) = 64"
  by (simp add: digest2_def toy_digest_len) (simp add: ones_def)

lemma rule_hash2 [simp]: "rule_hash toy_env2 food = zeros" "item_hash digest2 food = zeros"
proof -
  have "canonical_json (rule_json (ci_key food) (ci_lookback_days food)
      (ci_classification_instruction food) (ci_enabled food))
    \<noteq> canonical_json (semantics_json ''UTC'' ''USD'' 2 [(''food'', zeros)])"
    by code_simp
  then show "rule_hash toy_env2 food = zeros" "item_hash digest2 food = zeros"
    by (simp_all add: rule_hash_def item_hash_def sha256_hex_def digest2_def)
qed

lemma desired2 [simp]: "config_hash toy_env2 request2 [(''food'', zeros)] = ones"
  by (simp add: config_hash_def sha256_hex_def digest2_def)

lemma active2 [simp]: "semantic_hash_for_config toy_env2 db1 first_config = zeros"
proof -
  have "canonical_json (semantics_json ''UTC'' ''USD'' 1 [(''food'', zeros)])
    \<noteq> canonical_json (semantics_json ''UTC'' ''USD'' 2 [(''food'', zeros)])"
    by code_simp
  moreover have "cv_id first_config = 3001" "cv_timezone first_config = ''UTC''"
    "cv_display_currency first_config = ''USD''" "cv_aggregation_version first_config = 1"
    "cat_key food_row = ''food''" "rv_rule_hash food_rule = zeros"
    by (simp_all add: first_config_def food_row_def food_rule_def)
  ultimately show ?thesis by (simp add: semantic_hash_for_config_def sha256_hex_def digest2_def)
qed

lemma config_inv2: "config_inv digest2 db1"
proof -
  have rows: "set (categories db1) = {food_row}" "set (rule_versions db1) = {food_rule}"
    "set (config_versions db1) = {first_config}"
    by (simp_all add: db1_def)
  have h: "item_hash toy_digest food = zeros" by (simp add: item_hash_def)
  have src: "cr_categories (cv_source_config first_config) = [food]" by (simp add: first_config_def)
  have "rule_row_ok toy_digest food_row food_rule" "cat_id food_row = rv_category_id food_rule"
    using config_inv1 rows by (auto simp: config_inv_def rules_inv_def food_row_def food_rule_def)
  moreover have "sha256_hex digest2 (rule_json (cat_key food_row) (rv_lookback_days food_rule)
      (rv_classification_instruction food_rule) (rv_is_enabled food_rule)) = zeros"
    using rule_hash2(2) by (simp add: item_hash_def food_row_def food_rule_def food_def)
  moreover have "rv_rule_hash food_rule = zeros" by (simp add: food_rule_def)
  ultimately have "rule_row_ok digest2 food_row food_rule" by (simp add: rule_row_ok_def)
  then have "rules_inv digest2 db1" using config_inv1 rows by (simp add: config_inv_def rules_inv_def)
  moreover have "version_inv digest2 db1 first_config"
    using config_inv1 rows h src by (simp add: config_inv_def version_inv_def request_hashes_def)
  ultimately show ?thesis using config_inv1 rows by (simp add: config_inv_def)
qed

definition second_config :: config_version where
  "second_config = first_config\<lparr>cv_id := 3002, cv_version := 2, cv_status := PENDING,
     cv_aggregation_version := 2, cv_config_hash := ones, cv_source_config := request2,
     cv_activated_at := None\<rparr>"

definition second_link :: config_version_rule where
  "second_link = food_link\<lparr>cvr_config_version_id := 3002\<rparr>"

definition db2 :: db where
  "db2 = db1\<lparr>config_versions := [first_config, second_config],
     config_version_rules := [food_link, second_link]\<rparr>"

lemma create2: "create_version toy_env2 request2 [(''food'', zeros)] ones (Some first_config) None db1 = Inr db2"
proof -
  have "cat_key food_row = ''food''" "cat_id food_row = 1001" "rv_category_id food_rule = 1001"
    "rv_rule_hash food_rule = zeros" "rule_versions db1 = [food_rule]" "categories db1 = [food_row]"
    "cv_id second_config = 3002"
    by (simp_all add: food_row_def food_rule_def db1_def second_config_def)
  moreover have "new_config toy_env2 request2 ones False db1 = second_config"
    by (simp add: new_config_def second_config_def first_config_def next_number_def db1_def server_now_def)
  moreover have "insert_config_version second_config db1
      = Inr (db1\<lparr>config_versions := [first_config, second_config]\<rparr>)"
    by (simp add: insert_config_version_def first_config_def second_config_def guard.simps has_key_def
        one_active_def config_checks_def db1_def empty_db_def ones_def)
  moreover have "link_rule 3002 [(''food'', food_row)] (db1\<lparr>config_versions := [first_config, second_config]\<rparr>)
      (''food'', food_rule) = Inr db2"
    by (simp add: link_rule_def insert_config_version_rule_def guard.simps has_key_def db1_def db2_def
        cvr_key_def food_row_def food_rule_def first_config_def second_config_def food_link_def
        second_link_def empty_db_def)
  ultimately show ?thesis
    by (simp add: create_version_def supersede_pending_def select_rule_def pick_category_def pick_rule_def)
qed

lemma food_limit_is: "ci_budget_limit food = five_hundred"
  by (simp add: food_def)

lemma edit_hash2 [simp]: "edit_hash_for_config toy_env2 db1 first_config = Inr zeros"
proof -
  have p: "normalized_edit_payload request0 = Inr (JObj
      [(''timezone'', JStr ''UTC''), (''display_currency'', JStr ''USD''), (''aggregation_version'', JInt 1),
       (''categories'', JArr [category_json_with (JStr ''500.0000'') food])])"
    by (simp add: normalized_edit_payload_def request0_def food_limit_is)
  have "canonical_json (JObj
      [(''timezone'', JStr ''UTC''), (''display_currency'', JStr ''USD''), (''aggregation_version'', JInt 1),
       (''categories'', JArr [category_json_with (JStr ''500.0000'') food])])
    \<noteq> canonical_json (semantics_json ''UTC'' ''USD'' 2 [(''food'', zeros)])"
    by code_simp
  with p have "edit_hash_for_request toy_env2 request0 = Inr zeros"
    by (simp add: edit_hash_for_request_def sha256_hex_def digest2_def)
  moreover have "editable_snapshot_for_config db1 first_config = Inr request0"
    by (simp add: editable_snapshot_for_config_def) (simp add: first_config_def)
  ultimately show ?thesis by (simp add: edit_hash_for_config_def)
qed

lemma put3: "\<exists>view. put_config toy_env2 request2 (Some zeros) db1 = Inr (view, reload_categories PostgreSQL db2)"
proof -
  have c: "create_version toy_env2 request2 (dict_of (map (\<lambda>c. (ci_key c, rule_hash toy_env2 c))
      (cr_categories request2))) ones (active_version db1) (pending_version db1) db1 = Inr db2"
    using create2 by (simp add: versions1 dict_of_def)
  have "config_inv digest2 db2"
    using create_version_inv [OF c _ ConfigPutRequest_wf [OF request2_simps(1)] refl] config_inv2 by simp
  from get_config_total [OF this, of toy_env2] obtain view where v: "get_config toy_env2 db2 = Inr view" ..
  obtain h where h: "edit_hash_for_request toy_env2 request2 = Inr h"
    using edit_hash_request_total [OF ConfigPutRequest_wf [OF request2_simps(1)]] by blast
  have t: "strip_quotes zeros = zeros" unfolding zeros_def by code_simp
  have "zeros \<noteq> ones" by (simp add: zeros_def ones_def)
  then show ?thesis
    using create2 v h t versions1
    by (simp add: put_config_def put_config_impl_def validate_timezone_def get_versions_def
        check_base_def or_else_def semantic_match_def commit_config_view_def pending_matches_def dict_of_def)
qed

lemma put_leaves_active_alone_witness:
  "active_version (reload_categories PostgreSQL db2) = Some first_config"
proof -
  obtain view where p: "put_config toy_env2 request2 (Some zeros) db1 = Inr (view, reload_categories PostgreSQL db2)"
    using put3 ..
  have "zeros \<noteq> ones" by (simp add: zeros_def ones_def)
  then have "semantic_hash_for_config toy_env2 db1 first_config \<noteq> requested_hash toy_env2 request2"
    by (simp add: requested_hash_def dict_of_def)
  from put_leaves_active_alone [OF p _ request2_simps(1) versions1(1) this] config_inv2 show ?thesis by simp
qed

end
