(* ===== verification/StorageTheorems.thy ===== *)
theory StorageTheorems
  imports ConfigFacts
begin

text \<open>
  Properties of the layers under the services: canonical JSON, the money column of both
  databases and the guards the migrations install on both.
\<close>

section \<open>Canonical JSON\<close>

text \<open>
  The bytes a hash is computed from do not depend on the order in which the members of an
  object were put in, at the top level or inside an array element.
\<close>

theorem canonical_json_order:
  assumes "mset kvs = mset kvs'" and "distinct (map fst kvs)"
  shows "canonical_json (JObj kvs) = canonical_json (JObj kvs')
    \<and> canonical_json (JArr (xs @ JObj kvs # ys)) = canonical_json (JArr (xs @ JObj kvs' # ys))"
proof -
  let ?f = "\<lambda>(k, j). (k, dumps j)"
  have "mset (map ?f kvs) = mset (map ?f kvs')" using assms(1) by simp
  moreover have "inj_on fst (set (map ?f kvs))"
    by (rule inj_on_fst_distinct) (use assms(2) in \<open>simp add: comp_def case_prod_beta\<close>)
  ultimately have "sort_key fst (map ?f kvs) = sort_key fst (map ?f kvs')" by (rule sort_key_perm)
  then show ?thesis by (simp add: canonical_json_def)
qed

lemma canonical_json_order_witness:
  "canonical_json (JObj [(''b'', JNull), (''a'', JInt 1)]) = canonical_json (JObj [(''a'', JInt 1), (''b'', JNull)])"
  using canonical_json_order [of "[(''b'', JNull), (''a'', JInt 1)]" "[(''a'', JInt 1), (''b'', JNull)]"] by simp

section \<open>Money columns\<close>

text \<open>
  C29: Every amount the request schema accepts can be stored in a money column of either
  database and is read back as the same whole number of ten-thousandths; NUMERIC and the scaled
  integer of SQLite give values that compare and print alike.
\<close>

theorem money_column_roundtrip:
  assumes "money_field v"
  shows "\<exists>u. 0 \<le> u \<and> u < 10 ^ 18 \<and> money_units v = Some u
    \<and> (\<forall>dia. has_units (reload_limit dia v) u \<and> money_field (reload_limit dia v)
         \<and> money_text (reload_limit dia v) = Some (dec_fixed \<lparr>dec_neg = False, dec_coef = u, dec_exp = -4\<rparr>))"
proof -
  obtain u where u: "money_units v = Some u" "0 \<le> u" "u < 10 ^ 18"
    by (rule money_field_units [OF assms])
  have "has_units (reload_limit dia v) u \<and> money_field (reload_limit dia v)
      \<and> money_text (reload_limit dia v) = Some (dec_fixed \<lparr>dec_neg = False, dec_coef = u, dec_exp = -4\<rparr>)" for dia
    by (rule reload_limit_units [OF assms, of dia]) (use u money_field_reload [OF assms, of dia] in simp)
  with u show ?thesis by blast
qed

lemma money_column_roundtrip_witness:
  "\<exists>u. money_units \<lparr>dec_neg = False, dec_coef = 425, dec_exp = -2\<rparr> = Some u
    \<and> has_units (reload_limit SQLite \<lparr>dec_neg = False, dec_coef = 425, dec_exp = -2\<rparr>) u"
proof -
  have "money_field \<lparr>dec_neg = False, dec_coef = 425, dec_exp = -2\<rparr>" by code_simp
  from money_column_roundtrip [OF this] show ?thesis by blast
qed

text \<open>
  A budget of minus zero passes validation (\<open>Decimal('-0') >= 0\<close>) and is hashed as
  \<open>-0.0000\<close>, but no column keeps the sign: the snapshot read back is hashed as \<open>0.0000\<close>. The
  hash a PUT of such a budget returns is therefore not the one the next GET shows.
\<close>

theorem negative_zero_budget:
  "money_field \<lparr>dec_neg = True, dec_coef = 0, dec_exp = 0\<rparr>
   \<and> money_text \<lparr>dec_neg = True, dec_coef = 0, dec_exp = 0\<rparr> = Some ''-0.0000''
   \<and> money_text (reload_limit SQLite \<lparr>dec_neg = True, dec_coef = 0, dec_exp = 0\<rparr>) = Some ''0.0000''
   \<and> money_text (reload_limit PostgreSQL \<lparr>dec_neg = True, dec_coef = 0, dec_exp = 0\<rparr>) = Some ''0.0000''"
  by (intro conjI; code_simp)

section \<open>Guards\<close>

text \<open>
  C30: How the update guards of the two databases compare, which are written independently, as
  triggers on SQLite and as functions on PostgreSQL. For a configuration version they let the
  same updates through. For a refresh run PostgreSQL lets through what SQLite does and exactly
  two updates more: one of a terminal run that changes nothing, and one from CREATED straight to
  VALIDATED with a null expected batch count and no items. (The other guards of
  \<open>Triggers\<close> have one condition for both.)
\<close>

theorem dialect_guards_agree:
  "(config_guard PostgreSQL c d \<longleftrightarrow> config_guard SQLite c d) \<and>
   (run_guard PostgreSQL old new \<longleftrightarrow> run_guard SQLite old new
      \<or> (run_state old \<in> {COMMITTED, FAILED} \<and> new = old)
      \<or> (run_state old = CREATED \<and> run_state new = VALIDATED \<and> run_identity_unchanged old new \<and>
         run_expected_batch_count new = None \<and> run_received_batch_count new = 0 \<and> run_actual_item_count new = 0))"
  using run_guards_agree [of old new] config_guards_agree [of c d] by (simp add: run_passes_postgres_only_def)

definition sample_run :: refresh_run where
  "sample_run = \<lparr>run_id = 1, run_idempotency_key = ''key'', run_request_hash = replicate 64 (CHR ''a''),
     run_mode = FULL, run_state = CREATED, run_config_version_id = 2,
     run_source_from_date = Some 739800, run_source_to_date = Some 739847,
     run_expected_accounts = [''a''], run_completed_accounts = None, run_expected_batch_count = None,
     run_computed_checksum = None, run_sync_revision_before = None, run_received_batch_count = 0,
     run_actual_item_count = 0, run_created_at = 0, run_uploaded_at = None, run_validated_at = None,
     run_committed_at = None, run_failed_at = None, run_error_code = None\<rparr>"

text \<open>
  They differ on a run moved from CREATED to VALIDATED without an expected batch count:
  SQLite's trigger, which coalesces the null, rejects it; PostgreSQL's condition is null, and
  an IF that is null does not raise.
\<close>

theorem postgres_guard_null_count:
  "run_guard SQLite sample_run (sample_run\<lparr>run_state := VALIDATED\<rparr>) = False
   \<and> run_guard PostgreSQL sample_run (sample_run\<lparr>run_state := VALIDATED\<rparr>) = True"
  by (simp add: run_guard_def run_guard_sqlite_def run_guard_postgres_def sample_run_def
      run_identity_unchanged_def run_state_guard_def run_not_terminal_def coalesce_def sql_eq_def)

text \<open>
  A refresh run never changes its identity: whatever update either database lets through
  keeps its key, request hash, mode, configuration, window, accounts and base revision; and a
  committed or failed run can be updated only to itself.
\<close>

theorem run_identity_immutable:
  assumes "update_refresh_run dia old new db = Inr db'"
  shows "run_identity_unchanged old new \<and> (run_state old \<in> {COMMITTED, FAILED} \<longrightarrow> new = old)"
  using update_refresh_run_InrD [OF assms] run_guard_terminal [of dia old new]
  by (auto simp: run_not_terminal_def)

lemma run_identity_immutable_witness:
  "run_identity_unchanged sample_run (sample_run\<lparr>run_state := UPLOADED, run_received_batch_count := 1\<rparr>)"
proof -
  let ?new = "sample_run\<lparr>run_state := UPLOADED, run_received_batch_count := 1\<rparr>"
  have "update_refresh_run SQLite sample_run ?new (empty_db\<lparr>refresh_runs := [sample_run]\<rparr>)
      = Inr (empty_db\<lparr>refresh_runs := [?new]\<rparr>)"
    by (simp add: update_refresh_run_def guard.simps run_checks_def run_guard_def run_guard_sqlite_def
        run_identity_unchanged_def run_state_guard_def run_not_terminal_def put_row_def opt_ok_def)
      (simp add: sample_run_def opt_ok_def)
  from run_identity_immutable [OF this] show ?thesis by blast
qed

end
