(* ===== verification/OAuthConfig.thy ===== *)
theory OAuthConfig
  imports Tables
begin

text \<open>
  \<open>oauth/config.py\<close>: the scopes, the two kinds of ChatGPT client that are allowed, and the
  values derived from the configuration (issuer, resource, the HMAC key and the credential
  generation). HMAC-SHA-256 and SHA-256 are arguments (\<open>oe_hmac\<close>, \<open>oe_sha256\<close>), from byte
  lists to byte lists, like the random draws of one request; Base64 is modelled.
\<close>

section \<open>Scopes and clients\<close>

definition BUDGET_READ_SCOPE :: string where "BUDGET_READ_SCOPE = ''budget:read''"

definition BUDGET_REFRESH_SCOPE :: string where "BUDGET_REFRESH_SCOPE = ''budget:refresh''"

definition BUDGET_CONFIG_SCOPE :: string where "BUDGET_CONFIG_SCOPE = ''budget:config''"

definition SUPPORTED_SCOPES :: "string list" where
  "SUPPORTED_SCOPES = [BUDGET_READ_SCOPE, BUDGET_REFRESH_SCOPE, BUDGET_CONFIG_SCOPE]"

definition CHATGPT_STABLE_CLIENT_ID :: string where
  "CHATGPT_STABLE_CLIENT_ID = ''https://chatgpt.com/oauth/client.json''"

definition CHATGPT_STABLE_REDIRECT_URI :: string where
  "CHATGPT_STABLE_REDIRECT_URI = ''https://chatgpt.com/connector_platform_oauth_redirect''"

definition token_char :: "char \<Rightarrow> bool" where
  "token_char c \<longleftrightarrow> char_in (CHR ''A'') (CHR ''Z'') c \<or> char_in (CHR ''a'') (CHR ''z'') c \<or>
     char_in (CHR ''0'') (CHR ''9'') c \<or> c = CHR ''_'' \<or> c = CHR ''-''"

text \<open>What is between a fixed prefix and a fixed suffix, when both are there.\<close>

definition between :: "string \<Rightarrow> string \<Rightarrow> string \<Rightarrow> string option" where
  "between pre suf s =
     (let n = length s - length pre - length suf; mid = take n (drop (length pre) s) in
      if s = pre @ mid @ suf then Some mid else None)"

definition callback_group :: "string \<Rightarrow> string \<Rightarrow> string \<Rightarrow> string option" where
  "callback_group pre suf s =
     (case between pre suf s of None \<Rightarrow> None
      | Some callback \<Rightarrow>
          if 1 \<le> length callback \<and> length callback \<le> 128 \<and> list_all token_char callback
          then Some callback else None)"

definition client_callback :: "string \<Rightarrow> string option" where
  "client_callback = callback_group ''https://chatgpt.com/oauth/'' ''/client.json''"

definition redirect_callback :: "string \<Rightarrow> string option" where
  "redirect_callback = callback_group ''https://chatgpt.com/connector/oauth/'' []"

datatype client_error = RedirectMismatch | NotExactClient | NotChatgptClient

text \<open>\<open>Inl\<close> is the ValueError.\<close>

definition validate_chatgpt_client :: "string \<Rightarrow> string \<Rightarrow> client_error + unit" where
  "validate_chatgpt_client client_id redirect_uri =
     (if client_id = CHATGPT_STABLE_CLIENT_ID then
        raise_if (redirect_uri \<noteq> CHATGPT_STABLE_REDIRECT_URI) RedirectMismatch
      else
        raise_if (client_callback client_id = None \<or> redirect_callback redirect_uri = None \<or>
                  client_callback client_id \<noteq> redirect_callback redirect_uri) NotExactClient)"

definition validate_chatgpt_client_id :: "string \<Rightarrow> client_error + unit" where
  "validate_chatgpt_client_id client_id =
     raise_if (\<not> (client_id = CHATGPT_STABLE_CLIENT_ID \<or> client_callback client_id \<noteq> None))
       NotChatgptClient"

section \<open>Configuration and environment\<close>

record oauth_config =
  oc_public_base_url :: string
  oc_consent_secrets :: "string list"
  oc_form_action_origins :: "string list"
  oc_authorization_code_ttl_seconds :: int
  oc_access_token_ttl_seconds :: int
  oc_refresh_token_ttl_seconds :: int

datatype oauth_draw = CodeRow | FamilyRow | AccessRow | RefreshRow

record oauth_env =
  oe_config :: oauth_config
  oe_hmac :: "nat list \<Rightarrow> nat list \<Rightarrow> nat list"
  oe_sha256 :: "nat list \<Rightarrow> nat list"
  oe_now :: timestamp
  oe_raw_code :: string
  oe_raw_access :: string
  oe_raw_refresh :: string
  oe_uuid :: "oauth_draw \<Rightarrow> uuid"

definition issuer :: "oauth_config \<Rightarrow> string" where
  "issuer cfg = oc_public_base_url cfg"

definition resource_of :: "oauth_config \<Rightarrow> string" where
  "resource_of cfg = oc_public_base_url cfg @ ''/mcp''"

definition protected_resource_metadata_url :: "oauth_config \<Rightarrow> string" where
  "protected_resource_metadata_url cfg =
     oc_public_base_url cfg @ ''/.well-known/oauth-protected-resource/mcp''"

definition hex_of_bytes :: "nat list \<Rightarrow> string" where
  "hex_of_bytes bs = concat (map (\<lambda>b. hex_digits 2 (int b)) bs)"

definition hmac_key :: "oauth_env \<Rightarrow> nat list" where
  "hmac_key en = oe_hmac en (utf8 (oc_consent_secrets (oe_config en) ! 0))
     (utf8 ''rolling-budget-oauth-v1'')"

definition credential_generation :: "oauth_env \<Rightarrow> string" where
  "credential_generation en = hex_of_bytes (oe_hmac en (hmac_key en) (utf8 ''credential-generation''))"

text \<open>\<open>hmac.compare_digest\<close> raises TypeError on text that is not ASCII.\<close>

definition is_ascii :: "string \<Rightarrow> bool" where
  "is_ascii s = list_all (\<lambda>c. (of_char c :: nat) < 128) s"

definition compare_digest :: "string \<Rightarrow> string \<Rightarrow> bool res" where
  "compare_digest a b = (if is_ascii a \<and> is_ascii b then Inr (a = b) else Inl TypeError)"

definition owner_secret_matches :: "oauth_config \<Rightarrow> string \<Rightarrow> bool res" where
  "owner_secret_matches cfg candidate =
     for_each (\<lambda>matches configured. bindR (compare_digest candidate configured) (\<lambda>m.
        Inr (m \<or> matches))) False (oc_consent_secrets cfg)"

section \<open>Base64url\<close>

definition b64_char :: "nat \<Rightarrow> char" where
  "b64_char n = (if n < 26 then char_of (65 + n) else if n < 52 then char_of (71 + n)
     else if n < 62 then char_of (n - 4) else if n = 62 then CHR ''-'' else CHR ''_'')"

text \<open>The six-bit groups; \<open>rstrip(b"=")\<close> leaves the last group without padding.\<close>

fun sextets :: "nat list \<Rightarrow> nat list" where
  "sextets [] = []"
| "sextets [a] = [a div 4, a mod 4 * 16]"
| "sextets [a, b] = [a div 4, a mod 4 * 16 + b div 16, b mod 16 * 4]"
| "sextets (a # b # c # bs) =
     [a div 4, a mod 4 * 16 + b div 16, b mod 16 * 4 + c div 64, c mod 64] @ sextets bs"

definition b64url :: "nat list \<Rightarrow> string" where
  "b64url bs = map b64_char (sextets bs)"

lemma b64url_example: "b64url [251, 255] = ''-_8''" "b64url [102, 111, 111, 98] = ''Zm9vYg''"
  by code_simp+

section \<open>Facts\<close>

lemma between_Some: "between pre suf s = Some mid \<longleftrightarrow> s = pre @ mid @ suf"
  by (auto simp: between_def Let_def)

lemma between_self [simp]: "between pre suf (pre @ mid @ suf) = Some mid"
  by (simp add: between_Some)

lemma callback_group_Some:
  "callback_group pre suf s = Some callback \<longleftrightarrow> s = pre @ callback @ suf \<and>
     1 \<le> length callback \<and> length callback \<le> 128 \<and> list_all token_char callback"
  by (auto simp: callback_group_def between_Some split: option.splits)

lemma length_hex_of_bytes [simp]: "length (hex_of_bytes bs) = 2 * length bs"
  by (induction bs) (simp_all add: hex_of_bytes_def)

lemma length_b64url_32: "length bs = 32 \<Longrightarrow> length (b64url bs) = 43"
proof -
  have "length (sextets bs) = (length bs * 4 + 2) div 3" for bs
  proof (induction bs rule: sextets.induct)
    case (4 a b c bs)
    then show ?case by simp
  qed simp_all
  then show "length bs = 32 \<Longrightarrow> length (b64url bs) = 43" by (simp add: b64url_def)
qed

end
