(* ===== verification/OAuthService.thy ===== *)
theory OAuthService
  imports OAuthConfig
begin

text \<open>
  \<open>oauth/service.py\<close>: the authorization server. Four tables hold digests only: authorization
  codes, token families, access tokens and refresh tokens. An operation returns its result and
  the database after it, because one error path commits: a refresh token that is presented a
  second time revokes its family before the error is raised.
\<close>

section \<open>The tables\<close>

record authorization_code =
  ac_id :: uuid
  ac_code_digest :: string
  ac_client_id :: string
  ac_redirect_uri :: string
  ac_resource :: string
  ac_scopes :: string
  ac_code_challenge :: string
  ac_subject :: string
  ac_credential_generation :: string
  ac_created_at :: timestamp
  ac_expires_at :: timestamp
  ac_consumed_at :: "timestamp option"

record token_family =
  fa_id :: uuid
  fa_client_id :: string
  fa_resource :: string
  fa_scopes :: string
  fa_subject :: string
  fa_credential_generation :: string
  fa_created_at :: timestamp
  fa_expires_at :: timestamp
  fa_revoked_at :: "timestamp option"
  fa_compromise_detected_at :: "timestamp option"

record access_token =
  at_id :: uuid
  at_token_digest :: string
  at_family_id :: uuid
  at_scopes :: string
  at_created_at :: timestamp
  at_expires_at :: timestamp
  at_revoked_at :: "timestamp option"

record refresh_token =
  rt_id :: uuid
  rt_token_digest :: string
  rt_family_id :: uuid
  rt_scopes :: string
  rt_created_at :: timestamp
  rt_expires_at :: timestamp
  rt_consumed_at :: "timestamp option"
  rt_revoked_at :: "timestamp option"

record oauth_db =
  codes :: "authorization_code list"
  families :: "token_family list"
  access_tokens :: "access_token list"
  refresh_tokens :: "refresh_token list"

definition empty_oauth_db :: oauth_db where
  "empty_oauth_db = \<lparr>codes = [], families = [], access_tokens = [], refresh_tokens = []\<rparr>"

section \<open>Errors\<close>

datatype oauth_error = OAuthProtocolError string string | OAuthFailure err

type_synonym 'a oauth_res = "oauth_error + 'a"

definition oauth_write :: "'a res \<Rightarrow> 'a oauth_res" where
  "oauth_write m = (case m of Inl e \<Rightarrow> Inl (OAuthFailure e) | Inr x \<Rightarrow> Inr x)"

definition client_error_text :: "client_error \<Rightarrow> string" where
  "client_error_text e = (case e of
     RedirectMismatch \<Rightarrow> ''The redirect URI does not match the ChatGPT CIMD client''
   | NotExactClient \<Rightarrow> ''Only an exact ChatGPT CIMD client and redirect URI are allowed''
   | NotChatgptClient \<Rightarrow> ''Only a ChatGPT CIMD client is allowed'')"

definition unauthorized_client :: "client_error \<Rightarrow> oauth_error" where
  "unauthorized_client e = OAuthProtocolError ''unauthorized_client'' (client_error_text e)"

definition invalid_scope :: oauth_error where
  "invalid_scope = OAuthProtocolError ''invalid_scope'' ''Unsupported or empty OAuth scope''"

definition scope_increase :: oauth_error where
  "scope_increase = OAuthProtocolError ''invalid_scope''
     ''A refresh cannot increase the original token scopes''"

definition invalid_target :: oauth_error where
  "invalid_target = OAuthProtocolError ''invalid_target'' ''The OAuth resource is not this MCP server''"

definition invalid_client :: oauth_error where
  "invalid_client = OAuthProtocolError ''invalid_client'' ''The OAuth client is invalid''"

definition invalid_request :: "string \<Rightarrow> oauth_error" where
  "invalid_request d = OAuthProtocolError ''invalid_request'' d"

definition invalid_grant :: "string \<Rightarrow> oauth_error" where
  "invalid_grant d = OAuthProtocolError ''invalid_grant'' d"

definition map_error :: "('e \<Rightarrow> 'f) \<Rightarrow> 'e + 'a \<Rightarrow> 'f + 'a" where
  "map_error f m = (case m of Inl e \<Rightarrow> Inl (f e) | Inr x \<Rightarrow> Inr x)"

section \<open>Requests and scopes\<close>

record authorization_request =
  aq_client_id :: string
  aq_redirect_uri :: string
  aq_resource :: string
  aq_scopes :: "string list"
  aq_code_challenge :: string
  aq_state :: "string option"

record token_pair =
  tp_access_token :: string
  tp_refresh_token :: string
  tp_expires_in :: int
  tp_scopes :: "string list"

record verified_token =
  vt_client_id :: string
  vt_scopes :: "string list"
  vt_expires_at :: int
  vt_resource :: string
  vt_subject :: string

definition as_dict :: "token_pair \<Rightarrow> json" where
  "as_dict p = JObj
     [(''access_token'', JStr (tp_access_token p)),
      (''token_type'', JStr ''Bearer''),
      (''expires_in'', JInt (tp_expires_in p)),
      (''refresh_token'', JStr (tp_refresh_token p)),
      (''scope'', JStr (join '' '' (tp_scopes p)))]"

definition encode_scopes :: "string list \<Rightarrow> string" where
  "encode_scopes scopes = join '' '' scopes"

text \<open>\<open>str.split(sep)\<close> on one character.\<close>

fun split_on :: "char \<Rightarrow> string \<Rightarrow> string list" where
  "split_on sep [] = [[]]"
| "split_on sep (c # cs) =
     (if c = sep then [] # split_on sep cs
      else case split_on sep cs of [] \<Rightarrow> [[c]] | w # ws \<Rightarrow> (c # w) # ws)"

definition decode_scopes :: "string \<Rightarrow> string list" where
  "decode_scopes scopes = filter (\<lambda>w. w \<noteq> []) (split_on (CHR '' '') scopes)"

text \<open>\<open>str.split()\<close>: the words between runs of white space.\<close>

definition split_words :: "string \<Rightarrow> string list" where
  "split_words s = filter (\<lambda>w. w \<noteq> [])
     (split_on (CHR '' '') (map (\<lambda>c. if is_space c \<or> (of_char c :: int) \<in> {28..31} then CHR '' '' else c) s))"

definition normalize_scopes :: "string list \<Rightarrow> string list oauth_res" where
  "normalize_scopes parts =
     (let normalized = sort (remdups parts) in
      if normalized = [] \<or> list_ex (\<lambda>s. s \<notin> set SUPPORTED_SCOPES) normalized
      then Inl invalid_scope else Inr normalized)"

definition normalize_scope_text :: "string \<Rightarrow> string list oauth_res" where
  "normalize_scope_text raw = normalize_scopes (split_words raw)"

text \<open>\<open>^[A-Za-z0-9_-]{43}$\<close> and \<open>^[A-Za-z0-9._~-]{43,128}$\<close>.\<close>

definition s256_challenge :: "string \<Rightarrow> bool" where
  "s256_challenge s \<longleftrightarrow> length s = 43 \<and> list_all token_char s"

definition code_verifier_ok :: "string \<Rightarrow> bool" where
  "code_verifier_ok s \<longleftrightarrow> len_between 43 128 s \<and>
     list_all (\<lambda>c. token_char c \<or> c = CHR ''.'' \<or> c = CHR ''~'') s"

definition validate_authorization_request ::
    "authorization_request \<Rightarrow> oauth_config \<Rightarrow> unit oauth_res" where
  "validate_authorization_request request cfg =
     bindR (map_error unauthorized_client
              (validate_chatgpt_client (aq_client_id request) (aq_redirect_uri request))) (\<lambda>_.
     bindR (raise_if (aq_resource request \<noteq> resource_of cfg) invalid_target) (\<lambda>_.
     bindR (normalize_scopes (aq_scopes request)) (\<lambda>_.
     bindR (raise_if (\<not> s256_challenge (aq_code_challenge request))
              (invalid_request ''A valid PKCE S256 challenge is required'')) (\<lambda>_.
     raise_if (case aq_state request of None \<Rightarrow> False | Some s \<Rightarrow> length s > 2048)
       (invalid_request ''OAuth state is too long'')))))"

text \<open>\<open>values.get(name)\<close> of the query parameters; an empty value counts as missing.\<close>

definition parse_authorization_request ::
    "(string \<rightharpoonup> string) \<Rightarrow> oauth_config \<Rightarrow> authorization_request oauth_res" where
  "parse_authorization_request values cfg =
     bindR (raise_if (values ''response_type'' \<noteq> Some ''code'')
              (OAuthProtocolError ''unsupported_response_type''
                 ''Only response_type=code is supported'')) (\<lambda>_.
     bindR (raise_if (values ''code_challenge_method'' \<noteq> Some ''S256'')
              (invalid_request ''PKCE code_challenge_method must be S256'')) (\<lambda>_.
     bindR (raise_if (list_ex (\<lambda>name. values name = None \<or> values name = Some [])
                        [''client_id'', ''redirect_uri'', ''resource'', ''scope'', ''code_challenge''])
              (invalid_request ''The authorization request is incomplete'')) (\<lambda>_.
     bindR (normalize_scope_text (the (values ''scope''))) (\<lambda>scopes.
     let request = \<lparr>aq_client_id = the (values ''client_id''),
                    aq_redirect_uri = the (values ''redirect_uri''),
                    aq_resource = the (values ''resource''),
                    aq_scopes = scopes,
                    aq_code_challenge = the (values ''code_challenge''),
                    aq_state = values ''state''\<rparr>
     in bindR (validate_authorization_request request cfg) (\<lambda>_. Inr request)))))"

section \<open>Writes\<close>

definition oauth_digest :: "oauth_env \<Rightarrow> string \<Rightarrow> string \<Rightarrow> string" where
  "oauth_digest en kind raw_value =
     hex_of_bytes (oe_hmac en (hmac_key en) (utf8 (kind @ [CHR 0x00] @ raw_value)))"

definition insert_code :: "authorization_code \<Rightarrow> oauth_db \<Rightarrow> oauth_db res" where
  "insert_code c db =
     bindR (guard
       [(\<not> has_key ac_id (ac_id c) (codes db), PrimaryKey ''oauth_authorization_codes''),
        (\<not> has_key ac_code_digest (ac_code_digest c) (codes db),
           UniqueKey ''oauth_authorization_codes.code_digest''),
        (length (ac_code_digest c) = 64, CheckFailed ''code_digest_sha256''),
        (length (ac_code_challenge c) = 43, CheckFailed ''code_challenge_s256''),
        (length (ac_credential_generation c) = 64, CheckFailed ''credential_generation_sha256'')]) (\<lambda>_.
     Inr (db\<lparr>codes := codes db @ [c]\<rparr>))"

definition insert_family :: "token_family \<Rightarrow> oauth_db \<Rightarrow> oauth_db res" where
  "insert_family f db =
     bindR (guard
       [(\<not> has_key fa_id (fa_id f) (families db), PrimaryKey ''oauth_token_families''),
        (length (fa_credential_generation f) = 64, CheckFailed ''credential_generation_sha256'')]) (\<lambda>_.
     Inr (db\<lparr>families := families db @ [f]\<rparr>))"

definition insert_access_token :: "access_token \<Rightarrow> oauth_db \<Rightarrow> oauth_db res" where
  "insert_access_token t db =
     bindR (guard
       [(\<not> has_key at_id (at_id t) (access_tokens db), PrimaryKey ''oauth_access_tokens''),
        (\<not> has_key at_token_digest (at_token_digest t) (access_tokens db),
           UniqueKey ''oauth_access_tokens.token_digest''),
        (has_key fa_id (at_family_id t) (families db), ForeignKey ''oauth_access_tokens''),
        (length (at_token_digest t) = 64, CheckFailed ''token_digest_sha256'')]) (\<lambda>_.
     Inr (db\<lparr>access_tokens := access_tokens db @ [t]\<rparr>))"

definition insert_refresh_token :: "refresh_token \<Rightarrow> oauth_db \<Rightarrow> oauth_db res" where
  "insert_refresh_token t db =
     bindR (guard
       [(\<not> has_key rt_id (rt_id t) (refresh_tokens db), PrimaryKey ''oauth_refresh_tokens''),
        (\<not> has_key rt_token_digest (rt_token_digest t) (refresh_tokens db),
           UniqueKey ''oauth_refresh_tokens.token_digest''),
        (has_key fa_id (rt_family_id t) (families db), ForeignKey ''oauth_refresh_tokens''),
        (length (rt_token_digest t) = 64, CheckFailed ''token_digest_sha256'')]) (\<lambda>_.
     Inr (db\<lparr>refresh_tokens := refresh_tokens db @ [t]\<rparr>))"

text \<open>Deleting a family cascades to its tokens.\<close>

definition delete_expired :: "timestamp \<Rightarrow> oauth_db \<Rightarrow> oauth_db" where
  "delete_expired now db =
     (let gone = map fa_id (filter (\<lambda>f. fa_expires_at f < now) (families db)) in
      \<lparr>codes = drop_rows (\<lambda>c. ac_expires_at c < now) (codes db),
       families = drop_rows (\<lambda>f. fa_expires_at f < now) (families db),
       access_tokens = drop_rows (\<lambda>t. at_family_id t \<in> set gone)
         (drop_rows (\<lambda>t. at_expires_at t < now) (access_tokens db)),
       refresh_tokens = drop_rows (\<lambda>t. rt_family_id t \<in> set gone) (refresh_tokens db)\<rparr>)"

definition seconds :: "int \<Rightarrow> int" where
  "seconds n = n * 1000000"

text \<open>\<open>x.revoked_at = x.revoked_at or now\<close>.\<close>

definition or_now :: "timestamp option \<Rightarrow> timestamp \<Rightarrow> timestamp option" where
  "or_now x now = (case x of None \<Rightarrow> Some now | Some t \<Rightarrow> Some t)"

text \<open>A database transaction: what raises leaves the database as it was.\<close>

definition atomically :: "'s \<Rightarrow> 'e + ('a \<times> 's) \<Rightarrow> ('e + 'a) \<times> 's" where
  "atomically db m = (case m of Inl e \<Rightarrow> (Inl e, db) | Inr (x, db') \<Rightarrow> (Inr x, db'))"

section \<open>Authorization codes\<close>

definition new_code :: "oauth_env \<Rightarrow> authorization_request \<Rightarrow> authorization_code" where
  "new_code en request =
     \<lparr>ac_id = oe_uuid en CodeRow,
      ac_code_digest = oauth_digest en ''authorization-code'' (oe_raw_code en),
      ac_client_id = aq_client_id request,
      ac_redirect_uri = aq_redirect_uri request,
      ac_resource = aq_resource request,
      ac_scopes = encode_scopes (aq_scopes request),
      ac_code_challenge = aq_code_challenge request,
      ac_subject = ''owner'',
      ac_credential_generation = credential_generation en,
      ac_created_at = oe_now en,
      ac_expires_at = oe_now en + seconds (oc_authorization_code_ttl_seconds (oe_config en)),
      ac_consumed_at = None\<rparr>"

definition issue_authorization_code ::
    "oauth_env \<Rightarrow> authorization_request \<Rightarrow> oauth_db \<Rightarrow> string oauth_res \<times> oauth_db" where
  "issue_authorization_code en request db = atomically db
     (bindR (validate_authorization_request request (oe_config en)) (\<lambda>_.
      bindR (oauth_write (insert_code (new_code en request) (delete_expired (oe_now en) db))) (\<lambda>db.
      Inr (oe_raw_code en, db))))"

definition rotate_token_pair ::
    "oauth_env \<Rightarrow> token_family \<Rightarrow> string list \<Rightarrow> oauth_db \<Rightarrow> (token_pair \<times> oauth_db) oauth_res" where
  "rotate_token_pair en family scopes db =
     (let now = oe_now en;
          access_expires_at = now + seconds (oc_access_token_ttl_seconds (oe_config en));
          refresh_expires_at = now + seconds (oc_refresh_token_ttl_seconds (oe_config en));
          db = db\<lparr>families := put_row fa_id (family\<lparr>fa_expires_at := refresh_expires_at\<rparr>) (families db)\<rparr>
      in bindR (oauth_write (insert_access_token
            \<lparr>at_id = oe_uuid en AccessRow,
             at_token_digest = oauth_digest en ''access-token'' (oe_raw_access en),
             at_family_id = fa_id family,
             at_scopes = encode_scopes scopes,
             at_created_at = now,
             at_expires_at = access_expires_at,
             at_revoked_at = None\<rparr> db)) (\<lambda>db.
         bindR (oauth_write (insert_refresh_token
            \<lparr>rt_id = oe_uuid en RefreshRow,
             rt_token_digest = oauth_digest en ''refresh-token'' (oe_raw_refresh en),
             rt_family_id = fa_id family,
             rt_scopes = encode_scopes scopes,
             rt_created_at = now,
             rt_expires_at = refresh_expires_at,
             rt_consumed_at = None,
             rt_revoked_at = None\<rparr> db)) (\<lambda>db.
         Inr (\<lparr>tp_access_token = oe_raw_access en,
               tp_refresh_token = oe_raw_refresh en,
               tp_expires_in = oc_access_token_ttl_seconds (oe_config en),
               tp_scopes = scopes\<rparr>, db))))"

definition issue_token_pair ::
    "oauth_env \<Rightarrow> string \<Rightarrow> string \<Rightarrow> string list \<Rightarrow> string \<Rightarrow> oauth_db \<Rightarrow>
     (token_pair \<times> oauth_db) oauth_res" where
  "issue_token_pair en client_id resource scopes subject db =
     (let family = \<lparr>fa_id = oe_uuid en FamilyRow,
                    fa_client_id = client_id,
                    fa_resource = resource,
                    fa_scopes = encode_scopes scopes,
                    fa_subject = subject,
                    fa_credential_generation = credential_generation en,
                    fa_created_at = oe_now en,
                    fa_expires_at = oe_now en + seconds (oc_refresh_token_ttl_seconds (oe_config en)),
                    fa_revoked_at = None,
                    fa_compromise_detected_at = None\<rparr>
      in bindR (oauth_write (insert_family family db)) (\<lambda>db.
         rotate_token_pair en family scopes db))"

definition validate_token_client :: "oauth_env \<Rightarrow> string \<Rightarrow> string \<Rightarrow> unit oauth_res" where
  "validate_token_client en client_id resource =
     bindR (map_error (\<lambda>_. invalid_client) (validate_chatgpt_client_id client_id)) (\<lambda>_.
     raise_if (resource \<noteq> resource_of (oe_config en)) invalid_target)"

text \<open>The conditions under which a stored code may be exchanged.\<close>

definition code_usable :: "oauth_env \<Rightarrow> string \<Rightarrow> string \<Rightarrow> string \<Rightarrow> authorization_code \<Rightarrow> bool" where
  "code_usable en client_id redirect_uri resource stored \<longleftrightarrow>
     \<not> (ac_consumed_at stored \<noteq> None \<or>
        ac_expires_at stored \<le> oe_now en \<or>
        ac_credential_generation stored \<noteq> credential_generation en \<or>
        ac_client_id stored \<noteq> client_id \<or>
        ac_redirect_uri stored \<noteq> redirect_uri \<or>
        ac_resource stored \<noteq> resource)"

definition pkce_challenge :: "oauth_env \<Rightarrow> string \<Rightarrow> string" where
  "pkce_challenge en code_verifier = b64url (oe_sha256 en (utf8 code_verifier))"

definition exchange_authorization_code ::
    "oauth_env \<Rightarrow> string \<Rightarrow> string \<Rightarrow> string \<Rightarrow> string \<Rightarrow> string \<Rightarrow> oauth_db \<Rightarrow>
     token_pair oauth_res \<times> oauth_db" where
  "exchange_authorization_code en code client_id redirect_uri resource code_verifier db = atomically db
     (bindR (validate_token_client en client_id resource) (\<lambda>_.
      bindR (map_error (\<lambda>_. invalid_grant ''Authorization-code binding failed'')
               (validate_chatgpt_client client_id redirect_uri)) (\<lambda>_.
      bindR (raise_if (\<not> code_verifier_ok code_verifier)
               (invalid_grant ''The PKCE verifier is invalid'')) (\<lambda>_.
      bindR (require (invalid_grant ''The authorization code is invalid'')
               (get_row ac_code_digest (oauth_digest en ''authorization-code'' code) (codes db))) (\<lambda>stored.
      bindR (raise_if (\<not> code_usable en client_id redirect_uri resource stored)
               (invalid_grant ''The authorization code is invalid'')) (\<lambda>_.
      bindR (raise_if (pkce_challenge en code_verifier \<noteq> ac_code_challenge stored)
               (invalid_grant ''The PKCE verifier is invalid'')) (\<lambda>_.
      let db = db\<lparr>codes := put_row ac_id (stored\<lparr>ac_consumed_at := Some (oe_now en)\<rparr>) (codes db)\<rparr> in
      issue_token_pair en (ac_client_id stored) (ac_resource stored)
        (decode_scopes (ac_scopes stored)) (ac_subject stored) db)))))))"

section \<open>Refresh tokens\<close>

definition refresh_usable ::
    "oauth_env \<Rightarrow> string \<Rightarrow> string \<Rightarrow> refresh_token \<Rightarrow> token_family \<Rightarrow> bool" where
  "refresh_usable en client_id resource stored family \<longleftrightarrow>
     \<not> (rt_revoked_at stored \<noteq> None \<or>
        fa_revoked_at family \<noteq> None \<or>
        rt_expires_at stored \<le> oe_now en \<or>
        fa_expires_at family \<le> oe_now en \<or>
        fa_credential_generation family \<noteq> credential_generation en \<or>
        fa_client_id family \<noteq> client_id \<or>
        fa_resource family \<noteq> resource)"

definition replay_detected :: oauth_error where
  "replay_detected = invalid_grant ''Refresh-token replay detected; authorization was revoked''"

text \<open>The revocation a replay commits before it raises.\<close>

definition compromise :: "timestamp \<Rightarrow> token_family \<Rightarrow> token_family" where
  "compromise now family = family\<lparr>
     fa_revoked_at := or_now (fa_revoked_at family) now,
     fa_compromise_detected_at := or_now (fa_compromise_detected_at family) now\<rparr>"

definition refresh_scopes :: "string list option \<Rightarrow> string list \<Rightarrow> string list oauth_res" where
  "refresh_scopes requested_scopes current_scopes = (case requested_scopes of
     None \<Rightarrow> Inr current_scopes
   | Some requested \<Rightarrow>
       bindR (normalize_scopes requested) (\<lambda>scopes.
       bindR (raise_if (\<not> set scopes \<subseteq> set current_scopes) scope_increase) (\<lambda>_. Inr scopes)))"

definition rotate_refresh ::
    "oauth_env \<Rightarrow> string \<Rightarrow> string \<Rightarrow> string list option \<Rightarrow> refresh_token \<Rightarrow> token_family \<Rightarrow>
     oauth_db \<Rightarrow> (token_pair \<times> oauth_db) oauth_res" where
  "rotate_refresh en client_id resource requested_scopes stored family db =
     bindR (raise_if (\<not> refresh_usable en client_id resource stored family)
              (invalid_grant ''The refresh token is invalid'')) (\<lambda>_.
     bindR (refresh_scopes requested_scopes (decode_scopes (rt_scopes stored))) (\<lambda>scopes.
     let db = db\<lparr>refresh_tokens :=
           put_row rt_id (stored\<lparr>rt_consumed_at := Some (oe_now en)\<rparr>) (refresh_tokens db)\<rparr>
     in rotate_token_pair en family scopes db))"

definition refresh_grant ::
    "oauth_env \<Rightarrow> string \<Rightarrow> string \<Rightarrow> string \<Rightarrow> string list option \<Rightarrow> oauth_db \<Rightarrow>
     token_pair oauth_res \<times> oauth_db" where
  "refresh_grant en raw client_id resource requested_scopes db =
     (case validate_token_client en client_id resource of
        Inl e \<Rightarrow> (Inl e, db)
      | Inr _ \<Rightarrow>
          (case get_row rt_token_digest (oauth_digest en ''refresh-token'' raw) (refresh_tokens db) of
             None \<Rightarrow> (Inl (invalid_grant ''The refresh token is invalid''), db)
           | Some stored \<Rightarrow>
               (case get_row fa_id (rt_family_id stored) (families db) of
                  None \<Rightarrow> (Inl (invalid_grant ''The refresh token is invalid''), db)
                | Some family \<Rightarrow>
                    if rt_consumed_at stored \<noteq> None
                    then (Inl replay_detected,
                          db\<lparr>families := put_row fa_id (compromise (oe_now en) family) (families db)\<rparr>)
                    else atomically db
                      (rotate_refresh en client_id resource requested_scopes stored family db))))"

section \<open>Access tokens\<close>

definition access_usable :: "oauth_env \<Rightarrow> access_token \<Rightarrow> token_family \<Rightarrow> bool" where
  "access_usable en access family \<longleftrightarrow>
     \<not> (at_revoked_at access \<noteq> None \<or>
        fa_revoked_at family \<noteq> None \<or>
        at_expires_at access \<le> oe_now en \<or>
        fa_expires_at family \<le> oe_now en \<or>
        fa_credential_generation family \<noteq> credential_generation en \<or>
        fa_resource family \<noteq> resource_of (oe_config en))"

text \<open>\<open>None\<close> is the answer for every token that is not valid.\<close>

definition verify_access_token :: "oauth_env \<Rightarrow> string \<Rightarrow> oauth_db \<Rightarrow> verified_token option" where
  "verify_access_token en raw db =
     (if raw = [] then None
      else case get_row at_token_digest (oauth_digest en ''access-token'' raw) (access_tokens db) of
        None \<Rightarrow> None
      | Some access \<Rightarrow>
          (case get_row fa_id (at_family_id access) (families db) of
             None \<Rightarrow> None
           | Some family \<Rightarrow>
               if \<not> access_usable en access family then None
               else Some \<lparr>vt_client_id = fa_client_id family,
                          vt_scopes = decode_scopes (at_scopes access),
                          vt_expires_at = at_expires_at access div 1000000,
                          vt_resource = fa_resource family,
                          vt_subject = fa_subject family\<rparr>))"

definition revoke_family :: "timestamp \<Rightarrow> uuid \<Rightarrow> oauth_db \<Rightarrow> oauth_db" where
  "revoke_family now family_id db =
     (case get_row fa_id family_id (families db) of
        None \<Rightarrow> db
      | Some family \<Rightarrow> db\<lparr>families :=
          put_row fa_id (family\<lparr>fa_revoked_at := or_now (fa_revoked_at family) now\<rparr>) (families db)\<rparr>)"

definition revoke_access :: "oauth_env \<Rightarrow> string \<Rightarrow> oauth_db \<Rightarrow> oauth_db" where
  "revoke_access en raw db =
     (case get_row at_token_digest (oauth_digest en ''access-token'' raw) (access_tokens db) of
        None \<Rightarrow> db
      | Some access \<Rightarrow> revoke_family (oe_now en) (at_family_id access)
          (db\<lparr>access_tokens := put_row at_id
             (access\<lparr>at_revoked_at := or_now (at_revoked_at access) (oe_now en)\<rparr>) (access_tokens db)\<rparr>))"

definition revoke_refresh :: "oauth_env \<Rightarrow> string \<Rightarrow> oauth_db \<Rightarrow> oauth_db" where
  "revoke_refresh en raw db =
     (case get_row rt_token_digest (oauth_digest en ''refresh-token'' raw) (refresh_tokens db) of
        None \<Rightarrow> db
      | Some refresh \<Rightarrow> revoke_family (oe_now en) (rt_family_id refresh)
          (db\<lparr>refresh_tokens := put_row rt_id
             (refresh\<lparr>rt_revoked_at := or_now (rt_revoked_at refresh) (oe_now en)\<rparr>) (refresh_tokens db)\<rparr>))"

definition revoke :: "oauth_env \<Rightarrow> string \<Rightarrow> oauth_db \<Rightarrow> oauth_db" where
  "revoke en raw db = (if raw = [] then db else revoke_refresh en raw (revoke_access en raw db))"

section \<open>The token verifier\<close>

text \<open>\<open>oauth/verifier.py\<close>: the claims the MCP server gets for a bearer token.\<close>

record mcp_access_token =
  mt_token :: string
  mt_client_id :: string
  mt_scopes :: "string list"
  mt_expires_at :: int
  mt_resource :: string
  mt_subject :: string
  mt_claims :: "(string \<times> string) list"

definition verify_token :: "oauth_env \<Rightarrow> string \<Rightarrow> oauth_db \<Rightarrow> mcp_access_token option" where
  "verify_token en raw db =
     map_option (\<lambda>verified.
       \<lparr>mt_token = raw,
        mt_client_id = vt_client_id verified,
        mt_scopes = vt_scopes verified,
        mt_expires_at = vt_expires_at verified,
        mt_resource = vt_resource verified,
        mt_subject = vt_subject verified,
        mt_claims = [(''iss'', issuer (oe_config en))]\<rparr>) (verify_access_token en raw db)"

end
