(* ===== verification/OAuthInvariant.thy ===== *)
theory OAuthInvariant
  imports OAuthService
begin

text \<open>
  The invariant of the authorization server's tables and the histories it is proved over.
  \<open>oauth_step\<close> is one request, with its own clock, random draws and configuration;
  \<open>oauth_reach\<close> are the databases reachable from the empty one, \<open>oauth_later\<close> those reachable
  from a given one.
\<close>

section \<open>Scope text\<close>

lemma split_on_word: "sep \<notin> set w \<Longrightarrow> split_on sep (w @ sep # s) = w # split_on sep s"
  by (induction w) auto

lemma split_on_last: "sep \<notin> set w \<Longrightarrow> split_on sep w = [w]"
  by (induction w) auto

definition plain_word :: "string \<Rightarrow> bool" where
  "plain_word w \<longleftrightarrow> w \<noteq> [] \<and> CHR '' '' \<notin> set w"

lemma split_on_join:
  "ws \<noteq> [] \<Longrightarrow> \<forall>w \<in> set ws. sep \<notin> set w \<Longrightarrow> split_on sep (join [sep] ws) = ws"
  by (induction ws rule: induct_list012) (simp_all add: split_on_word split_on_last)

lemma decode_encode_scopes:
  assumes "\<forall>w \<in> set scopes. plain_word w"
  shows "decode_scopes (encode_scopes scopes) = scopes"
proof (cases "scopes = []")
  case True
  then show ?thesis by (simp add: decode_scopes_def encode_scopes_def)
next
  case False
  then have "split_on (CHR '' '') (join [CHR '' ''] scopes) = scopes"
    using assms by (intro split_on_join) (auto simp: plain_word_def)
  moreover have "filter (\<lambda>w. w \<noteq> []) scopes = scopes"
    using assms by (intro filter_True) (auto simp: plain_word_def)
  ultimately show ?thesis by (simp add: decode_scopes_def encode_scopes_def)
qed

lemma supported_plain: "w \<in> set SUPPORTED_SCOPES \<Longrightarrow> plain_word w"
  by (auto simp: SUPPORTED_SCOPES_def plain_word_def BUDGET_READ_SCOPE_def BUDGET_REFRESH_SCOPE_def
      BUDGET_CONFIG_SCOPE_def)

lemma sort_remdups_Nil [simp]: "sort (remdups xs) = [] \<longleftrightarrow> xs = []"
  by (metis set_empty set_remdups set_sort)

lemma normalize_scopes_Inr:
  "normalize_scopes parts = Inr scopes \<longleftrightarrow>
     scopes = sort (remdups parts) \<and> parts \<noteq> [] \<and> set parts \<subseteq> set SUPPORTED_SCOPES"
  by (auto simp: normalize_scopes_def Let_def list_ex_iff split: if_splits)

lemma normalize_scopes_idem: "normalize_scopes parts = Inr scopes \<Longrightarrow> normalize_scopes scopes = Inr scopes"
  by (auto simp: normalize_scopes_Inr sorted_sort_id distinct_remdups_id)

lemma decode_supported:
  assumes "set scopes \<subseteq> set SUPPORTED_SCOPES"
  shows "decode_scopes (encode_scopes scopes) = scopes"
  by (rule decode_encode_scopes) (use assms supported_plain in blast)

section \<open>What successful writes did\<close>

lemma map_put_row_same:
  "inj_on key (set rows) \<Longrightarrow> t \<in> set rows \<Longrightarrow> key t' = key t \<Longrightarrow> g t' = g t \<Longrightarrow>
   map g (put_row key t' rows) = map g rows"
  by (auto simp: put_row_def dest: inj_onD)

lemma oauth_write_Inr [result_simps]: "oauth_write m = Inr x \<longleftrightarrow> m = Inr x"
  by (cases m) (auto simp: oauth_write_def)

lemma map_error_Inr [result_simps]: "map_error f m = Inr x \<longleftrightarrow> m = Inr x"
  by (cases m) (auto simp: map_error_def)

lemma insert_code_InrD:
  assumes "insert_code c db = Inr db'"
  shows "db' = db\<lparr>codes := codes db @ [c]\<rparr>" "ac_id c \<notin> ac_id ` set (codes db)"
    "ac_code_digest c \<notin> ac_code_digest ` set (codes db)"
  using assms by (auto simp: insert_code_def result_simps has_key_iff)

lemma insert_family_InrD:
  assumes "insert_family f db = Inr db'"
  shows "db' = db\<lparr>families := families db @ [f]\<rparr>" "fa_id f \<notin> fa_id ` set (families db)"
  using assms by (auto simp: insert_family_def result_simps has_key_iff)

lemma insert_access_token_InrD:
  assumes "insert_access_token t db = Inr db'"
  shows "db' = db\<lparr>access_tokens := access_tokens db @ [t]\<rparr>" "at_id t \<notin> at_id ` set (access_tokens db)"
    "at_token_digest t \<notin> at_token_digest ` set (access_tokens db)"
    "at_family_id t \<in> fa_id ` set (families db)"
  using assms by (auto simp: insert_access_token_def result_simps has_key_iff)

lemma insert_refresh_token_InrD:
  assumes "insert_refresh_token t db = Inr db'"
  shows "db' = db\<lparr>refresh_tokens := refresh_tokens db @ [t]\<rparr>" "rt_id t \<notin> rt_id ` set (refresh_tokens db)"
    "rt_token_digest t \<notin> rt_token_digest ` set (refresh_tokens db)"
    "rt_family_id t \<in> fa_id ` set (families db)"
  using assms by (auto simp: insert_refresh_token_def result_simps has_key_iff)

text \<open>The rows a rotation adds.\<close>

definition pair_access :: "oauth_env \<Rightarrow> uuid \<Rightarrow> string list \<Rightarrow> access_token" where
  "pair_access en family_id scopes =
     \<lparr>at_id = oe_uuid en AccessRow, at_token_digest = oauth_digest en ''access-token'' (oe_raw_access en),
      at_family_id = family_id, at_scopes = encode_scopes scopes, at_created_at = oe_now en,
      at_expires_at = oe_now en + seconds (oc_access_token_ttl_seconds (oe_config en)),
      at_revoked_at = None\<rparr>"

definition pair_refresh :: "oauth_env \<Rightarrow> uuid \<Rightarrow> string list \<Rightarrow> refresh_token" where
  "pair_refresh en family_id scopes =
     \<lparr>rt_id = oe_uuid en RefreshRow, rt_token_digest = oauth_digest en ''refresh-token'' (oe_raw_refresh en),
      rt_family_id = family_id, rt_scopes = encode_scopes scopes, rt_created_at = oe_now en,
      rt_expires_at = oe_now en + seconds (oc_refresh_token_ttl_seconds (oe_config en)),
      rt_consumed_at = None, rt_revoked_at = None\<rparr>"

lemma rotate_token_pair_InrD:
  assumes "rotate_token_pair en family scopes db = Inr (p, db')"
  obtains fs where
    "fs = put_row fa_id (family\<lparr>fa_expires_at := oe_now en + seconds (oc_refresh_token_ttl_seconds (oe_config en))\<rparr>)
        (families db)"
    "db' = db\<lparr>families := fs, access_tokens := access_tokens db @ [pair_access en (fa_id family) scopes],
       refresh_tokens := refresh_tokens db @ [pair_refresh en (fa_id family) scopes]\<rparr>"
    "p = \<lparr>tp_access_token = oe_raw_access en, tp_refresh_token = oe_raw_refresh en,
        tp_expires_in = oc_access_token_ttl_seconds (oe_config en), tp_scopes = scopes\<rparr>"
    "oe_uuid en AccessRow \<notin> at_id ` set (access_tokens db)"
    "oauth_digest en ''access-token'' (oe_raw_access en) \<notin> at_token_digest ` set (access_tokens db)"
    "oe_uuid en RefreshRow \<notin> rt_id ` set (refresh_tokens db)"
    "oauth_digest en ''refresh-token'' (oe_raw_refresh en) \<notin> rt_token_digest ` set (refresh_tokens db)"
    "fa_id family \<in> fa_id ` set (families db)"
proof -
  let ?fs = "put_row fa_id (family\<lparr>fa_expires_at := oe_now en + seconds (oc_refresh_token_ttl_seconds (oe_config en))\<rparr>)
        (families db)"
  from assms obtain d1 d2 where
    a: "insert_access_token (pair_access en (fa_id family) scopes) (db\<lparr>families := ?fs\<rparr>) = Inr d1" and
    r: "insert_refresh_token (pair_refresh en (fa_id family) scopes) d1 = Inr d2" and
    p: "p = \<lparr>tp_access_token = oe_raw_access en, tp_refresh_token = oe_raw_refresh en,
        tp_expires_in = oc_access_token_ttl_seconds (oe_config en), tp_scopes = scopes\<rparr>" "db' = d2"
    by (auto simp: rotate_token_pair_def Let_def result_simps pair_access_def pair_refresh_def)
  note A = insert_access_token_InrD [OF a] and R = insert_refresh_token_InrD [OF r]
  show thesis
    by (rule that [OF refl]) (use A R p in \<open>simp_all add: pair_access_def pair_refresh_def\<close>)
qed

section \<open>The invariant\<close>

definition oauth_keys :: "oauth_db \<Rightarrow> bool" where
  "oauth_keys db \<longleftrightarrow>
     distinct (map ac_id (codes db)) \<and> distinct (map ac_code_digest (codes db)) \<and>
     distinct (map fa_id (families db)) \<and>
     distinct (map at_id (access_tokens db)) \<and> distinct (map at_token_digest (access_tokens db)) \<and>
     distinct (map rt_id (refresh_tokens db)) \<and> distinct (map rt_token_digest (refresh_tokens db)) \<and>
     at_family_id ` set (access_tokens db) \<subseteq> fa_id ` set (families db) \<and>
     rt_family_id ` set (refresh_tokens db) \<subseteq> fa_id ` set (families db)"

text \<open>The scopes granted to a family, and that no token of it has more.\<close>

definition scopes_within :: "string \<Rightarrow> string \<Rightarrow> bool" where
  "scopes_within a b \<longleftrightarrow> set (decode_scopes a) \<subseteq> set (decode_scopes b)"

definition oauth_scopes :: "oauth_db \<Rightarrow> bool" where
  "oauth_scopes db \<longleftrightarrow>
     (\<forall>c \<in> set (codes db). set (decode_scopes (ac_scopes c)) \<subseteq> set SUPPORTED_SCOPES) \<and>
     (\<forall>f \<in> set (families db). set (decode_scopes (fa_scopes f)) \<subseteq> set SUPPORTED_SCOPES) \<and>
     (\<forall>t \<in> set (access_tokens db). \<forall>f \<in> set (families db).
        fa_id f = at_family_id t \<longrightarrow> scopes_within (at_scopes t) (fa_scopes f)) \<and>
     (\<forall>t \<in> set (refresh_tokens db). \<forall>f \<in> set (families db).
        fa_id f = rt_family_id t \<longrightarrow> scopes_within (rt_scopes t) (fa_scopes f))"

definition one_open_refresh :: "oauth_db \<Rightarrow> bool" where
  "one_open_refresh db \<longleftrightarrow>
     (\<forall>s \<in> set (refresh_tokens db). \<forall>t \<in> set (refresh_tokens db).
        rt_family_id s = rt_family_id t \<longrightarrow> rt_consumed_at s = None \<longrightarrow> rt_consumed_at t = None \<longrightarrow> s = t)"

definition oauth_inv :: "oauth_db \<Rightarrow> bool" where
  "oauth_inv db \<longleftrightarrow> oauth_keys db \<and> oauth_scopes db \<and> one_open_refresh db"

lemma oauth_fk:
  assumes "oauth_inv db"
  shows "t \<in> set (access_tokens db) \<Longrightarrow> at_family_id t \<in> fa_id ` set (families db)"
    and "s \<in> set (refresh_tokens db) \<Longrightarrow> rt_family_id s \<in> fa_id ` set (families db)"
  using assms unfolding oauth_inv_def oauth_keys_def image_subset_iff by blast+

lemma oauth_inv_empty: "oauth_inv empty_oauth_db"
  by (simp add: oauth_inv_def oauth_keys_def oauth_scopes_def one_open_refresh_def empty_oauth_db_def)

text \<open>A family of the same scopes in place of the stored one.\<close>

lemma oauth_inv_put_family:
  assumes I: "oauth_inv db" and f: "f \<in> set (families db)"
    and g: "fa_id g = fa_id f" "fa_scopes g = fa_scopes f"
  shows "oauth_inv (db\<lparr>families := put_row fa_id g (families db)\<rparr>)"
proof -
  have "oauth_scopes (db\<lparr>families := put_row fa_id g (families db)\<rparr>)"
    using I f g unfolding oauth_inv_def oauth_scopes_def
    by (auto simp: in_put_row_iff) blast+
  then show ?thesis using I by (simp add: oauth_inv_def oauth_keys_def one_open_refresh_def)
qed

lemma oauth_inv_delete_expired:
  assumes "oauth_inv db"
  shows "oauth_inv (delete_expired now db)"
proof -
  let ?d = "delete_expired now db"
  have sub: "set (codes ?d) \<subseteq> set (codes db)" "set (families ?d) \<subseteq> set (families db)"
    "set (access_tokens ?d) \<subseteq> set (access_tokens db)" "set (refresh_tokens ?d) \<subseteq> set (refresh_tokens db)"
    by (auto simp: delete_expired_def Let_def)
  have "at_family_id ` set (access_tokens ?d) \<subseteq> fa_id ` set (families ?d)"
    "rt_family_id ` set (refresh_tokens ?d) \<subseteq> fa_id ` set (families ?d)"
    using assms by (auto simp: delete_expired_def Let_def oauth_inv_def oauth_keys_def image_iff subset_iff)
      (metis (no_types, lifting))+
  then have "oauth_keys ?d" using assms
    by (simp add: oauth_inv_def oauth_keys_def) (simp add: delete_expired_def Let_def)
  moreover have "oauth_scopes ?d" "one_open_refresh ?d"
    using assms sub unfolding oauth_inv_def oauth_scopes_def one_open_refresh_def by blast+
  ultimately show ?thesis by (simp add: oauth_inv_def)
qed

section \<open>Every operation keeps it\<close>

lemma atomically_inv:
  assumes "atomically db m = (r, db')" and "P db" and "\<And>x d. m = Inr (x, d) \<Longrightarrow> P d"
  shows "P db'"
  using assms by (cases m) (auto simp: atomically_def)

lemma validated_scopes:
  "validate_authorization_request request cfg = Inr u \<Longrightarrow> set (aq_scopes request) \<subseteq> set SUPPORTED_SCOPES"
  by (auto simp: validate_authorization_request_def result_simps normalize_scopes_Inr)

lemma oauth_inv_issue_code:
  assumes "issue_authorization_code en request db = (r, db')" and "oauth_inv db"
  shows "oauth_inv db'"
  using assms(1) unfolding issue_authorization_code_def
proof (rule atomically_inv)
  fix x d
  assume "bindR (validate_authorization_request request (oe_config en)) (\<lambda>_.
      bindR (oauth_write (insert_code (new_code en request) (delete_expired (oe_now en) db))) (\<lambda>db.
      Inr (oe_raw_code en, db))) = Inr (x, d)"
  then have v: "validate_authorization_request request (oe_config en) = Inr ()"
    and i: "insert_code (new_code en request) (delete_expired (oe_now en) db) = Inr d"
    by (auto simp: result_simps)
  have I: "oauth_inv (delete_expired (oe_now en) db)" by (rule oauth_inv_delete_expired [OF assms(2)])
  have s: "set (decode_scopes (ac_scopes (new_code en request))) \<subseteq> set SUPPORTED_SCOPES"
    using validated_scopes [OF v] by (simp add: new_code_def decode_supported)
  show "oauth_inv d"
    using I insert_code_InrD [OF i] s
    by (simp add: oauth_inv_def oauth_keys_def oauth_scopes_def one_open_refresh_def)
qed (rule assms(2))

lemma oauth_inv_rotate:
  assumes r: "rotate_token_pair en family scopes db = Inr (p, db')"
    and I: "oauth_inv db" and f: "f \<in> set (families db)" "fa_id family = fa_id f" "fa_scopes family = fa_scopes f"
    and s: "set scopes \<subseteq> set (decode_scopes (fa_scopes f))"
    and o1: "\<forall>t \<in> set (refresh_tokens db). rt_family_id t = fa_id f \<longrightarrow> rt_consumed_at t \<noteq> None"
  shows "oauth_inv db'"
proof -
  let ?g = "family\<lparr>fa_expires_at := oe_now en + seconds (oc_refresh_token_ttl_seconds (oe_config en))\<rparr>"
  let ?d = "db\<lparr>families := put_row fa_id ?g (families db)\<rparr>"
  let ?a = "pair_access en (fa_id family) scopes" and ?r = "pair_refresh en (fa_id family) scopes"
  have D: "db' = ?d\<lparr>access_tokens := access_tokens db @ [?a], refresh_tokens := refresh_tokens db @ [?r]\<rparr>"
    and fresh: "at_id ?a \<notin> at_id ` set (access_tokens db)" "at_token_digest ?a \<notin> at_token_digest ` set (access_tokens db)"
      "rt_id ?r \<notin> rt_id ` set (refresh_tokens db)" "rt_token_digest ?r \<notin> rt_token_digest ` set (refresh_tokens db)"
    by (rule rotate_token_pair_InrD [OF r]; simp add: pair_access_def pair_refresh_def)+
  have I1: "oauth_inv ?d" by (rule oauth_inv_put_family [OF I f(1)]) (use f in simp_all)
  have fam: "set (decode_scopes (fa_scopes f)) \<subseteq> set SUPPORTED_SCOPES"
    using I f(1) by (auto simp: oauth_inv_def oauth_scopes_def)
  then have dec: "decode_scopes (encode_scopes scopes) = scopes"
    using s by (intro decode_supported) blast
  have same: "fa_scopes h = fa_scopes f" if "h \<in> set (families ?d)" "fa_id h = fa_id f" for h
  proof -
    have "inj_on fa_id (set (families db))" using I by (simp add: oauth_inv_def oauth_keys_def distinct_map)
    with that f show ?thesis by (auto simp: in_put_row_iff dest: inj_onD)
  qed
  have k: "oauth_keys db'"
    using I1 fresh f unfolding D oauth_inv_def oauth_keys_def
    by (simp add: pair_access_def pair_refresh_def)
  have "\<forall>h \<in> set (families ?d). fa_id h = fa_id family \<longrightarrow> scopes_within (encode_scopes scopes) (fa_scopes h)"
    using same f(2) s by (simp add: scopes_within_def dec)
  then have c: "oauth_scopes db'"
    using I1 unfolding D oauth_inv_def oauth_scopes_def
    by (simp add: pair_access_def pair_refresh_def)
  have u: "one_open_refresh db'"
    using I o1 f(2) unfolding D oauth_inv_def one_open_refresh_def
    by (auto simp: pair_refresh_def)
  from k c u show ?thesis by (simp add: oauth_inv_def)
qed

lemma oauth_inv_issue_pair:
  assumes r: "issue_token_pair en client_id resource scopes subject db = Inr (p, db')"
    and I: "oauth_inv db" and s: "set scopes \<subseteq> set SUPPORTED_SCOPES"
  shows "oauth_inv db'"
proof -
  obtain f d where f: "insert_family f db = Inr d" "rotate_token_pair en f scopes d = Inr (p, db')"
    and fs: "fa_scopes f = encode_scopes scopes"
    using r by (auto simp: issue_token_pair_def Let_def result_simps)
  note F = insert_family_InrD [OF f(1)]
  have dec: "decode_scopes (encode_scopes scopes) = scopes" by (rule decode_supported [OF s])
  have noref: "rt_family_id t \<noteq> fa_id f" if "t \<in> set (refresh_tokens db)" for t
    using oauth_fk(2) [OF I that] F(2) by auto
  have noacc: "at_family_id t \<noteq> fa_id f" if "t \<in> set (access_tokens db)" for t
    using oauth_fk(1) [OF I that] F(2) by auto
  have "oauth_inv d"
    using I F noref noacc s dec fs
    by (auto simp: oauth_inv_def oauth_keys_def oauth_scopes_def one_open_refresh_def)
  then show ?thesis
    by (rule oauth_inv_rotate [OF f(2), of f]) (use F noref fs dec in auto)
qed

lemma oauth_inv_put_code:
  assumes "oauth_inv db" and "c \<in> set (codes db)"
    and "ac_id c' = ac_id c" "ac_scopes c' = ac_scopes c" "ac_code_digest c' = ac_code_digest c"
  shows "oauth_inv (db\<lparr>codes := put_row ac_id c' (codes db)\<rparr>)"
proof -
  have "map ac_code_digest (put_row ac_id c' (codes db)) = map ac_code_digest (codes db)"
  proof -
    have "inj_on ac_id (set (codes db))" using assms(1) by (simp add: oauth_inv_def oauth_keys_def distinct_map)
    then show ?thesis using assms by (auto simp: put_row_def dest: inj_onD)
  qed
  moreover have "\<forall>x \<in> set (put_row ac_id c' (codes db)). set (decode_scopes (ac_scopes x)) \<subseteq> set SUPPORTED_SCOPES"
    using assms unfolding oauth_inv_def oauth_scopes_def by (auto simp: in_put_row_iff) blast+
  ultimately show ?thesis using assms(1)
    by (simp add: oauth_inv_def oauth_keys_def oauth_scopes_def one_open_refresh_def)
qed

lemma oauth_inv_exchange:
  assumes "exchange_authorization_code en code client_id redirect_uri resource verifier db = (r, db')"
    and I: "oauth_inv db"
  shows "oauth_inv db'"
  using assms(1) unfolding exchange_authorization_code_def
proof (rule atomically_inv)
  fix p d
  assume "bindR (validate_token_client en client_id resource) (\<lambda>_.
      bindR (map_error (\<lambda>_. invalid_grant ''Authorization-code binding failed'')
               (validate_chatgpt_client client_id redirect_uri)) (\<lambda>_.
      bindR (raise_if (\<not> code_verifier_ok verifier)
               (invalid_grant ''The PKCE verifier is invalid'')) (\<lambda>_.
      bindR (require (invalid_grant ''The authorization code is invalid'')
               (get_row ac_code_digest (oauth_digest en ''authorization-code'' code) (codes db))) (\<lambda>stored.
      bindR (raise_if (\<not> code_usable en client_id redirect_uri resource stored)
               (invalid_grant ''The authorization code is invalid'')) (\<lambda>_.
      bindR (raise_if (pkce_challenge en verifier \<noteq> ac_code_challenge stored)
               (invalid_grant ''The PKCE verifier is invalid'')) (\<lambda>_.
      let db = db\<lparr>codes := put_row ac_id (stored\<lparr>ac_consumed_at := Some (oe_now en)\<rparr>) (codes db)\<rparr> in
      issue_token_pair en (ac_client_id stored) (ac_resource stored)
        (decode_scopes (ac_scopes stored)) (ac_subject stored) db)))))) = Inr (p, d)"
  then obtain stored where
    g: "get_row ac_code_digest (oauth_digest en ''authorization-code'' code) (codes db) = Some stored" and
    i: "issue_token_pair en (ac_client_id stored) (ac_resource stored) (decode_scopes (ac_scopes stored))
      (ac_subject stored) (db\<lparr>codes := put_row ac_id (stored\<lparr>ac_consumed_at := Some (oe_now en)\<rparr>) (codes db)\<rparr>)
      = Inr (p, d)"
    by (auto simp: result_simps Let_def)
  from g have c: "stored \<in> set (codes db)" by (auto dest: get_row_SomeD)
  show "oauth_inv d"
  proof (rule oauth_inv_issue_pair [OF i])
    show "oauth_inv (db\<lparr>codes := put_row ac_id (stored\<lparr>ac_consumed_at := Some (oe_now en)\<rparr>) (codes db)\<rparr>)"
      by (rule oauth_inv_put_code [OF I c]) simp_all
    show "set (decode_scopes (ac_scopes stored)) \<subseteq> set SUPPORTED_SCOPES"
      using I c by (auto simp: oauth_inv_def oauth_scopes_def)
  qed
qed (rule I)

lemma refresh_scopes_within:
  "refresh_scopes requested current = Inr scopes \<Longrightarrow> set scopes \<subseteq> set current"
  by (auto simp: refresh_scopes_def result_simps split: option.splits)

lemma oauth_inv_put_refresh:
  assumes I: "oauth_inv db" and t: "t \<in> set (refresh_tokens db)"
    and t': "rt_id t' = rt_id t" "rt_scopes t' = rt_scopes t" "rt_token_digest t' = rt_token_digest t"
      "rt_family_id t' = rt_family_id t" "rt_consumed_at t' = None \<Longrightarrow> rt_consumed_at t = None"
  shows "oauth_inv (db\<lparr>refresh_tokens := put_row rt_id t' (refresh_tokens db)\<rparr>)"
proof -
  let ?ts = "put_row rt_id t' (refresh_tokens db)"
  have inj: "inj_on rt_id (set (refresh_tokens db))" using I by (simp add: oauth_inv_def oauth_keys_def distinct_map)
  have "map rt_token_digest ?ts = map rt_token_digest (refresh_tokens db)"
    "map rt_family_id ?ts = map rt_family_id (refresh_tokens db)"
    by (rule map_put_row_same [OF inj t t'(1)], use t' in simp)+
  then have "oauth_keys (db\<lparr>refresh_tokens := ?ts\<rparr>)"
    using I by (simp add: oauth_inv_def oauth_keys_def) (metis list.set_map)
  moreover have "oauth_scopes (db\<lparr>refresh_tokens := ?ts\<rparr>)"
    using I t t' unfolding oauth_inv_def oauth_scopes_def by (auto simp: in_put_row_iff)
  moreover have "one_open_refresh (db\<lparr>refresh_tokens := ?ts\<rparr>)"
    using I t t' inj unfolding oauth_inv_def one_open_refresh_def
    by (auto simp: in_put_row_iff) (metis inj_onD)+
  ultimately show ?thesis by (simp add: oauth_inv_def)
qed

lemma oauth_inv_rotate_refresh:
  assumes r: "rotate_refresh en client_id resource requested stored family db = Inr (p, db')"
    and I: "oauth_inv db" and s: "stored \<in> set (refresh_tokens db)" "rt_consumed_at stored = None"
    and f: "family \<in> set (families db)" "fa_id family = rt_family_id stored"
  shows "oauth_inv db'"
proof -
  let ?stored = "stored\<lparr>rt_consumed_at := Some (oe_now en)\<rparr>"
  let ?d = "db\<lparr>refresh_tokens := put_row rt_id ?stored (refresh_tokens db)\<rparr>"
  obtain scopes where sc: "refresh_scopes requested (decode_scopes (rt_scopes stored)) = Inr scopes"
    and p: "rotate_token_pair en family scopes ?d = Inr (p, db')"
    using r by (auto simp: rotate_refresh_def result_simps Let_def)
  have Id: "oauth_inv ?d" by (rule oauth_inv_put_refresh [OF I s(1)]) simp_all
  have "scopes_within (rt_scopes stored) (fa_scopes family)"
    using I s(1) f unfolding oauth_inv_def oauth_scopes_def by auto
  then have w: "set scopes \<subseteq> set (decode_scopes (fa_scopes family))"
    using refresh_scopes_within [OF sc] by (auto simp: scopes_within_def)
  have "\<forall>t \<in> set (refresh_tokens ?d). rt_family_id t = fa_id family \<longrightarrow> rt_consumed_at t \<noteq> None"
    using I s f(2) unfolding oauth_inv_def one_open_refresh_def
    by (auto simp: in_put_row_iff) (metis option.exhaust)
  with w show ?thesis using oauth_inv_rotate [OF p Id, of family] f(1) by simp
qed

lemma oauth_inv_refresh:
  assumes "refresh_grant en raw client_id resource requested db = (r, db')" and I: "oauth_inv db"
  shows "oauth_inv db'"
proof (cases "validate_token_client en client_id resource")
  case (Inr u)
  show ?thesis
  proof (cases "get_row rt_token_digest (oauth_digest en ''refresh-token'' raw) (refresh_tokens db)")
    case None
    with Inr assms show ?thesis by (simp add: refresh_grant_def)
  next
    case (Some stored)
    note st = get_row_SomeD [OF Some]
    show ?thesis
    proof (cases "get_row fa_id (rt_family_id stored) (families db)")
      case None
      with Inr Some assms show ?thesis by (simp add: refresh_grant_def)
    next
      case F: (Some family)
      note fa = get_row_SomeD [OF F]
      show ?thesis
      proof (cases "rt_consumed_at stored")
        case None
        with Inr Some F assms(1)
        have "atomically db (rotate_refresh en client_id resource requested stored family db) = (r, db')"
          by (simp add: refresh_grant_def)
        then show ?thesis
          by (rule atomically_inv) (use I oauth_inv_rotate_refresh [OF _ I _ None] st fa in auto)
      next
        case (Some t)
        with Inr F assms(1) \<open>get_row rt_token_digest _ _ = Some stored\<close>
        have "db' = db\<lparr>families := put_row fa_id (compromise (oe_now en) family) (families db)\<rparr>"
          by (auto simp: refresh_grant_def)
        then show ?thesis using oauth_inv_put_family [OF I, of family "compromise (oe_now en) family"] fa
          by (simp add: compromise_def)
      qed
    qed
  qed
qed (use assms in \<open>auto simp: refresh_grant_def\<close>)

lemma oauth_inv_put_access:
  assumes I: "oauth_inv db" and t: "t \<in> set (access_tokens db)"
    and t': "at_id t' = at_id t" "at_scopes t' = at_scopes t" "at_token_digest t' = at_token_digest t"
      "at_family_id t' = at_family_id t"
  shows "oauth_inv (db\<lparr>access_tokens := put_row at_id t' (access_tokens db)\<rparr>)"
proof -
  let ?ts = "put_row at_id t' (access_tokens db)"
  have inj: "inj_on at_id (set (access_tokens db))" using I by (simp add: oauth_inv_def oauth_keys_def distinct_map)
  have "map at_token_digest ?ts = map at_token_digest (access_tokens db)"
    "map at_family_id ?ts = map at_family_id (access_tokens db)"
    by (rule map_put_row_same [OF inj t t'(1)], use t' in simp)+
  then have "oauth_keys (db\<lparr>access_tokens := ?ts\<rparr>)"
    using I by (simp add: oauth_inv_def oauth_keys_def) (metis list.set_map)
  moreover have "oauth_scopes (db\<lparr>access_tokens := ?ts\<rparr>)"
    using I t t' unfolding oauth_inv_def oauth_scopes_def by (auto simp: in_put_row_iff)
  ultimately show ?thesis using I by (simp add: oauth_inv_def one_open_refresh_def)
qed

lemma oauth_inv_revoke_family:
  assumes "oauth_inv db"
  shows "oauth_inv (revoke_family now family_id db)"
  using assms oauth_inv_put_family [OF assms]
  by (auto simp: revoke_family_def split: option.splits dest!: get_row_SomeD)

lemma oauth_inv_revoke:
  assumes "oauth_inv db"
  shows "oauth_inv (revoke en raw db)"
proof -
  have 1: "oauth_inv (revoke_access en raw d)" if I: "oauth_inv d" for d
  proof (cases "get_row at_token_digest (oauth_digest en ''access-token'' raw) (access_tokens d)")
    case (Some t)
    have "oauth_inv (d\<lparr>access_tokens := put_row at_id
        (t\<lparr>at_revoked_at := or_now (at_revoked_at t) (oe_now en)\<rparr>) (access_tokens d)\<rparr>)"
      by (rule oauth_inv_put_access [OF I]) (use get_row_SomeD [OF Some] in simp_all)
    with Some show ?thesis by (simp add: revoke_access_def oauth_inv_revoke_family)
  qed (use I in \<open>simp add: revoke_access_def\<close>)
  have 2: "oauth_inv (revoke_refresh en raw d)" if I: "oauth_inv d" for d
  proof (cases "get_row rt_token_digest (oauth_digest en ''refresh-token'' raw) (refresh_tokens d)")
    case (Some t)
    have "oauth_inv (d\<lparr>refresh_tokens := put_row rt_id
        (t\<lparr>rt_revoked_at := or_now (rt_revoked_at t) (oe_now en)\<rparr>) (refresh_tokens d)\<rparr>)"
      by (rule oauth_inv_put_refresh [OF I]) (use get_row_SomeD [OF Some] in simp_all)
    with Some show ?thesis by (simp add: revoke_refresh_def oauth_inv_revoke_family)
  qed (use I in \<open>simp add: revoke_refresh_def\<close>)
  show ?thesis using assms 1 2 by (simp add: revoke_def)
qed

section \<open>Histories\<close>

datatype oauth_op =
    Issue authorization_request
  | Exchange string string string string string
  | RefreshOp string string string "string list option"
  | Revoke string

fun oauth_step :: "oauth_env \<Rightarrow> oauth_op \<Rightarrow> oauth_db \<Rightarrow> oauth_db" where
  "oauth_step en (Issue request) db = snd (issue_authorization_code en request db)"
| "oauth_step en (Exchange code client_id redirect_uri resource verifier) db =
     snd (exchange_authorization_code en code client_id redirect_uri resource verifier db)"
| "oauth_step en (RefreshOp raw client_id resource scopes) db =
     snd (refresh_grant en raw client_id resource scopes db)"
| "oauth_step en (Revoke raw) db = revoke en raw db"

text \<open>Histories whose requests all satisfy a condition, from one database to a later one.\<close>

inductive oauth_run :: "(oauth_env \<Rightarrow> oauth_op \<Rightarrow> bool) \<Rightarrow> oauth_db \<Rightarrow> oauth_db \<Rightarrow> bool" for P db where
  run_now: "oauth_run P db db"
| run_step: "oauth_run P db db' \<Longrightarrow> P en op \<Longrightarrow> oauth_run P db (oauth_step en op db')"

definition oauth_reach :: "oauth_db \<Rightarrow> bool" where
  "oauth_reach db \<longleftrightarrow> oauth_run (\<lambda>_ _. True) empty_oauth_db db"

text \<open>What every request keeps holds after every history.\<close>

lemma oauth_run_inv:
  assumes "oauth_run P db db'" and "I db" and "\<And>en op d. P en op \<Longrightarrow> I d \<Longrightarrow> I (oauth_step en op d)"
  shows "I db'"
  using assms(1,2) by (induction rule: oauth_run.induct) (auto intro: assms(3))

lemma oauth_inv_step: "oauth_inv db \<Longrightarrow> oauth_inv (oauth_step en op db)"
  by (cases op) (auto intro: oauth_inv_issue_code oauth_inv_exchange oauth_inv_refresh oauth_inv_revoke
      simp: prod_eq_iff)

lemma oauth_inv_run: "oauth_run P db db' \<Longrightarrow> oauth_inv db \<Longrightarrow> oauth_inv db'"
  by (erule oauth_run_inv) (auto intro: oauth_inv_step)

lemma oauth_inv_reach: "oauth_reach db \<Longrightarrow> oauth_inv db"
  using oauth_inv_run oauth_inv_empty by (auto simp: oauth_reach_def)

end
