(* ===== verification/OAuthHistory.thy ===== *)
theory OAuthHistory
  imports OAuthInvariant
begin

text \<open>
  What stays true along every history of requests: a consumed code stays consumed, a revoked
  family stays revoked. Both need that the random draws do not repeat the digest or the row
  identifier in question, which is the condition on the requests of the history.
\<close>

section \<open>Inverting the operations\<close>

lemma atomically_Inr: "atomically db m = (Inr x, db') \<longleftrightarrow> m = Inr (x, db')"
  by (cases m) (auto simp: atomically_def)

lemma exchange_Inr:
  assumes "exchange_authorization_code en code client_id redirect_uri resource verifier db = (Inr p, db')"
  obtains stored where
    "get_row ac_code_digest (oauth_digest en ''authorization-code'' code) (codes db) = Some stored"
    "validate_token_client en client_id resource = Inr ()" "validate_chatgpt_client client_id redirect_uri = Inr ()"
    "code_verifier_ok verifier" "code_usable en client_id redirect_uri resource stored"
    "pkce_challenge en verifier = ac_code_challenge stored"
    "issue_token_pair en (ac_client_id stored) (ac_resource stored) (decode_scopes (ac_scopes stored))
      (ac_subject stored) (db\<lparr>codes := put_row ac_id (stored\<lparr>ac_consumed_at := Some (oe_now en)\<rparr>) (codes db)\<rparr>)
      = Inr (p, db')"
proof -
  from assms obtain stored where
    "get_row ac_code_digest (oauth_digest en ''authorization-code'' code) (codes db) = Some stored"
    "validate_token_client en client_id resource = Inr ()" "validate_chatgpt_client client_id redirect_uri = Inr ()"
    "code_verifier_ok verifier" "code_usable en client_id redirect_uri resource stored"
    "pkce_challenge en verifier = ac_code_challenge stored"
    "issue_token_pair en (ac_client_id stored) (ac_resource stored) (decode_scopes (ac_scopes stored))
      (ac_subject stored) (db\<lparr>codes := put_row ac_id (stored\<lparr>ac_consumed_at := Some (oe_now en)\<rparr>) (codes db)\<rparr>)
      = Inr (p, db')"
    unfolding exchange_authorization_code_def atomically_Inr by (auto simp: result_simps Let_def)
  then show thesis by (rule that)
qed

lemma exchange_Inl: "exchange_authorization_code en code c r rs v db = (Inl e, db') \<Longrightarrow> db' = db"
  by (auto simp: exchange_authorization_code_def atomically_def split: sum.splits)

lemma issue_pair_Inr:
  assumes "issue_token_pair en client_id resource scopes subject db = Inr (p, db')"
  obtains f where "fa_id f = oe_uuid en FamilyRow" "fa_revoked_at f = None" "fa_scopes f = encode_scopes scopes"
    "fa_client_id f = client_id" "fa_resource f = resource" "fa_subject f = subject"
    "fa_credential_generation f = credential_generation en"
    "fa_expires_at f = oe_now en + seconds (oc_refresh_token_ttl_seconds (oe_config en))"
    "oe_uuid en FamilyRow \<notin> fa_id ` set (families db)"
    "db' = db\<lparr>families := families db @ [f], access_tokens := access_tokens db @ [pair_access en (fa_id f) scopes],
       refresh_tokens := refresh_tokens db @ [pair_refresh en (fa_id f) scopes]\<rparr>"
    "p = \<lparr>tp_access_token = oe_raw_access en, tp_refresh_token = oe_raw_refresh en,
        tp_expires_in = oc_access_token_ttl_seconds (oe_config en), tp_scopes = scopes\<rparr>"
    "oauth_digest en ''access-token'' (oe_raw_access en) \<notin> at_token_digest ` set (access_tokens db)"
proof -
  define f where "f = \<lparr>fa_id = oe_uuid en FamilyRow, fa_client_id = client_id, fa_resource = resource,
      fa_scopes = encode_scopes scopes, fa_subject = subject,
      fa_credential_generation = credential_generation en, fa_created_at = oe_now en,
      fa_expires_at = oe_now en + seconds (oc_refresh_token_ttl_seconds (oe_config en)),
      fa_revoked_at = None, fa_compromise_detected_at = None\<rparr>"
  from assms obtain d where i: "insert_family f db = Inr d" and r: "rotate_token_pair en f scopes d = Inr (p, db')"
    by (auto simp: issue_token_pair_def Let_def result_simps f_def)
  note F = insert_family_InrD [OF i]
  have g: "f\<lparr>fa_expires_at := oe_now en + seconds (oc_refresh_token_ttl_seconds (oe_config en))\<rparr> = f"
    by (simp add: f_def)
  have put: "put_row fa_id f (families db @ [f]) = families db @ [f]"
  proof -
    have "\<forall>x \<in> set (families db). (if fa_id x = fa_id f then f else x) = x"
      using F(2) by (auto simp: image_iff)
    then show ?thesis unfolding put_row_def by (simp add: map_idI)
  qed
  have res: "db' = db\<lparr>families := families db @ [f], access_tokens := access_tokens db @ [pair_access en (fa_id f) scopes],
       refresh_tokens := refresh_tokens db @ [pair_refresh en (fa_id f) scopes]\<rparr>
    \<and> p = \<lparr>tp_access_token = oe_raw_access en, tp_refresh_token = oe_raw_refresh en,
        tp_expires_in = oc_access_token_ttl_seconds (oe_config en), tp_scopes = scopes\<rparr>
    \<and> oauth_digest en ''access-token'' (oe_raw_access en) \<notin> at_token_digest ` set (access_tokens db)"
  proof (rule rotate_token_pair_InrD [OF r], goal_cases)
    case (1 fs)
    then show ?case by (simp add: F(1) g put)
  qed
  show thesis
  proof (rule that [of f])
    show "oe_uuid en FamilyRow \<notin> fa_id ` set (families db)" using F(2) by (simp add: f_def)
  qed (use res in \<open>simp_all add: f_def\<close>)
qed

text \<open>The two ways a refresh changes the database.\<close>

lemma refresh_cases:
  assumes "refresh_grant en raw client_id resource requested db = (r, db')"
  obtains (same) e where "r = Inl e" "db' = db"
  | (replay) stored family where
      "get_row rt_token_digest (oauth_digest en ''refresh-token'' raw) (refresh_tokens db) = Some stored"
      "get_row fa_id (rt_family_id stored) (families db) = Some family" "rt_consumed_at stored \<noteq> None"
      "r = Inl replay_detected"
      "db' = db\<lparr>families := put_row fa_id (compromise (oe_now en) family) (families db)\<rparr>"
  | (rotate) stored family scopes p where
      "validate_token_client en client_id resource = Inr ()"
      "get_row rt_token_digest (oauth_digest en ''refresh-token'' raw) (refresh_tokens db) = Some stored"
      "get_row fa_id (rt_family_id stored) (families db) = Some family" "rt_consumed_at stored = None"
      "refresh_usable en client_id resource stored family"
      "refresh_scopes requested (decode_scopes (rt_scopes stored)) = Inr scopes" "r = Inr p"
      "rotate_token_pair en family scopes (db\<lparr>refresh_tokens :=
         put_row rt_id (stored\<lparr>rt_consumed_at := Some (oe_now en)\<rparr>) (refresh_tokens db)\<rparr>) = Inr (p, db')"
proof (cases "validate_token_client en client_id resource")
  case (Inl e)
  with assms same show thesis by (auto simp: refresh_grant_def)
next
  case V: (Inr u)
  show thesis
  proof (cases "get_row rt_token_digest (oauth_digest en ''refresh-token'' raw) (refresh_tokens db)")
    case None
    with V assms same show thesis by (auto simp: refresh_grant_def)
  next
    case S: (Some stored)
    show thesis
    proof (cases "get_row fa_id (rt_family_id stored) (families db)")
      case None
      with V S assms same show thesis by (auto simp: refresh_grant_def)
    next
      case F: (Some family)
      show thesis
      proof (cases "rt_consumed_at stored")
        case (Some t)
        with V S F assms show thesis by (intro replay) (auto simp: refresh_grant_def)
      next
        case None
        with V S F assms have a: "atomically db (rotate_refresh en client_id resource requested stored family db) = (r, db')"
          by (simp add: refresh_grant_def)
        show thesis
        proof (cases "rotate_refresh en client_id resource requested stored family db")
          case (Inl e)
          with a same show thesis by (auto simp: atomically_def)
        next
          case (Inr pd)
          with a obtain p where "rotate_refresh en client_id resource requested stored family db = Inr (p, db')" "r = Inr p"
            by (cases pd) (auto simp: atomically_def)
          with V S F None show thesis by (auto simp: rotate_refresh_def result_simps Let_def intro: rotate)
        qed
      qed
    qed
  qed
qed

section \<open>What a history cannot undo\<close>

text \<open>The draws of a request repeat neither a family identifier nor one of the given digests.\<close>

definition fresh_draws :: "uuid \<Rightarrow> string list \<Rightarrow> oauth_env \<Rightarrow> bool" where
  "fresh_draws family_id digests en \<longleftrightarrow> oe_uuid en FamilyRow \<noteq> family_id \<and>
     oauth_digest en ''access-token'' (oe_raw_access en) \<notin> set digests \<and>
     oauth_digest en ''refresh-token'' (oe_raw_refresh en) \<notin> set digests"

definition code_spent :: "string \<Rightarrow> oauth_db \<Rightarrow> bool" where
  "code_spent digest db \<longleftrightarrow> (\<forall>c \<in> set (codes db). ac_code_digest c = digest \<longrightarrow> ac_consumed_at c \<noteq> None)"

definition family_dead :: "uuid \<Rightarrow> oauth_db \<Rightarrow> bool" where
  "family_dead family_id db \<longleftrightarrow> (\<forall>f \<in> set (families db). fa_id f = family_id \<longrightarrow> fa_revoked_at f \<noteq> None)"

definition access_of :: "uuid \<Rightarrow> string \<Rightarrow> oauth_db \<Rightarrow> bool" where
  "access_of family_id digest db \<longleftrightarrow>
     (\<forall>t \<in> set (access_tokens db). at_token_digest t = digest \<longrightarrow> at_family_id t = family_id)"

definition refresh_of :: "uuid \<Rightarrow> string \<Rightarrow> oauth_db \<Rightarrow> bool" where
  "refresh_of family_id digest db \<longleftrightarrow>
     (\<forall>t \<in> set (refresh_tokens db). rt_token_digest t = digest \<longrightarrow> rt_family_id t = family_id)"

definition refresh_spent :: "string \<Rightarrow> oauth_db \<Rightarrow> bool" where
  "refresh_spent digest db \<longleftrightarrow>
     (\<forall>t \<in> set (refresh_tokens db). rt_token_digest t = digest \<longrightarrow> rt_consumed_at t \<noteq> None)"

lemmas history_defs = code_spent_def family_dead_def access_of_def refresh_of_def refresh_spent_def

text \<open>
  How one request may change the four tables, as far as these conditions can see: a row of the
  new table is an old one up to fields that only move forward, or the row that was drawn.
\<close>

definition code_grows :: "oauth_env \<Rightarrow> oauth_op \<Rightarrow> oauth_db \<Rightarrow> oauth_db \<Rightarrow> bool" where
  "code_grows en op db db' \<longleftrightarrow> (\<forall>c \<in> set (codes db').
     (\<exists>c0 \<in> set (codes db). c = c0 \<or> c = c0\<lparr>ac_consumed_at := Some (oe_now en)\<rparr>) \<or>
     (\<exists>q. op = Issue q \<and> c = new_code en q \<and> validate_authorization_request q (oe_config en) = Inr ()))"

definition family_grows :: "oauth_env \<Rightarrow> oauth_db \<Rightarrow> oauth_db \<Rightarrow> bool" where
  "family_grows en db db' \<longleftrightarrow> (\<forall>f \<in> set (families db').
     (\<exists>f0 \<in> set (families db). fa_id f = fa_id f0 \<and> fa_client_id f = fa_client_id f0 \<and>
        fa_resource f = fa_resource f0 \<and> fa_scopes f = fa_scopes f0 \<and> fa_subject f = fa_subject f0 \<and>
        fa_credential_generation f = fa_credential_generation f0 \<and>
        (fa_revoked_at f0 \<noteq> None \<longrightarrow> fa_revoked_at f \<noteq> None)) \<or>
     (\<exists>c \<in> set (codes db). fa_id f = oe_uuid en FamilyRow \<and> fa_client_id f = ac_client_id c \<and>
        fa_resource f = ac_resource c \<and> fa_scopes f = encode_scopes (decode_scopes (ac_scopes c)) \<and>
        fa_subject f = ac_subject c \<and> fa_credential_generation f = credential_generation en))"

definition access_grows :: "oauth_env \<Rightarrow> oauth_db \<Rightarrow> oauth_db \<Rightarrow> bool" where
  "access_grows en db db' \<longleftrightarrow> (\<forall>t \<in> set (access_tokens db').
     (\<exists>t0 \<in> set (access_tokens db). at_token_digest t = at_token_digest t0 \<and> at_family_id t = at_family_id t0) \<or>
     at_token_digest t = oauth_digest en ''access-token'' (oe_raw_access en))"

definition refresh_grows :: "oauth_env \<Rightarrow> oauth_db \<Rightarrow> oauth_db \<Rightarrow> bool" where
  "refresh_grows en db db' \<longleftrightarrow> (\<forall>t \<in> set (refresh_tokens db').
     (\<exists>t0 \<in> set (refresh_tokens db). rt_token_digest t = rt_token_digest t0 \<and> rt_family_id t = rt_family_id t0 \<and>
        (rt_consumed_at t0 \<noteq> None \<longrightarrow> rt_consumed_at t \<noteq> None)) \<or>
     rt_token_digest t = oauth_digest en ''refresh-token'' (oe_raw_refresh en))"

definition oauth_grows :: "oauth_env \<Rightarrow> oauth_op \<Rightarrow> oauth_db \<Rightarrow> oauth_db \<Rightarrow> bool" where
  "oauth_grows en op db db' \<longleftrightarrow> code_grows en op db db' \<and> family_grows en db db' \<and>
     access_grows en db db' \<and> refresh_grows en db db'"

lemmas grows_defs = code_grows_def family_grows_def access_grows_def refresh_grows_def

lemma family_growsI_same: "set (families db') \<subseteq> set (families db) \<Longrightarrow> family_grows en db db'"
  unfolding family_grows_def by blast

lemma access_growsI_same: "set (access_tokens db') \<subseteq> set (access_tokens db) \<Longrightarrow> access_grows en db db'"
  unfolding access_grows_def by blast

lemma refresh_growsI_same: "set (refresh_tokens db') \<subseteq> set (refresh_tokens db) \<Longrightarrow> refresh_grows en db db'"
  unfolding refresh_grows_def by blast

lemma code_growsI_same: "set (codes db') \<subseteq> set (codes db) \<Longrightarrow> code_grows en op db db'"
  unfolding code_grows_def by blast

lemma oauth_grows_refl: "oauth_grows en op db db"
  by (simp add: oauth_grows_def family_growsI_same access_growsI_same refresh_growsI_same code_growsI_same)

lemma delete_expired_subset:
  "set (codes (delete_expired now db)) \<subseteq> set (codes db)"
  "set (families (delete_expired now db)) \<subseteq> set (families db)"
  "set (access_tokens (delete_expired now db)) \<subseteq> set (access_tokens db)"
  "set (refresh_tokens (delete_expired now db)) \<subseteq> set (refresh_tokens db)"
  by (auto simp: delete_expired_def Let_def)

lemma issue_code_Inr:
  assumes "issue_authorization_code en q db = (r, db')"
  shows "db' = db \<or> validate_authorization_request q (oe_config en) = Inr () \<and>
    db' = (delete_expired (oe_now en) db)\<lparr>codes := codes (delete_expired (oe_now en) db) @ [new_code en q]\<rparr>"
proof (cases r)
  case (Inl e)
  with assms show ?thesis by (auto simp: issue_authorization_code_def atomically_def split: sum.splits)
next
  case (Inr x)
  with assms show ?thesis
    by (auto simp: issue_authorization_code_def atomically_Inr result_simps dest: insert_code_InrD(1))
qed

lemma grows_issue: "oauth_grows en (Issue q) db (snd (issue_authorization_code en q db))"
proof -
  obtain r db' where i: "issue_authorization_code en q db = (r, db')" by fastforce
  from issue_code_Inr [OF i] show ?thesis
  proof
    assume "db' = db"
    then show ?thesis by (simp add: i oauth_grows_refl)
  next
    assume "validate_authorization_request q (oe_config en) = Inr () \<and>
      db' = (delete_expired (oe_now en) db)\<lparr>codes := codes (delete_expired (oe_now en) db) @ [new_code en q]\<rparr>"
    then have d: "db' = (delete_expired (oe_now en) db)\<lparr>codes := codes (delete_expired (oe_now en) db) @ [new_code en q]\<rparr>"
      and v: "validate_authorization_request q (oe_config en) = Inr ()" by blast+
    have "code_grows en (Issue q) db db'"
      using v delete_expired_subset(1) [of "oe_now en" db] by (auto simp: code_grows_def d)
    then show ?thesis
      using delete_expired_subset [of "oe_now en" db]
      by (simp add: i oauth_grows_def d family_growsI_same access_growsI_same refresh_growsI_same)
  qed
qed

lemma grows_exchange:
  "oauth_grows en (Exchange code c r rs v) db (snd (exchange_authorization_code en code c r rs v db))"
proof -
  obtain x db' where e: "exchange_authorization_code en code c r rs v db = (x, db')" by fastforce
  show ?thesis
  proof (cases x)
    case (Inl err)
    with e exchange_Inl have "db' = db" by blast
    then show ?thesis by (simp add: e oauth_grows_refl)
  next
    case (Inr p)
    with e have ex: "exchange_authorization_code en code c r rs v db = (Inr p, db')" by simp
    obtain stored where st: "stored \<in> set (codes db)"
      and i: "issue_token_pair en (ac_client_id stored) (ac_resource stored) (decode_scopes (ac_scopes stored))
        (ac_subject stored) (db\<lparr>codes := put_row ac_id (stored\<lparr>ac_consumed_at := Some (oe_now en)\<rparr>) (codes db)\<rparr>)
        = Inr (p, db')"
    proof (rule exchange_Inr [OF ex], goal_cases)
      case (1 stored)
      from get_row_SomeD [OF 1(2)] have "stored \<in> set (codes db)" by simp
      then show thesis using 1(8) by (rule 1(1))
    qed
    from i show ?thesis
    proof (rule issue_pair_Inr, goal_cases)
      case (1 f)
      have "code_grows en (Exchange code c r rs v) db db'"
        using st unfolding code_grows_def 1(10) by (auto dest!: in_put_rowD)
      moreover have "family_grows en db db'"
        using st 1(1-7) unfolding family_grows_def 1(10) by auto
      moreover have "access_grows en db db'" "refresh_grows en db db'"
        unfolding access_grows_def refresh_grows_def 1(10)
        by (auto simp: pair_access_def pair_refresh_def)
      ultimately show ?case by (simp add: e oauth_grows_def)
    qed
  qed
qed

lemma grows_refresh:
  "oauth_grows en (RefreshOp raw c rs sc) db (snd (refresh_grant en raw c rs sc db))"
proof -
  obtain x db' where e: "refresh_grant en raw c rs sc db = (x, db')" by fastforce
  from e show ?thesis
  proof (cases rule: refresh_cases)
    case (same err)
    then show ?thesis by (simp add: e oauth_grows_refl)
  next
    case (replay stored family)
    have "family \<in> set (families db)" using replay(2) by (auto dest: get_row_SomeD)
    then have "family_grows en db db'"
      unfolding family_grows_def replay(5)
      by (auto simp: compromise_def or_now_def dest!: in_put_rowD split: option.splits)
    then show ?thesis
      by (simp add: e oauth_grows_def code_growsI_same access_growsI_same refresh_growsI_same replay(5))
  next
    case (rotate stored family scopes p)
    have fa: "family \<in> set (families db)" using rotate(3) by (auto dest: get_row_SomeD)
    have st: "stored \<in> set (refresh_tokens db)" using rotate(2) by (auto dest: get_row_SomeD)
    from rotate(8) show ?thesis
    proof (rule rotate_token_pair_InrD, goal_cases)
      case (1 fs)
      have "family_grows en db db'"
        using fa unfolding family_grows_def 1(2) by (auto simp: 1(1) dest!: in_put_rowD)
      moreover have "access_grows en db db'"
        unfolding access_grows_def 1(2) by (auto simp: pair_access_def)
      moreover have "refresh_grows en db db'"
        using st unfolding refresh_grows_def 1(2) by (auto simp: pair_refresh_def dest!: in_put_rowD)
      ultimately show ?case by (simp add: e oauth_grows_def code_growsI_same 1(2))
    qed
  qed
qed

lemma codes_revoke [simp]: "codes (revoke en raw db) = codes db"
  by (simp add: revoke_def revoke_refresh_def revoke_access_def revoke_family_def split: option.splits)

lemma grows_revoke_family: "family_grows en db (revoke_family now family_id db)"
  by (auto simp: family_grows_def revoke_family_def or_now_def split: option.splits dest!: in_put_rowD get_row_SomeD)

lemma family_grows_trans_same:
  "family_grows en d d' \<Longrightarrow> families d = families db \<Longrightarrow> codes d = codes db \<Longrightarrow> family_grows en db d'"
  by (simp add: family_grows_def)

lemma revoke_family_tokens [simp]:
  "access_tokens (revoke_family now i db) = access_tokens db"
  "refresh_tokens (revoke_family now i db) = refresh_tokens db"
  "codes (revoke_family now i db) = codes db"
  by (simp_all add: revoke_family_def split: option.splits)

lemma revoke_access_grows:
  "family_grows en db (revoke_access en raw db) \<and> access_grows en db (revoke_access en raw db) \<and>
   refresh_tokens (revoke_access en raw db) = refresh_tokens db \<and> codes (revoke_access en raw db) = codes db"
proof (cases "get_row at_token_digest (oauth_digest en ''access-token'' raw) (access_tokens db)")
  case None
  then show ?thesis by (simp add: revoke_access_def family_growsI_same access_growsI_same)
next
  case (Some t)
  then have "t \<in> set (access_tokens db)" by (auto dest: get_row_SomeD)
  then have "access_grows en db (revoke_access en raw db)"
    using Some by (auto simp: access_grows_def revoke_access_def dest!: in_put_rowD)
  moreover have "family_grows en db (revoke_access en raw db)"
    using Some by (simp add: revoke_access_def) (rule family_grows_trans_same [OF grows_revoke_family]; simp)
  ultimately show ?thesis using Some by (simp add: revoke_access_def)
qed

lemma revoke_refresh_grows:
  "family_grows en db (revoke_refresh en raw db) \<and> refresh_grows en db (revoke_refresh en raw db) \<and>
   access_tokens (revoke_refresh en raw db) = access_tokens db \<and> codes (revoke_refresh en raw db) = codes db"
proof (cases "get_row rt_token_digest (oauth_digest en ''refresh-token'' raw) (refresh_tokens db)")
  case None
  then show ?thesis by (simp add: revoke_refresh_def family_growsI_same refresh_growsI_same)
next
  case (Some t)
  then have "t \<in> set (refresh_tokens db)" by (auto dest: get_row_SomeD)
  then have "refresh_grows en db (revoke_refresh en raw db)"
    using Some by (auto simp: refresh_grows_def revoke_refresh_def dest!: in_put_rowD)
  moreover have "family_grows en db (revoke_refresh en raw db)"
    using Some by (simp add: revoke_refresh_def) (rule family_grows_trans_same [OF grows_revoke_family]; simp)
  ultimately show ?thesis using Some by (simp add: revoke_refresh_def)
qed

lemma family_grows_trans:
  assumes "family_grows en a b" and "family_grows en b c" and "codes b = codes a"
  shows "family_grows en a c"
  unfolding family_grows_def
proof
  fix f assume "f \<in> set (families c)"
  with assms(2,3) consider
      f1 where "f1 \<in> set (families b)" "fa_id f = fa_id f1" "fa_client_id f = fa_client_id f1"
        "fa_resource f = fa_resource f1" "fa_scopes f = fa_scopes f1" "fa_subject f = fa_subject f1"
        "fa_credential_generation f = fa_credential_generation f1" "fa_revoked_at f1 \<noteq> None \<longrightarrow> fa_revoked_at f \<noteq> None"
    | c1 where "c1 \<in> set (codes a)" "fa_id f = oe_uuid en FamilyRow" "fa_client_id f = ac_client_id c1"
        "fa_resource f = ac_resource c1" "fa_scopes f = encode_scopes (decode_scopes (ac_scopes c1))"
        "fa_subject f = ac_subject c1" "fa_credential_generation f = credential_generation en"
    unfolding family_grows_def by metis
  then show "(\<exists>f0 \<in> set (families a). fa_id f = fa_id f0 \<and> fa_client_id f = fa_client_id f0 \<and>
        fa_resource f = fa_resource f0 \<and> fa_scopes f = fa_scopes f0 \<and> fa_subject f = fa_subject f0 \<and>
        fa_credential_generation f = fa_credential_generation f0 \<and>
        (fa_revoked_at f0 \<noteq> None \<longrightarrow> fa_revoked_at f \<noteq> None)) \<or>
     (\<exists>c \<in> set (codes a). fa_id f = oe_uuid en FamilyRow \<and> fa_client_id f = ac_client_id c \<and>
        fa_resource f = ac_resource c \<and> fa_scopes f = encode_scopes (decode_scopes (ac_scopes c)) \<and>
        fa_subject f = ac_subject c \<and> fa_credential_generation f = credential_generation en)"
  proof cases
    case 1
    from bspec [OF assms(1) [unfolded family_grows_def] 1(1)] show ?thesis using 1(2-8) by (elim disjE bexE) auto
  next
    case 2
    then show ?thesis by blast
  qed
qed

lemma grows_revoke: "oauth_grows en (Revoke raw) db (revoke en raw db)"
proof (cases "raw = []")
  case True
  then show ?thesis by (simp add: revoke_def oauth_grows_refl)
next
  case False
  let ?a = "revoke_access en raw db"
  note A = revoke_access_grows [of en db raw] and R = revoke_refresh_grows [of en ?a raw]
  have "family_grows en db (revoke_refresh en raw ?a)" using A R family_grows_trans by blast
  moreover have "access_grows en db (revoke_refresh en raw ?a)" using A R by (simp add: access_grows_def)
  moreover have "refresh_grows en db (revoke_refresh en raw ?a)" using A R by (simp add: refresh_grows_def)
  moreover have "code_grows en (Revoke raw) db (revoke_refresh en raw ?a)" using A R by (simp add: code_growsI_same)
  ultimately show ?thesis using False by (simp add: revoke_def oauth_grows_def)
qed

lemma grows_step: "oauth_grows en op db (oauth_step en op db)"
  by (cases op) (simp_all add: grows_issue grows_exchange grows_refresh grows_revoke)

section \<open>Conditions every later request keeps\<close>

lemma code_spent_step:
  assumes "code_spent digest db"
    and "\<forall>q. op = Issue q \<longrightarrow> oauth_digest en ''authorization-code'' (oe_raw_code en) \<noteq> digest"
  shows "code_spent digest (oauth_step en op db)"
  unfolding code_spent_def
proof (intro ballI impI)
  fix c assume c: "c \<in> set (codes (oauth_step en op db))" "ac_code_digest c = digest"
  from grows_step [of en op db] have "code_grows en op db (oauth_step en op db)" by (simp add: oauth_grows_def)
  with c(1) consider c0 where "c0 \<in> set (codes db)" "c = c0 \<or> c = c0\<lparr>ac_consumed_at := Some (oe_now en)\<rparr>"
    | q where "op = Issue q" "c = new_code en q"
    unfolding code_grows_def by blast
  then show "ac_consumed_at c \<noteq> None"
  proof cases
    case 1
    with assms(1) c(2) show ?thesis by (auto simp: code_spent_def)
  next
    case 2
    with assms(2) c(2) show ?thesis by (auto simp: new_code_def)
  qed
qed

lemma family_dead_step:
  assumes "family_dead i db" and "oe_uuid en FamilyRow \<noteq> i"
  shows "family_dead i (oauth_step en op db)"
  using grows_step [of en op db] assms
  unfolding oauth_grows_def family_grows_def family_dead_def by metis

lemma access_of_step:
  assumes "access_of i digest db" and "oauth_digest en ''access-token'' (oe_raw_access en) \<noteq> digest"
  shows "access_of i digest (oauth_step en op db)"
  using grows_step [of en op db] assms
  unfolding oauth_grows_def access_grows_def access_of_def by metis

lemma refresh_of_step:
  assumes "refresh_of i digest db" and "oauth_digest en ''refresh-token'' (oe_raw_refresh en) \<noteq> digest"
  shows "refresh_of i digest (oauth_step en op db)"
  using grows_step [of en op db] assms
  unfolding oauth_grows_def refresh_grows_def refresh_of_def by metis

lemma refresh_spent_step:
  assumes "refresh_spent digest db" and "oauth_digest en ''refresh-token'' (oe_raw_refresh en) \<noteq> digest"
  shows "refresh_spent digest (oauth_step en op db)"
  using grows_step [of en op db] assms
  unfolding oauth_grows_def refresh_grows_def refresh_spent_def by metis

text \<open>Over a history whose draws repeat no digest of the database it starts from.\<close>

definition stored_digests :: "oauth_db \<Rightarrow> string list" where
  "stored_digests db = map at_token_digest (access_tokens db) @ map rt_token_digest (refresh_tokens db)"

definition fresh_history :: "uuid \<Rightarrow> oauth_db \<Rightarrow> oauth_db \<Rightarrow> bool" where
  "fresh_history i db db' \<longleftrightarrow> oauth_run (\<lambda>en _. fresh_draws i (stored_digests db) en) db db'"

lemma fresh_history_dead: "fresh_history i db db' \<Longrightarrow> family_dead i db \<Longrightarrow> family_dead i db'"
  unfolding fresh_history_def by (erule oauth_run_inv) (auto simp: fresh_draws_def intro: family_dead_step)

lemma fresh_history_access:
  assumes "fresh_history i db db'" and "access_of i digest db" and "digest \<in> at_token_digest ` set (access_tokens db)"
  shows "access_of i digest db'"
  using assms(1,2) unfolding fresh_history_def
  by (rule oauth_run_inv) (use assms(3) in \<open>auto simp: fresh_draws_def stored_digests_def intro!: access_of_step\<close>)

lemma fresh_history_refresh:
  assumes "fresh_history i db db'" and "refresh_of i digest db" and "digest \<in> rt_token_digest ` set (refresh_tokens db)"
  shows "refresh_of i digest db'"
  using assms(1,2) unfolding fresh_history_def
  by (rule oauth_run_inv) (use assms(3) in \<open>auto simp: fresh_draws_def stored_digests_def intro!: refresh_of_step\<close>)

lemma fresh_history_spent:
  assumes "fresh_history i db db'" and "refresh_spent digest db" and "digest \<in> rt_token_digest ` set (refresh_tokens db)"
  shows "refresh_spent digest db'"
  using assms(1,2) unfolding fresh_history_def
  by (rule oauth_run_inv) (use assms(3) in \<open>auto simp: fresh_draws_def stored_digests_def intro!: refresh_spent_step\<close>)

text \<open>Digests are unique, so the stored row decides.\<close>

lemma access_of_row:
  assumes "oauth_inv db" and "t \<in> set (access_tokens db)"
  shows "access_of (at_family_id t) (at_token_digest t) db"
  using assms by (auto simp: access_of_def oauth_inv_def oauth_keys_def distinct_map dest: inj_onD)

lemma refresh_of_row:
  assumes "oauth_inv db" and "t \<in> set (refresh_tokens db)"
  shows "refresh_of (rt_family_id t) (rt_token_digest t) db"
  using assms by (auto simp: refresh_of_def oauth_inv_def oauth_keys_def distinct_map dest: inj_onD)

section \<open>What these conditions refuse\<close>

lemma spent_code_refused:
  assumes "code_spent (oauth_digest en ''authorization-code'' code) db"
  shows "\<exists>e. exchange_authorization_code en code c r rs v db = (Inl e, db)"
proof -
  obtain x db' where e: "exchange_authorization_code en code c r rs v db = (x, db')" by fastforce
  show ?thesis
  proof (cases x)
    case (Inl err)
    with e exchange_Inl show ?thesis by blast
  next
    case (Inr p)
    with e have "exchange_authorization_code en code c r rs v db = (Inr p, db')" by simp
    then show ?thesis
      by (rule exchange_Inr) (use assms in \<open>auto simp: code_usable_def code_spent_def dest!: get_row_SomeD\<close>)
  qed
qed

lemma dead_access_refused:
  assumes "family_dead i db" and "access_of i (oauth_digest en ''access-token'' raw) db"
  shows "verify_access_token en raw db = None"
  using assms by (auto simp: verify_access_token_def family_dead_def access_of_def access_usable_def
      dest!: get_row_SomeD split: option.splits)

lemma dead_refresh_refused:
  assumes "family_dead i db" and "refresh_of i (oauth_digest en ''refresh-token'' raw) db"
  shows "\<exists>e. fst (refresh_grant en raw c rs sc db) = Inl e"
proof -
  obtain x db' where e: "refresh_grant en raw c rs sc db = (x, db')" by fastforce
  then show ?thesis
  proof (cases rule: refresh_cases)
    case (rotate stored family scopes p)
    then show ?thesis using assms
      by (auto simp: refresh_usable_def family_dead_def refresh_of_def dest!: get_row_SomeD)
  qed (simp_all add: e)
qed

end
