(* ===== verification/OAuthGrants.thy ===== *)
theory OAuthGrants
  imports OAuthHistory
begin

text \<open>
  Where a grant comes from: every stored code and every stored family goes back to an
  authorization request the owner approved in the history, and carries the credential generation
  of the configuration that issued it.
\<close>

section \<open>Grants go back to approved requests\<close>

definition approved :: "(authorization_request \<Rightarrow> bool) \<Rightarrow> oauth_env \<Rightarrow> oauth_op \<Rightarrow> bool" where
  "approved Q en op \<longleftrightarrow> (\<forall>q. op = Issue q \<longrightarrow> Q q)"

definition code_from :: "authorization_request \<Rightarrow> authorization_code \<Rightarrow> bool" where
  "code_from q c \<longleftrightarrow> ac_client_id c = aq_client_id q \<and> ac_redirect_uri c = aq_redirect_uri q \<and>
     ac_resource c = aq_resource q \<and> decode_scopes (ac_scopes c) = aq_scopes q \<and>
     set (aq_scopes q) \<subseteq> set SUPPORTED_SCOPES \<and>
     ac_code_challenge c = aq_code_challenge q \<and> ac_subject c = ''owner''"

definition family_from :: "authorization_request \<Rightarrow> token_family \<Rightarrow> bool" where
  "family_from q f \<longleftrightarrow> fa_client_id f = aq_client_id q \<and> fa_resource f = aq_resource q \<and>
     decode_scopes (fa_scopes f) = aq_scopes q \<and> fa_subject f = ''owner''"

definition grants_from :: "(authorization_request \<Rightarrow> bool) \<Rightarrow> oauth_db \<Rightarrow> bool" where
  "grants_from Q db \<longleftrightarrow> (\<forall>c \<in> set (codes db). \<exists>q. Q q \<and> code_from q c) \<and>
     (\<forall>f \<in> set (families db). \<exists>q. Q q \<and> family_from q f)"

lemma code_from_consumed [simp]: "code_from q (c\<lparr>ac_consumed_at := t\<rparr>) = code_from q c"
  by (simp add: code_from_def)

lemma code_from_new:
  "validate_authorization_request q cfg = Inr () \<Longrightarrow> code_from q (new_code en q)"
  using validated_scopes [of q cfg] by (simp add: code_from_def new_code_def decode_supported)

lemma family_from_code:
  assumes "code_from q c" and "fa_client_id f = ac_client_id c" and "fa_resource f = ac_resource c"
    and "fa_scopes f = encode_scopes (decode_scopes (ac_scopes c))" and "fa_subject f = ac_subject c"
  shows "family_from q f"
  using assms by (simp add: code_from_def family_from_def decode_supported)

lemma grants_from_step:
  assumes "grants_from Q db" and "approved Q en op"
  shows "grants_from Q (oauth_step en op db)"
proof -
  let ?d = "oauth_step en op db"
  have g: "code_grows en op db ?d" "family_grows en db ?d"
    using grows_step [of en op db] by (simp_all add: oauth_grows_def)
  have "\<exists>q. Q q \<and> code_from q c" if "c \<in> set (codes ?d)" for c
  proof -
    from g(1) that consider c0 where "c0 \<in> set (codes db)" "c = c0 \<or> c = c0\<lparr>ac_consumed_at := Some (oe_now en)\<rparr>"
      | q where "op = Issue q" "c = new_code en q" "validate_authorization_request q (oe_config en) = Inr ()"
      unfolding code_grows_def by blast
    then show ?thesis
    proof cases
      case 1
      with assms(1) show ?thesis unfolding grants_from_def by fastforce
    next
      case 2
      with assms(2) show ?thesis by (auto simp: approved_def intro: code_from_new)
    qed
  qed
  moreover have "\<exists>q. Q q \<and> family_from q f" if "f \<in> set (families ?d)" for f
  proof -
    from bspec [OF g(2) [unfolded family_grows_def] that] show ?thesis
    proof (elim disjE bexE conjE, goal_cases)
      case (1 f0)
      moreover from 1(1) assms(1) obtain q where "Q q" "family_from q f0" unfolding grants_from_def by blast
      ultimately show ?case by (auto simp: family_from_def)
    next
      case (2 c)
      moreover from 2(1) assms(1) obtain q where "Q q" "code_from q c" unfolding grants_from_def by blast
      ultimately show ?case using family_from_code by blast
    qed
  qed
  ultimately show ?thesis by (simp add: grants_from_def)
qed

lemma grants_from_run:
  "oauth_run (approved Q) empty_oauth_db db \<Longrightarrow> grants_from Q db"
  by (erule oauth_run_inv) (simp add: grants_from_def empty_oauth_db_def, rule grants_from_step)

text \<open>A run under any condition is a reachable one.\<close>

lemma oauth_run_reach: "oauth_run P empty_oauth_db db \<Longrightarrow> oauth_reach db"
  unfolding oauth_reach_def by (induction rule: oauth_run.induct) (auto intro: oauth_run.intros)

section \<open>Credential generations\<close>

definition generation_in :: "(string \<Rightarrow> bool) \<Rightarrow> oauth_db \<Rightarrow> bool" where
  "generation_in G db \<longleftrightarrow> (\<forall>c \<in> set (codes db). G (ac_credential_generation c)) \<and>
     (\<forall>f \<in> set (families db). G (fa_credential_generation f))"

lemma generation_in_step:
  assumes "generation_in G db" and "G (credential_generation en)"
  shows "generation_in G (oauth_step en op db)"
proof -
  let ?d = "oauth_step en op db"
  have g: "code_grows en op db ?d" "family_grows en db ?d"
    using grows_step [of en op db] by (simp_all add: oauth_grows_def)
  have "G (ac_credential_generation c)" if "c \<in> set (codes ?d)" for c
    using bspec [OF g(1) [unfolded code_grows_def] that] assms by (auto simp: generation_in_def new_code_def)
  moreover have "G (fa_credential_generation f)" if "f \<in> set (families ?d)" for f
    using bspec [OF g(2) [unfolded family_grows_def] that] assms by (auto simp: generation_in_def)
  ultimately show ?thesis by (simp add: generation_in_def)
qed

lemma generation_in_run:
  "oauth_run (\<lambda>en _. G (credential_generation en)) empty_oauth_db db \<Longrightarrow> generation_in G db"
  by (erule oauth_run_inv) (simp add: generation_in_def empty_oauth_db_def, rule generation_in_step)

section \<open>What a valid token shows\<close>

lemma verify_Some:
  assumes "verify_access_token en raw db = Some v"
  obtains t f where "t \<in> set (access_tokens db)" "at_token_digest t = oauth_digest en ''access-token'' raw"
    "f \<in> set (families db)" "fa_id f = at_family_id t" "access_usable en t f"
    "vt_client_id v = fa_client_id f" "vt_scopes v = decode_scopes (at_scopes t)"
    "vt_resource v = fa_resource f" "vt_subject v = fa_subject f"
    "vt_expires_at v = at_expires_at t div 1000000"
proof -
  from assms obtain t f where
    "get_row at_token_digest (oauth_digest en ''access-token'' raw) (access_tokens db) = Some t"
    "get_row fa_id (at_family_id t) (families db) = Some f" "access_usable en t f"
    "v = \<lparr>vt_client_id = fa_client_id f, vt_scopes = decode_scopes (at_scopes t),
        vt_expires_at = at_expires_at t div 1000000, vt_resource = fa_resource f, vt_subject = fa_subject f\<rparr>"
    by (auto simp: verify_access_token_def split: option.splits if_splits)
  moreover from this(1,2) have "t \<in> set (access_tokens db)" "at_token_digest t = oauth_digest en ''access-token'' raw"
    "f \<in> set (families db)" "fa_id f = at_family_id t"
    by (auto dest: get_row_SomeD)
  ultimately show thesis by (intro that [of t f]) simp_all
qed

lemma verify_issued_row:
  assumes inv: "oauth_inv db" and t: "t \<in> set (access_tokens db)" "at_token_digest t = oauth_digest en ''access-token'' raw"
    and f: "f \<in> set (families db)" "fa_id f = at_family_id t" and u: "access_usable en t f" and "raw \<noteq> []"
  shows "verify_access_token en raw db = Some \<lparr>vt_client_id = fa_client_id f, vt_scopes = decode_scopes (at_scopes t),
        vt_expires_at = at_expires_at t div 1000000, vt_resource = fa_resource f, vt_subject = fa_subject f\<rparr>"
proof -
  have d: "distinct (map at_token_digest (access_tokens db))" "distinct (map fa_id (families db))"
    using inv by (simp_all add: oauth_inv_def oauth_keys_def)
  have "get_row at_token_digest (oauth_digest en ''access-token'' raw) (access_tokens db) = Some t"
    using d(1) t by (simp add: get_row_iff)
  moreover have "get_row fa_id (at_family_id t) (families db) = Some f"
    using d(2) f by (simp add: get_row_iff)
  ultimately show ?thesis using u \<open>raw \<noteq> []\<close> by (simp add: verify_access_token_def)
qed

end
