(* ===== verification/OAuthTheorems.thy ===== *)
theory OAuthTheorems
  imports OAuthGrants
begin

text \<open>The properties of the authorization server, over every history of requests.\<close>

section \<open>Clients\<close>

text \<open>
  C40: the only clients accepted are the stable ChatGPT client with its redirect URI, and a
  callback client whose metadata URL and redirect URI carry the same callback identifier.
\<close>

theorem chatgpt_client_characterized:
  "validate_chatgpt_client client_id redirect_uri = Inr () \<longleftrightarrow>
     (client_id = CHATGPT_STABLE_CLIENT_ID \<and> redirect_uri = CHATGPT_STABLE_REDIRECT_URI) \<or>
     (\<exists>callback. client_id = ''https://chatgpt.com/oauth/'' @ callback @ ''/client.json'' \<and>
        redirect_uri = ''https://chatgpt.com/connector/oauth/'' @ callback \<and>
        1 \<le> length callback \<and> length callback \<le> 128 \<and> list_all token_char callback)"
proof -
  have no: "CHATGPT_STABLE_CLIENT_ID \<noteq> ''https://chatgpt.com/oauth/'' @ callback @ ''/client.json''" for callback
  proof
    assume "CHATGPT_STABLE_CLIENT_ID = ''https://chatgpt.com/oauth/'' @ callback @ ''/client.json''"
    then have "callback @ ''/client.json'' = ''client.json''" by (simp add: CHATGPT_STABLE_CLIENT_ID_def)
    from arg_cong [OF this, of length] show False by simp
  qed
  show ?thesis
  proof (cases "client_id = CHATGPT_STABLE_CLIENT_ID")
    case True
    with no show ?thesis by (auto simp: validate_chatgpt_client_def result_simps)
  next
    case False
    have c: "client_callback client_id = Some x \<longleftrightarrow> client_id = ''https://chatgpt.com/oauth/'' @ x @ ''/client.json'' \<and>
        1 \<le> length x \<and> length x \<le> 128 \<and> list_all token_char x" for x
      unfolding client_callback_def by (rule callback_group_Some)
    have r: "redirect_callback redirect_uri = Some x \<longleftrightarrow> redirect_uri = ''https://chatgpt.com/connector/oauth/'' @ x \<and>
        1 \<le> length x \<and> length x \<le> 128 \<and> list_all token_char x" for x
      using callback_group_Some [of "''https://chatgpt.com/connector/oauth/''" "[]" redirect_uri x]
      by (simp add: redirect_callback_def)
    have "validate_chatgpt_client client_id redirect_uri = Inr () \<longleftrightarrow>
        (\<exists>x. client_callback client_id = Some x \<and> redirect_callback redirect_uri = Some x)"
      using False by (auto simp: validate_chatgpt_client_def result_simps)
    with False show ?thesis by (auto simp only: c r)
  qed
qed

section \<open>The invariant\<close>

text \<open>
  C31: in every reachable database identifiers and digests are unique, every token belongs to a
  stored family, no token has a scope its family was not granted, and no family has two refresh
  tokens that are not consumed.
\<close>

theorem oauth_reachable_inv: "oauth_reach db \<Longrightarrow> oauth_inv db"
  by (rule oauth_inv_reach)

section \<open>Authorization codes\<close>

definition same_server :: "oauth_env \<Rightarrow> oauth_env \<Rightarrow> bool" where
  "same_server en en' \<longleftrightarrow> oe_config en = oe_config en' \<and> oe_hmac en = oe_hmac en'"

lemma same_server_digest: "same_server en en' \<Longrightarrow> oauth_digest en' = oauth_digest en"
  by (rule ext)+ (simp add: same_server_def oauth_digest_def hmac_key_def)

lemma exchange_spends:
  assumes inv: "oauth_inv db"
    and ex: "exchange_authorization_code en code c r rs v db = (Inr p, db')"
  shows "code_spent (oauth_digest en ''authorization-code'' code) db'"
proof (rule exchange_Inr [OF ex], goal_cases)
  case (1 stored)
  note st = get_row_SomeD [OF 1(1)]
  have cs: "codes db' = put_row ac_id (stored\<lparr>ac_consumed_at := Some (oe_now en)\<rparr>) (codes db)"
    by (rule issue_pair_Inr [OF 1(7)]) simp
  have inj: "inj_on ac_code_digest (set (codes db))" using inv by (simp add: oauth_inv_def oauth_keys_def distinct_map)
  have "c = stored" if "c \<in> set (codes db)" "ac_code_digest c = oauth_digest en ''authorization-code'' code" for c
    using inj_onD [OF inj, of c stored] st that by simp
  then show ?case unfolding code_spent_def cs by (auto dest!: in_put_rowD)
qed

text \<open>
  C34: an authorization code buys one token pair. After it was exchanged, no later request of the
  server's history can exchange it again, whoever presents it, as long as no later draw repeats
  the code.
\<close>

theorem code_exchanged_once:
  assumes "oauth_reach db"
    and "exchange_authorization_code en code client_id redirect_uri resource verifier db = (Inr p, db')"
    and "oauth_run (\<lambda>later op. oauth_digest later ''authorization-code'' (oe_raw_code later)
           \<noteq> oauth_digest en ''authorization-code'' code) db' db''"
    and "same_server en en'"
  shows "\<exists>e. exchange_authorization_code en' code client_id' redirect_uri' resource' verifier' db'' = (Inl e, db'')"
proof (rule spent_code_refused)
  let ?d = "oauth_digest en ''authorization-code'' code"
  have "code_spent ?d db'" using exchange_spends [OF oauth_inv_reach [OF assms(1)] assms(2)] .
  with assms(3) have "code_spent ?d db''" by (rule oauth_run_inv) (simp add: code_spent_step)
  then show "code_spent (oauth_digest en' ''authorization-code'' code) db''"
    using same_server_digest [OF assms(4)] by simp
qed

text \<open>
  C33: a token pair is issued only for a request the owner approved: the same client, redirect URI
  and resource, the scopes that were approved, and a verifier whose S256 challenge is the one in
  the request.
\<close>

theorem exchange_honours_approval:
  assumes "oauth_run (approved Q) empty_oauth_db db"
    and "exchange_authorization_code en code client_id redirect_uri resource verifier db = (Inr p, db')"
  shows "\<exists>q. Q q \<and> aq_client_id q = client_id \<and> aq_redirect_uri q = redirect_uri \<and>
     aq_resource q = resource \<and> aq_scopes q = tp_scopes p \<and>
     aq_code_challenge q = pkce_challenge en verifier"
proof (rule exchange_Inr [OF assms(2)], goal_cases)
  case (1 stored)
  from get_row_SomeD [OF 1(1)] grants_from_run [OF assms(1)]
  obtain q where q: "Q q" "code_from q stored" unfolding grants_from_def by blast
  have "tp_scopes p = decode_scopes (ac_scopes stored)" by (rule issue_pair_Inr [OF 1(7)]) simp
  with q 1(5,6) show ?case by (auto simp: code_from_def code_usable_def)
qed

section \<open>Access tokens\<close>

text \<open>A verified token goes back to an approved request.\<close>

lemma verified_from_approval:
  assumes "oauth_run (approved Q) empty_oauth_db db"
    and "verify_access_token en raw db = Some v"
  shows "\<exists>q. Q q \<and> vt_client_id v = aq_client_id q \<and> vt_resource v = aq_resource q \<and>
     set (vt_scopes v) \<subseteq> set (aq_scopes q) \<and> vt_subject v = ''owner''"
proof (rule verify_Some [OF assms(2)], goal_cases)
  case (1 t f)
  from 1(3) grants_from_run [OF assms(1)] obtain q where q: "Q q" "family_from q f"
    unfolding grants_from_def by blast
  have "oauth_scopes db" using oauth_inv_reach [OF oauth_run_reach [OF assms(1)]] by (simp add: oauth_inv_def)
  with 1(1,3,4) have "scopes_within (at_scopes t) (fa_scopes f)" by (simp add: oauth_scopes_def)
  with q 1 show ?case by (auto simp: scopes_within_def family_from_def)
qed

text \<open>
  C32: least privilege. A bearer token that verifies acts for the owner, for the client and the
  resource of a request the owner approved, and has no scope that request did not ask for. No
  sequence of exchanges and refreshes adds one.
\<close>

theorem token_within_approval:
  assumes "oauth_run (approved Q) empty_oauth_db db"
    and "verify_access_token en raw db = Some v"
  shows "\<exists>q. Q q \<and> vt_client_id v = aq_client_id q \<and> vt_resource v = aq_resource q \<and>
     set (vt_scopes v) \<subseteq> set (aq_scopes q) \<and> vt_subject v = ''owner''"
  by (rule verified_from_approval [OF assms])

text \<open>
  C37: changing the owner secret ends every session. When no request of the history ran under the
  present credential generation, no stored token verifies, no code can be exchanged and no
  refresh token can be rotated.
\<close>

theorem new_generation_revokes_all:
  assumes "oauth_run (\<lambda>en _. credential_generation en \<noteq> credential_generation en') empty_oauth_db db"
  shows "verify_access_token en' raw db = None \<and>
     (\<exists>e. fst (exchange_authorization_code en' code client_id redirect_uri resource verifier db) = Inl e) \<and>
     (\<exists>e. fst (refresh_grant en' raw' client_id resource scopes db) = Inl e)"
proof -
  have G: "generation_in (\<lambda>g. g \<noteq> credential_generation en') db" by (rule generation_in_run) (use assms in simp)
  have "verify_access_token en' raw db = None"
  proof (cases "verify_access_token en' raw db")
    case (Some v)
    then show ?thesis by (rule verify_Some) (use G in \<open>auto simp: generation_in_def access_usable_def\<close>)
  qed
  moreover have "\<exists>e. fst (exchange_authorization_code en' code client_id redirect_uri resource verifier db) = Inl e"
  proof (cases "fst (exchange_authorization_code en' code client_id redirect_uri resource verifier db)")
    case (Inr p)
    then obtain d where "exchange_authorization_code en' code client_id redirect_uri resource verifier db = (Inr p, d)"
      by (metis prod.collapse)
    then show ?thesis
      by (rule exchange_Inr) (use G in \<open>auto simp: generation_in_def code_usable_def dest!: get_row_SomeD\<close>)
  qed blast
  moreover have "\<exists>e. fst (refresh_grant en' raw' client_id resource scopes db) = Inl e"
  proof -
    obtain x d where r: "refresh_grant en' raw' client_id resource scopes db = (x, d)" by fastforce
    then show ?thesis
    proof (cases rule: refresh_cases)
      case (rotate stored family sc p)
      then show ?thesis using G by (auto simp: generation_in_def refresh_usable_def dest!: get_row_SomeD)
    qed (simp_all add: r)
  qed
  ultimately show ?thesis by blast
qed

section \<open>Revocation\<close>

text \<open>The family of the row a presented token names in a database.\<close>

definition access_names :: "oauth_env \<Rightarrow> string \<Rightarrow> uuid \<Rightarrow> oauth_db \<Rightarrow> bool" where
  "access_names en raw i db \<longleftrightarrow> (\<exists>t \<in> set (access_tokens db).
     at_token_digest t = oauth_digest en ''access-token'' raw \<and> at_family_id t = i)"

definition refresh_names :: "oauth_env \<Rightarrow> string \<Rightarrow> uuid \<Rightarrow> oauth_db \<Rightarrow> bool" where
  "refresh_names en raw i db \<longleftrightarrow> (\<exists>t \<in> set (refresh_tokens db).
     rt_token_digest t = oauth_digest en ''refresh-token'' raw \<and> rt_family_id t = i)"

lemma dead_after_history:
  assumes inv: "oauth_inv db" and dead: "family_dead i db" and run: "fresh_history i db db'"
  shows "access_names en raw i db \<Longrightarrow> verify_access_token en raw db' = None"
    and "refresh_names en raw i db \<Longrightarrow> \<exists>e. fst (refresh_grant en raw c rs sc db') = Inl e"
proof -
  have d: "family_dead i db'" by (rule fresh_history_dead [OF run dead])
  show "verify_access_token en raw db' = None" if "access_names en raw i db"
  proof -
    from that obtain t where t: "t \<in> set (access_tokens db)" "at_token_digest t = oauth_digest en ''access-token'' raw"
      "at_family_id t = i" unfolding access_names_def by blast
    then have "oauth_digest en ''access-token'' raw \<in> at_token_digest ` set (access_tokens db)" by (metis imageI)
    with fresh_history_access [OF run] access_of_row [OF inv t(1)] t
    have "access_of i (oauth_digest en ''access-token'' raw) db'" by metis
    with d show ?thesis by (rule dead_access_refused)
  qed
  show "\<exists>e. fst (refresh_grant en raw c rs sc db') = Inl e" if "refresh_names en raw i db"
  proof -
    from that obtain t where t: "t \<in> set (refresh_tokens db)" "rt_token_digest t = oauth_digest en ''refresh-token'' raw"
      "rt_family_id t = i" unfolding refresh_names_def by blast
    then have "oauth_digest en ''refresh-token'' raw \<in> rt_token_digest ` set (refresh_tokens db)" by (metis imageI)
    with fresh_history_refresh [OF run] refresh_of_row [OF inv t(1)] t
    have "refresh_of i (oauth_digest en ''refresh-token'' raw) db'" by metis
    with d show ?thesis by (rule dead_refresh_refused)
  qed
qed

lemma revoke_family_dead: "family_dead i (revoke_family now i db)"
proof (cases "get_row fa_id i (families db)")
  case None
  then have "revoke_family now i db = db" by (simp add: revoke_family_def)
  with None show ?thesis by (auto simp: family_dead_def get_row_None image_iff)
next
  case (Some f)
  then show ?thesis
    by (auto simp: family_dead_def revoke_family_def or_now_def split: option.splits dest!: in_put_rowD get_row_SomeD)
qed

lemma revoke_family_keeps_dead: "family_dead i db \<Longrightarrow> family_dead i (revoke_family now j db)"
  by (auto simp: family_dead_def revoke_family_def or_now_def split: option.splits dest!: in_put_rowD get_row_SomeD)

lemma family_dead_update [simp]:
  "family_dead i (db\<lparr>access_tokens := ts\<rparr>) = family_dead i db"
  "family_dead i (db\<lparr>refresh_tokens := rs\<rparr>) = family_dead i db"
  by (simp_all add: family_dead_def)

lemma revoke_dead:
  assumes inv: "oauth_inv db" and "raw \<noteq> []" and n: "access_names en raw i db \<or> refresh_names en raw i db"
  shows "family_dead i (revoke en raw db)"
  using n
proof
  assume "access_names en raw i db"
  then obtain t where t: "t \<in> set (access_tokens db)" "at_token_digest t = oauth_digest en ''access-token'' raw"
    "at_family_id t = i" unfolding access_names_def by blast
  have "distinct (map at_token_digest (access_tokens db))" using inv by (simp add: oauth_inv_def oauth_keys_def)
  with t have "get_row at_token_digest (oauth_digest en ''access-token'' raw) (access_tokens db) = Some t"
    by (simp add: get_row_iff)
  with t(3) have "family_dead i (revoke_access en raw db)" by (simp add: revoke_access_def revoke_family_dead)
  then show ?thesis using \<open>raw \<noteq> []\<close>
    by (simp add: revoke_def revoke_refresh_def revoke_family_keeps_dead split: option.splits)
next
  assume "refresh_names en raw i db"
  then obtain t where t: "t \<in> set (refresh_tokens db)" "rt_token_digest t = oauth_digest en ''refresh-token'' raw"
    "rt_family_id t = i" unfolding refresh_names_def by blast
  have "refresh_tokens (revoke_access en raw db) = refresh_tokens db" using revoke_access_grows [of en db raw] by simp
  moreover have "distinct (map rt_token_digest (refresh_tokens db))" using inv by (simp add: oauth_inv_def oauth_keys_def)
  ultimately have "get_row rt_token_digest (oauth_digest en ''refresh-token'' raw) (refresh_tokens (revoke_access en raw db)) = Some t"
    using t by (simp add: get_row_iff)
  with t(3) \<open>raw \<noteq> []\<close> show ?thesis by (simp add: revoke_def revoke_refresh_def revoke_family_dead)
qed

text \<open>
  C36: revocation is final and reaches the whole family. After either token of a pair is revoked,
  no access token of that family verifies and no refresh token of it is rotated again, whatever
  requests follow, as long as no later draw repeats the family's identifier or a stored digest.
\<close>

theorem revoke_is_final:
  assumes "oauth_reach db" and "raw \<noteq> []" and "access_names en raw i db \<or> refresh_names en raw i db"
    and "fresh_history i (revoke en raw db) db'"
  shows "(access_names en' raw' i (revoke en raw db) \<longrightarrow> verify_access_token en' raw' db' = None) \<and>
     (refresh_names en' raw'' i (revoke en raw db) \<longrightarrow>
        (\<exists>e. fst (refresh_grant en' raw'' client_id resource scopes db') = Inl e))"
proof -
  have inv: "oauth_inv db" by (rule oauth_inv_reach [OF assms(1)])
  from dead_after_history [OF oauth_inv_revoke [OF inv] revoke_dead [OF inv assms(2,3)] assms(4)]
  show ?thesis by blast
qed

section \<open>Refresh tokens\<close>

lemma refresh_spends:
  assumes inv: "oauth_inv db" and r: "refresh_grant en raw c rs sc db = (Inr p, db')"
  obtains i where "refresh_names en raw i db'" "refresh_spent (oauth_digest en ''refresh-token'' raw) db'"
    "access_names en (tp_access_token p) i db'" "refresh_names en (tp_refresh_token p) i db'"
  using r
proof (cases rule: refresh_cases)
  case (rotate stored family scopes q)
  note st = get_row_SomeD [OF rotate(2)] and fa = get_row_SomeD [OF rotate(3)]
  let ?s = "stored\<lparr>rt_consumed_at := Some (oe_now en)\<rparr>"
  have inj: "inj_on rt_token_digest (set (refresh_tokens db))"
    using inv by (simp add: oauth_inv_def oauth_keys_def distinct_map)
  have one: "t = stored" if "t \<in> set (refresh_tokens db)" "rt_token_digest t = oauth_digest en ''refresh-token'' raw" for t
    using inj_onD [OF inj, of t stored] st that by simp
  from rotate(8) show thesis
  proof (rule rotate_token_pair_InrD, goal_cases)
    case (1 fs)
    have rt: "refresh_tokens db' = put_row rt_id ?s (refresh_tokens db) @ [pair_refresh en (fa_id family) scopes]"
      and at: "access_tokens db' = access_tokens db @ [pair_access en (fa_id family) scopes]" by (simp_all add: 1(2))
    have new: "oauth_digest en ''refresh-token'' (oe_raw_refresh en) \<noteq> oauth_digest en ''refresh-token'' raw"
    proof -
      have "?s \<in> set (put_row rt_id ?s (refresh_tokens db))" using st by (auto simp: put_row_def image_iff)
      then have "oauth_digest en ''refresh-token'' raw \<in> rt_token_digest ` set (put_row rt_id ?s (refresh_tokens db))"
        using st by (metis imageI refresh_token.select_convs(2) refresh_token.surjective refresh_token.update_convs(7))
      with 1(7) show ?thesis by auto
    qed
    show thesis
    proof (rule that [of "fa_id family"])
      have "?s \<in> set (refresh_tokens db')" using st by (auto simp: rt put_row_def image_iff)
      then show "refresh_names en raw (fa_id family) db'"
        unfolding refresh_names_def using st fa by (intro bexI [of _ ?s]) simp_all
      show "refresh_spent (oauth_digest en ''refresh-token'' raw) db'"
        using one new unfolding refresh_spent_def rt by (auto simp: pair_refresh_def dest!: in_put_rowD)
      show "access_names en (tp_access_token p) (fa_id family) db'"
        using 1(3) rotate(7) unfolding access_names_def at by (simp add: pair_access_def)
      show "refresh_names en (tp_refresh_token p) (fa_id family) db'"
        using 1(3) rotate(7) unfolding refresh_names_def rt by (simp add: pair_refresh_def)
    qed
  qed
qed simp_all

text \<open>A refresh token's row lives as long as its family.\<close>

definition refresh_row :: "refresh_token \<Rightarrow> string \<times> uuid" where
  "refresh_row t = (rt_token_digest t, rt_family_id t)"

definition refresh_kept :: "uuid \<Rightarrow> string \<Rightarrow> oauth_db \<Rightarrow> bool" where
  "refresh_kept i digest db \<longleftrightarrow>
     (i \<in> fa_id ` set (families db) \<longrightarrow> (digest, i) \<in> refresh_row ` set (refresh_tokens db))"

lemma refresh_row_put:
  assumes "oauth_inv db" and "t \<in> set (refresh_tokens db)" and "rt_id t' = rt_id t" and "refresh_row t' = refresh_row t"
  shows "refresh_row ` set (put_row rt_id t' (refresh_tokens db)) = refresh_row ` set (refresh_tokens db)"
proof -
  have "inj_on rt_id (set (refresh_tokens db))" using assms(1) by (simp add: oauth_inv_def oauth_keys_def distinct_map)
  from map_put_row_same [OF this assms(2-4)] show ?thesis by (metis list.set_map)
qed

lemma refresh_rows_grow:
  assumes inv: "oauth_inv db" and "\<forall>q. op \<noteq> Issue q"
  shows "refresh_row ` set (refresh_tokens db) \<subseteq> refresh_row ` set (refresh_tokens (oauth_step en op db))"
proof (cases op)
  case (Exchange code c r rs v)
  obtain x db' where e: "exchange_authorization_code en code c r rs v db = (x, db')" by fastforce
  show ?thesis
  proof (cases x)
    case (Inl err)
    with e exchange_Inl Exchange show ?thesis by fastforce
  next
    case (Inr p)
    with e have "exchange_authorization_code en code c r rs v db = (Inr p, db')" by simp
    then show ?thesis
    proof (rule exchange_Inr, goal_cases)
      case (1 stored)
      have "\<exists>y. refresh_tokens db' = refresh_tokens db @ [y]" by (rule issue_pair_Inr [OF 1(7)]) simp
      then show ?case using Exchange e by auto
    qed
  qed
next
  case (RefreshOp raw c rs sc)
  obtain x db' where e: "refresh_grant en raw c rs sc db = (x, db')" by fastforce
  then show ?thesis
  proof (cases rule: refresh_cases)
    case (rotate stored family scopes p)
    have "\<exists>y. refresh_tokens db' = put_row rt_id (stored\<lparr>rt_consumed_at := Some (oe_now en)\<rparr>) (refresh_tokens db) @ [y]"
      by (rule rotate_token_pair_InrD [OF rotate(8)]) simp
    moreover have "refresh_row ` set (put_row rt_id (stored\<lparr>rt_consumed_at := Some (oe_now en)\<rparr>) (refresh_tokens db)) =
        refresh_row ` set (refresh_tokens db)"
      by (rule refresh_row_put [OF inv, of stored]) (use get_row_SomeD [OF rotate(2)] in \<open>simp_all add: refresh_row_def\<close>)
    ultimately show ?thesis using RefreshOp e by auto
  qed (simp_all add: RefreshOp e)
next
  case (Revoke raw)
  have a: "refresh_tokens (revoke_access en raw db) = refresh_tokens db" using revoke_access_grows by blast
  show ?thesis
  proof (cases "get_row rt_token_digest (oauth_digest en ''refresh-token'' raw) (refresh_tokens db)")
    case None
    with Revoke a show ?thesis by (simp add: revoke_def revoke_refresh_def)
  next
    case (Some t)
    have "refresh_row ` set (put_row rt_id (t\<lparr>rt_revoked_at := or_now (rt_revoked_at t) (oe_now en)\<rparr>) (refresh_tokens db)) =
        refresh_row ` set (refresh_tokens db)"
      by (rule refresh_row_put [OF inv, of t]) (use get_row_SomeD [OF Some] in \<open>simp_all add: refresh_row_def\<close>)
    with Revoke a Some show ?thesis by (simp add: revoke_def revoke_refresh_def)
  qed
qed (use assms in simp)

lemma refresh_kept_delete:
  assumes inv: "oauth_inv db" and k: "refresh_kept i digest db"
  shows "refresh_kept i digest (delete_expired now db)"
  unfolding refresh_kept_def
proof
  assume "i \<in> fa_id ` set (families (delete_expired now db))"
  then obtain f where f: "f \<in> set (families db)" "\<not> fa_expires_at f < now" "fa_id f = i"
    by (auto simp: delete_expired_def Let_def)
  have inj: "inj_on fa_id (set (families db))" using inv by (simp add: oauth_inv_def oauth_keys_def distinct_map)
  have "i \<notin> fa_id ` {x \<in> set (families db). fa_expires_at x < now}"
  proof
    assume "i \<in> fa_id ` {x \<in> set (families db). fa_expires_at x < now}"
    then obtain g where "g \<in> set (families db)" "fa_expires_at g < now" "fa_id g = i" by auto
    with inj_onD [OF inj, of g f] f show False by simp
  qed
  moreover have "i \<in> fa_id ` set (families db)" using f by blast
  with k obtain t where "t \<in> set (refresh_tokens db)" "refresh_row t = (digest, i)"
    unfolding refresh_kept_def by auto
  ultimately have "t \<in> set (refresh_tokens (delete_expired now db))"
    by (auto simp: delete_expired_def Let_def refresh_row_def)
  with \<open>refresh_row t = _\<close> show "(digest, i) \<in> refresh_row ` set (refresh_tokens (delete_expired now db))"
    by (intro image_eqI [of _ _ t]) simp_all
qed

lemma refresh_kept_step:
  assumes inv: "oauth_inv db" and k: "refresh_kept i digest db" and u: "oe_uuid en FamilyRow \<noteq> i"
  shows "refresh_kept i digest (oauth_step en op db)"
proof (cases "\<exists>q. op = Issue q")
  case True
  then obtain q where q: "op = Issue q" by blast
  obtain r db' where e: "issue_authorization_code en q db = (r, db')" by fastforce
  from issue_code_Inr [OF e] refresh_kept_delete [OF inv k, of "oe_now en"] k show ?thesis
    by (auto simp: q e refresh_kept_def)
next
  case False
  show ?thesis
    unfolding refresh_kept_def
  proof
    assume "i \<in> fa_id ` set (families (oauth_step en op db))"
    then obtain f where f: "f \<in> set (families (oauth_step en op db))" "fa_id f = i" by auto
    have "family_grows en db (oauth_step en op db)" using grows_step [of en op db] by (simp add: oauth_grows_def)
    from bspec [OF this [unfolded family_grows_def] f(1)] have "i \<in> fa_id ` set (families db)"
      using f(2) u by auto
    with k have "(digest, i) \<in> refresh_row ` set (refresh_tokens db)" by (simp add: refresh_kept_def)
    then show "(digest, i) \<in> refresh_row ` set (refresh_tokens (oauth_step en op db))"
      using refresh_rows_grow [OF inv, of op en] False by blast
  qed
qed

lemma refresh_kept_history:
  assumes "fresh_history i db db'" and "oauth_inv db" and "refresh_kept i digest db"
  shows "refresh_kept i digest db'"
proof -
  have "oauth_inv db' \<and> refresh_kept i digest db'"
    using assms(1) unfolding fresh_history_def
    by (rule oauth_run_inv) (use assms(2,3) in \<open>auto simp: fresh_draws_def intro: oauth_inv_step refresh_kept_step\<close>)
  then show ?thesis by simp
qed

lemma compromise_dead: "family_dead (fa_id f) (db\<lparr>families := put_row fa_id (compromise now f) (families db)\<rparr>)"
  by (auto simp: family_dead_def compromise_def or_now_def dest!: in_put_rowD split: option.splits)

text \<open>A spent refresh token is refused, and its family is dead after.\<close>

lemma spent_refresh_kills:
  assumes s: "refresh_spent (oauth_digest en ''refresh-token'' raw) db"
    and o1: "refresh_of i (oauth_digest en ''refresh-token'' raw) db"
    and k: "refresh_kept i (oauth_digest en ''refresh-token'' raw) db"
    and v: "validate_token_client en c rs = Inr ()"
  obtains e db' where "refresh_grant en raw c rs sc db = (Inl e, db')" "family_dead i db'"
    "access_tokens db' = access_tokens db"
proof (cases "get_row rt_token_digest (oauth_digest en ''refresh-token'' raw) (refresh_tokens db)")
  case None
  then have "i \<notin> fa_id ` set (families db)"
    using k by (auto simp: refresh_kept_def refresh_row_def get_row_None image_iff)
  then have "family_dead i db" by (auto simp: family_dead_def)
  with None v show thesis by (intro that) (simp_all add: refresh_grant_def)
next
  case (Some stored)
  note st = get_row_SomeD [OF Some]
  have st_i: "rt_family_id stored = i" and st_c: "rt_consumed_at stored \<noteq> None"
    using st s o1 by (auto simp: refresh_spent_def refresh_of_def)
  show thesis
  proof (cases "get_row fa_id i (families db)")
    case None
    then have "family_dead i db" by (auto simp: family_dead_def get_row_None)
    with None Some v st_i show thesis by (intro that) (simp_all add: refresh_grant_def)
  next
    case F: (Some f)
    then have "fa_id f = i" by (auto dest: get_row_SomeD)
    with compromise_dead [where f = f and db = db and now = "oe_now en"] Some F v st_i st_c show thesis
      by (intro that [of replay_detected "db\<lparr>families := put_row fa_id (compromise (oe_now en) f) (families db)\<rparr>"])
        (simp_all add: refresh_grant_def)
  qed
qed

text \<open>
  C35: a refresh token works once, and presenting it again is treated as theft. The second use is
  refused, at any later time and whatever requests came between, the whole family is revoked by
  that refused request, and with it the access token the first use returned.
\<close>

theorem refresh_replay_revokes:
  assumes reach: "oauth_reach db"
    and first: "refresh_grant en raw client_id resource scopes db = (Inr p, db')"
    and family: "refresh_names en raw i db'"
    and later: "fresh_history i db' db''"
    and same: "same_server en en'"
    and client: "validate_token_client en' client_id' resource' = Inr ()"
  shows "\<exists>e d. refresh_grant en' raw client_id' resource' scopes' db'' = (Inl e, d) \<and> family_dead i d \<and>
     verify_access_token en' (tp_access_token p) d = None"
proof -
  let ?g = "oauth_digest en ''refresh-token'' raw"
  have inv: "oauth_inv db'" using oauth_inv_refresh [OF first oauth_inv_reach [OF reach]] .
  obtain j where j: "refresh_names en raw j db'" "refresh_spent ?g db'" "access_names en (tp_access_token p) j db'"
    by (rule refresh_spends [OF oauth_inv_reach [OF reach] first])
  obtain t where t: "t \<in> set (refresh_tokens db')" "rt_token_digest t = ?g" "rt_family_id t = i"
    using family by (auto simp: refresh_names_def)
  then have o1: "refresh_of i ?g db'" using refresh_of_row [OF inv t(1)] by simp
  with j(1) have ji: "j = i" by (auto simp: refresh_of_def refresh_names_def)
  have stored: "?g \<in> rt_token_digest ` set (refresh_tokens db')" using t by (metis imageI)
  have "(?g, i) \<in> refresh_row ` set (refresh_tokens db')"
    using t by (intro image_eqI [of _ _ t]) (simp_all add: refresh_row_def)
  then have k: "refresh_kept i ?g db'" by (simp add: refresh_kept_def)
  obtain a where a: "a \<in> set (access_tokens db')" "at_family_id a = i"
    "at_token_digest a = oauth_digest en ''access-token'' (tp_access_token p)"
    using j(3) ji by (auto simp: access_names_def)
  then have acc: "access_of i (oauth_digest en ''access-token'' (tp_access_token p)) db''"
    using fresh_history_access [OF later access_of_row [OF inv a(1), unfolded a(2,3)]] by (metis imageI)
  note en = same_server_digest [OF same]
  obtain e d where "refresh_grant en' raw client_id' resource' scopes' db'' = (Inl e, d)" "family_dead i d"
    "access_tokens d = access_tokens db''"
    by (rule spent_refresh_kills [of en' raw db'' i client_id' resource' scopes'])
      (use fresh_history_spent [OF later j(2) stored] fresh_history_refresh [OF later o1 stored]
        refresh_kept_history [OF later inv k] client en in simp_all)
  moreover have "verify_access_token en' (tp_access_token p) d = None"
    by (rule dead_access_refused [OF calculation(2)]) (use acc calculation(3) en in \<open>simp add: access_of_def\<close>)
  ultimately show ?thesis by blast
qed

text \<open>
  C38: the tokens a client gets work: the access token of a pair just issued verifies until its
  lifetime is over, with the scopes of the pair and the client that exchanged the code.
\<close>

theorem exchanged_token_verifies:
  assumes "oauth_reach db"
    and "exchange_authorization_code en code client_id redirect_uri resource verifier db = (Inr p, db')"
    and "same_server en en'" and "tp_access_token p \<noteq> []"
    and "oe_now en' < oe_now en + seconds (oc_access_token_ttl_seconds (oe_config en))"
    and "oc_access_token_ttl_seconds (oe_config en) \<le> oc_refresh_token_ttl_seconds (oe_config en)"
  shows "\<exists>v. verify_access_token en' (tp_access_token p) db' = Some v \<and> vt_client_id v = client_id \<and>
     vt_resource v = resource \<and> vt_scopes v = tp_scopes p"
proof (rule exchange_Inr [OF assms(2)], goal_cases)
  case (1 stored)
  have inv: "oauth_inv db'" by (rule oauth_inv_exchange [OF assms(2) oauth_inv_reach [OF assms(1)]])
  have st: "stored \<in> set (codes db)" using get_row_SomeD [OF 1(1)] by simp
  then have sup: "set (decode_scopes (ac_scopes stored)) \<subseteq> set SUPPORTED_SCOPES"
    using oauth_inv_reach [OF assms(1)] by (auto simp: oauth_inv_def oauth_scopes_def)
  have res: "ac_resource stored = resource" "ac_client_id stored = client_id" using 1(5) by (auto simp: code_usable_def)
  have rs: "resource = resource_of (oe_config en)"
    using 1(2) by (auto simp: validate_token_client_def result_simps)
  from 1(7) show ?case
  proof (rule issue_pair_Inr, goal_cases)
    case (1 f)
    let ?t = "pair_access en (fa_id f) (decode_scopes (ac_scopes stored))"
    have u: "access_usable en' ?t f"
      using 1(2,5,7,8) assms(3,5,6) rs res
      by (auto simp: access_usable_def pair_access_def same_server_def credential_generation_def hmac_key_def seconds_def)
    have "?t \<in> set (access_tokens db')" "f \<in> set (families db')" by (simp_all add: 1(10))
    moreover have "at_token_digest ?t = oauth_digest en' ''access-token'' (tp_access_token p)"
      by (simp add: 1(11) pair_access_def same_server_digest [OF assms(3)])
    moreover have "fa_id f = at_family_id ?t" by (simp add: pair_access_def)
    ultimately show ?case using verify_issued_row [OF inv _ _ _ _ u assms(4)] 1(4,5,11) res sup
      by (simp add: pair_access_def decode_supported)
  qed
qed

end
