(* ===== verification/OAuthExample.thy ===== *)
theory OAuthExample
  imports OAuthTheorems
begin

text \<open>
  One client's life on concrete data: the owner approves a request, the code is exchanged, the
  pair is rotated, the rotated token is presented again, a token is revoked. The keyed digest
  and the hash of the example are a few bytes of the message and the key, padded to 32 bytes.
\<close>

definition toy_hmac :: "nat list \<Rightarrow> nat list \<Rightarrow> nat list" where
  "toy_hmac key m = replicate 29 0 @ [m ! 1, last m, last key]"

definition toy_sha256 :: "nat list \<Rightarrow> nat list" where
  "toy_sha256 m = replicate 31 0 @ [last m]"

definition toy_oauth_config :: "string \<Rightarrow> oauth_config" where
  "toy_oauth_config secret = \<lparr>oc_public_base_url = ''https://b.example'', oc_consent_secrets = [secret],
     oc_form_action_origins = [''https://chatgpt.com''], oc_authorization_code_ttl_seconds = 300,
     oc_access_token_ttl_seconds = 900, oc_refresh_token_ttl_seconds = 7776000\<rparr>"

definition toy_draw :: "int \<Rightarrow> oauth_draw \<Rightarrow> uuid" where
  "toy_draw base d = (case d of CodeRow \<Rightarrow> base | FamilyRow \<Rightarrow> base + 1 | AccessRow \<Rightarrow> base + 2 | RefreshRow \<Rightarrow> base + 3)"

text \<open>The server at second \<open>n\<close>, with draws numbered by \<open>k\<close>.\<close>

definition toy_env_at :: "string \<Rightarrow> int \<Rightarrow> char \<Rightarrow> oauth_env" where
  "toy_env_at secret n k = \<lparr>oe_config = toy_oauth_config secret, oe_hmac = toy_hmac, oe_sha256 = toy_sha256,
     oe_now = n * 1000000, oe_raw_code = [CHR ''c'', k], oe_raw_access = [CHR ''a'', k],
     oe_raw_refresh = [CHR ''r'', k], oe_uuid = toy_draw (of_char k * 10)\<rparr>"

definition toy_secret :: string where "toy_secret = ''owner-secret-owner-secret''"

definition toy_verifier :: string where "toy_verifier = replicate 43 CHR ''v''"

definition en1 :: oauth_env where "en1 = toy_env_at toy_secret 1000 CHR ''1''"
definition en2 :: oauth_env where "en2 = toy_env_at toy_secret 1060 CHR ''2''"
definition en3 :: oauth_env where "en3 = toy_env_at toy_secret 1900 CHR ''3''"
definition en4 :: oauth_env where "en4 = toy_env_at toy_secret 1960 CHR ''4''"
definition en_other :: oauth_env where "en_other = toy_env_at ''another-secret-entirely-'' 2000 CHR ''5''"

definition toy_request :: authorization_request where
  "toy_request = \<lparr>aq_client_id = CHATGPT_STABLE_CLIENT_ID, aq_redirect_uri = CHATGPT_STABLE_REDIRECT_URI,
     aq_resource = ''https://b.example/mcp'', aq_scopes = [''budget:config'', ''budget:read''],
     aq_code_challenge = replicate 41 CHR ''A'' @ ''HY'', aq_state = None\<rparr>"

definition toy_resource :: string where "toy_resource = ''https://b.example/mcp''"

definition zeros :: "string \<Rightarrow> string" where
  "zeros tail = replicate 58 CHR ''0'' @ tail"

definition code1 :: authorization_code where
  "code1 = \<lparr>ac_id = 490, ac_code_digest = zeros ''753174'', ac_client_id = CHATGPT_STABLE_CLIENT_ID,
     ac_redirect_uri = CHATGPT_STABLE_REDIRECT_URI, ac_resource = toy_resource,
     ac_scopes = ''budget:config budget:read'', ac_code_challenge = replicate 41 CHR ''A'' @ ''HY'',
     ac_subject = ''owner'', ac_credential_generation = zeros ''726e74'', ac_created_at = 1000000000,
     ac_expires_at = 1300000000, ac_consumed_at = None\<rparr>"

definition family2 :: token_family where
  "family2 = \<lparr>fa_id = 501, fa_client_id = CHATGPT_STABLE_CLIENT_ID, fa_resource = toy_resource,
     fa_scopes = ''budget:config budget:read'', fa_subject = ''owner'',
     fa_credential_generation = zeros ''726e74'', fa_created_at = 1060000000, fa_expires_at = 7777060000000,
     fa_revoked_at = None, fa_compromise_detected_at = None\<rparr>"

definition access2 :: access_token where
  "access2 = \<lparr>at_id = 502, at_token_digest = zeros ''633274'', at_family_id = 501,
     at_scopes = ''budget:config budget:read'', at_created_at = 1060000000, at_expires_at = 1960000000,
     at_revoked_at = None\<rparr>"

definition refresh2 :: refresh_token where
  "refresh2 = \<lparr>rt_id = 503, rt_token_digest = zeros ''653274'', rt_family_id = 501,
     rt_scopes = ''budget:config budget:read'', rt_created_at = 1060000000, rt_expires_at = 7777060000000,
     rt_consumed_at = None, rt_revoked_at = None\<rparr>"

definition access3 :: access_token where
  "access3 = \<lparr>at_id = 512, at_token_digest = zeros ''633374'', at_family_id = 501,
     at_scopes = ''budget:read'', at_created_at = 1900000000, at_expires_at = 2800000000, at_revoked_at = None\<rparr>"

definition refresh3 :: refresh_token where
  "refresh3 = \<lparr>rt_id = 513, rt_token_digest = zeros ''653374'', rt_family_id = 501,
     rt_scopes = ''budget:read'', rt_created_at = 1900000000, rt_expires_at = 7777900000000,
     rt_consumed_at = None, rt_revoked_at = None\<rparr>"

definition odb1 :: oauth_db where
  "odb1 = \<lparr>codes = [code1], families = [], access_tokens = [], refresh_tokens = []\<rparr>"

definition odb2 :: oauth_db where
  "odb2 = \<lparr>codes = [code1\<lparr>ac_consumed_at := Some 1060000000\<rparr>], families = [family2],
     access_tokens = [access2], refresh_tokens = [refresh2]\<rparr>"

definition odb3 :: oauth_db where
  "odb3 = \<lparr>codes = [code1\<lparr>ac_consumed_at := Some 1060000000\<rparr>],
     families = [family2\<lparr>fa_expires_at := 7777900000000\<rparr>], access_tokens = [access2, access3],
     refresh_tokens = [refresh2\<lparr>rt_consumed_at := Some 1900000000\<rparr>, refresh3]\<rparr>"

lemma step1: "oauth_step en1 (Issue toy_request) empty_oauth_db = odb1"
  by code_simp

definition pair2 :: token_pair where
  "pair2 = \<lparr>tp_access_token = ''a2'', tp_refresh_token = ''r2'', tp_expires_in = 900,
     tp_scopes = [''budget:config'', ''budget:read'']\<rparr>"

definition pair3 :: token_pair where
  "pair3 = \<lparr>tp_access_token = ''a3'', tp_refresh_token = ''r3'', tp_expires_in = 900, tp_scopes = [''budget:read'']\<rparr>"

definition verified3 :: verified_token where
  "verified3 = \<lparr>vt_client_id = CHATGPT_STABLE_CLIENT_ID, vt_scopes = [''budget:read''], vt_expires_at = 2800,
     vt_resource = toy_resource, vt_subject = ''owner''\<rparr>"

lemma exchanged:
  "exchange_authorization_code en2 ''c1'' CHATGPT_STABLE_CLIENT_ID CHATGPT_STABLE_REDIRECT_URI toy_resource toy_verifier odb1
   = (Inr pair2, odb2)"
  by code_simp

lemma refreshed:
  "refresh_grant en3 ''r2'' CHATGPT_STABLE_CLIENT_ID toy_resource (Some [''budget:read'']) odb2 = (Inr pair3, odb3)"
  by code_simp

lemma verified: "verify_access_token en4 ''a3'' odb3 = Some verified3"
  by code_simp

section \<open>The history\<close>

lemma toy_run1: "P en1 (Issue toy_request) \<Longrightarrow> oauth_run P empty_oauth_db odb1"
  using run_step [OF run_now, of P en1 "Issue toy_request" empty_oauth_db] by (simp only: step1)

lemma toy_run2:
  assumes "P en1 (Issue toy_request)"
    and "P en2 (Exchange ''c1'' CHATGPT_STABLE_CLIENT_ID CHATGPT_STABLE_REDIRECT_URI toy_resource toy_verifier)"
  shows "oauth_run P empty_oauth_db odb2"
  using run_step [where P = P, OF toy_run1 [where P = P, OF assms(1)] assms(2)] by (simp add: exchanged)

lemma toy_run3:
  assumes "P en1 (Issue toy_request)"
    and "P en2 (Exchange ''c1'' CHATGPT_STABLE_CLIENT_ID CHATGPT_STABLE_REDIRECT_URI toy_resource toy_verifier)"
    and "P en3 (RefreshOp ''r2'' CHATGPT_STABLE_CLIENT_ID toy_resource (Some [''budget:read'']))"
  shows "oauth_run P empty_oauth_db odb3"
  using run_step [where P = P, OF toy_run2 [where P = P, OF assms(1,2)] assms(3)] by (simp add: refreshed)

lemma toy_reach: "oauth_reach odb1" "oauth_reach odb2" "oauth_reach odb3"
  unfolding oauth_reach_def by (rule toy_run1 toy_run2 toy_run3; rule TrueI)+

lemma toy_same: "same_server en2 en4" "same_server en3 en4" "same_server en2 en3"
  by (simp_all add: same_server_def en2_def en3_def en4_def toy_env_at_def)

section \<open>Witnesses\<close>

lemma oauth_reachable_inv_witness: "oauth_inv odb3 \<and> length (refresh_tokens odb3) = 2"
proof
  show "oauth_inv odb3" by (rule oauth_reachable_inv [OF toy_reach(3)])
  show "length (refresh_tokens odb3) = 2" by code_simp
qed

lemma code_exchanged_once_witness:
  "\<exists>e. exchange_authorization_code en4 ''c1'' CHATGPT_STABLE_CLIENT_ID CHATGPT_STABLE_REDIRECT_URI toy_resource
     toy_verifier odb3 = (Inl e, odb3)"
proof (rule code_exchanged_once [OF toy_reach(1) exchanged _ toy_same(1)])
  have "oauth_digest en3 ''authorization-code'' (oe_raw_code en3) \<noteq> oauth_digest en2 ''authorization-code'' ''c1''"
    by code_simp
  then show "oauth_run (\<lambda>later op. oauth_digest later ''authorization-code'' (oe_raw_code later)
      \<noteq> oauth_digest en2 ''authorization-code'' ''c1'') odb2 odb3"
    using run_step [OF run_now, of "\<lambda>later op. oauth_digest later ''authorization-code'' (oe_raw_code later)
      \<noteq> oauth_digest en2 ''authorization-code'' ''c1''" en3 "RefreshOp ''r2'' CHATGPT_STABLE_CLIENT_ID toy_resource (Some [''budget:read''])" odb2]
    by (simp add: refreshed)
qed

lemma exchange_honours_approval_witness:
  "\<exists>q. q = toy_request \<and> aq_client_id q = CHATGPT_STABLE_CLIENT_ID \<and> aq_redirect_uri q = CHATGPT_STABLE_REDIRECT_URI \<and>
     aq_resource q = toy_resource \<and> aq_scopes q = tp_scopes pair2 \<and>
     aq_code_challenge q = pkce_challenge en2 toy_verifier"
  by (rule exchange_honours_approval [OF toy_run1 exchanged]) (simp add: approved_def)

lemma token_within_approval_witness:
  "\<exists>q. q = toy_request \<and> vt_client_id verified3 = aq_client_id q \<and> vt_resource verified3 = aq_resource q \<and>
     set (vt_scopes verified3) \<subseteq> set (aq_scopes q) \<and> vt_subject verified3 = ''owner''"
  by (rule token_within_approval [OF toy_run3 verified]) (simp_all add: approved_def)

lemma new_generation_revokes_all_witness:
  "verify_access_token en_other ''a3'' odb3 = None \<and>
     (\<exists>e. fst (exchange_authorization_code en_other ''c1'' CHATGPT_STABLE_CLIENT_ID CHATGPT_STABLE_REDIRECT_URI
        toy_resource toy_verifier odb3) = Inl e) \<and>
     (\<exists>e. fst (refresh_grant en_other ''r3'' CHATGPT_STABLE_CLIENT_ID toy_resource None odb3) = Inl e)"
proof (rule new_generation_revokes_all, rule toy_run3)
  show "credential_generation en1 \<noteq> credential_generation en_other" by code_simp
  then show "credential_generation en2 \<noteq> credential_generation en_other"
    "credential_generation en3 \<noteq> credential_generation en_other"
    by (simp_all add: credential_generation_def hmac_key_def en1_def en2_def en3_def toy_env_at_def)
qed

lemma revoke_is_final_witness:
  "verify_access_token en4 ''a3'' (revoke en4 ''r3'' odb3) = None \<and>
   (\<exists>e. fst (refresh_grant en4 ''r3'' CHATGPT_STABLE_CLIENT_ID toy_resource None (revoke en4 ''r3'' odb3)) = Inl e)"
proof -
  have names: "access_names en4 ''a3'' 501 (revoke en4 ''r3'' odb3)" "refresh_names en4 ''r3'' 501 (revoke en4 ''r3'' odb3)"
    "access_names en4 ''r3'' 501 odb3 \<or> refresh_names en4 ''r3'' 501 odb3"
    by code_simp+
  have "fresh_history 501 (revoke en4 ''r3'' odb3) (revoke en4 ''r3'' odb3)" by (simp add: fresh_history_def run_now)
  from revoke_is_final [OF toy_reach(3) _ names(3) this] names(1,2) show ?thesis by blast
qed

lemma refresh_replay_revokes_witness:
  "\<exists>e d. refresh_grant en4 ''r2'' CHATGPT_STABLE_CLIENT_ID toy_resource None odb3 = (Inl e, d) \<and>
     family_dead 501 d \<and> verify_access_token en4 (tp_access_token pair3) d = None"
proof (rule refresh_replay_revokes [OF toy_reach(2) refreshed _ _ toy_same(2)])
  show "refresh_names en3 ''r2'' 501 odb3" by code_simp
  show "fresh_history 501 odb3 odb3" by (simp add: fresh_history_def run_now)
  show "validate_token_client en4 CHATGPT_STABLE_CLIENT_ID toy_resource = Inr ()" by code_simp
qed

lemma exchanged_token_verifies_witness:
  "\<exists>v. verify_access_token en3 (tp_access_token pair2) odb2 = Some v \<and> vt_client_id v = CHATGPT_STABLE_CLIENT_ID \<and>
     vt_resource v = toy_resource \<and> vt_scopes v = tp_scopes pair2"
proof (rule exchanged_token_verifies [OF toy_reach(1) exchanged toy_same(3)])
  show "tp_access_token pair2 \<noteq> []" by (simp add: pair2_def)
  show "oe_now en3 < oe_now en2 + seconds (oc_access_token_ttl_seconds (oe_config en2))"
    "oc_access_token_ttl_seconds (oe_config en2) \<le> oc_refresh_token_ttl_seconds (oe_config en2)"
    by (simp_all add: en2_def en3_def toy_env_at_def toy_oauth_config_def seconds_def)
qed

end
