(* ===== verification/RefreshFacts.thy ===== *)
theory RefreshFacts
  imports ConfigCorrect
begin

text \<open>
  What the refresh operations do, in closed form. \<open>live_only\<close> says that a step touched nothing
  but the live tables; \<open>commit_run_InrD\<close> takes a successful commit apart; \<open>full_publication\<close> and
  \<open>pruned_*\<close> give the tables a publication leaves.
\<close>

section \<open>Starting a run\<close>

lemma begin_new_InrD:
  assumes "begin_refresh en request key n m db = Inr (v, db')"
    and "get_row run_idempotency_key key (refresh_runs db) = None"
  obtains active target where "active_version db = Some active"
    "target = begin_target (mode_of (br_mode request)) active (pending_version db)"
    "mode_of (br_mode request) = INCREMENTAL \<longrightarrow> pending_version db = None"
    "mode_of (br_mode request) = FULL \<longrightarrow> check_full_window db request target = Inr ()"
    "mode_of (br_mode request) = INCREMENTAL \<longrightarrow> check_incremental db request (get_sync_state db) = Inr ()"
    "insert_refresh_run (new_run en request key (sha256_hex (env_sha256 en) (begin_json request)) target
        (get_sync_state db)) db = Inr db'"
    "v = begin_response db' (new_run en request key (sha256_hex (env_sha256 en) (begin_json request)) target
        (get_sync_state db)) target n m"
proof -
  from assms obtain active where a: "active_version db = Some active"
    "\<not> (mode_of (br_mode request) = INCREMENTAL \<and> pending_version db \<noteq> None)"
    "(if mode_of (br_mode request) = FULL
      then check_full_window db request (begin_target (mode_of (br_mode request)) active (pending_version db)) else Inr ())
      = Inr ()"
    "(if mode_of (br_mode request) = INCREMENTAL then check_incremental db request (get_sync_state db) else Inr ()) = Inr ()"
    "insert_refresh_run (new_run en request key (sha256_hex (env_sha256 en) (begin_json request))
        (begin_target (mode_of (br_mode request)) active (pending_version db)) (get_sync_state db)) db = Inr db'"
    "v = begin_response db' (new_run en request key (sha256_hex (env_sha256 en) (begin_json request))
        (begin_target (mode_of (br_mode request)) active (pending_version db)) (get_sync_state db))
        (begin_target (mode_of (br_mode request)) active (pending_version db)) n m"
    by (auto simp: begin_refresh_def active_and_pending_def Let_def result_simps)
  show thesis by (rule that [OF a(1) refl]) (use a in auto)
qed

lemma begin_target_stored:
  assumes "active_version db = Some active"
  shows "begin_target mode active (pending_version db) \<in> set (config_versions db)"
  using assms by (auto simp: begin_target_def dest: active_version_SomeD pending_version_SomeD split: option.splits)

lemma new_run_simps [simp]:
  "run_id (new_run en request key h target sync) = env_uuid en NewRun"
  "run_idempotency_key (new_run en request key h target sync) = key"
  "run_request_hash (new_run en request key h target sync) = h"
  "run_state (new_run en request key h target sync) = CREATED"
  "run_mode (new_run en request key h target sync) = mode_of (br_mode request)"
  "run_config_version_id (new_run en request key h target sync) = cv_id target"
  by (simp_all add: new_run_def)

lemma rules_for_config_runs [simp]:
  "rules_for_config (db\<lparr>refresh_runs := rs\<rparr>) = rules_for_config db"
  by (rule ext) (simp add: rules_for_config_def cong: if_cong)

lemma begin_response_runs [simp]:
  "begin_response (db\<lparr>refresh_runs := rs\<rparr>) = begin_response db"
  by (intro ext) (simp add: begin_response_def)

section \<open>Uploading a batch\<close>

definition batch_of :: "env \<Rightarrow> uuid \<Rightarrow> int \<Rightarrow> batch_request \<Rightarrow> refresh_batch" where
  "batch_of en rid batch_index request =
     \<lparr>rb_run_id = rid, rb_batch_index = batch_index, rb_idempotency_key = bq_idempotency_key request,
      rb_request_hash = sha256_hex (env_sha256 en) (batch_json request),
      rb_checksum = sha256_hex (env_sha256 en) (JArr (map upload_json (bq_transactions request))),
      rb_item_count = int (length (bq_transactions request))\<rparr>"

lemma upload_new_InrD:
  assumes "upload_batch en rid idx request n m db = Inr (v, db')"
    and "get_row rb_key (rid, idx) (refresh_batches db) = None"
  obtains run where "get_row run_id rid (refresh_runs db) = Some run" "0 \<le> idx"
    "int (length (bq_transactions request)) \<le> n"
    "int (length (canonical_json (batch_json request))) \<le> m"
    "store_batch en run (batch_of en rid idx request) (bq_transactions request) db = Inr db'"
    "v = batch_response (batch_of en rid idx request) False"
proof -
  from assms obtain run where r: "get_row run_id rid (refresh_runs db) = Some run" and "0 \<le> idx"
    "int (length (bq_transactions request)) \<le> n"
    "int (length (canonical_json (batch_json request))) \<le> m"
    and s: "bindR (store_batch en run \<lparr>rb_run_id = run_id run, rb_batch_index = idx,
        rb_idempotency_key = bq_idempotency_key request,
        rb_request_hash = sha256_hex (env_sha256 en) (batch_json request),
        rb_checksum = sha256_hex (env_sha256 en) (JArr (map upload_json (bq_transactions request))),
        rb_item_count = int (length (bq_transactions request))\<rparr> (bq_transactions request) db)
      (\<lambda>db. Inr (batch_response \<lparr>rb_run_id = run_id run, rb_batch_index = idx,
        rb_idempotency_key = bq_idempotency_key request,
        rb_request_hash = sha256_hex (env_sha256 en) (batch_json request),
        rb_checksum = sha256_hex (env_sha256 en) (JArr (map upload_json (bq_transactions request))),
        rb_item_count = int (length (bq_transactions request))\<rparr> False, db)) = Inr (v, db')"
    by (auto simp: upload_batch_def Let_def result_simps)
  moreover have "run_id run = rid" using r by (auto dest: get_row_SomeD)
  ultimately show thesis by (intro that [of run]) (auto simp: batch_of_def result_simps)
qed

text \<open>The rows a batch adds.\<close>

definition units_or_zero :: "decimal \<Rightarrow> int" where
  "units_or_zero v = (case money_units v of None \<Rightarrow> 0 | Some n \<Rightarrow> n)"

definition staged_of_item :: "env \<Rightarrow> refresh_run \<Rightarrow> int \<Rightarrow> transaction_upload \<Rightarrow> staged_transaction" where
  "staged_of_item en run idx item =
     staged_row en run idx item (units_or_zero (tu_amount item)) (units_or_zero (tu_refund_amount item))"

definition staged_link :: "refresh_run \<Rightarrow> transaction_upload \<Rightarrow> uuid \<times> uuid \<Rightarrow> staged_transaction_category" where
  "staged_link run item ids =
     \<lparr>sc_run_id = run_id run, sc_config_version_id = run_config_version_id run,
      sc_account_id = tu_account_id item, sc_source_id = tu_source_id item,
      sc_category_id = fst ids, sc_rule_version_id = snd ids\<rparr>"

definition links_of_item ::
    "refresh_run \<Rightarrow> (string \<times> uuid \<times> uuid) list \<Rightarrow> transaction_upload \<Rightarrow> staged_transaction_category list" where
  "links_of_item run allowed item =
     map (\<lambda>key. staged_link run item (the (map_of allowed key))) (tu_categories item)"

lemma stage_category_loop:
  assumes "for_each (stage_category run allowed item) db keys = Inr db'"
  shows "db' = db\<lparr>staged_transaction_categories := staged_transaction_categories db @
           map (\<lambda>key. staged_link run item (the (map_of allowed key))) keys\<rparr> \<and>
         set keys \<subseteq> dom (map_of allowed)"
  using assms
proof (rule for_each_prefix_inv)
  fix ys x zs t t'
  assume t: "t = db\<lparr>staged_transaction_categories := staged_transaction_categories db @
           map (\<lambda>key. staged_link run item (the (map_of allowed key))) ys\<rparr> \<and> set ys \<subseteq> dom (map_of allowed)"
    and s: "stage_category run allowed item t x = Inr t'"
  then obtain ids where i: "map_of allowed x = Some ids"
    and ins: "insert_staged_category (staged_link run item ids) t = Inr t'"
    by (auto simp: stage_category_def result_simps staged_link_def split_beta)
  from insert_staged_category_InrD(1) [OF ins] t i
  show "t' = db\<lparr>staged_transaction_categories := staged_transaction_categories db @
           map (\<lambda>key. staged_link run item (the (map_of allowed key))) (ys @ [x])\<rparr> \<and>
         set (ys @ [x]) \<subseteq> dom (map_of allowed)" by auto
qed simp

lemma stage_loop:
  assumes "for_each (stage_item en run idx allowed) db items = Inr db'"
  shows "db' = db\<lparr>staged_transactions := staged_transactions db @ map (staged_of_item en run idx) items,
           staged_transaction_categories := staged_transaction_categories db @
             concat (map (links_of_item run allowed) items)\<rparr>"
  using assms
proof (rule for_each_prefix_inv)
  fix ys item zs t t'
  assume t: "t = db\<lparr>staged_transactions := staged_transactions db @ map (staged_of_item en run idx) ys,
           staged_transaction_categories := staged_transaction_categories db @
             concat (map (links_of_item run allowed) ys)\<rparr>"
    and s: "stage_item en run idx allowed t item = Inr t'"
  from s obtain a r d where u: "money_units (tu_amount item) = Some a" "money_units (tu_refund_amount item) = Some r"
    and ins: "insert_staged_transaction (staged_row en run idx item a r) t = Inr d"
    and l: "for_each (stage_category run allowed item) d (tu_categories item) = Inr t'"
    by (auto simp: stage_item_def result_simps)
  have "staged_row en run idx item a r = staged_of_item en run idx item"
    by (simp add: staged_of_item_def units_or_zero_def u)
  with insert_staged_transaction_InrD(1) [OF ins] stage_category_loop [OF l] t
  show "t' = db\<lparr>staged_transactions := staged_transactions db @ map (staged_of_item en run idx) (ys @ [item]),
           staged_transaction_categories := staged_transaction_categories db @
             concat (map (links_of_item run allowed) (ys @ [item]))\<rparr>"
    by (simp add: links_of_item_def)
qed simp

lemma store_batch_InrD:
  assumes "store_batch en run batch items db = Inr db'"
  obtains config from_date to_date where
    "run_state run \<in> {CREATED, UPLOADED}"
    "get_row cv_id (run_config_version_id run) (config_versions db) = Some config"
    "run_source_from_date run = Some from_date" "run_source_to_date run = Some to_date"
    "\<exists>ids. for_each (check_item db run (cv_display_currency config) from_date to_date
        (allowed_categories db (run_config_version_id run))) {} items = Inr ids"
    "rb_key batch \<notin> rb_key ` set (refresh_batches db)"
    "db' = db\<lparr>refresh_batches := refresh_batches db @ [batch],
       staged_transactions := staged_transactions db @ map (staged_of_item en run (rb_batch_index batch)) items,
       staged_transaction_categories := staged_transaction_categories db @
         concat (map (links_of_item run (allowed_categories db (run_config_version_id run))) items),
       refresh_runs := put_row run_id (uploaded_run en batch run) (refresh_runs db)\<rparr>"
proof -
  from assms obtain config from_date to_date ids d1 d2 where
    "run_state run \<in> {CREATED, UPLOADED}"
    "get_row cv_id (run_config_version_id run) (config_versions db) = Some config"
    "run_source_from_date run = Some from_date" "run_source_to_date run = Some to_date"
    "for_each (check_item db run (cv_display_currency config) from_date to_date
        (allowed_categories db (run_config_version_id run))) {} items = Inr ids"
    and b: "insert_refresh_batch batch db = Inr d1"
    and s: "for_each (stage_item en run (rb_batch_index batch) (allowed_categories db (run_config_version_id run)))
      d1 items = Inr d2"
    and u: "update_refresh_run (env_dialect en) run (uploaded_run en batch run) d2 = Inr db'"
    by (auto simp: store_batch_def Let_def result_simps)
  moreover note insert_refresh_batch_InrD(1,2) [OF b] stage_loop [OF s] update_refresh_run_InrD(1) [OF u]
  ultimately show thesis by (intro that [of config from_date to_date]) auto
qed

text \<open>The checks on the items, once they have all passed.\<close>

lemma check_items_ok:
  fixes items :: "transaction_upload list"
  assumes "for_each (check_item db run currency from_date to_date allowed) {} items = Inr ids"
  shows "ids = (\<lambda>i. (tu_account_id i, tu_source_id i)) ` set items \<and>
    distinct (map (\<lambda>i. (tu_account_id i, tu_source_id i)) items) \<and>
    (\<forall>i \<in> set items. tu_account_id i \<in> set (run_expected_accounts run) \<and> tu_currency i = currency \<and>
       tu_date i \<le> to_date \<and> (run_mode run = FULL \<longrightarrow> from_date \<le> tu_date i) \<and>
       set (tu_categories i) \<subseteq> dom (map_of allowed) \<and>
       (run_id run, tu_account_id i, tu_source_id i) \<notin> st_key ` set (staged_transactions db))"
  using assms
proof (rule for_each_prefix_inv)
  fix ys :: "transaction_upload list" and i zs t t'
  assume t: "t = (\<lambda>i. (tu_account_id i, tu_source_id i)) ` set ys \<and>
    distinct (map (\<lambda>i. (tu_account_id i, tu_source_id i)) ys) \<and>
    (\<forall>i \<in> set ys. tu_account_id i \<in> set (run_expected_accounts run) \<and> tu_currency i = currency \<and>
       tu_date i \<le> to_date \<and> (run_mode run = FULL \<longrightarrow> from_date \<le> tu_date i) \<and>
       set (tu_categories i) \<subseteq> dom (map_of allowed) \<and>
       (run_id run, tu_account_id i, tu_source_id i) \<notin> st_key ` set (staged_transactions db))"
    and c: "check_item db run currency from_date to_date allowed t i = Inr t'"
  from c have "t' = insert (tu_account_id i, tu_source_id i) t" "(tu_account_id i, tu_source_id i) \<notin> t"
    "tu_account_id i \<in> set (run_expected_accounts run)" "tu_currency i = currency"
    "tu_date i \<le> to_date" "run_mode run = FULL \<longrightarrow> from_date \<le> tu_date i"
    "filter (\<lambda>k. map_of allowed k = None) (sort (remdups (tu_categories i))) = []"
    "(run_id run, tu_account_id i, tu_source_id i) \<notin> st_key ` set (staged_transactions db)"
    by (auto simp: check_item_def Let_def result_simps has_key_iff)
  moreover from this(7) have "set (tu_categories i) \<subseteq> dom (map_of allowed)" by (auto simp: filter_empty_conv)
  ultimately show "t' = (\<lambda>i. (tu_account_id i, tu_source_id i)) ` set (ys @ [i]) \<and>
    distinct (map (\<lambda>i. (tu_account_id i, tu_source_id i)) (ys @ [i])) \<and>
    (\<forall>i \<in> set (ys @ [i]). tu_account_id i \<in> set (run_expected_accounts run) \<and> tu_currency i = currency \<and>
       tu_date i \<le> to_date \<and> (run_mode run = FULL \<longrightarrow> from_date \<le> tu_date i) \<and>
       set (tu_categories i) \<subseteq> dom (map_of allowed) \<and>
       (run_id run, tu_account_id i, tu_source_id i) \<notin> st_key ` set (staged_transactions db))"
    using t by auto
qed simp

end
