(* ===== verification/RefreshPublish.thy ===== *)
theory RefreshPublish
  imports RefreshFacts
begin

text \<open>
  The publication of a run in closed form. \<open>published\<close> are the staged transactions that are not
  themselves replaced, \<open>live_link\<close> the link a staged category becomes, \<open>kept_link\<close> says that a
  link is inside its category's window. \<open>full_spec\<close> and \<open>merge_spec\<close> are the tables before
  pruning, \<open>prune_spec\<close> what pruning leaves.
\<close>

section \<open>Steps that touch only the live tables\<close>

definition live_only :: "db \<Rightarrow> db \<Rightarrow> bool" where
  "live_only db db' \<longleftrightarrow>
     db' = db\<lparr>transactions := transactions db', transaction_categories := transaction_categories db'\<rparr>"

lemma live_only_refl: "live_only db db"
  by (simp add: live_only_def)

lemma live_only_trans:
  assumes "live_only a b" and "live_only b c"
  shows "live_only a c"
proof -
  obtain x y where b: "b = a\<lparr>transactions := x, transaction_categories := y\<rparr>"
    using assms(1) unfolding live_only_def by blast
  obtain x' y' where "c = b\<lparr>transactions := x', transaction_categories := y'\<rparr>"
    using assms(2) unfolding live_only_def by blast
  with b show ?thesis by (simp add: live_only_def)
qed

lemma live_only_fields:
  assumes "live_only db db'"
  shows "categories db' = categories db" "rule_versions db' = rule_versions db"
    "config_versions db' = config_versions db" "config_version_rules db' = config_version_rules db"
    "refresh_runs db' = refresh_runs db" "refresh_batches db' = refresh_batches db"
    "staged_transactions db' = staged_transactions db"
    "staged_transaction_categories db' = staged_transaction_categories db" "sync_states db' = sync_states db"
proof -
  define ts tcs where "ts = transactions db'" and "tcs = transaction_categories db'"
  have e: "db' = db\<lparr>transactions := ts, transaction_categories := tcs\<rparr>"
    using assms by (simp add: live_only_def ts_def tcs_def)
  show "categories db' = categories db" "rule_versions db' = rule_versions db"
    "config_versions db' = config_versions db" "config_version_rules db' = config_version_rules db"
    "refresh_runs db' = refresh_runs db" "refresh_batches db' = refresh_batches db"
    "staged_transactions db' = staged_transactions db"
    "staged_transaction_categories db' = staged_transaction_categories db" "sync_states db' = sync_states db"
    by (simp_all add: e)
qed

lemma live_only_update: "live_only db (db\<lparr>transactions := ts, transaction_categories := tcs\<rparr>)"
  "live_only db (db\<lparr>transactions := ts\<rparr>)" "live_only db (db\<lparr>transaction_categories := tcs\<rparr>)"
  by (simp_all add: live_only_def)

lemma live_only_deletes: "live_only db (delete_transaction_categories p db)" "live_only db (delete_transactions q db)"
  by (simp_all add: delete_transaction_categories_def delete_transactions_def Let_def live_only_update)

lemma live_only_delete_identity: "live_only db (delete_live_identity a s db)"
  unfolding delete_live_identity_def by (rule live_only_trans [OF live_only_deletes(1) live_only_deletes(2)])

lemma live_only_loop:
  assumes "for_each f db xs = Inr db'" and "\<And>x d d'. x \<in> set xs \<Longrightarrow> f d x = Inr d' \<Longrightarrow> live_only d d'"
  shows "live_only db db'"
  by (rule for_each_inv [OF assms(1), of "live_only db"]) (use assms(2) live_only_refl live_only_trans in blast)+

section \<open>Storing one staged transaction\<close>

definition staged_cats :: "db \<Rightarrow> uuid \<Rightarrow> staged_transaction \<Rightarrow> staged_transaction_category list" where
  "staged_cats db rid s = filter (\<lambda>c. sc_run_id c = rid \<and> sc_account_id c = st_account_id s \<and>
     sc_source_id c = st_source_id s) (staged_transaction_categories db)"

definition live_link :: "refresh_run \<Rightarrow> staged_transaction \<Rightarrow> staged_transaction_category \<Rightarrow> transaction_category" where
  "live_link run s c =
     \<lparr>tc_account_id = st_account_id s, tc_source_id = st_source_id s, tc_category_id = sc_category_id c,
      tc_config_version_id = run_config_version_id run, tc_rule_version_id = sc_rule_version_id c\<rparr>"

definition live_links :: "db \<Rightarrow> refresh_run \<Rightarrow> staged_transaction \<Rightarrow> transaction_category list" where
  "live_links db run s = map (live_link run s) (staged_cats db (run_id run) s)"

lemma live_row_key [simp]: "tx_key (live_row en run s e) = st_identity s"
  by (simp add: tx_key_def live_row_def st_identity_def)

lemma live_links_key: "c \<in> set (live_links db run s) \<Longrightarrow> tc_tx_key c = st_identity s"
  by (auto simp: live_links_def live_link_def tc_tx_key_def st_identity_def)

lemma publish_loop:
  assumes "for_each (publish_category run s) db cats = Inr db'"
  shows "db' = db\<lparr>transaction_categories := transaction_categories db @ map (live_link run s) cats\<rparr>"
  using assms
proof (rule for_each_prefix_inv)
  fix ys c zs t t'
  assume t: "t = db\<lparr>transaction_categories := transaction_categories db @ map (live_link run s) ys\<rparr>"
    and p: "publish_category run s t c = Inr t'"
  from p have "insert_transaction_category (live_link run s c) t = Inr t'"
    by (simp add: publish_category_def live_link_def)
  from insert_transaction_category_InrD(1) [OF this] t
  show "t' = db\<lparr>transaction_categories := transaction_categories db @ map (live_link run s) (ys @ [c])\<rparr>" by simp
qed simp

definition cleared :: "staged_transaction \<Rightarrow> transaction option \<Rightarrow> db \<Rightarrow> db" where
  "cleared s existing db = (case existing of None \<Rightarrow> db
     | Some e \<Rightarrow> delete_live_identity (st_account_id s) (st_source_id s) db)"

lemma live_only_cleared: "live_only db (cleared s existing db)"
  by (simp add: cleared_def live_only_refl live_only_delete_identity split: option.splits)

lemma store_staged_InrD:
  assumes "store_staged en run s existing db = Inr db'"
  shows "db' = (cleared s existing db)\<lparr>
      transactions := transactions (cleared s existing db) @ [live_row en run s existing],
      transaction_categories := transaction_categories (cleared s existing db) @ live_links db run s\<rparr> \<and>
    live_links db run s \<noteq> [] \<and>
    st_identity s \<notin> tx_key ` set (transactions (cleared s existing db))"
proof -
  let ?d = "cleared s existing db"
  from assms obtain d1 where i: "insert_transaction (live_row en run s existing) ?d = Inr d1"
    and c: "staged_cats d1 (run_id run) s \<noteq> []"
    and l: "for_each (publish_category run s) d1 (staged_cats d1 (run_id run) s) = Inr db'"
    by (auto simp: store_staged_def Let_def result_simps cleared_def staged_cats_def)
  note I = insert_transaction_InrD(1,2) [OF i]
  have "staged_cats d1 (run_id run) s = staged_cats db (run_id run) s"
    using live_only_fields(8) [OF live_only_cleared [of db s existing]] by (simp add: I(1) staged_cats_def)
  with publish_loop [OF l] I c show ?thesis by (simp add: live_links_def)
qed

lemma store_staged_live_only:
  assumes "store_staged en run s existing db = Inr db'"
  shows "live_only db db'"
  using store_staged_InrD [OF assms] live_only_trans [OF live_only_cleared live_only_update(1)] by metis

section \<open>Replacing everything\<close>

definition published :: "staged_transaction list \<Rightarrow> (string \<times> string) set \<Rightarrow> staged_transaction list" where
  "published staged targets = filter (\<lambda>s. st_identity s \<notin> targets) staged"

definition full_spec :: "env \<Rightarrow> refresh_run \<Rightarrow> db \<Rightarrow> staged_transaction list \<Rightarrow> db" where
  "full_spec en run db ss = db\<lparr>
     transactions := map (\<lambda>s. live_row en run s None) ss,
     transaction_categories := concat (map (live_links db run) ss)\<rparr>"

lemma staged_cats_live_only: "live_only db db' \<Longrightarrow> live_links db' run s = live_links db run s"
  by (simp add: live_links_def staged_cats_def live_only_fields)

lemma replace_all_InrD:
  assumes "replace_all_transactions en run targets db = Inr db'"
  shows "db' = full_spec en run db (published (staged_of_run db (run_id run)) targets) \<and>
    (\<forall>s \<in> set (published (staged_of_run db (run_id run)) targets). live_links db run s \<noteq> [])"
proof -
  let ?P = "\<lambda>ys t. t = full_spec en run db (published ys targets) \<and>
      (\<forall>s \<in> set (published ys targets). live_links db run s \<noteq> [])"
  let ?d = "delete_transactions (\<lambda>_. True) (delete_transaction_categories (\<lambda>_. True) db)"
  have d: "?d = full_spec en run db []"
    by (simp add: full_spec_def delete_transactions_def delete_transaction_categories_def drop_rows_def)
  have st: "staged_of_run (full_spec en run db []) (run_id run) = staged_of_run db (run_id run)"
    by (simp add: staged_of_run_def full_spec_def)
  from assms have "for_each (\<lambda>db s. if st_identity s \<in> targets then Inr db
      else store_staged en run s None db) (full_spec en run db []) (staged_of_run db (run_id run)) = Inr db'"
    unfolding replace_all_transactions_def Let_def d st .
  then show ?thesis
  proof (rule for_each_prefix_inv [where P = ?P])
    fix ys s zs t t'
    assume t: "?P ys t" and step: "(if st_identity s \<in> targets then Inr t else store_staged en run s None t) = Inr t'"
    show "?P (ys @ [s]) t'"
    proof (cases "st_identity s \<in> targets")
      case True
      with t step show ?thesis by (simp add: published_def)
    next
      case False
      with step have "store_staged en run s None t = Inr t'" by simp
      note S = store_staged_InrD [OF this]
      have lo: "live_only db t" using t by (simp add: full_spec_def live_only_update)
      show ?thesis using S t False staged_cats_live_only [OF lo]
        by (auto simp: published_def cleared_def full_spec_def)
    qed
  qed (simp add: published_def)
qed

section \<open>Pruning\<close>

text \<open>A link is kept when every rule of its category reaches back to its transaction's date.\<close>

definition kept_link :: "db \<Rightarrow> (config_version_rule \<times> rule_version \<times> category) list \<Rightarrow> date \<Rightarrow> transaction_category \<Rightarrow> bool" where
  "kept_link db rules to_date c \<longleftrightarrow> list_all (\<lambda>(l, r, k). cat_id k = tc_category_id c \<longrightarrow>
     list_all (\<lambda>t. tx_key t = tc_tx_key c \<longrightarrow> to_date - (rv_lookback_days r - 1) \<le> tx_transaction_date t)
       (transactions db)) rules"

definition prune_spec :: "db \<Rightarrow> (config_version_rule \<times> rule_version \<times> category) list \<Rightarrow> date \<Rightarrow> db" where
  "prune_spec db rules to_date =
     (let kept = filter (kept_link db rules to_date) (transaction_categories db) in
      db\<lparr>transactions := filter (\<lambda>t. list_ex (\<lambda>c. tc_tx_key c = tx_key t) kept) (transactions db),
         transaction_categories := kept\<rparr>)"

lemma rules_for_config_cong:
  assumes "categories db' = categories db" "rule_versions db' = rule_versions db"
    "config_version_rules db' = config_version_rules db"
  shows "rules_for_config db' = rules_for_config db"
  by (rule ext) (simp add: rules_for_config_def assms cong: if_cong)

lemma prune_loop:
  assumes "for_each (prune_category to_date) db rules = Inr db'"
  shows "db' = db\<lparr>transaction_categories := filter (kept_link db rules to_date) (transaction_categories db)\<rparr>"
  using assms
proof (rule for_each_prefix_inv)
  fix ys and x :: "config_version_rule \<times> rule_version \<times> category" and zs t t'
  assume t: "t = db\<lparr>transaction_categories := filter (kept_link db ys to_date) (transaction_categories db)\<rparr>"
    and p: "prune_category to_date t x = Inr t'"
  obtain l r k where x: "x = (l, r, k)" by (cases x)
  from p have c: "t' = delete_transaction_categories (old_link t (cat_id k) (to_date - (rv_lookback_days r - 1))) t"
    by (auto simp: x prune_category_def result_simps dest!: date_minus_days_Some)
  have "kept_link db (ys @ [x]) to_date =
      (\<lambda>c. kept_link db ys to_date c \<and> \<not> old_link t (cat_id k) (to_date - (rv_lookback_days r - 1)) c)"
    by (auto simp: fun_eq_iff t x old_link_def kept_link_def list_all_iff list_ex_iff)
  then show "t' = db\<lparr>transaction_categories := filter (kept_link db (ys @ [x]) to_date) (transaction_categories db)\<rparr>"
    by (simp add: c delete_transaction_categories_def drop_rows_def t)
qed (simp add: kept_link_def)

lemma prune_InrD:
  assumes "prune_outside_windows run db = Inr db'" and "run_source_to_date run = Some to_date"
  shows "db' = prune_spec db (rules_for_config db (run_config_version_id run)) to_date"
proof -
  let ?rules = "rules_for_config db (run_config_version_id run)"
  let ?kept = "filter (kept_link db ?rules to_date) (transaction_categories db)"
  let ?d = "db\<lparr>transaction_categories := ?kept\<rparr>"
  from assms obtain d where l: "for_each (prune_category to_date) db ?rules = Inr d"
    and e: "db' = delete_transactions (\<lambda>t. \<not> list_ex (\<lambda>c. tc_tx_key c = tx_key t) (transaction_categories d)) d"
    by (auto simp: prune_outside_windows_def result_simps)
  from prune_loop [OF l] have d: "d = ?d" .
  have "drop_rows (\<lambda>c. tc_tx_key c \<in> set (map tx_key (filter (\<lambda>t. \<not> list_ex (\<lambda>c. tc_tx_key c = tx_key t) ?kept)
      (transactions db)))) ?kept = ?kept"
    unfolding drop_rows_def by (rule filter_True) (auto simp: list_ex_iff)
  then show ?thesis
    unfolding e d by (simp add: delete_transactions_def prune_spec_def Let_def drop_rows_def)
qed

lemma live_only_prune: "live_only db (prune_spec db rules to_date)"
  by (simp add: prune_spec_def Let_def live_only_update)

section \<open>Replaced identities\<close>

definition replaced_by :: "staged_transaction \<Rightarrow> (string \<times> string) option" where
  "replaced_by s = map_option (Pair (st_account_id s)) (st_pending_source_id s)"

definition replaced :: "staged_transaction list \<Rightarrow> (string \<times> string) set" where
  "replaced ss = {k. list_ex (\<lambda>s. replaced_by s = Some k) ss}"

lemma replaced_simps [simp]: "replaced [] = {}"
  "replaced (ss @ [s]) = (case replaced_by s of None \<Rightarrow> replaced ss | Some k \<Rightarrow> insert k (replaced ss))"
  by (auto simp: replaced_def split: option.splits)

definition replacement_ok :: "db \<Rightarrow> staged_transaction list \<Rightarrow> staged_transaction \<Rightarrow> bool" where
  "replacement_ok db staged s \<longleftrightarrow> (\<forall>k. replaced_by s = Some k \<longrightarrow>
     \<not> st_pending s \<and> k \<noteq> st_identity s \<and>
     (case get_row st_identity k staged of None \<Rightarrow> True | Some t \<Rightarrow> st_pending t) \<and>
     (case get_row tx_key k (transactions db) of None \<Rightarrow> True | Some t \<Rightarrow> tx_pending t))"

lemma check_replacement_InrD:
  assumes "check_replacement db staged targets s = Inr targets'"
  shows "targets' = (case replaced_by s of None \<Rightarrow> targets | Some k \<Rightarrow> insert k targets) \<and>
    replacement_ok db staged s \<and> (\<forall>k. replaced_by s = Some k \<longrightarrow> k \<notin> targets)"
  using assms
  by (cases "st_pending_source_id s")
    (auto simp: check_replacement_def Let_def result_simps replaced_by_def replacement_ok_def split: option.splits)

lemma validate_InrD:
  assumes "validate_pending_replacements db run = Inr targets"
  shows "targets = replaced (staged_of_run db (run_id run)) \<and>
    (\<forall>s \<in> set (staged_of_run db (run_id run)). replacement_ok db (staged_of_run db (run_id run)) s) \<and>
    distinct (List.map_filter replaced_by (staged_of_run db (run_id run)))"
proof -
  let ?ss = "staged_of_run db (run_id run)"
  from assms have "for_each (check_replacement db ?ss) {} ?ss = Inr targets"
    by (simp add: validate_pending_replacements_def Let_def)
  then show ?thesis
  proof (rule for_each_prefix_inv [where P = "\<lambda>ys t. t = replaced ys \<and>
      (\<forall>s \<in> set ys. replacement_ok db ?ss s) \<and> distinct (List.map_filter replaced_by ys)"])
    fix ys :: "staged_transaction list" and s zs t t'
    assume t: "t = replaced ys \<and> (\<forall>s \<in> set ys. replacement_ok db ?ss s) \<and> distinct (List.map_filter replaced_by ys)"
      and c: "check_replacement db ?ss t s = Inr t'"
    have mem: "k \<in> set (List.map_filter replaced_by ys) \<longleftrightarrow> k \<in> replaced ys" for k
      by (auto simp: replaced_def List.map_filter_def list_ex_iff image_iff)
    from check_replacement_InrD [OF c] t mem
    show "t' = replaced (ys @ [s]) \<and> (\<forall>s \<in> set (ys @ [s]). replacement_ok db ?ss s) \<and>
        distinct (List.map_filter replaced_by (ys @ [s]))"
      by (auto simp: List.map_filter_def split: option.splits)
  qed (simp add: List.map_filter_def)
qed

text \<open>A transaction that replaces another one is not itself replaced.\<close>

lemma replacing_published:
  assumes ok: "\<forall>s \<in> set ss. replacement_ok db ss s" and d: "distinct (map st_identity ss)"
    and s: "s \<in> set ss" "replaced_by s \<noteq> None"
  shows "st_identity s \<notin> replaced ss"
proof
  assume "st_identity s \<in> replaced ss"
  then obtain t where t: "t \<in> set ss" "replaced_by t = Some (st_identity s)"
    by (auto simp: replaced_def list_ex_iff)
  have "get_row st_identity (st_identity s) ss = Some s" by (rule get_row_distinct [OF d s(1)])
  with bspec [OF ok t(1)] t(2) have "st_pending s" by (simp add: replacement_ok_def del: split_paired_All)
  moreover from s ok have "\<not> st_pending s" by (auto simp: replacement_ok_def)
  ultimately show False by blast
qed

section \<open>Merging\<close>

definition tx_at :: "db \<Rightarrow> string \<times> string \<Rightarrow> transaction option" where
  "tx_at db k = get_row tx_key k (transactions db)"

definition links_at :: "db \<Rightarrow> string \<times> string \<Rightarrow> transaction_category list" where
  "links_at db k = filter (\<lambda>c. tc_tx_key c = k) (transaction_categories db)"

text \<open>What an identity holds after the published transactions were merged.\<close>

definition merged_tx :: "env \<Rightarrow> refresh_run \<Rightarrow> db \<Rightarrow> staged_transaction list \<Rightarrow> string \<times> string \<Rightarrow> transaction option" where
  "merged_tx en run db ss k = (case find (\<lambda>s. st_identity s = k) ss of
     Some s \<Rightarrow> Some (live_row en run s (tx_at db k))
   | None \<Rightarrow> if k \<in> replaced ss then None else tx_at db k)"

definition merged_links :: "refresh_run \<Rightarrow> db \<Rightarrow> staged_transaction list \<Rightarrow> string \<times> string \<Rightarrow> transaction_category list" where
  "merged_links run db ss k = (case find (\<lambda>s. st_identity s = k) ss of
     Some s \<Rightarrow> live_links db run s
   | None \<Rightarrow> if k \<in> replaced ss then [] else links_at db k)"

lemma get_row_snoc:
  "key r \<notin> key ` set rows \<Longrightarrow> get_row key k (rows @ [r]) = (if k = key r then Some r else get_row key k rows)"
  by (induction rows) (auto simp: get_row_def)

lemma get_row_filter_key:
  "get_row key k (filter (\<lambda>r. key r \<noteq> k0) rows) = (if k = k0 then None else get_row key k rows)"
  by (induction rows) (auto simp: get_row_def)

lemma delete_identity_tables:
  "transactions (delete_live_identity a s db) = filter (\<lambda>t. tx_key t \<noteq> (a, s)) (transactions db)"
  "transaction_categories (delete_live_identity a s db) = filter (\<lambda>c. tc_tx_key c \<noteq> (a, s)) (transaction_categories db)"
  by (auto simp: delete_live_identity_def delete_transactions_def delete_transaction_categories_def Let_def
      drop_rows_def tx_key_def tc_tx_key_def intro!: filter_cong)

lemma delete_identity_at:
  "tx_at (delete_live_identity a s db) k = (if k = (a, s) then None else tx_at db k)"
  "links_at (delete_live_identity a s db) k = (if k = (a, s) then [] else links_at db k)"
  by (auto simp: tx_at_def links_at_def delete_identity_tables get_row_filter_key intro!: filter_cong)

lemma store_staged_at:
  assumes "store_staged en run s existing db = Inr db'" and e: "existing = tx_at db (st_identity s)"
    and l: "existing = None \<Longrightarrow> links_at db (st_identity s) = []"
  shows "tx_at db' k = (if k = st_identity s then Some (live_row en run s existing) else tx_at db k)"
    and "links_at db' k = (if k = st_identity s then live_links db run s else links_at db k)"
proof -
  let ?c = "cleared s existing db"
  note S = store_staged_InrD [OF assms(1)]
  have c: "tx_at ?c k = (if k = st_identity s then None else tx_at db k) \<and>
      links_at ?c k = (if k = st_identity s then [] else links_at db k)" for k
  proof (cases existing)
    case None
    with e l have "tx_at db (st_identity s) = None" "links_at db (st_identity s) = []" by simp_all
    with None show ?thesis by (simp add: cleared_def)
  next
    case (Some x)
    then have "cleared s existing db = delete_live_identity (st_account_id s) (st_source_id s) db"
      by (simp add: cleared_def)
    then show ?thesis by (simp add: delete_identity_at st_identity_def)
  qed
  show "tx_at db' k = (if k = st_identity s then Some (live_row en run s existing) else tx_at db k)"
    using S c [of k] by (auto simp: tx_at_def get_row_snoc)
  have "filter (\<lambda>c. tc_tx_key c = k) (live_links db run s) = (if k = st_identity s then live_links db run s else [])"
    using live_links_key [of _ db run s] by (auto simp: filter_empty_conv)
  then show "links_at db' k = (if k = st_identity s then live_links db run s else links_at db k)"
    using S c [of k] by (auto simp: links_at_def)
qed

lemma find_snoc: "find p (xs @ [x]) = (case find p xs of None \<Rightarrow> if p x then Some x else None | Some y \<Rightarrow> Some y)"
  by (induction xs) auto

lemma merge_InrD:
  assumes m: "merge_incremental en run targets db = Inr db'"
    and v: "validate_pending_replacements db run = Inr targets"
    and d: "distinct (map st_identity (staged_of_run db (run_id run)))"
    and orphans: "\<And>k. tx_at db k = None \<Longrightarrow> links_at db k = []"
  shows "live_only db db' \<and>
    (\<forall>k. tx_at db' k = merged_tx en run db (published (staged_of_run db (run_id run)) targets) k \<and>
       links_at db' k = merged_links run db (published (staged_of_run db (run_id run)) targets) k) \<and>
    (\<forall>s \<in> set (published (staged_of_run db (run_id run)) targets). live_links db run s \<noteq> [])"
proof -
  let ?ss = "staged_of_run db (run_id run)"
  note V = validate_InrD [OF v]
  let ?P = "\<lambda>ys t. live_only db t \<and>
    (\<forall>k. tx_at t k = merged_tx en run db (published ys targets) k \<and>
       links_at t k = merged_links run db (published ys targets) k) \<and>
    (\<forall>s \<in> set (published ys targets). live_links db run s \<noteq> [])"
  from m have "for_each (merge_item en run targets) db ?ss = Inr db'" by (simp add: merge_incremental_def)
  then show ?thesis
  proof (rule for_each_prefix_inv [where P = ?P])
    show "?P [] db"
      by (auto simp: live_only_refl published_def merged_tx_def merged_links_def split: option.splits)
    fix ys s zs t t'
    assume split: "?ss = ys @ s # zs" and t: "?P ys t" and step: "merge_item en run targets t s = Inr t'"
    show "?P (ys @ [s]) t'"
    proof (cases "st_identity s \<in> targets")
      case True
      with t step show ?thesis by (simp add: published_def merge_item_def)
    next
      case False
      let ?k = "st_identity s"
      let ?d = "case st_pending_source_id s of None \<Rightarrow> t | Some p \<Rightarrow> delete_live_identity (st_account_id s) p t"
      have d_at: "tx_at ?d k = (if replaced_by s = Some k then None else tx_at t k)"
        "links_at ?d k = (if replaced_by s = Some k then [] else links_at t k)" for k
        by (auto simp: replaced_by_def delete_identity_at split: option.splits)
      have d_lo: "live_only t ?d" by (simp add: live_only_refl live_only_delete_identity split: option.splits)
      then have lo: "live_only db ?d" using t live_only_trans by blast
      have fresh: "find (\<lambda>x. st_identity x = ?k) (published ys targets) = None"
        using d unfolding split by (auto simp: find_None_iff published_def image_iff)
      have "replacement_ok db ?ss s" using V split by auto
      then have sk: "replaced_by s \<noteq> Some ?k" unfolding replacement_ok_def by blast
      have nk: "?k \<notin> replaced (published ys targets)"
      proof
        assume "?k \<in> replaced (published ys targets)"
        then have "?k \<in> replaced ?ss" unfolding split by (auto simp: replaced_def list_ex_iff published_def)
        with False V show False by simp
      qed
      have tk: "tx_at t k = merged_tx en run db (published ys targets) k"
        "links_at t k = merged_links run db (published ys targets) k" for k
        using t by blast+
      have at: "tx_at ?d ?k = tx_at db ?k" "links_at ?d ?k = links_at db ?k"
        using fresh nk sk by (simp_all add: tk d_at merged_tx_def merged_links_def)
      from step False have st: "store_staged en run s (tx_at ?d ?k) ?d = Inr t'"
        by (simp add: merge_item_def Let_def tx_at_def)
      have orph: "tx_at ?d ?k = None \<Longrightarrow> links_at ?d ?k = []" using at orphans by simp
      note S = store_staged_at [OF st refl orph] store_staged_InrD [OF st] store_staged_live_only [OF st]
      have pub: "published (ys @ [s]) targets = published ys targets @ [s]" using False by (simp add: published_def)
      have later: "find (\<lambda>x. st_identity x = k) (published ys targets) = None" if "replaced_by s = Some k" for k
      proof -
        have "k \<in> replaced ?ss" using that unfolding split by (auto simp: replaced_def list_ex_iff)
        with V show ?thesis by (auto simp: find_None_iff published_def)
      qed
      have links: "live_links ?d run s = live_links db run s" by (rule staged_cats_live_only [OF lo])
      have "tx_at t' k = merged_tx en run db (published (ys @ [s]) targets) k" for k
        using S(1) [of k] at later [of k] sk fresh nk
        by (auto simp: tk pub merged_tx_def find_snoc d_at split: option.splits)
      moreover have "links_at t' k = merged_links run db (published (ys @ [s]) targets) k" for k
        using S(2) [of k] at later [of k] sk fresh nk links
        by (auto simp: tk pub merged_links_def find_snoc d_at split: option.splits)
      moreover have "live_only db t'" using lo S(4) live_only_trans by blast
      moreover have "\<forall>x \<in> set (published (ys @ [s]) targets). live_links db run x \<noteq> []"
        using t S(3) links by (auto simp: pub)
      ultimately show ?thesis by blast
    qed
  qed
qed

section \<open>Publication keeps integrity\<close>

lemma integrity_cleared: "integrity db \<Longrightarrow> integrity (cleared s existing db)"
  by (simp add: cleared_def delete_live_identity_def integrity_delete_transactions
      integrity_delete_transaction_categories split: option.splits)

lemma integrity_store_staged:
  assumes "store_staged en run s existing db = Inr db'" and "integrity db"
  shows "integrity db'"
proof -
  from assms(1) obtain d cats where i: "insert_transaction (live_row en run s existing) (cleared s existing db) = Inr d"
    and l: "for_each (publish_category run s) d cats = Inr db'"
    by (auto simp: store_staged_def Let_def result_simps cleared_def)
  from i integrity_cleared [OF assms(2)] have "integrity d" by (blast intro: integrity_insert_transaction)
  with l show ?thesis
    by (rule for_each_inv) (auto simp: publish_category_def intro: integrity_insert_transaction_category)
qed

lemma integrity_merge_item:
  assumes "merge_item en run targets d s = Inr d'" and "integrity d"
  shows "integrity d'"
proof (cases "st_identity s \<in> targets")
  case False
  let ?e = "case st_pending_source_id s of None \<Rightarrow> d | Some p \<Rightarrow> delete_live_identity (st_account_id s) p d"
  have "integrity ?e" using assms(2)
    by (simp add: delete_live_identity_def integrity_delete_transactions integrity_delete_transaction_categories
        split: option.splits)
  moreover have "\<exists>x. store_staged en run s x ?e = Inr d'" using assms(1) False by (auto simp: merge_item_def Let_def)
  ultimately show ?thesis using integrity_store_staged by blast
qed (use assms in \<open>simp add: merge_item_def\<close>)

lemma integrity_stored:
  assumes "(if run_mode run = FULL then replace_all_transactions en run targets db
       else merge_incremental en run targets db) = Inr d" and "integrity db"
  shows "integrity d"
proof (cases "run_mode run = FULL")
  case True
  let ?e = "delete_transactions (\<lambda>_. True) (delete_transaction_categories (\<lambda>_. True) db)"
  from True assms(1) have "for_each (\<lambda>db s. if st_identity s \<in> targets then Inr db else store_staged en run s None db)
      ?e (staged_of_run ?e (run_id run)) = Inr d"
    by (simp add: replace_all_transactions_def Let_def)
  then show ?thesis
  proof (rule for_each_inv)
    show "integrity ?e"
      using assms(2) by (intro integrity_delete_transactions integrity_delete_transaction_categories)
  qed (auto split: if_splits intro: integrity_store_staged)
next
  case False
  with assms(1) have "for_each (merge_item en run targets) db (staged_of_run db (run_id run)) = Inr d"
    by (simp add: merge_incremental_def)
  then show ?thesis using assms(2) by (rule for_each_inv) (rule integrity_merge_item)
qed

end
