(* ===== verification/RefreshOutcome.thy ===== *)
theory RefreshOutcome
  imports RefreshPublish
begin

text \<open>
  A successful commit taken apart: the checks that passed, the tables that were published, the
  configuration that became active and the sync state after it.
\<close>

section \<open>Publication\<close>

definition run_published :: "db \<Rightarrow> refresh_run \<Rightarrow> staged_transaction list" where
  "run_published db run = published (staged_of_run db (run_id run)) (replaced (staged_of_run db (run_id run)))"

lemma staged_identity_distinct:
  assumes "integrity db"
  shows "distinct (map st_identity (staged_of_run db rid))"
proof -
  have "distinct (map st_key (staged_of_run db rid))"
    using assms by (simp add: integrity_def keys_unique_def staged_of_run_def distinct_map_filter)
  moreover have "map st_key (staged_of_run db rid) = map (Pair rid) (map st_identity (staged_of_run db rid))"
    by (auto simp: staged_of_run_def st_key_def st_identity_def)
  ultimately show ?thesis by (metis distinct_map)
qed

lemma no_orphan_links:
  assumes "integrity db" and "tx_at db k = None"
  shows "links_at db k = []"
proof -
  have "tc_tx_key c \<in> tx_key ` set (transactions db)" if "c \<in> set (transaction_categories db)" for c
  proof -
    have "tc_parent c \<in> tx_parent ` set (transactions db)"
      using assms(1) imageI [OF that, of tc_parent] unfolding integrity_def live_refs_def by (meson in_mono)
    then show ?thesis by (auto simp: tc_parent_def tx_parent_def)
  qed
  with assms(2) show ?thesis by (auto simp: tx_at_def links_at_def get_row_None filter_empty_conv)
qed

lemma publish_InrD:
  assumes p: "publish en run db = Inr db'" and I: "integrity db" and w: "run_source_to_date run = Some to_date"
  obtains d where "live_only db d"
    "db' = prune_spec d (rules_for_config db (run_config_version_id run)) to_date"
    "\<forall>s \<in> set (run_published db run). live_links db run s \<noteq> []"
    "\<forall>s \<in> set (staged_of_run db (run_id run)). replacement_ok db (staged_of_run db (run_id run)) s"
    "run_mode run = FULL \<longrightarrow> d = full_spec en run db (run_published db run)"
    "run_mode run = INCREMENTAL \<longrightarrow> (\<forall>k. tx_at d k = merged_tx en run db (run_published db run) k \<and>
       links_at d k = merged_links run db (run_published db run) k)"
    "integrity d"
proof -
  from p obtain targets d where v: "validate_pending_replacements db run = Inr targets"
    and m: "(if run_mode run = FULL then replace_all_transactions en run targets db
       else merge_incremental en run targets db) = Inr d"
    and pr: "prune_outside_windows run d = Inr db'"
    by (auto simp: publish_def result_simps)
  note V = validate_InrD [OF v]
  have pub: "published (staged_of_run db (run_id run)) targets = run_published db run"
    using V by (simp add: run_published_def)
  have fin: "db' = prune_spec d (rules_for_config db (run_config_version_id run)) to_date" if "live_only db d"
    using prune_InrD [OF pr w] rules_for_config_cong [of d db] live_only_fields [OF that] by simp
  have g: "integrity d" by (rule integrity_stored [OF m I])
  show thesis
  proof (cases "run_mode run")
    case FULL
    with m have r: "replace_all_transactions en run targets db = Inr d" by simp
    note R = replace_all_InrD [OF r, unfolded pub]
    then have "live_only db d" by (simp add: full_spec_def live_only_update)
    with R V FULL fin g show thesis by (intro that [of d]) auto
  next
    case INCREMENTAL
    with m have r: "merge_incremental en run targets db = Inr d" by simp
    note R = merge_InrD [OF r v staged_identity_distinct [OF I] no_orphan_links [OF I], unfolded pub]
    with V INCREMENTAL fin g show thesis by (intro that [of d]) auto
  qed
qed

lemma publish_live_only:
  assumes "publish en run db = Inr db'" and "integrity db" and "run_source_to_date run = Some to_date"
  shows "live_only db db'"
  by (rule publish_InrD [OF assms]) (use live_only_prune live_only_trans in blast)

section \<open>Activation\<close>

definition activate_list :: "env \<Rightarrow> config_version \<Rightarrow> config_version option \<Rightarrow> config_version list \<Rightarrow> config_version list" where
  "activate_list en config old cs = put_row cv_id (activated en config)
     (case old of None \<Rightarrow> cs
      | Some a \<Rightarrow> if cv_id a \<noteq> cv_id config then put_row cv_id (supersede en a) cs else cs)"

lemma activate_InrD:
  assumes "activate_config en config db = Inr db'" and "integrity db"
  shows "(cv_status config \<noteq> PENDING \<and> db' = db) \<or>
    (cv_status config = PENDING \<and> (\<exists>snapshot. editable_snapshot_for_config db config = Inr snapshot \<and>
       config_request_wf snapshot \<and>
       db' = db\<lparr>categories := present_all (cr_categories snapshot) (categories db),
         config_versions := activate_list en config (active_version db) (config_versions db)\<rparr>))"
proof (cases "cv_status config = PENDING")
  case False
  with assms show ?thesis by (simp add: activate_config_def)
next
  case True
  with assms(1) obtain d1 d2 where a: "apply_config_presentation config db = Inr d1"
    and s: "(case active_version d1 of None \<Rightarrow> Inr d1
        | Some old \<Rightarrow> if cv_id old \<noteq> cv_id config
            then update_config_version (env_dialect en) old (supersede en old) d1 else Inr d1) = Inr d2"
    and u: "update_config_version (env_dialect en) config (activated en config) d2 = Inr db'"
    by (auto simp: activate_config_def result_simps)
  obtain sn where sn: "editable_snapshot_for_config db config = Inr sn" "config_request_wf sn"
    and d1: "d1 = db\<lparr>categories := present_all (cr_categories sn) (categories db)\<rparr>"
    by (rule apply_config_presentation_spec [OF a assms(2)])
  have av: "active_version d1 = active_version db" by (simp add: active_version_def d1)
  have d2: "d2 = d1\<lparr>config_versions := (case active_version db of None \<Rightarrow> config_versions db
      | Some old \<Rightarrow> if cv_id old \<noteq> cv_id config then put_row cv_id (supersede en old) (config_versions db)
          else config_versions db)\<rparr>"
  proof -
    have "config_versions d1 = config_versions db" by (simp add: d1)
    moreover have "d1\<lparr>config_versions := config_versions db\<rparr> = d1" by (simp add: d1)
    ultimately show ?thesis
      using s unfolding av by (auto split: option.splits if_splits dest!: update_config_version_InrD(1))
  qed
  have "db' = db\<lparr>categories := present_all (cr_categories sn) (categories db),
      config_versions := activate_list en config (active_version db) (config_versions db)\<rparr>"
    using update_config_version_InrD(1) [OF u] by (simp add: d2 d1 activate_list_def)
  with sn True show ?thesis by blast
qed

section \<open>The commit\<close>

lemma check_target_InrD:
  assumes "check_target db run = Inr config"
  shows "get_row cv_id (run_config_version_id run) (config_versions db) = Some config"
    "cv_status config \<noteq> SUPERSEDED" "run_mode run = INCREMENTAL \<Longrightarrow> cv_status config = ACTIVE"
    "run_mode run = INCREMENTAL \<Longrightarrow> pending_version db = None"
    "\<exists>t. current_target db (run_mode run) = Some t \<and> cv_id t = cv_id config"
  using assms by (auto simp: check_target_def result_simps split: option.splits)

lemma check_complete_InrD:
  assumes "check_complete db run request = Inr u"
  shows "map rb_batch_index (run_batches db (run_id run)) = [0..cq_expected_batch_count request - 1]"
    "cq_completed_accounts request = sort (run_expected_accounts run)"
  using assms by (auto simp: check_complete_def result_simps)

lemma check_current_InrD:
  assumes "check_current db run = Inr u"
  shows "map_option ss_revision (get_sync_state db) = run_sync_revision_before run"
    "run_mode run = INCREMENTAL \<Longrightarrow> get_sync_state db \<noteq> None"
  using assms by (auto simp: check_current_def Let_def result_simps split: if_splits option.splits)

definition commit_result :: "env \<Rightarrow> db \<Rightarrow> commit_request \<Rightarrow> refresh_run \<Rightarrow> refresh_run" where
  "commit_result en db request run = committed_run en (validated_run en db request run)"

lemma commit_result_simps [simp]:
  "run_id (commit_result en db request run) = run_id run"
  "run_mode (commit_result en db request run) = run_mode run"
  "run_state (commit_result en db request run) = COMMITTED"
  "run_config_version_id (commit_result en db request run) = run_config_version_id run"
  "run_source_to_date (commit_result en db request run) = run_source_to_date run"
  "run_idempotency_key (commit_result en db request run) = run_idempotency_key run"
  "run_request_hash (commit_result en db request run) = run_request_hash run"
  "run_expected_accounts (commit_result en db request run) = run_expected_accounts run"
  "run_sync_revision_before (commit_result en db request run) = run_sync_revision_before run"
  "run_expected_batch_count (commit_result en db request run) = Some (cq_expected_batch_count request)"
  "run_completed_accounts (commit_result en db request run) = Some (cq_completed_accounts request)"
  "run_received_batch_count (commit_result en db request run) = int (length (run_batches db (run_id run)))"
  "run_actual_item_count (commit_result en db request run) = sum_list (map rb_item_count (run_batches db (run_id run)))"
  "run_computed_checksum (commit_result en db request run)
     = Some (checksum_chain (env_sha256 en) (map rb_checksum (run_batches db (run_id run))))"
  "run_committed_at (commit_result en db request run) = Some (env_now en)"
  by (simp_all add: commit_result_def committed_run_def validated_run_def Let_def)

lemma commit_InrD:
  assumes "commit_refresh en rid request db = Inr (v, db')"
    and r: "get_row run_id rid (refresh_runs db) = Some run" and "run_state run \<noteq> COMMITTED"
  obtains config d1 d2 d3 where
    "run_state run = UPLOADED \<or> run_state run = CREATED \<and> cq_expected_batch_count request = 0"
    "check_target db run = Inr config" "check_complete db run request = Inr ()" "check_current db run = Inr ()"
    "update_refresh_run (env_dialect en) run (validated_run en db request run) db =
       Inr (db\<lparr>refresh_runs := put_row run_id (validated_run en db request run) (refresh_runs db)\<rparr>)"
    "publish en (validated_run en db request run)
       (db\<lparr>refresh_runs := put_row run_id (validated_run en db request run) (refresh_runs db)\<rparr>) = Inr d1"
    "update_refresh_run (env_dialect en) (validated_run en db request run) (commit_result en db request run) d1 =
       Inr (d1\<lparr>refresh_runs := put_row run_id (commit_result en db request run) (refresh_runs d1)\<rparr>)"
    "activate_config en config
       (d1\<lparr>refresh_runs := put_row run_id (commit_result en db request run) (refresh_runs d1)\<rparr>) = Inr d2"
    "advance_sync en config (commit_result en db request run) (get_sync_state db) d2 = Inr d3"
    "db' = reload_categories (env_dialect en) (delete_staged rid d3)"
    "v = run_view_of en (commit_result en db request run)"
proof -
  have rid: "run_id run = rid" using r by (auto dest: get_row_SomeD)
  from assms obtain config e1 e2 e3 e4 e5 where
    "run_state run = UPLOADED \<or> run_state run = CREATED \<and> cq_expected_batch_count request = 0"
    "check_target db run = Inr config" "check_complete db run request = Inr ()" "check_current db run = Inr ()"
    and u1: "update_refresh_run (env_dialect en) run (validated_run en db request run) db = Inr e1"
    and p: "publish en (validated_run en db request run) e1 = Inr e2"
    and u2: "update_refresh_run (env_dialect en) (validated_run en db request run)
        (committed_run en (validated_run en db request run)) e2 = Inr e3"
    and a: "activate_config en config e3 = Inr e4"
    and s: "advance_sync en config (committed_run en (validated_run en db request run)) (get_sync_state db) e4 = Inr e5"
    and d: "db' = reload_categories (env_dialect en) (delete_staged rid e5)"
    and v: "v = run_view_of en (committed_run en (validated_run en db request run))"
    by (auto simp: commit_refresh_def commit_run_def Let_def result_simps rid)
  moreover note update_refresh_run_InrD(1) [OF u1] update_refresh_run_InrD(1) [OF u2]
  ultimately show thesis by (intro that [of config e2 e4 e5]) (auto simp: commit_result_def)
qed

end
