(* ===== verification/RefreshInvariant.thy ===== *)
theory RefreshInvariant
  imports RefreshOutcome
begin

text \<open>
  The invariant of the refresh tables. Every run's counters agree with its batches and its
  staged rows; a committed run has all its batches and nothing staged; the sync revision is the
  number of committed runs; every live transaction was classified under the configuration of
  the last commit, which is the active one, and has a category.
\<close>

section \<open>The invariant\<close>

definition batches_of :: "db \<Rightarrow> uuid \<Rightarrow> refresh_batch list" where
  "batches_of db rid = filter (\<lambda>b. rb_run_id b = rid) (refresh_batches db)"

definition run_ok :: "db \<Rightarrow> refresh_run \<Rightarrow> bool" where
  "run_ok db r \<longleftrightarrow>
     run_state r \<in> {CREATED, UPLOADED, COMMITTED} \<and>
     run_source_from_date r \<noteq> None \<and> run_source_to_date r \<noteq> None \<and>
     run_received_batch_count r = int (length (batches_of db (run_id r))) \<and>
     run_actual_item_count r = sum_list (map rb_item_count (batches_of db (run_id r))) \<and>
     (run_state r = CREATED \<longleftrightarrow> batches_of db (run_id r) = [] \<and> run_state r \<noteq> COMMITTED) \<and>
     (run_state r \<noteq> COMMITTED \<longrightarrow> int (length (staged_of_run db (run_id r))) = run_actual_item_count r) \<and>
     (run_state r = COMMITTED \<longrightarrow> staged_of_run db (run_id r) = [] \<and>
        run_expected_batch_count r = Some (run_received_batch_count r) \<and>
        map rb_batch_index (run_batches db (run_id r)) = [0..run_received_batch_count r - 1] \<and>
        run_completed_accounts r = Some (sort (run_expected_accounts r)))"

definition committed_runs :: "db \<Rightarrow> refresh_run list" where
  "committed_runs db = filter (\<lambda>r. run_state r = COMMITTED) (refresh_runs db)"

definition live_ok :: "db \<Rightarrow> sync_state \<Rightarrow> transaction \<Rightarrow> bool" where
  "live_ok db s t \<longleftrightarrow> tx_config_version_id t = ss_config_version_id s \<and>
     tx_key t \<in> tc_tx_key ` set (transaction_categories db)"

definition sync_ok :: "db \<Rightarrow> bool" where
  "sync_ok db \<longleftrightarrow> (case get_sync_state db of
     None \<Rightarrow> transactions db = [] \<and> committed_runs db = []
   | Some s \<Rightarrow> ss_revision s = int (length (committed_runs db)) \<and>
       ss_last_refresh_run_id s \<in> run_id ` set (committed_runs db) \<and>
       (\<exists>a. active_version db = Some a \<and> cv_id a = ss_config_version_id s) \<and>
       (\<forall>t \<in> set (transactions db). live_ok db s t))"

definition refresh_inv :: "db \<Rightarrow> bool" where
  "refresh_inv db \<longleftrightarrow> (\<forall>r \<in> set (refresh_runs db). run_ok db r) \<and> sync_ok db"

lemma refresh_inv_empty: "refresh_inv empty_db"
  by (simp add: refresh_inv_def sync_ok_def empty_db_def get_sync_state_def get_row_def committed_runs_def)

lemma run_batches_sorted: "run_batches db rid = sort_key rb_batch_index (batches_of db rid)"
  by (simp add: run_batches_def batches_of_def)

lemma run_batches_totals:
  "length (run_batches db rid) = length (batches_of db rid)"
  "sum_list (map rb_item_count (run_batches db rid)) = sum_list (map rb_item_count (batches_of db rid))"
proof -
  show "length (run_batches db rid) = length (batches_of db rid)" by (simp add: run_batches_sorted)
  have "mset (map rb_item_count (run_batches db rid)) = mset (map rb_item_count (batches_of db rid))"
    by (simp add: run_batches_sorted)
  then show "sum_list (map rb_item_count (run_batches db rid)) = sum_list (map rb_item_count (batches_of db rid))"
    by (metis sum_mset_sum_list)
qed

lemma sync_ok_cong:
  assumes "get_sync_state db' = get_sync_state db" and "committed_runs db' = committed_runs db"
    and "active_version db' = active_version db" and "transactions db' = transactions db"
    and "transaction_categories db' = transaction_categories db"
  shows "sync_ok db' = sync_ok db"
proof -
  have "live_ok db' = live_ok db" by (rule ext)+ (simp add: live_ok_def assms(5))
  then show ?thesis by (simp add: sync_ok_def assms(1-4) cong: option.case_cong)
qed

section \<open>What a request leaves unchanged\<close>

definition same_refresh :: "db \<Rightarrow> db \<Rightarrow> bool" where
  "same_refresh db db' \<longleftrightarrow> refresh_runs db' = refresh_runs db \<and> refresh_batches db' = refresh_batches db \<and>
     staged_transactions db' = staged_transactions db \<and>
     staged_transaction_categories db' = staged_transaction_categories db \<and>
     transactions db' = transactions db \<and> transaction_categories db' = transaction_categories db \<and>
     sync_states db' = sync_states db"

lemma run_ok_cong:
  assumes "refresh_batches db' = refresh_batches db" and "staged_transactions db' = staged_transactions db"
  shows "run_ok db' r = run_ok db r"
  by (simp add: run_ok_def batches_of_def run_batches_def staged_of_run_def assms)

lemma refresh_inv_same:
  assumes s: "same_refresh db db'" and I: "refresh_inv db"
    and a: "\<And>a. active_version db = Some a \<Longrightarrow> \<exists>b. active_version db' = Some b \<and> cv_id b = cv_id a"
  shows "refresh_inv db'"
proof -
  have "run_ok db' r = run_ok db r" for r using s by (intro run_ok_cong) (simp_all add: same_refresh_def)
  moreover have "get_sync_state db' = get_sync_state db" "committed_runs db' = committed_runs db"
    using s by (simp_all add: same_refresh_def get_sync_state_def committed_runs_def)
  moreover have "live_ok db' st t = live_ok db st t" for st t using s by (simp add: live_ok_def same_refresh_def)
  ultimately show ?thesis
    using s I a by (auto simp: refresh_inv_def sync_ok_def same_refresh_def split: option.splits)
qed

lemma same_refresh_reload: "same_refresh db (reload_categories dia db)"
  by (simp add: same_refresh_def reload_categories_def)

lemma same_refresh_trans: "same_refresh a b \<Longrightarrow> same_refresh b c \<Longrightarrow> same_refresh a c"
  by (simp add: same_refresh_def)

lemma active_after_put:
  assumes "active_version db = Some a" and "filter (\<lambda>c. cv_status c = ACTIVE) (config_versions db')
      = filter (\<lambda>c. cv_status c = ACTIVE) (config_versions db)"
  shows "active_version db' = Some a"
  using assms by (simp add: active_version_def)

lemma filter_retire:
  "filter (\<lambda>c. cv_status c = ACTIVE) (retire_pending en cs) = filter (\<lambda>c. cv_status c = ACTIVE) cs"
  by (induction cs) (auto simp: retire_pending_def supersede_def)

lemma edit_active_frame:
  assumes "edit_active en request a (pending_version db) db = Inr db'" and "config_inv (env_sha256 en) db"
    and "config_request_wf request"
  shows "same_refresh db db' \<and> active_version db' = active_version db"
proof -
  have "db' = db\<lparr>config_versions := retire_pending en (config_versions db),
                 categories := present_all (cr_categories request) (categories db)\<rparr>"
    by (rule edit_active_spec [OF assms(1)]) (use assms(2) config_request_wfD(3) [OF assms(3)] in \<open>simp_all add: config_inv_def\<close>)
  then show ?thesis by (simp add: same_refresh_def active_version_def filter_retire)
qed

lemma create_version_frame:
  assumes c: "create_version en request (dict_of (map (\<lambda>c. (ci_key c, rule_hash en c)) (cr_categories request)))
       h (active_version db) (pending_version db) db = Inr db'"
    and I: "config_inv (env_sha256 en) db" and wf: "config_request_wf request"
  shows "same_refresh db db' \<and> (active_version db \<noteq> None \<longrightarrow> active_version db' = active_version db)"
proof -
  obtain d existing selected db2 cv where
    s: "selection_inv en db (cr_categories request) (d, existing, selected)" and
    db2: "db2 = d\<lparr>config_versions := retire_pending en (config_versions db) @ [cv]\<rparr>" and
    cv: "cv = new_config en request h (active_version db = None)
            (d\<lparr>config_versions := retire_pending en (config_versions db)\<rparr>)" and
    IL: "integrity (db2\<lparr>config_version_rules := config_version_rules db @ map (new_link (cv_id cv) existing) selected\<rparr>)" and
    fin: "(if active_version db = None then apply_config_presentation cv
        (db2\<lparr>config_version_rules := config_version_rules db @ map (new_link (cv_id cv) existing) selected\<rparr>)
      else Inr (db2\<lparr>config_version_rules := config_version_rules db @ map (new_link (cv_id cv) existing) selected\<rparr>))
      = Inr db'"
    by (rule create_version_spec [OF c I wf refl])
  let ?L = "db2\<lparr>config_version_rules := config_version_rules db @ map (new_link (cv_id cv) existing) selected\<rparr>"
  have L: "same_refresh db ?L"
    using s by (auto simp: selection_inv_def grown_def same_refresh_def db2)
  show ?thesis
  proof (cases "active_version db")
    case None
    with fin have "apply_config_presentation cv ?L = Inr db'" by simp
    then obtain sn where "config_request_wf sn" "db' = ?L\<lparr>categories := present_all (cr_categories sn) (categories ?L)\<rparr>"
      by (rule apply_config_presentation_spec [OF _ IL])
    with L None show ?thesis by (simp add: same_refresh_def)
  next
    case (Some a)
    with fin have e: "db' = ?L" by simp
    have "cv_status cv = PENDING" by (simp add: cv new_config_def Some)
    then have "active_version ?L = active_version db" by (simp add: active_version_def filter_retire db2)
    with L show ?thesis by (simp add: e)
  qed
qed

lemma put_frame:
  assumes "put_config_impl en request if_match checked expected db = Inr (view, db')"
    and I: "config_inv (env_sha256 en) db" and wf: "config_request_wf request"
  shows "same_refresh db db' \<and> (active_version db \<noteq> None \<longrightarrow> active_version db' = active_version db)"
proof -
  obtain d where db': "db' = reload_categories (env_dialect en) d" and
    "d = db \<or> (\<exists>a. active_version db = Some a \<and> edit_active en request a (pending_version db) db = Inr d) \<or>
     create_version en request (dict_of (map (\<lambda>c. (ci_key c, rule_hash en c)) (cr_categories request)))
       (config_hash en request (dict_of (map (\<lambda>c. (ci_key c, rule_hash en c)) (cr_categories request))))
       (active_version db) (pending_version db) db = Inr d"
    by (rule put_config_impl_InrD [OF assms(1)])
  then have "same_refresh db d \<and> (active_version db \<noteq> None \<longrightarrow> active_version d = active_version db)"
    using edit_active_frame [OF _ I wf] create_version_frame [OF _ I wf] by (auto simp: same_refresh_def)
  moreover have "active_version db' = active_version d"
    by (simp add: db' active_version_def reload_categories_def)
  ultimately show ?thesis using same_refresh_trans [OF _ same_refresh_reload] by (simp add: db')
qed

lemma refresh_inv_put:
  assumes "put_config_impl en request if_match checked expected db = Inr (view, db')"
    and "config_inv (env_sha256 en) db" and "config_request_wf request" and "refresh_inv db"
  shows "refresh_inv db'"
proof -
  note F = put_frame [OF assms(1-3)]
  show ?thesis by (rule refresh_inv_same [OF conjunct1 [OF F] assms(4)]) (use conjunct2 [OF F] in simp)
qed

end
