(* ===== verification/RefreshSystem.thy ===== *)
theory RefreshSystem
  imports RefreshInvariant
begin

text \<open>
  The system: the requests that change the budget database, one at a time, and what every
  history of them keeps (\<open>config_inv\<close>, \<open>refresh_inv\<close>).
\<close>

section \<open>Integrity\<close>

lemma config_inv_frame:
  assumes "config_inv H db" and "integrity db'" and "categories db' = categories db"
    and "rule_versions db' = rule_versions db" and "config_versions db' = config_versions db"
    and "config_version_rules db' = config_version_rules db"
  shows "config_inv H db'"
proof -
  have "version_inv H db' v = version_inv H db v" for v by (rule version_inv_cong) (simp_all add: assms)
  then show ?thesis using assms(1,2) by (simp add: config_inv_def status_inv_def rules_inv_def assms(3-6))
qed

lemma integrity_stage_category:
  "stage_category run allowed item d key = Inr d' \<Longrightarrow> integrity d \<Longrightarrow> integrity d'"
  by (auto simp: stage_category_def result_simps split_beta intro: integrity_insert_staged_category)

lemma integrity_stage_item:
  assumes "stage_item en run idx allowed d item = Inr d'" and "integrity d"
  shows "integrity d'"
proof -
  from assms(1) obtain a r e where "insert_staged_transaction (staged_row en run idx item a r) d = Inr e"
    and l: "for_each (stage_category run allowed item) e (tu_categories item) = Inr d'"
    by (auto simp: stage_item_def result_simps)
  with assms(2) have "integrity e" by (blast intro: integrity_insert_staged_transaction)
  with l show ?thesis by (rule for_each_inv) (rule integrity_stage_category)
qed

lemma integrity_store_batch:
  assumes "store_batch en run batch items db = Inr db'" and "integrity db" and "run \<in> set (refresh_runs db)"
  shows "integrity db'"
proof -
  from assms(1) obtain d1 d2 where b: "insert_refresh_batch batch db = Inr d1"
    and s: "for_each (stage_item en run (rb_batch_index batch) (allowed_categories db (run_config_version_id run)))
      d1 items = Inr d2"
    and u: "update_refresh_run (env_dialect en) run (uploaded_run en batch run) d2 = Inr db'"
    by (auto simp: store_batch_def Let_def result_simps)
  have "integrity d1" using b assms(2) by (blast intro: integrity_insert_refresh_batch)
  with s have "integrity d2" by (rule for_each_inv) (rule integrity_stage_item)
  moreover have "run \<in> set (refresh_runs d2)"
    using assms(3) insert_refresh_batch_InrD(1) [OF b] stage_loop [OF s] by simp
  ultimately show ?thesis using u integrity_update_refresh_run by blast
qed

lemma integrity_publish:
  assumes "publish en run db = Inr db'" and "integrity db"
  shows "integrity db'"
proof -
  from assms(1) obtain targets d where
    m: "(if run_mode run = FULL then replace_all_transactions en run targets db
       else merge_incremental en run targets db) = Inr d"
    and p: "prune_outside_windows run d = Inr db'"
    by (auto simp: publish_def result_simps)
  have "integrity d" by (rule integrity_stored [OF m assms(2)])
  moreover have "integrity d'" if "for_each (prune_category to_date) d rules = Inr d'" "integrity d" for to_date rules d'
    using that by (rule for_each_inv)
      (auto simp: prune_category_def result_simps split: prod.splits intro!: integrity_delete_transaction_categories)
  ultimately show ?thesis
    using p by (auto simp: prune_outside_windows_def result_simps split: option.splits intro!: integrity_delete_transactions)
qed

section \<open>Starting a run\<close>

lemma fresh_run_empty:
  assumes "integrity db" and "rid \<notin> run_id ` set (refresh_runs db)"
  shows "batches_of db rid = [] \<and> staged_of_run db rid = []"
proof -
  have "rb_run_id ` set (refresh_batches db) \<subseteq> run_id ` set (refresh_runs db)"
    and s: "(\<lambda>s. (st_run_id s, st_config_version_id s)) ` set (staged_transactions db)
       \<subseteq> run_config ` set (refresh_runs db)"
    using assms(1) by (simp_all add: integrity_def refresh_refs_def)
  then have "\<forall>b \<in> set (refresh_batches db). rb_run_id b \<noteq> rid" using assms(2) by blast
  moreover have "st_run_id x \<noteq> rid" if "x \<in> set (staged_transactions db)" for x
  proof -
    have "(st_run_id x, st_config_version_id x) \<in> run_config ` set (refresh_runs db)" using s that by blast
    then show ?thesis using assms(2) by (auto simp: run_config_def)
  qed
  ultimately show ?thesis by (simp add: batches_of_def staged_of_run_def filter_empty_conv)
qed

lemma run_ok_local:
  assumes "batches_of db' (run_id r) = batches_of db (run_id r)"
    and "staged_of_run db' (run_id r) = staged_of_run db (run_id r)"
  shows "run_ok db' r = run_ok db r"
  by (simp add: run_ok_def run_batches_sorted assms)

lemma begin_keeps:
  assumes b: "begin_refresh en request key n m db = Inr (v, db')"
    and C: "config_inv H db" and R: "refresh_inv db"
  shows "config_inv H db' \<and> refresh_inv db'"
proof (cases "get_row run_idempotency_key key (refresh_runs db)")
  case (Some e)
  with b have "db' = db" by (auto simp: begin_refresh_def replay_begin_def result_simps Let_def)
  with C R show ?thesis by simp
next
  case None
  let ?run = "\<lambda>target. new_run en request key (sha256_hex (env_sha256 en) (begin_json request)) target (get_sync_state db)"
  obtain target where i: "insert_refresh_run (?run target) db = Inr db'"
    by (rule begin_new_InrD [OF b None]) blast
  note I = insert_refresh_run_InrD [OF i]
  have g: "integrity db" using C by (simp add: config_inv_def)
  have g': "integrity db'" by (rule integrity_insert_refresh_run [OF g i])
  have "config_inv H db'" by (rule config_inv_frame [OF C g']) (simp_all add: I(1))
  moreover have "refresh_inv db'"
  proof -
    have old: "run_ok db' r" if "r \<in> set (refresh_runs db)" for r
      using R that run_ok_cong [of db' db r] by (simp add: refresh_inv_def I(1))
    have "batches_of db (env_uuid en NewRun) = [] \<and> staged_of_run db (env_uuid en NewRun) = []"
      by (rule fresh_run_empty [OF g]) (use I(2) in simp)
    then have "run_ok db' (?run target)"
      by (simp add: run_ok_def I(1) batches_of_def staged_of_run_def) (simp add: new_run_def)
    moreover have "sync_ok db' = sync_ok db"
      by (rule sync_ok_cong) (simp_all add: I(1) get_sync_state_def committed_runs_def active_version_def new_run_simps)
    ultimately show ?thesis using old R by (auto simp: refresh_inv_def I(1))
  qed
  ultimately show ?thesis by simp
qed

section \<open>Uploading a batch\<close>

lemma filter_put_row_neg:
  "\<forall>x \<in> set rows. key x = key r \<longrightarrow> \<not> p x \<Longrightarrow> \<not> p r \<Longrightarrow> filter p (put_row key r rows) = filter p rows"
  by (induction rows) (auto simp: put_row_def)

lemma upload_keeps:
  assumes u: "upload_batch en rid idx request n m db = Inr (v, db')"
    and C: "config_inv H db" and R: "refresh_inv db"
  shows "config_inv H db' \<and> refresh_inv db'"
proof (cases "get_row rb_key (rid, idx) (refresh_batches db)")
  case (Some e)
  with u have "db' = db" by (auto simp: upload_batch_def result_simps Let_def split: if_splits)
  with C R show ?thesis by simp
next
  case None
  obtain run where r: "get_row run_id rid (refresh_runs db) = Some run"
    and s: "store_batch en run (batch_of en rid idx request) (bq_transactions request) db = Inr db'"
    by (rule upload_new_InrD [OF u None]) blast
  let ?b = "batch_of en rid idx request" and ?items = "bq_transactions request"
  let ?u = "uploaded_run en ?b run"
  note run = get_row_SomeD [OF r]
  have g: "integrity db" using C by (simp add: config_inv_def)
  have g': "integrity db'" by (rule integrity_store_batch [OF s g]) (use run in simp)
  obtain allowed where state: "run_state run \<in> {CREATED, UPLOADED}"
    and dates: "run_source_from_date run \<noteq> None" "run_source_to_date run \<noteq> None"
    and d: "db' = db\<lparr>refresh_batches := refresh_batches db @ [?b],
       staged_transactions := staged_transactions db @ map (staged_of_item en run (rb_batch_index ?b)) ?items,
       staged_transaction_categories := staged_transaction_categories db @ concat (map (links_of_item run allowed) ?items),
       refresh_runs := put_row run_id ?u (refresh_runs db)\<rparr>"
    by (rule store_batch_InrD [OF s]) blast
  have "config_inv H db'" by (rule config_inv_frame [OF C g']) (simp_all add: d)
  moreover have "refresh_inv db'"
  proof -
    have uid: "run_id ?u = rid" using run by (simp add: uploaded_run_def)
    have st_id: "st_run_id (staged_of_item en run i x) = rid" for i x
      using run by (simp add: staged_of_item_def staged_row_def)
    have b_id: "rb_run_id ?b = rid" "rb_item_count ?b = int (length ?items)" by (simp_all add: batch_of_def)
    have here: "batches_of db' rid = batches_of db rid @ [?b]"
      "staged_of_run db' rid = staged_of_run db rid @ map (staged_of_item en run (rb_batch_index ?b)) ?items"
      by (simp_all add: batches_of_def staged_of_run_def d b_id st_id filter_id_conv)
    have other: "batches_of db' i = batches_of db i" "staged_of_run db' i = staged_of_run db i" if "i \<noteq> rid" for i
      using that by (simp_all add: batches_of_def staged_of_run_def d b_id st_id filter_empty_conv)
    have ok: "run_ok db run" using R run by (simp add: refresh_inv_def)
    have "run_ok db' ?u"
      using ok state run unfolding run_ok_def uid here
      by (auto simp: uploaded_run_def b_id)
    moreover have "run_ok db' x" if "x \<in> set (refresh_runs db)" "run_id x \<noteq> rid" for x
      using R that other [OF that(2)] run_ok_local [of db' x db] by (simp add: refresh_inv_def)
    ultimately have runs: "\<forall>x \<in> set (refresh_runs db'). run_ok db' x"
      using uid by (auto simp: d dest!: in_put_rowD)
    have "\<forall>x \<in> set (refresh_runs db). run_id x = run_id ?u \<longrightarrow> run_state x \<noteq> COMMITTED"
    proof (intro ballI impI)
      fix x assume "x \<in> set (refresh_runs db)" "run_id x = run_id ?u"
      then have "x = run" using inj_onD [OF integrity_inj(7) [OF g], of x run] run uid by simp
      with state show "run_state x \<noteq> COMMITTED" by auto
    qed
    moreover have "run_state ?u \<noteq> COMMITTED" by (simp add: uploaded_run_def)
    ultimately have "committed_runs db' = committed_runs db"
      by (simp add: committed_runs_def d filter_put_row_neg)
    then have "sync_ok db' = sync_ok db"
      by (intro sync_ok_cong) (simp_all add: d get_sync_state_def active_version_def)
    with runs R show ?thesis by (simp add: refresh_inv_def)
  qed
  ultimately show ?thesis by simp
qed

end
