(* ===== verification/RefreshCommitted.thy ===== *)
theory RefreshCommitted
  imports RefreshSystem
begin

text \<open>
  A commit keeps \<open>config_inv\<close> and \<open>refresh_inv\<close>: publication leaves live rows of one
  configuration, each with a category; activation makes that configuration the only active
  one; the sync revision counts one more committed run.
\<close>

section \<open>Activation\<close>

definition activate_row :: "env \<Rightarrow> config_version \<Rightarrow> config_version \<Rightarrow> config_version" where
  "activate_row en config c = (if c = config then activated en config
     else if cv_status c = ACTIVE then supersede en c else c)"

lemma stamped_ids: "cv_id (activated en c) = cv_id c" "cv_id (supersede en c) = cv_id c"
  by (simp_all add: activated_def supersede_def)

lemma activate_list_spec:
  assumes s: "status_inv db" and d: "distinct (map cv_id (config_versions db))"
    and c: "config \<in> set (config_versions db)" "cv_status config = PENDING"
  shows "activate_list en config (active_version db) (config_versions db)
    = map (activate_row en config) (config_versions db)"
proof -
  from s c have "active_version db \<noteq> None" by (auto simp: status_inv_def active_version_None)
  then obtain a where a: "active_version db = Some a" by blast
  then have A: "a \<in> set (config_versions db)" "cv_status a = ACTIVE" by (auto dest: active_version_SomeD)
  have only: "x = a" if "x \<in> set (config_versions db)" "cv_status x = ACTIVE" for x
    using s A that unfolding status_inv_def by blast
  have id: "x = y" if "x \<in> set (config_versions db)" "y \<in> set (config_versions db)" "cv_id x = cv_id y" for x y
    using d that by (auto simp: distinct_map dest: inj_onD)
  have "a \<noteq> config" using A c by auto
  then have ne: "cv_id a \<noteq> cv_id config" using id A c by blast
  have "(if cv_id (if cv_id x = cv_id a then supersede en a else x) = cv_id config then activated en config
      else if cv_id x = cv_id a then supersede en a else x) = activate_row en config x"
    if x: "x \<in> set (config_versions db)" for x
  proof -
    consider "x = config" | "x = a" | "cv_id x \<noteq> cv_id a" "cv_id x \<noteq> cv_id config" "x \<noteq> config" "x \<noteq> a"
      using id [OF x A(1)] id [OF x c(1)] by blast
    then show ?thesis
    proof cases
      case 3
      then have "cv_status x \<noteq> ACTIVE" using only [OF x] by blast
      with 3 show ?thesis by (simp add: activate_row_def)
    qed (use A \<open>a \<noteq> config\<close> ne in \<open>simp_all add: activate_row_def supersede_def\<close>)
  qed
  then have "map (\<lambda>x. if cv_id (if cv_id x = cv_id a then supersede en a else x) = cv_id config then activated en config
      else if cv_id x = cv_id a then supersede en a else x) (config_versions db)
    = map (activate_row en config) (config_versions db)"
    by (intro map_cong) simp_all
  then show ?thesis by (simp add: activate_list_def a ne put_row_def comp_def stamped_ids)
qed

lemma activate_row_simps [simp]:
  "cv_id (activate_row en config c) = cv_id c" "cv_version (activate_row en config c) = cv_version c"
  "version_inv H db (activate_row en config c) = version_inv H db c"
  by (simp_all add: activate_row_def activated_def supersede_def version_inv_def)

lemma activate_list_inv:
  assumes I: "config_inv H db" and c: "config \<in> set (config_versions db)" "cv_status config = PENDING"
  shows "config_inv H (db\<lparr>config_versions := activate_list en config (active_version db) (config_versions db)\<rparr>)"
proof -
  let ?cs = "map (activate_row en config) (config_versions db)"
  have g: "integrity db" "status_inv db" using I by (simp_all add: config_inv_def)
  note e = activate_list_spec [OF g(2) integrity_distinct(3) [OF g(1)] c, of en]
  have v: "version_inv H (db\<lparr>config_versions := ?cs\<rparr>) v = version_inv H db v" for v
    by (rule version_inv_cong) simp_all
  have pend: "x = config" if "x \<in> set (config_versions db)" "cv_status x = PENDING" for x
    using g(2) c that unfolding status_inv_def by blast
  have act: "x = activated en config" if "x \<in> set ?cs" "cv_status x = ACTIVE" for x
    using that by (auto simp: activate_row_def activated_def supersede_def split: if_splits)
  have "cv_status x \<noteq> PENDING" if "x \<in> set ?cs" for x
    using that pend by (auto simp: activate_row_def activated_def supersede_def split: if_splits)
  moreover have "activated en config \<in> set ?cs" "cv_status (activated en config) = ACTIVE"
    using c by (auto simp: activate_row_def activated_def image_iff intro!: bexI [of _ config])
  ultimately have "status_inv (db\<lparr>config_versions := ?cs\<rparr>)"
    using act by (auto simp: status_inv_def simp del: set_map)
  with I show ?thesis
    unfolding e by (simp add: config_inv_def v rules_inv_def integrity_configs comp_def)
qed

lemma activate_after:
  assumes I: "config_inv H db" and c: "config \<in> set (config_versions db)" "cv_status config = PENDING"
  shows "first_of (filter (\<lambda>c. cv_status c = ACTIVE) (activate_list en config (active_version db) (config_versions db)))
    = Some (activated en config)"
proof -
  have g: "integrity db" "status_inv db" using I by (simp_all add: config_inv_def)
  have "filter (\<lambda>c. cv_status c = ACTIVE) (map (activate_row en config) cs) =
      map (\<lambda>_. activated en config) (filter (\<lambda>x. x = config) cs)" for cs
    by (induction cs) (auto simp: activate_row_def activated_def supersede_def)
  moreover have "filter (\<lambda>x. x = config) (config_versions db) \<noteq> []" using c by (auto simp: filter_empty_conv)
  ultimately show ?thesis
    unfolding activate_list_spec [OF g(2) integrity_distinct(3) [OF g(1)] c]
    by (cases "filter (\<lambda>x. x = config) (config_versions db)") (auto simp: first_of_def)
qed

section \<open>What a commit leaves\<close>

definition next_sync :: "env \<Rightarrow> config_version \<Rightarrow> uuid \<Rightarrow> sync_state option \<Rightarrow> sync_state" where
  "next_sync en config rid sync = (case sync of
     None \<Rightarrow> \<lparr>ss_id = 1, ss_config_version_id = cv_id config, ss_last_refresh_run_id = rid,
       ss_revision = 1, ss_updated_at = server_now en\<rparr>
   | Some s \<Rightarrow> s\<lparr>ss_config_version_id := cv_id config, ss_last_refresh_run_id := rid,
       ss_revision := ss_revision s + 1, ss_updated_at := env_now en\<rparr>)"

lemma put_row_put_row: "key r = key r' \<Longrightarrow> put_row key r' (put_row key r rows) = put_row key r' rows"
  by (simp add: put_row_def)

lemma advance_sync_InrD:
  assumes a: "advance_sync en config run sync db = Inr db'" and s: "sync = get_sync_state db" and g: "integrity db"
  shows "integrity db' \<and> get_sync_state db' = Some (next_sync en config (run_id run) sync) \<and>
    (\<exists>ss. db' = db\<lparr>sync_states := ss\<rparr>)"
proof (cases sync)
  case None
  with a have i: "insert_sync_state (next_sync en config (run_id run) None) db = Inr db'"
    by (simp add: advance_sync_def next_sync_def)
  note D = insert_sync_state_InrD [OF i]
  show ?thesis using D integrity_insert_sync_state [OF g i] None s
    by (auto simp: get_sync_state_def get_row_append)
next
  case (Some x)
  with a have u: "update_sync_state (next_sync en config (run_id run) sync) db = Inr db'"
    by (simp add: advance_sync_def next_sync_def)
  note D = update_sync_state_InrD [OF u]
  have "1 \<in> ss_id ` set (sync_states db)"
    using Some s get_row_None [of ss_id 1 "sync_states db"] by (auto simp: get_sync_state_def)
  with D show ?thesis using integrity_update_sync_state [OF g u]
    by (auto simp: get_sync_state_def get_row_put_row)
qed

lemma activate_keeps:
  assumes a: "activate_config en config db = Inr db'" and I: "config_inv H db"
    and c: "config \<in> set (config_versions db)" "cv_status config \<noteq> SUPERSEDED"
  shows "config_inv H db' \<and> (\<exists>v. active_version db' = Some v \<and> cv_id v = cv_id config) \<and>
    (\<exists>cs. db' = db\<lparr>categories := cs, config_versions := config_versions db'\<rparr>) \<and>
    config_versions db' = (if cv_status config = PENDING then map (activate_row en config) (config_versions db)
      else config_versions db)"
proof -
  have g: "integrity db" using I by (simp add: config_inv_def)
  from activate_InrD [OF a g] show ?thesis
  proof (elim disjE conjE exE)
    assume n: "cv_status config \<noteq> PENDING" and e: "db' = db"
    then have "cv_status config = ACTIVE" using c(2) by (cases "cv_status config") auto
    then obtain v where v: "active_version db = Some v" using c(1) active_version_None by (cases "active_version db") auto
    then have "v \<in> set (config_versions db)" "cv_status v = ACTIVE" by (auto dest: active_version_SomeD)
    then have "v = config" using I c(1) \<open>cv_status config = ACTIVE\<close> by (auto simp: config_inv_def status_inv_def)
    moreover have "\<exists>cs. db' = db\<lparr>categories := cs, config_versions := config_versions db'\<rparr>"
      by (intro exI [of _ "categories db"]) (simp add: e)
    ultimately show ?thesis using I v n by (simp add: e)
  next
    fix sn assume p: "cv_status config = PENDING" and sn: "config_request_wf sn"
      and e: "db' = db\<lparr>categories := present_all (cr_categories sn) (categories db),
         config_versions := activate_list en config (active_version db) (config_versions db)\<rparr>"
    let ?d = "db\<lparr>config_versions := activate_list en config (active_version db) (config_versions db)\<rparr>"
    have "config_inv H ?d" by (rule activate_list_inv [OF I c(1) p])
    moreover have "\<forall>i \<in> set (cr_categories sn). item_wf i"
      using config_request_wfD(1,2) [OF sn] by (simp add: item_wf_def)
    ultimately have "config_inv H (?d\<lparr>categories := present_all (cr_categories sn) (categories ?d)\<rparr>)"
      by (rule config_inv_present)
    moreover have "db' = ?d\<lparr>categories := present_all (cr_categories sn) (categories ?d)\<rparr>"
      by (rule db.equality) (simp_all add: e)
    ultimately have "config_inv H db'" by simp
    moreover have "active_version db' = Some (activated en config)"
      using activate_after [OF I c(1) p, of en] by (simp add: active_version_def e)
    moreover have "config_versions db' = map (activate_row en config) (config_versions db)"
      using I activate_list_spec [OF _ integrity_distinct(3) [OF g] c(1) p] by (simp add: e config_inv_def)
    moreover have "\<exists>cs. db' = db\<lparr>categories := cs, config_versions := config_versions db'\<rparr>"
      by (intro exI [of _ "categories db'"]) (simp add: e)
    ultimately show ?thesis using p by (simp add: stamped_ids)
  qed
qed

lemma tx_at_prune:
  "tx_at (prune_spec d rules to_date) k = (if list_ex (\<lambda>c. tc_tx_key c = k) (filter (kept_link d rules to_date)
     (transaction_categories d)) then tx_at d k else None)"
proof -
  have "get_row tx_key k (filter (\<lambda>t. p (tx_key t)) ts) = (if p k then get_row tx_key k ts else None)"
    for p and ts :: "transaction list"
    by (induction ts) (auto simp: get_row_def)
  from this [of "\<lambda>x. list_ex (\<lambda>c. tc_tx_key c = x) (filter (kept_link d rules to_date) (transaction_categories d))"]
  show ?thesis by (simp add: tx_at_def prune_spec_def Let_def)
qed

lemma live_row_config [simp]: "tx_config_version_id (live_row en run s e) = run_config_version_id run"
  by (simp add: live_row_def)

lemma published_rows:
  assumes p: "publish en run db = Inr db'" and I: "integrity db" and w: "run_source_to_date run = Some to_date"
    and t: "t \<in> set (transactions db')"
  shows "tx_key t \<in> tc_tx_key ` set (transaction_categories db') \<and>
    (tx_config_version_id t = run_config_version_id run \<or> run_mode run = INCREMENTAL \<and> t \<in> set (transactions db))"
proof (rule publish_InrD [OF p I w], goal_cases)
  case (1 d)
  have "tx_at db' (tx_key t) = Some t"
    unfolding tx_at_def by (rule get_row_distinct [OF integrity_distinct(9) [OF integrity_publish [OF p I]] t])
  with 1(2) have d: "tx_at d (tx_key t) = Some t"
    and l: "list_ex (\<lambda>c. tc_tx_key c = tx_key t) (filter (kept_link d (rules_for_config db (run_config_version_id run)) to_date)
     (transaction_categories d))" by (auto simp: tx_at_prune split: if_splits)
  from l 1(2) have "list_ex (\<lambda>c. tc_tx_key c = tx_key t) (transaction_categories db')"
    by (simp add: prune_spec_def Let_def)
  then have "tx_key t \<in> tc_tx_key ` set (transaction_categories db')"
    by (auto simp: list_ex_iff intro: rev_image_eqI)
  moreover have "tx_config_version_id t = run_config_version_id run \<or> run_mode run = INCREMENTAL \<and> t \<in> set (transactions db)"
  proof (cases "run_mode run")
    case FULL
    then have "t \<in> set (transactions (full_spec en run db (run_published db run)))"
      using 1(5) d by (auto simp: tx_at_def dest: get_row_SomeD)
    then show ?thesis by (auto simp: full_spec_def)
  next
    case INCREMENTAL
    then have "merged_tx en run db (run_published db run) (tx_key t) = Some t"
      using spec [OF mp [OF 1(6) INCREMENTAL], of "tx_key t"] d by (simp del: split_paired_All)
    then show ?thesis using INCREMENTAL
      by (auto simp: merged_tx_def tx_at_def live_row_def split: option.splits if_splits dest: get_row_SomeD)
  qed
  ultimately show ?case by blast
qed

text \<open>Every table after a commit that is no replay.\<close>

lemma commit_shape:
  assumes c: "commit_refresh en rid request db = Inr (v, db')"
    and r: "get_row run_id rid (refresh_runs db) = Some run" "run_state run \<noteq> COMMITTED"
    and I: "config_inv (env_sha256 en) db" and w: "run_source_to_date run = Some to_date"
  obtains config d where
    "run_state run = UPLOADED \<or> run_state run = CREATED \<and> cq_expected_batch_count request = 0"
    "check_target db run = Inr config" "check_complete db run request = Inr ()" "check_current db run = Inr ()"
    "update_refresh_run (env_dialect en) run (validated_run en db request run) db =
       Inr (db\<lparr>refresh_runs := put_row run_id (validated_run en db request run) (refresh_runs db)\<rparr>)"
    "publish en (validated_run en db request run)
       (db\<lparr>refresh_runs := put_row run_id (validated_run en db request run) (refresh_runs db)\<rparr>) = Inr d"
    "transactions db' = transactions d" "transaction_categories db' = transaction_categories d"
    "refresh_runs db' = put_row run_id (commit_result en db request run) (refresh_runs db)"
    "refresh_batches db' = refresh_batches db"
    "staged_transactions db' = drop_rows (\<lambda>s. st_run_id s = rid) (staged_transactions db)"
    "get_sync_state db' = Some (next_sync en config rid (get_sync_state db))"
    "\<exists>a. active_version db' = Some a \<and> cv_id a = cv_id config"
    "config_versions db' = (if cv_status config = PENDING then map (activate_row en config) (config_versions db)
      else config_versions db)"
    "config_inv (env_sha256 en) db'" "v = run_view_of en (commit_result en db request run)"
proof (rule commit_InrD [OF c r], goal_cases)
  case (1 config d1 d2 d3)
  let ?V = "validated_run en db request run" and ?C = "commit_result en db request run"
  let ?e1 = "db\<lparr>refresh_runs := put_row run_id ?V (refresh_runs db)\<rparr>"
  let ?e3 = "d1\<lparr>refresh_runs := put_row run_id ?C (refresh_runs d1)\<rparr>"
  note run = get_row_SomeD [OF r(1)]
  have vid: "run_id ?V = rid" "run_source_to_date ?V = Some to_date"
    using run w by (simp_all add: validated_run_def Let_def)
  have g: "integrity db" using I by (simp add: config_inv_def)
  have g1: "integrity ?e1" using integrity_update_refresh_run [OF g 1(6)] run by simp
  have g2: "integrity d1" by (rule integrity_publish [OF 1(7) g1])
  note L = live_only_fields [OF publish_live_only [OF 1(7) g1 vid(2)]]
  have "rid \<in> run_id ` set (refresh_runs db)" using run by auto
  then have "?V \<in> set (refresh_runs d1)" by (simp add: L in_put_row_iff vid)
  then have g3: "integrity ?e3" by (rule integrity_update_refresh_run [OF g2 1(8)])
  have "config_inv (env_sha256 en) ?e3" by (rule config_inv_frame [OF I g3]) (simp_all add: L)
  moreover have "config \<in> set (config_versions ?e3)" "cv_status config \<noteq> SUPERSEDED"
    using check_target_InrD(1,2) [OF 1(3)] by (auto simp: L dest: get_row_SomeD)
  ultimately have A: "config_inv (env_sha256 en) d2" "\<exists>a. active_version d2 = Some a \<and> cv_id a = cv_id config"
    and "\<exists>cs. d2 = ?e3\<lparr>categories := cs, config_versions := config_versions d2\<rparr>"
    and vs: "config_versions d2 = (if cv_status config = PENDING then map (activate_row en config) (config_versions ?e3)
      else config_versions ?e3)"
    using activate_keeps [OF 1(9)] by blast+
  then obtain cs vs where d2: "d2 = ?e3\<lparr>categories := cs, config_versions := vs\<rparr>" by blast
  have sync: "get_sync_state db = get_sync_state d2" by (simp add: d2 get_sync_state_def L)
  have "integrity d2" using A(1) by (simp add: config_inv_def)
  from advance_sync_InrD [OF 1(10) sync this] obtain ss where
    S: "integrity d3" "get_sync_state d3 = Some (next_sync en config rid (get_sync_state db))"
    and d3: "d3 = d2\<lparr>sync_states := ss\<rparr>" using run by auto
  have "config_inv (env_sha256 en) (delete_staged rid d3)"
    by (rule config_inv_frame [OF A(1) integrity_delete_staged [OF S(1)]]) (simp_all add: d3 delete_staged_def)
  then have fin: "config_inv (env_sha256 en) db'" unfolding 1(11) by (rule config_inv_reload)
  have twice: "put_row run_id ?C (put_row run_id ?V (refresh_runs db)) = put_row run_id ?C (refresh_runs db)"
    by (rule put_row_put_row) (simp add: vid run)
  show thesis
  proof (rule that [OF 1(2-7)])
    show "get_sync_state db' = Some (next_sync en config rid (get_sync_state db))"
      using S(2) by (simp add: 1(11) get_sync_state_def reload_categories_def delete_staged_def)
    show "\<exists>a. active_version db' = Some a \<and> cv_id a = cv_id config"
      using A(2) by (simp add: 1(11) d3 active_version_def reload_categories_def delete_staged_def)
    show "config_versions db' = (if cv_status config = PENDING then map (activate_row en config) (config_versions db)
      else config_versions db)"
      using vs by (simp add: 1(11) d3 reload_categories_def delete_staged_def L)
  qed (use 1(12) fin twice in \<open>simp_all add: 1(11) d3 d2 reload_categories_def delete_staged_def L\<close>)
qed

section \<open>A commit keeps the invariants\<close>

lemma filter_put_row_count:
  "distinct (map key rows) \<Longrightarrow> old \<in> set rows \<Longrightarrow> key r = key old \<Longrightarrow> \<not> p old \<Longrightarrow> p r \<Longrightarrow>
    length (filter p (put_row key r rows)) = Suc (length (filter p rows))"
proof (induction rows)
  case (Cons x rows)
  have absent: "put_row key r rows = rows" if "key r \<notin> key ` set rows"
    unfolding put_row_def by (rule map_idI) (use that in \<open>metis image_eqI\<close>)
  have put: "put_row key r (y # rows) = (if key y = key r then r else y) # put_row key r rows" for y
    by (simp add: put_row_def)
  show ?case
  proof (cases "x = old")
    case True
    with Cons.prems absent show ?thesis by (simp add: put)
  next
    case False
    with Cons have "key x \<noteq> key r" by auto
    with False Cons show ?thesis by (simp add: put)
  qed
qed simp

lemma commit_keeps:
  assumes c: "commit_refresh en rid request db = Inr (v, db')"
    and I: "config_inv (env_sha256 en) db" and R: "refresh_inv db"
  shows "config_inv (env_sha256 en) db' \<and> refresh_inv db'"
proof (cases "\<exists>run. get_row run_id rid (refresh_runs db) = Some run \<and> run_state run \<noteq> COMMITTED")
  case False
  with c have "db' = db" by (auto simp: commit_refresh_def replay_commit_def result_simps split: if_splits)
  with I R show ?thesis by simp
next
  case True
  then obtain run where r: "get_row run_id rid (refresh_runs db) = Some run" "run_state run \<noteq> COMMITTED" by blast
  note run = get_row_SomeD [OF r(1)]
  have ok: "run_ok db run" using R run by (simp add: refresh_inv_def)
  then obtain to_date where w: "run_source_to_date run = Some to_date" by (auto simp: run_ok_def)
  have g: "integrity db" using I by (simp add: config_inv_def)
  obtain config d where st: "run_state run = UPLOADED \<or> run_state run = CREATED \<and> cq_expected_batch_count request = 0"
    and tgt: "check_target db run = Inr config" and comp: "check_complete db run request = Inr ()"
    and cur: "check_current db run = Inr ()"
    and upd: "update_refresh_run (env_dialect en) run (validated_run en db request run) db =
       Inr (db\<lparr>refresh_runs := put_row run_id (validated_run en db request run) (refresh_runs db)\<rparr>)"
    and p: "publish en (validated_run en db request run)
       (db\<lparr>refresh_runs := put_row run_id (validated_run en db request run) (refresh_runs db)\<rparr>) = Inr d"
    and t: "transactions db' = transactions d" "transaction_categories db' = transaction_categories d"
    and rr: "refresh_runs db' = put_row run_id (commit_result en db request run) (refresh_runs db)"
    and b: "refresh_batches db' = refresh_batches db"
    and sg: "staged_transactions db' = drop_rows (\<lambda>s. st_run_id s = rid) (staged_transactions db)"
    and sy: "get_sync_state db' = Some (next_sync en config rid (get_sync_state db))"
    and av: "\<exists>a. active_version db' = Some a \<and> cv_id a = cv_id config"
    and I': "config_inv (env_sha256 en) db'"
    by (rule commit_shape [OF c r I w])
  let ?C = "commit_result en db request run"
  have run_ok': "run_ok db' x" if "x \<in> set (refresh_runs db')" for x
  proof (cases "run_id x = rid")
    case False
    then have x: "x \<in> set (refresh_runs db)" using that rr run by (auto dest!: in_put_rowD)
    have "batches_of db' (run_id x) = batches_of db (run_id x)" by (simp add: batches_of_def b)
    moreover have "staged_of_run db' (run_id x) = staged_of_run db (run_id x)"
      using False by (auto simp: staged_of_run_def sg drop_rows_def intro!: filter_cong)
    ultimately show ?thesis using run_ok_local [of db' x db] R x by (simp add: refresh_inv_def)
  next
    case True
    then have x: "x = ?C" using that rr run by (auto dest!: in_put_rowD)
    have B: "batches_of db' rid = batches_of db rid" "run_batches db' rid = run_batches db rid"
      by (simp_all add: batches_of_def run_batches_def b)
    have S: "staged_of_run db' rid = []" by (auto simp: staged_of_run_def sg drop_rows_def filter_empty_conv)
    note C = check_complete_InrD [OF comp]
    have "run_batches db rid \<noteq> [] \<or> cq_expected_batch_count request = 0"
      using st ok run run_batches_totals(1) [of db rid] by (auto simp: run_ok_def)
    then have e: "cq_expected_batch_count request = int (length (run_batches db rid))"
      using arg_cong [OF C(1), of length] run by (auto simp flip: length_greater_0_conv)
    have "run_source_from_date ?C = run_source_from_date run"
      by (simp add: commit_result_def committed_run_def validated_run_def Let_def)
    then show ?thesis
      using C e run S ok run_batches_totals [of db rid] by (simp add: run_ok_def x B)
  qed
  have cid: "run_config_version_id run = cv_id config" "config \<in> set (config_versions db)"
    using check_target_InrD(1) [OF tgt] by (auto dest: get_row_SomeD)
  have live: "live_ok db' (next_sync en config rid (get_sync_state db)) x" if "x \<in> set (transactions db')" for x
  proof -
    have src: "run_source_to_date (validated_run en db request run) = Some to_date"
      "run_config_version_id (validated_run en db request run) = cv_id config"
      "run_mode (validated_run en db request run) = run_mode run"
      using w cid by (simp_all add: validated_run_def Let_def)
    have e1: "integrity (db\<lparr>refresh_runs := put_row run_id (validated_run en db request run) (refresh_runs db)\<rparr>)"
      using integrity_update_refresh_run [OF g upd] run by simp
    have "tx_config_version_id x = cv_id config" if m: "run_mode run = INCREMENTAL" and x: "x \<in> set (transactions db)"
    proof -
      from check_current_InrD(2) [OF cur m] obtain s where s: "get_sync_state db = Some s" by blast
      with R obtain a where a: "active_version db = Some a" "cv_id a = ss_config_version_id s" "live_ok db s x"
        using x by (auto simp: refresh_inv_def sync_ok_def)
      from a(1) have "a \<in> set (config_versions db)" "cv_status a = ACTIVE" by (auto dest: active_version_SomeD)
      then have "a = config"
        using I cid(2) check_target_InrD(3) [OF tgt m] unfolding config_inv_def status_inv_def by blast
      with a show ?thesis by (simp add: live_ok_def)
    qed
    with published_rows [OF p e1 src(1), of x] that src show ?thesis
      by (auto simp: live_ok_def t next_sync_def split: option.splits)
  qed
  have "int (length (committed_runs db')) = int (length (committed_runs db)) + 1"
    using filter_put_row_count [OF integrity_distinct(4) [OF g], of run ?C "\<lambda>r. run_state r = COMMITTED"] run r(2)
    by (simp add: committed_runs_def rr)
  moreover have "rid \<in> run_id ` set (committed_runs db')"
  proof (rule image_eqI [of _ _ ?C])
    have "run_id ?C \<in> run_id ` set (refresh_runs db)" using run by auto
    then show "?C \<in> set (committed_runs db')" by (simp add: committed_runs_def rr in_put_row_iff del: commit_result_simps(1))
  qed (use run in simp)
  ultimately have "sync_ok db'"
    using R sy av live by (auto simp: sync_ok_def refresh_inv_def next_sync_def split: option.splits)
  with run_ok' I' show ?thesis by (simp add: refresh_inv_def)
qed

end
