(* ===== verification/RefreshHistory.thy ===== *)
theory RefreshHistory
  imports RefreshCommitted
begin

text \<open>
  Histories of the system: the requests that change the budget database, one after the other
  from the empty one, and what every history keeps. A run keeps its identity and a committed
  run its whole row; a batch keeps its row; the committed runs form a chain, each one started
  at the sync revision its predecessor left.
\<close>

section \<open>Requests and histories\<close>

inductive sys_step :: "(nat list \<Rightarrow> string) \<Rightarrow> db \<Rightarrow> db \<Rightarrow> bool" for H where
  rest_put: "env_sha256 en = H \<Longrightarrow> ConfigPutRequest raw = Inr request \<Longrightarrow>
    put_config en request if_match db = Inr (view, db') \<Longrightarrow> sys_step H db db'"
| tool_put: "env_sha256 en = H \<Longrightarrow> ConfigPutRequest raw = Inr request \<Longrightarrow>
    put_config_checked en request expected db = Inr (view, db') \<Longrightarrow> sys_step H db db'"
| start: "env_sha256 en = H \<Longrightarrow>
    begin_refresh en brequest key max_items max_bytes db = Inr (bview, db') \<Longrightarrow> sys_step H db db'"
| upload: "env_sha256 en = H \<Longrightarrow>
    upload_batch en rid idx urequest max_items max_bytes db = Inr (uview, db') \<Longrightarrow> sys_step H db db'"
| commit: "env_sha256 en = H \<Longrightarrow>
    commit_refresh en rid crequest db = Inr (cview, db') \<Longrightarrow> sys_step H db db'"

inductive_cases sys_step_cases: "sys_step H db db'"

inductive sys_run :: "(nat list \<Rightarrow> string) \<Rightarrow> db \<Rightarrow> db \<Rightarrow> bool" for H db where
  none: "sys_run H db db"
| more: "sys_run H db db' \<Longrightarrow> sys_step H db' db'' \<Longrightarrow> sys_run H db db''"

section \<open>The invariants\<close>

definition sys_inv :: "(nat list \<Rightarrow> string) \<Rightarrow> db \<Rightarrow> bool" where
  "sys_inv H db \<longleftrightarrow> config_inv H db \<and> refresh_inv db"

lemma sys_inv_empty: "sys_inv H empty_db"
  by (simp add: sys_inv_def config_inv_empty refresh_inv_empty)

lemma put_sys_inv:
  assumes "put_config_impl en request if_match checked expected db = Inr (view, db')"
    and "ConfigPutRequest raw = Inr request" and "sys_inv (env_sha256 en) db"
  shows "sys_inv (env_sha256 en) db'"
  using put_config_inv [OF assms(1) _ ConfigPutRequest_wf [OF assms(2)]]
    refresh_inv_put [OF assms(1) _ ConfigPutRequest_wf [OF assms(2)]] assms(3)
  by (simp add: sys_inv_def)

lemma sys_step_inv: "sys_step H db db' \<Longrightarrow> sys_inv H db \<Longrightarrow> sys_inv H db'"
proof (induction rule: sys_step.induct)
  case (rest_put en raw request if_match db view db')
  then show ?case using put_sys_inv [of en request if_match False None db view db' raw] by (simp add: put_config_def)
next
  case (tool_put en raw request expected db view db')
  then show ?case using put_sys_inv [of en request None True expected db view db' raw]
    by (simp add: put_config_checked_def)
next
  case (start en brequest key max_items max_bytes db bview db')
  then show ?case using begin_keeps [OF start(2), of H] by (simp add: sys_inv_def)
next
  case (upload en rid idx urequest max_items max_bytes db uview db')
  then show ?case using upload_keeps [OF upload(2), of H] by (simp add: sys_inv_def)
next
  case (commit en rid crequest db cview db')
  then show ?case using commit_keeps [OF commit(2)] by (simp add: sys_inv_def)
qed

lemma sys_run_inv: "sys_run H db db' \<Longrightarrow> sys_inv H db \<Longrightarrow> sys_inv H db'"
  by (induction rule: sys_run.induct) (auto intro: sys_step_inv)

section \<open>What a request keeps\<close>

definition rank :: "refresh_run \<Rightarrow> int" where
  "rank r = (case run_sync_revision_before r of None \<Rightarrow> 0 | Some n \<Rightarrow> n)"

definition run_stays :: "db \<Rightarrow> refresh_run \<Rightarrow> bool" where
  "run_stays db r \<longleftrightarrow> (\<exists>r' \<in> set (refresh_runs db). run_identity_unchanged r r' \<and> (run_state r = COMMITTED \<longrightarrow> r' = r))"

definition evolves :: "db \<Rightarrow> db \<Rightarrow> bool" where
  "evolves db db' \<longleftrightarrow> (\<forall>r \<in> set (refresh_runs db). run_stays db' r) \<and>
     set (refresh_batches db) \<subseteq> set (refresh_batches db')"

lemma identity_refl [simp]: "run_identity_unchanged r r"
  by (simp add: run_identity_unchanged_def)

lemma identity_trans: "run_identity_unchanged a b \<Longrightarrow> run_identity_unchanged b c \<Longrightarrow> run_identity_unchanged a c"
  by (simp add: run_identity_unchanged_def)

lemma evolves_same:
  "refresh_runs db' = refresh_runs db \<Longrightarrow> refresh_batches db' = refresh_batches db \<Longrightarrow> evolves db db'"
  unfolding evolves_def run_stays_def using identity_refl by fastforce

lemma evolves_trans:
  assumes "evolves a b" and "evolves b c"
  shows "evolves a c"
proof -
  have "run_stays c r" if "r \<in> set (refresh_runs a)" for r
  proof -
    from assms(1) that obtain r' where r': "r' \<in> set (refresh_runs b)" "run_identity_unchanged r r'"
      "run_state r = COMMITTED \<longrightarrow> r' = r" by (auto simp: evolves_def run_stays_def)
    with assms(2) have "run_stays c r'" by (simp add: evolves_def)
    with r' show ?thesis by (auto simp: run_stays_def intro: identity_trans)
  qed
  with assms show ?thesis by (auto simp: evolves_def)
qed

lemma evolves_put_row:
  assumes r: "refresh_runs db' = put_row run_id u (refresh_runs db)" and g: "integrity db"
    and u: "run \<in> set (refresh_runs db)" "run_state run \<noteq> COMMITTED" "run_identity_unchanged run u"
    and b: "set (refresh_batches db) \<subseteq> set (refresh_batches db')"
  shows "evolves db db'"
proof -
  have id: "run_id run = run_id u" using u(3) by (simp add: run_identity_unchanged_def)
  have "run_stays db' x" if x: "x \<in> set (refresh_runs db)" for x
  proof (cases "run_id x = run_id u")
    case True
    then have "x = run" using inj_onD [OF integrity_inj(7) [OF g], of x run] x u(1) id by simp
    moreover have "u \<in> set (refresh_runs db')" using imageI [OF x, of run_id] by (simp add: r in_put_row_iff True)
    ultimately show ?thesis using u by (auto simp: run_stays_def)
  next
    case False
    then have "x \<in> set (refresh_runs db')" using x r by (simp add: in_put_row_iff)
    then show ?thesis unfolding run_stays_def using identity_refl by blast
  qed
  with b show ?thesis by (simp add: evolves_def)
qed

section \<open>The effect of each request\<close>

definition same_runs :: "db \<Rightarrow> db \<Rightarrow> bool" where
  "same_runs db db' \<longleftrightarrow> refresh_runs db' = refresh_runs db \<and> refresh_batches db' = refresh_batches db \<and>
     sync_states db' = sync_states db"

definition starts_run :: "db \<Rightarrow> db \<Rightarrow> bool" where
  "starts_run db db' \<longleftrightarrow> (\<exists>r. run_state r = CREATED \<and> refresh_runs db' = refresh_runs db @ [r]) \<and>
     refresh_batches db' = refresh_batches db \<and> sync_states db' = sync_states db"

definition extends_run :: "db \<Rightarrow> db \<Rightarrow> bool" where
  "extends_run db db' \<longleftrightarrow> (\<exists>run u. run \<in> set (refresh_runs db) \<and> run_state run \<in> {CREATED, UPLOADED} \<and>
       run_state u = UPLOADED \<and> run_identity_unchanged run u \<and> refresh_runs db' = put_row run_id u (refresh_runs db)) \<and>
     (\<exists>b. refresh_batches db' = refresh_batches db @ [b]) \<and> sync_states db' = sync_states db"

definition ends_run :: "db \<Rightarrow> db \<Rightarrow> bool" where
  "ends_run db db' \<longleftrightarrow> (\<exists>run u. run \<in> set (refresh_runs db) \<and> run_state run \<in> {CREATED, UPLOADED} \<and>
       run_state u = COMMITTED \<and> run_identity_unchanged run u \<and> refresh_runs db' = put_row run_id u (refresh_runs db) \<and>
       run_sync_revision_before run = map_option ss_revision (get_sync_state db) \<and>
       (\<exists>s. get_sync_state db' = Some s \<and> ss_last_refresh_run_id s = run_id u)) \<and>
     refresh_batches db' = refresh_batches db"

lemma put_effect:
  assumes "put_config_impl en request if_match checked expected db = Inr (view, db')"
    and "ConfigPutRequest raw = Inr request" and "sys_inv (env_sha256 en) db"
  shows "same_runs db db'"
  using put_frame [OF assms(1) _ ConfigPutRequest_wf [OF assms(2)]] assms(3)
  by (simp add: sys_inv_def same_refresh_def same_runs_def)

lemma begin_effect:
  assumes b: "begin_refresh en request key n m db = Inr (v, db')"
  shows "same_runs db db' \<or> starts_run db db'"
proof (cases "get_row run_idempotency_key key (refresh_runs db)")
  case (Some e)
  with b have "db' = db" by (auto simp: begin_refresh_def replay_begin_def result_simps Let_def)
  then show ?thesis by (simp add: same_runs_def)
next
  case None
  obtain target where i: "insert_refresh_run (new_run en request key (sha256_hex (env_sha256 en) (begin_json request))
      target (get_sync_state db)) db = Inr db'"
    by (rule begin_new_InrD [OF b None]) blast
  show ?thesis using insert_refresh_run_InrD(1) [OF i] by (auto simp: starts_run_def)
qed

lemma upload_effect:
  assumes u: "upload_batch en rid idx request n m db = Inr (v, db')"
  shows "same_runs db db' \<or> extends_run db db'"
proof (cases "get_row rb_key (rid, idx) (refresh_batches db)")
  case (Some e)
  with u have "db' = db" by (auto simp: upload_batch_def result_simps Let_def split: if_splits)
  then show ?thesis by (simp add: same_runs_def)
next
  case None
  obtain run where r: "get_row run_id rid (refresh_runs db) = Some run"
    and s: "store_batch en run (batch_of en rid idx request) (bq_transactions request) db = Inr db'"
    by (rule upload_new_InrD [OF u None]) blast
  note run = get_row_SomeD [OF r]
  have u: "run_identity_unchanged run (uploaded_run en b run)" "run_state (uploaded_run en b run) = UPLOADED" for b
    by (simp_all add: uploaded_run_def run_identity_unchanged_def)
  have "extends_run db db'"
  proof (rule store_batch_InrD [OF s], goal_cases)
    case (1 config from_date to_date)
    have "refresh_runs db' = put_row run_id (uploaded_run en (batch_of en rid idx request) run) (refresh_runs db)"
      "refresh_batches db' = refresh_batches db @ [batch_of en rid idx request]" "sync_states db' = sync_states db"
      by (simp_all add: 1(7))
    then show ?case unfolding extends_run_def using run u 1(1) by blast
  qed
  then show ?thesis ..
qed

lemma commit_effect:
  assumes c: "commit_refresh en rid request db = Inr (v, db')" and I: "sys_inv (env_sha256 en) db"
  shows "same_runs db db' \<or> ends_run db db'"
proof (cases "\<exists>run. get_row run_id rid (refresh_runs db) = Some run \<and> run_state run \<noteq> COMMITTED")
  case False
  with c have "db' = db" by (auto simp: commit_refresh_def replay_commit_def result_simps split: if_splits)
  then show ?thesis by (simp add: same_runs_def)
next
  case True
  then obtain run where r: "get_row run_id rid (refresh_runs db) = Some run" "run_state run \<noteq> COMMITTED" by blast
  note run = get_row_SomeD [OF r(1)]
  have "run_ok db run" using I run by (simp add: sys_inv_def refresh_inv_def)
  then obtain to_date where w: "run_source_to_date run = Some to_date" by (auto simp: run_ok_def)
  have "config_inv (env_sha256 en) db" using I by (simp add: sys_inv_def)
  from commit_shape [OF c r this w] obtain config where
    st: "run_state run = UPLOADED \<or> run_state run = CREATED \<and> cq_expected_batch_count request = 0"
    and cur: "check_current db run = Inr ()"
    and rr: "refresh_runs db' = put_row run_id (commit_result en db request run) (refresh_runs db)"
    and b: "refresh_batches db' = refresh_batches db"
    and sy: "get_sync_state db' = Some (next_sync en config rid (get_sync_state db))" by metis
  have "run_identity_unchanged run (commit_result en db request run)"
    by (simp add: run_identity_unchanged_def commit_result_def committed_run_def validated_run_def Let_def)
  moreover have "ss_last_refresh_run_id (next_sync en config rid s) = rid" for s
    by (simp add: next_sync_def split: option.splits)
  moreover have "run_state run \<in> {CREATED, UPLOADED}" using st by blast
  ultimately have "ends_run db db'"
    unfolding ends_run_def using run rr b sy check_current_InrD(1) [OF cur] commit_result_simps(1,3) by metis
  then show ?thesis ..
qed

lemma sys_step_effect:
  assumes "sys_step H db db'" and "sys_inv H db"
  shows "same_runs db db' \<or> starts_run db db' \<or> extends_run db db' \<or> ends_run db db'"
  using assms(1)
proof cases
  case (rest_put en raw request if_match view)
  with assms(2) put_effect [of en request if_match False None db view db' raw] show ?thesis
    by (simp add: put_config_def)
next
  case (tool_put en raw request expected view)
  with assms(2) put_effect [of en request None True expected db view db' raw] show ?thesis
    by (simp add: put_config_checked_def)
next
  case (start en brequest key max_items max_bytes bview)
  then show ?thesis using begin_effect by blast
next
  case (upload en rid idx urequest max_items max_bytes uview)
  then show ?thesis using upload_effect by blast
next
  case (commit en rid crequest cview)
  then show ?thesis using commit_effect assms(2) by blast
qed

lemma sys_step_evolves:
  assumes s: "sys_step H db db'" and I: "sys_inv H db"
  shows "evolves db db'"
proof -
  have g: "integrity db" using I by (simp add: sys_inv_def config_inv_def)
  from sys_step_effect [OF s I] show ?thesis
  proof (elim disjE)
    assume "same_runs db db'"
    then show ?thesis by (simp add: same_runs_def evolves_same)
  next
    assume "starts_run db db'"
    then show ?thesis unfolding starts_run_def evolves_def run_stays_def using identity_refl by fastforce
  next
    assume "extends_run db db'"
    then obtain run u b where "run \<in> set (refresh_runs db)" "run_state run \<in> {CREATED, UPLOADED}"
      "run_identity_unchanged run u" "refresh_runs db' = put_row run_id u (refresh_runs db)"
      "refresh_batches db' = refresh_batches db @ [b]" unfolding extends_run_def by blast
    then show ?thesis by (intro evolves_put_row [OF _ g]) auto
  next
    assume "ends_run db db'"
    then obtain run u where "run \<in> set (refresh_runs db)" "run_state run \<in> {CREATED, UPLOADED}"
      "run_identity_unchanged run u" "refresh_runs db' = put_row run_id u (refresh_runs db)"
      "refresh_batches db' = refresh_batches db" unfolding ends_run_def by blast
    then show ?thesis by (intro evolves_put_row [OF _ g]) auto
  qed
qed

lemma sys_run_evolves: "sys_run H db db' \<Longrightarrow> sys_inv H db \<Longrightarrow> evolves db db'"
proof (induction rule: sys_run.induct)
  case none
  show ?case by (rule evolves_same) simp_all
next
  case (more db' db'')
  then show ?case using sys_step_evolves sys_run_inv evolves_trans by blast
qed

text \<open>Looking a row up again, any number of requests later.\<close>

lemma run_found_again:
  assumes r: "get_row run_id rid (refresh_runs db) = Some r" and run: "sys_run H db db'" and I: "sys_inv H db"
  obtains r' where "get_row run_id rid (refresh_runs db') = Some r'" "run_identity_unchanged r r'"
    "run_state r = COMMITTED \<longrightarrow> r' = r" "get_row run_idempotency_key (run_idempotency_key r) (refresh_runs db') = Some r'"
proof -
  have g: "integrity db'" using sys_run_inv [OF run I] by (simp add: sys_inv_def config_inv_def)
  note R = get_row_SomeD [OF r]
  then have "run_stays db' r" using sys_run_evolves [OF run I] by (simp add: evolves_def)
  then obtain r' where r': "r' \<in> set (refresh_runs db')" "run_identity_unchanged r r'" "run_state r = COMMITTED \<longrightarrow> r' = r"
    by (auto simp: run_stays_def)
  moreover have "run_id r' = rid" "run_idempotency_key r' = run_idempotency_key r"
    using r'(2) R by (auto simp: run_identity_unchanged_def)
  ultimately show thesis
    using integrity_distinct(4,5) [OF g] by (intro that) (auto simp: get_row_iff)
qed

lemma batch_found_again:
  assumes b: "get_row rb_key k (refresh_batches db) = Some b" and run: "sys_run H db db'" and I: "sys_inv H db"
  shows "get_row rb_key k (refresh_batches db') = Some b"
proof -
  have g: "integrity db'" using sys_run_inv [OF run I] by (simp add: sys_inv_def config_inv_def)
  have "b \<in> set (refresh_batches db')"
    using sys_run_evolves [OF run I] get_row_SomeD [OF b] by (auto simp: evolves_def)
  then show ?thesis using get_row_SomeD [OF b] integrity_distinct(6) [OF g] by (auto simp: get_row_iff)
qed

section \<open>The chain of commits\<close>

definition commit_chain :: "db \<Rightarrow> bool" where
  "commit_chain db \<longleftrightarrow> rank ` set (committed_runs db) = {0..<int (length (committed_runs db))}"

lemma commit_chain_cong: "committed_runs db' = committed_runs db \<Longrightarrow> commit_chain db' = commit_chain db"
  by (simp add: commit_chain_def)

lemma sync_rank:
  assumes "sync_ok db" and "run_sync_revision_before run = map_option ss_revision (get_sync_state db)"
  shows "rank run = int (length (committed_runs db))"
  using assms by (simp add: sync_ok_def rank_def split: option.splits)

lemma chain_grows:
  assumes e: "ends_run db db'" and I: "sys_inv H db" and c: "commit_chain db"
  shows "commit_chain db'"
proof -
  from e obtain run u where run: "run \<in> set (refresh_runs db)" "run_state run \<in> {CREATED, UPLOADED}"
    and u: "run_state u = COMMITTED" "run_identity_unchanged run u"
    and r: "refresh_runs db' = put_row run_id u (refresh_runs db)"
    and s: "run_sync_revision_before run = map_option ss_revision (get_sync_state db)" unfolding ends_run_def by blast
  have g: "integrity db" and sy: "sync_ok db" using I by (simp_all add: sys_inv_def config_inv_def refresh_inv_def)
  have id: "run_id u = run_id run" and rk: "rank u = rank run"
    using u(2) by (simp_all add: run_identity_unchanged_def rank_def)
  have only: "x = run" if "x \<in> set (refresh_runs db)" "run_id x = run_id run" for x
    using inj_onD [OF integrity_inj(7) [OF g], of x run] run that by simp
  have "set (committed_runs db') = insert u (set (committed_runs db))"
  proof (intro equalityI subsetI)
    fix x assume "x \<in> set (committed_runs db')"
    then show "x \<in> insert u (set (committed_runs db))" by (auto simp: committed_runs_def r dest!: in_put_rowD)
  next
    fix x assume x: "x \<in> insert u (set (committed_runs db))"
    have "run_id u \<in> run_id ` set (refresh_runs db)" using run id by auto
    moreover have "run_state x = COMMITTED" "x = u \<or> x \<in> set (refresh_runs db)"
      using x u(1) by (auto simp: committed_runs_def)
    moreover have "run_id x \<noteq> run_id u" if "x \<in> set (refresh_runs db)"
    proof
      assume "run_id x = run_id u"
      then have "x = run" using only that id by simp
      then show False using run(2) \<open>run_state x = COMMITTED\<close> by auto
    qed
    ultimately show "x \<in> set (committed_runs db')"
      by (auto simp: committed_runs_def r in_put_row_iff)
  qed
  moreover have "length (committed_runs db') = Suc (length (committed_runs db))"
    using filter_put_row_count [OF integrity_distinct(4) [OF g] run(1) id, of "\<lambda>r. run_state r = COMMITTED"] run(2) u(1)
    by (auto simp: committed_runs_def r)
  ultimately show ?thesis
    using c sync_rank [OF sy s] rk by (auto simp: commit_chain_def)
qed

lemma sys_step_chain:
  assumes s: "sys_step H db db'" and I: "sys_inv H db" and c: "commit_chain db"
  shows "commit_chain db'"
  using sys_step_effect [OF s I]
proof (elim disjE)
  assume "extends_run db db'"
  then obtain run u where run: "run \<in> set (refresh_runs db)" "run_state run \<in> {CREATED, UPLOADED}"
    "run_state u = UPLOADED" "run_identity_unchanged run u" "refresh_runs db' = put_row run_id u (refresh_runs db)"
    unfolding extends_run_def by blast
  have "run_state x \<noteq> COMMITTED" if "x \<in> set (refresh_runs db)" "run_id x = run_id u" for x
  proof -
    have "inj_on run_id (set (refresh_runs db))" using I integrity_inj(7) by (simp add: sys_inv_def config_inv_def)
    moreover have "run_id x = run_id run" using that(2) run(4) by (simp add: run_identity_unchanged_def)
    ultimately have "x = run" using that(1) run(1) by (rule inj_onD)
    then show ?thesis using run(2) by auto
  qed
  then have n: "\<forall>x \<in> set (refresh_runs db). run_id x = run_id u \<longrightarrow> run_state x \<noteq> COMMITTED" by blast
  have "committed_runs db' = committed_runs db"
    unfolding committed_runs_def run(5) by (rule filter_put_row_neg [OF n]) (simp add: run(3))
  from commit_chain_cong [OF this] c show ?thesis by simp
next
  assume "same_runs db db'"
  then have "committed_runs db' = committed_runs db" by (simp add: same_runs_def committed_runs_def)
  from commit_chain_cong [OF this] c show ?thesis by simp
next
  assume "starts_run db db'"
  then have "committed_runs db' = committed_runs db" by (auto simp: starts_run_def committed_runs_def)
  from commit_chain_cong [OF this] c show ?thesis by simp
next
  assume "ends_run db db'"
  then show ?thesis using I c by (rule chain_grows)
qed

lemma sys_run_chain: "sys_run H db db' \<Longrightarrow> sys_inv H db \<Longrightarrow> commit_chain db \<Longrightarrow> commit_chain db'"
  by (induction rule: sys_run.induct) (auto intro: sys_step_chain sys_run_inv)

lemma chain_inj: "commit_chain db \<Longrightarrow> inj_on rank (set (committed_runs db))"
proof (rule eq_card_imp_inj_on)
  assume "commit_chain db"
  then have "card (rank ` set (committed_runs db)) = length (committed_runs db)" by (simp add: commit_chain_def)
  with card_length [of "committed_runs db"] card_image_le [of "set (committed_runs db)" rank]
  show "card (rank ` set (committed_runs db)) = card (set (committed_runs db))" by simp
qed simp

end
