(* ===== verification/RefreshWindows.thy ===== *)
theory RefreshWindows
  imports RefreshCommitted
begin

text \<open>
  What a commit publishes, in closed form. \<open>in_window\<close> is the retention test of one category;
  \<open>full_tables\<close> and \<open>merged_tables\<close> are the live tables after a full rebuild and after an
  incremental refresh.
\<close>

section \<open>The retention window\<close>

type_synonym config_rules = "(config_version_rule \<times> rule_version \<times> category) list"

definition in_window :: "config_rules \<Rightarrow> date \<Rightarrow> uuid \<Rightarrow> date \<Rightarrow> bool" where
  "in_window rules to_date category_id d \<longleftrightarrow>
     list_all (\<lambda>(l, r, k). cat_id k = category_id \<longrightarrow> to_date - (rv_lookback_days r - 1) \<le> d) rules"

lemma kept_link_at:
  assumes d: "distinct (map tx_key (transactions db))" and t: "tx_at db (tc_tx_key c) = Some t"
  shows "kept_link db rules to_date c = in_window rules to_date (tc_category_id c) (tx_transaction_date t)"
proof -
  have "tx_key x = tc_tx_key c \<longleftrightarrow> x = t" if "x \<in> set (transactions db)" for x
    using get_row_distinct [OF d that] t get_row_SomeD [of tx_key "tc_tx_key c" "transactions db" t]
    by (auto simp: tx_at_def)
  moreover have "t \<in> set (transactions db)" using t get_row_SomeD by (fastforce simp: tx_at_def)
  ultimately have "list_all (\<lambda>x. tx_key x = tc_tx_key c \<longrightarrow> n \<le> tx_transaction_date x) (transactions db)
      \<longleftrightarrow> n \<le> tx_transaction_date t" for n
    by (auto simp: list_all_iff)
  then show ?thesis by (simp add: kept_link_def in_window_def)
qed

section \<open>A full rebuild\<close>

definition kept_cats :: "db \<Rightarrow> config_rules \<Rightarrow> date \<Rightarrow> uuid \<Rightarrow> staged_transaction \<Rightarrow> staged_transaction_category list" where
  "kept_cats db rules to_date rid s =
     filter (\<lambda>c. in_window rules to_date (sc_category_id c) (st_transaction_date s)) (staged_cats db rid s)"

lemma find_identity:
  "distinct (map st_identity ss) \<Longrightarrow> s \<in> set ss \<Longrightarrow>
   get_row tx_key (st_identity s) (map (\<lambda>s. live_row en run s None) ss) = Some (live_row en run s None)"
  by (induction ss) (auto simp: get_row_def)

lemma full_pruned:
  fixes en :: env and run :: refresh_run and db :: db
  assumes d: "distinct (map st_identity ss)"
  defines "D \<equiv> full_spec en run db ss"
  shows "transaction_categories (prune_spec D rules to_date)
      = concat (map (\<lambda>s. map (live_link run s) (kept_cats db rules to_date (run_id run) s)) ss)"
    and "transactions (prune_spec D rules to_date)
      = map (\<lambda>s. live_row en run s None) (filter (\<lambda>s. kept_cats db rules to_date (run_id run) s \<noteq> []) ss)"
proof -
  have keys: "distinct (map tx_key (transactions D))"
    using d by (simp add: D_def full_spec_def comp_def)
  have kept: "kept_link D rules to_date (live_link run s c)
      = in_window rules to_date (sc_category_id c) (st_transaction_date s)" if "s \<in> set ss" for s c
  proof -
    have "tx_at D (tc_tx_key (live_link run s c)) = Some (live_row en run s None)"
      using find_identity [OF d that, of en run]
      by (simp add: tx_at_def D_def full_spec_def live_link_def tc_tx_key_def st_identity_def)
    from kept_link_at [OF keys this] show ?thesis by (simp add: live_link_def live_row_def)
  qed
  have links: "filter (kept_link D rules to_date) (live_links db run s)
      = map (live_link run s) (kept_cats db rules to_date (run_id run) s)" if "s \<in> set ss" for s
    by (simp add: live_links_def kept_cats_def filter_map comp_def kept [OF that])
  have "filter (kept_link D rules to_date) (transaction_categories D)
      = concat (map (\<lambda>s. filter (kept_link D rules to_date) (live_links db run s)) ss)"
    by (simp add: D_def full_spec_def filter_concat comp_def)
  also have "\<dots> = concat (map (\<lambda>s. map (live_link run s) (kept_cats db rules to_date (run_id run) s)) ss)"
    by (rule arg_cong [where f = concat], rule map_cong) (simp_all add: links)
  finally show c: "transaction_categories (prune_spec D rules to_date)
      = concat (map (\<lambda>s. map (live_link run s) (kept_cats db rules to_date (run_id run) s)) ss)"
    by (simp add: prune_spec_def Let_def)
  have "list_ex (\<lambda>c. tc_tx_key c = st_identity s)
      (concat (map (\<lambda>s. map (live_link run s) (kept_cats db rules to_date (run_id run) s)) ss))
      \<longleftrightarrow> kept_cats db rules to_date (run_id run) s \<noteq> []" if s: "s \<in> set ss" for s
  proof -
    have k: "tc_tx_key (live_link run x c) = st_identity x" for x c
      by (simp add: live_link_def tc_tx_key_def st_identity_def)
    have "x = s" if "x \<in> set ss" "st_identity x = st_identity s" for x
      using d s that by (simp add: distinct_map inj_on_def)
    moreover have "list_ex (\<lambda>c. tc_tx_key c = st_identity s)
      (concat (map (\<lambda>s. map (live_link run s) (kept_cats db rules to_date (run_id run) s)) ss))
      \<longleftrightarrow> (\<exists>x \<in> set ss. st_identity x = st_identity s \<and> kept_cats db rules to_date (run_id run) x \<noteq> [])"
      by (auto simp: list_ex_iff k bex_Un intro: bexI) (metis list.set_intros(1) list.exhaust)
    ultimately show ?thesis using s by auto
  qed
  with c show "transactions (prune_spec D rules to_date)
      = map (\<lambda>s. live_row en run s None) (filter (\<lambda>s. kept_cats db rules to_date (run_id run) s \<noteq> []) ss)"
    by (simp add: prune_spec_def Let_def D_def full_spec_def filter_map comp_def cong: filter_cong)
qed

section \<open>An incremental refresh\<close>

lemma merged_pruned:
  assumes d: "distinct (map tx_key (transactions D))"
    and parents: "\<forall>c \<in> set (transaction_categories D). tx_at D (tc_tx_key c) \<noteq> None"
  shows "links_at (prune_spec D rules to_date) k = (case tx_at D k of None \<Rightarrow> []
      | Some t \<Rightarrow> filter (\<lambda>c. in_window rules to_date (tc_category_id c) (tx_transaction_date t)) (links_at D k))"
    and "tx_at (prune_spec D rules to_date) k =
      (if links_at (prune_spec D rules to_date) k = [] then None else tx_at D k)"
proof -
  have "links_at (prune_spec D rules to_date) k = filter (kept_link D rules to_date) (links_at D k)"
    by (auto simp: links_at_def prune_spec_def Let_def intro!: filter_cong)
  also have "\<dots> = (case tx_at D k of None \<Rightarrow> []
      | Some t \<Rightarrow> filter (\<lambda>c. in_window rules to_date (tc_category_id c) (tx_transaction_date t)) (links_at D k))"
  proof (cases "tx_at D k")
    case None
    with parents have "links_at D k = []" by (auto simp: links_at_def filter_empty_conv)
    with None show ?thesis by simp
  next
    case (Some t)
    then show ?thesis using kept_link_at [OF d]
      by (auto simp: links_at_def intro!: filter_cong)
  qed
  finally show "links_at (prune_spec D rules to_date) k = (case tx_at D k of None \<Rightarrow> []
      | Some t \<Rightarrow> filter (\<lambda>c. in_window rules to_date (tc_category_id c) (tx_transaction_date t)) (links_at D k))" .
  show "tx_at (prune_spec D rules to_date) k =
      (if links_at (prune_spec D rules to_date) k = [] then None else tx_at D k)"
    by (auto simp: tx_at_prune) (auto simp: links_at_def prune_spec_def Let_def list_ex_iff filter_empty_conv)
qed

section \<open>The commit\<close>

definition run_rules :: "db \<Rightarrow> refresh_run \<Rightarrow> config_rules" where
  "run_rules db run = rules_for_config db (run_config_version_id run)"

text \<open>Marking the run validated changes nothing publication reads.\<close>

lemma validated_frame:
  "live_row en (validated_run en0 db0 request run) s e = live_row en run s e"
  "live_link (validated_run en0 db0 request run) = live_link run"
  "run_id (validated_run en0 db0 request run) = run_id run"
  "run_mode (validated_run en0 db0 request run) = run_mode run"
  "run_config_version_id (validated_run en0 db0 request run) = run_config_version_id run"
  "run_source_to_date (validated_run en0 db0 request run) = run_source_to_date run"
  by (auto simp: validated_run_def Let_def live_row_def live_link_def fun_eq_iff split: option.splits)

lemma runs_frame:
  "staged_of_run (db\<lparr>refresh_runs := rs\<rparr>) = staged_of_run db" "staged_cats (db\<lparr>refresh_runs := rs\<rparr>) = staged_cats db"
  "tx_at (db\<lparr>refresh_runs := rs\<rparr>) = tx_at db" "links_at (db\<lparr>refresh_runs := rs\<rparr>) = links_at db"
  by (auto simp: staged_of_run_def staged_cats_def tx_at_def links_at_def fun_eq_iff)

lemma published_frame:
  "run_published (db\<lparr>refresh_runs := rs\<rparr>) (validated_run en0 db0 request run) = run_published db run"
  by (simp add: run_published_def validated_frame runs_frame)

lemma commit_publication:
  assumes c: "commit_refresh en rid request db = Inr (v, db')"
    and r: "get_row run_id rid (refresh_runs db) = Some run" "run_state run \<noteq> COMMITTED"
    and I: "config_inv (env_sha256 en) db" and w: "run_source_to_date run = Some to_date"
  obtains d where "transactions db' = transactions (prune_spec d (run_rules db run) to_date)"
    "transaction_categories db' = transaction_categories (prune_spec d (run_rules db run) to_date)"
    "integrity d" "\<forall>s \<in> set (run_published db run). live_links db run s \<noteq> []"
    "\<forall>s \<in> set (staged_of_run db rid). replacement_ok db (staged_of_run db rid) s"
    "run_mode run = FULL \<longrightarrow> transactions d = transactions (full_spec en run db (run_published db run)) \<and>
       transaction_categories d = transaction_categories (full_spec en run db (run_published db run))"
    "run_mode run = INCREMENTAL \<longrightarrow> (\<forall>k. tx_at d k = merged_tx en run db (run_published db run) k \<and>
       links_at d k = merged_links run db (run_published db run) k)"
proof -
  let ?V = "validated_run en db request run"
  let ?e = "db\<lparr>refresh_runs := put_row run_id ?V (refresh_runs db)\<rparr>"
  note run = get_row_SomeD [OF r(1)]
  have g: "integrity db" using I by (simp add: config_inv_def)
  obtain d1 where upd: "update_refresh_run (env_dialect en) run ?V db = Inr ?e" and p: "publish en ?V ?e = Inr d1"
    and t: "transactions db' = transactions d1" "transaction_categories db' = transaction_categories d1"
    by (rule commit_shape [OF c r I w])
  have ge: "integrity ?e" using integrity_update_refresh_run [OF g upd] run by simp
  have wV: "run_source_to_date ?V = Some to_date" by (simp add: validated_frame w)
  obtain d where D: "d1 = prune_spec d (rules_for_config ?e (run_config_version_id ?V)) to_date"
    "\<forall>s \<in> set (run_published ?e ?V). live_links ?e ?V s \<noteq> []"
    "\<forall>s \<in> set (staged_of_run ?e (run_id ?V)). replacement_ok ?e (staged_of_run ?e (run_id ?V)) s"
    "run_mode ?V = FULL \<longrightarrow> d = full_spec en ?V ?e (run_published ?e ?V)"
    "run_mode ?V = INCREMENTAL \<longrightarrow> (\<forall>k. tx_at d k = merged_tx en ?V ?e (run_published ?e ?V) k \<and>
       links_at d k = merged_links ?V ?e (run_published ?e ?V) k)" "integrity d"
    by (rule publish_InrD [OF p ge wV])
  have L: "live_links ?e ?V = live_links db run" by (simp add: fun_eq_iff live_links_def runs_frame validated_frame)
  have M: "merged_tx en ?V ?e ss = merged_tx en run db ss" "merged_links ?V ?e ss = merged_links run db ss" for ss
    by (auto simp: fun_eq_iff merged_tx_def merged_links_def runs_frame validated_frame L split: option.splits)
  have R: "replacement_ok ?e ss s = replacement_ok db ss s" for ss s by (simp add: replacement_ok_def)
  have rules: "rules_for_config ?e (run_config_version_id ?V) = rules_for_config db (run_config_version_id run)"
    by (simp add: validated_frame)
  show thesis
  proof (rule that [of d])
    show "transactions db' = transactions (prune_spec d (run_rules db run) to_date)"
      "transaction_categories db' = transaction_categories (prune_spec d (run_rules db run) to_date)"
      using t D(1) rules by (simp_all add: run_rules_def)
    show "\<forall>s \<in> set (run_published db run). live_links db run s \<noteq> []"
      using D(2) by (simp add: published_frame L)
    show "\<forall>s \<in> set (staged_of_run db rid). replacement_ok db (staged_of_run db rid) s"
      using D(3) run by (simp add: runs_frame validated_frame R)
    show "run_mode run = FULL \<longrightarrow> transactions d = transactions (full_spec en run db (run_published db run)) \<and>
       transaction_categories d = transaction_categories (full_spec en run db (run_published db run))"
      using D(4) by (auto simp: full_spec_def published_frame validated_frame L)
    show "run_mode run = INCREMENTAL \<longrightarrow> (\<forall>k. tx_at d k = merged_tx en run db (run_published db run) k \<and>
       links_at d k = merged_links run db (run_published db run) k)"
      using D(5) unfolding published_frame M validated_frame .
  qed (rule D(6))
qed

end
