(* ===== verification/RefreshExample.thy ===== *)
theory RefreshExample
  imports Example RefreshHistory RefreshWindows
begin

text \<open>
  The run of \<open>Example\<close> continued: a full rebuild of one account is started on the first
  configuration, one batch with one transaction is uploaded, and the run is committed. Each step
  is evaluated on the literal state the step before it left.
\<close>

section \<open>The requests\<close>

definition begin0 :: begin_request where
  "begin0 = \<lparr>br_mode = ''FULL_REBUILD'', br_source_from_date = 739800, br_source_to_date = 739847,
    br_expected_accounts = [''checking'']\<rparr>"

definition coffee :: transaction_upload where
  "coffee = \<lparr>tu_account_id = ''checking'', tu_account_name = None, tu_source_id = ''t1'',
     tu_date = 739846, tu_amount = \<lparr>dec_neg = False, dec_coef = 425, dec_exp = -2\<rparr>,
     tu_currency = ''USD'', tu_categories = [''food''], tu_pending = False, tu_pending_source_id = Some ''p0'',
     tu_name = None, tu_merchant = None, tu_refunded = False,
     tu_refund_amount = \<lparr>dec_neg = False, dec_coef = 0, dec_exp = 0\<rparr>\<rparr>"

definition batch0 :: batch_request where
  "batch0 = \<lparr>bq_idempotency_key = ''batch-000'', bq_transactions = [coffee]\<rparr>"

definition commit0 :: commit_request where
  "commit0 = \<lparr>cq_expected_batch_count = 1, cq_completed_accounts = [''checking'']\<rparr>"

section \<open>The states\<close>

definition run0 :: refresh_run where
  "run0 = \<lparr>run_id = 4001, run_idempotency_key = ''key-0001'', run_request_hash = zeros, run_mode = FULL,
     run_state = CREATED, run_config_version_id = 3001, run_source_from_date = Some 739800,
     run_source_to_date = Some 739847, run_expected_accounts = [''checking''],
     run_completed_accounts = None, run_expected_batch_count = None, run_computed_checksum = None,
     run_sync_revision_before = None, run_received_batch_count = 0, run_actual_item_count = 0,
     run_created_at = 1787140800000000, run_uploaded_at = None, run_validated_at = None,
     run_committed_at = None, run_failed_at = None, run_error_code = None\<rparr>"

definition run1 :: refresh_run where
  "run1 = run0\<lparr>run_state := UPLOADED, run_received_batch_count := 1, run_actual_item_count := 1,
     run_uploaded_at := Some 1787140800000000\<rparr>"

definition run2 :: refresh_run where
  "run2 = run1\<lparr>run_state := COMMITTED, run_completed_accounts := Some [''checking''],
     run_expected_batch_count := Some 1, run_computed_checksum := Some zeros,
     run_validated_at := Some 1787140800000000, run_committed_at := Some 1787140800000000\<rparr>"

definition stored_batch :: refresh_batch where
  "stored_batch = \<lparr>rb_run_id = 4001, rb_batch_index = 0, rb_idempotency_key = ''batch-000'',
     rb_request_hash = zeros, rb_checksum = zeros, rb_item_count = 1\<rparr>"

definition staged_coffee :: staged_transaction where
  "staged_coffee = \<lparr>st_run_id = 4001, st_config_version_id = 3001, st_account_id = ''checking'',
     st_account_name = None, st_source_id = ''t1'', st_batch_index = 0, st_transaction_date = 739846,
     st_amount = 42500, st_currency = ''USD'', st_pending = False, st_merchant = None, st_name = None,
     st_refunded = False, st_refund_amount = 0, st_pending_source_id = Some ''p0'', st_source_hash = zeros\<rparr>"

definition live_coffee :: transaction where
  "live_coffee = \<lparr>tx_account_id = ''checking'', tx_account_name = None, tx_source_id = ''t1'',
     tx_transaction_date = 739846, tx_amount = 42500, tx_currency = ''USD'', tx_pending = False,
     tx_merchant = None, tx_name = None, tx_refunded = False, tx_refund_amount = 0,
     tx_pending_source_id = Some ''p0'', tx_source_hash = zeros, tx_config_version_id = 3001,
     tx_first_refresh_run_id = 4001, tx_last_refresh_run_id = 4001,
     tx_first_seen_at = 1787140800000000, tx_last_seen_at = 1787140800000000\<rparr>"

definition started_db :: db where
  "started_db = db1\<lparr>refresh_runs := [run0]\<rparr>"

definition staged_db :: db where
  "staged_db = db1\<lparr>refresh_runs := [run1], refresh_batches := [stored_batch],
     staged_transactions := [staged_coffee],
     staged_transaction_categories := [\<lparr>sc_run_id = 4001, sc_config_version_id = 3001,
       sc_account_id = ''checking'', sc_source_id = ''t1'', sc_category_id = 1001, sc_rule_version_id = 2001\<rparr>]\<rparr>"

definition live_db :: db where
  "live_db = db1\<lparr>refresh_runs := [run2], refresh_batches := [stored_batch], transactions := [live_coffee],
     transaction_categories := [\<lparr>tc_account_id = ''checking'', tc_source_id = ''t1'', tc_category_id = 1001,
       tc_config_version_id = 3001, tc_rule_version_id = 2001\<rparr>],
     sync_states := [\<lparr>ss_id = 1, ss_config_version_id = 3001, ss_last_refresh_run_id = 4001,
       ss_revision = 1, ss_updated_at = 1787140800000000\<rparr>]\<rparr>"

definition started_view :: begin_response_view where
  "started_view = \<lparr>bv_run_id = 4001, bv_state = CREATED, bv_mode = ''FULL_REBUILD'',
     bv_config_version_id = 3001, bv_config_version = 1,
     bv_rules = [\<lparr>re_category_key = ''food'', re_lookback_days = 30,
       re_classification_instruction = ''groceries'', re_enabled = True, re_rule_version = 1,
       re_rule_hash = zeros\<rparr>], bv_max_batch_items = 500, bv_max_request_bytes = 100000\<rparr>"

definition committed_view :: run_view where
  "committed_view = \<lparr>wv_run_id = 4001, wv_state = COMMITTED, wv_mode = ''FULL_REBUILD'',
     wv_config_version_id = 3001, wv_batch_count = 1, wv_item_count = 1, wv_receipt = Some zeros,
     wv_created_at = 1787140800000000, wv_committed_at = Some 1787140800000000, wv_error_code = None\<rparr>"

section \<open>The steps\<close>

lemma begin_run: "begin_refresh toy_env begin0 ''key-0001'' 500 100000 db1 = Inr (started_view, started_db)"
  by code_simp

text \<open>The size limit of the upload is the size of the batch, so the request just fits.\<close>

definition batch_bytes :: int where
  "batch_bytes = int (length (canonical_json (batch_json batch0)))"

lemma staged_values:
  "money_units (tu_amount coffee) = Some 42500" "money_units (tu_refund_amount coffee) = Some 0"
  "allowed_categories started_db 3001 = [(''food'', 1001, 2001)]"
  "for_each (check_item started_db run0 ''USD'' 739800 739847 [(''food'', 1001, 2001)]) {} [coffee]
    = Inr {(''checking'', ''t1'')}"
  "insert_refresh_batch stored_batch started_db = Inr (started_db\<lparr>refresh_batches := [stored_batch]\<rparr>)"
  by code_simp+

lemma stage_coffee:
  "stage_item toy_env run0 0 [(''food'', 1001, 2001)] (started_db\<lparr>refresh_batches := [stored_batch]\<rparr>) coffee
    = Inr (staged_db\<lparr>refresh_runs := [run0]\<rparr>)"
proof -
  have "staged_row toy_env run0 0 coffee 42500 0 = staged_coffee"
    by (simp add: staged_row_def staged_coffee_def run0_def coffee_def)
  moreover have "bindR (insert_staged_transaction staged_coffee (started_db\<lparr>refresh_batches := [stored_batch]\<rparr>))
      (\<lambda>db. for_each (stage_category run0 [(''food'', 1001, 2001)] coffee) db (tu_categories coffee))
    = Inr (staged_db\<lparr>refresh_runs := [run0]\<rparr>)" by code_simp
  ultimately show ?thesis by (simp add: stage_item_def staged_values)
qed

lemma upload_run: "upload_batch toy_env 4001 0 batch0 500 batch_bytes started_db
    = Inr (\<lparr>uv_run_id = 4001, uv_batch_index = 0, uv_item_count = 1, uv_replayed = False\<rparr>, staged_db)"
proof -
  have run: "get_row run_id 4001 (refresh_runs started_db) = Some run0"
    "get_row rb_key (4001, 0) (refresh_batches started_db) = None"
    "\<not> has_key (\<lambda>b. (rb_run_id b, rb_idempotency_key b)) (4001, bq_idempotency_key batch0) (refresh_batches started_db)"
    "run_state run0 = CREATED" "run_config_version_id run0 = 3001" "run_source_from_date run0 = Some 739800"
    "run_source_to_date run0 = Some 739847" "run_id run0 = 4001"
    by (simp_all add: started_db_def run0_def get_row_def has_key_def db1_def empty_db_def)
  have config: "get_row cv_id 3001 (config_versions started_db) = Some first_config" "cv_display_currency first_config = ''USD''"
    by (simp_all add: started_db_def db1_def first_config_def get_row_def)
  have batch: "\<lparr>rb_run_id = 4001, rb_batch_index = 0, rb_idempotency_key = bq_idempotency_key batch0,
      rb_request_hash = zeros, rb_checksum = zeros, rb_item_count = 1\<rparr> = stored_batch"
    "rb_batch_index stored_batch = 0" "bq_transactions batch0 = [coffee]"
    by (simp_all add: stored_batch_def batch0_def)
  have "update_refresh_run PostgreSQL run0 (uploaded_run toy_env stored_batch run0) (staged_db\<lparr>refresh_runs := [run0]\<rparr>)
      = Inr staged_db" by code_simp
  then have "store_batch toy_env run0 stored_batch [coffee] started_db = Inr staged_db"
    by (simp add: store_batch_def run config staged_values stage_coffee batch del: for_each.simps)
      (simp add: stage_coffee)
  then show ?thesis
    by (simp add: upload_batch_def batch_bytes_def run batch)
      (simp add: batch_response_def stored_batch_def)
qed

lemma commit_example: "commit_refresh toy_env 4001 commit0 staged_db = Inr (committed_view, live_db)"
  by code_simp

section \<open>The history\<close>

lemma steps_taken:
  "sys_step toy_digest empty_db db1" "sys_step toy_digest db1 started_db"
  "sys_step toy_digest started_db staged_db" "sys_step toy_digest staged_db live_db"
proof -
  have e: "env_sha256 toy_env = toy_digest" by simp
  show "sys_step toy_digest empty_db db1" by (rule sys_step.rest_put [OF e food_valid(2) put1])
  show "sys_step toy_digest db1 started_db" by (rule sys_step.start [OF e begin_run])
  show "sys_step toy_digest started_db staged_db" by (rule sys_step.upload [OF e upload_run])
  show "sys_step toy_digest staged_db live_db" by (rule sys_step.commit [OF e commit_example])
qed

lemma history:
  "sys_run toy_digest empty_db db1" "sys_run toy_digest empty_db staged_db" "sys_run toy_digest empty_db live_db"
  "sys_run toy_digest started_db live_db" "sys_run toy_digest staged_db live_db"
proof -
  show 1: "sys_run toy_digest empty_db db1" by (rule sys_run.more [OF sys_run.none steps_taken(1)])
  have "sys_run toy_digest empty_db started_db" by (rule sys_run.more [OF 1 steps_taken(2)])
  then show 2: "sys_run toy_digest empty_db staged_db" by (rule sys_run.more [OF _ steps_taken(3)])
  show "sys_run toy_digest empty_db live_db" by (rule sys_run.more [OF 2 steps_taken(4)])
  show 3: "sys_run toy_digest staged_db live_db" by (rule sys_run.more [OF sys_run.none steps_taken(4)])
  show "sys_run toy_digest started_db live_db"
    by (rule sys_run.more [OF sys_run.more [OF sys_run.none steps_taken(3)] steps_taken(4)])
qed

lemma history_inv: "sys_inv toy_digest db1" "sys_inv toy_digest started_db" "sys_inv toy_digest staged_db"
    "sys_inv toy_digest live_db"
proof -
  show 1: "sys_inv toy_digest db1" by (rule sys_step_inv [OF steps_taken(1) sys_inv_empty])
  show 2: "sys_inv toy_digest started_db" by (rule sys_step_inv [OF steps_taken(2) 1])
  show 3: "sys_inv toy_digest staged_db" by (rule sys_step_inv [OF steps_taken(3) 2])
  show "sys_inv toy_digest live_db" by (rule sys_step_inv [OF steps_taken(4) 3])
qed

section \<open>A second run\<close>

text \<open>Five weeks later: an incremental run that uploads nothing.\<close>

fun later_uuid :: "draw_site \<Rightarrow> uuid" where
  "later_uuid (NewCategory k) = 1002"
| "later_uuid (NewRule k) = 2002"
| "later_uuid NewConfig = 3002"
| "later_uuid NewRun = 4002"

definition later_env :: env where
  "later_env = toy_env\<lparr>env_uuid := later_uuid, env_now := 1789992000000000\<rparr>"

definition begin1 :: begin_request where
  "begin1 = \<lparr>br_mode = ''INCREMENTAL'', br_source_from_date = 739870, br_source_to_date = 739880,
    br_expected_accounts = [''checking'']\<rparr>"

definition commit1 :: commit_request where
  "commit1 = \<lparr>cq_expected_batch_count = 0, cq_completed_accounts = [''checking'']\<rparr>"

definition run3 :: refresh_run where
  "run3 = run0\<lparr>run_id := 4002, run_idempotency_key := ''key-0002'', run_mode := INCREMENTAL,
     run_source_from_date := Some 739870, run_source_to_date := Some 739880,
     run_sync_revision_before := Some 1, run_created_at := 1789992000000000\<rparr>"

definition run4 :: refresh_run where
  "run4 = run3\<lparr>run_state := COMMITTED, run_completed_accounts := Some [''checking''],
     run_expected_batch_count := Some 0, run_computed_checksum := Some zeros,
     run_uploaded_at := Some 1789992000000000, run_validated_at := Some 1789992000000000,
     run_committed_at := Some 1789992000000000\<rparr>"

definition second_db :: db where
  "second_db = live_db\<lparr>refresh_runs := [run2, run3]\<rparr>"

definition empty_window_db :: db where
  "empty_window_db = live_db\<lparr>refresh_runs := [run2, run4], transactions := [], transaction_categories := [],
     sync_states := [\<lparr>ss_id = 1, ss_config_version_id = 3001, ss_last_refresh_run_id = 4002,
       ss_revision = 2, ss_updated_at = 1789992000000000\<rparr>]\<rparr>"

lemma second_begin: "begin_refresh later_env begin1 ''key-0002'' 500 100000 live_db
  = Inr (started_view\<lparr>bv_run_id := 4002, bv_mode := ''INCREMENTAL''\<rparr>, second_db)"
  by code_simp

lemma second_commit: "commit_refresh later_env 4002 commit1 second_db
  = Inr (\<lparr>wv_run_id = 4002, wv_state = COMMITTED, wv_mode = ''INCREMENTAL'', wv_config_version_id = 3001,
      wv_batch_count = 0, wv_item_count = 0, wv_receipt = Some zeros, wv_created_at = 1789992000000000,
      wv_committed_at = Some 1789992000000000, wv_error_code = None\<rparr>, empty_window_db)"
  by code_simp

lemma second_inv: "sys_inv toy_digest second_db"
  by (rule sys_step_inv [OF sys_step.start [OF _ second_begin] history_inv(4)]) (simp add: later_env_def)

section \<open>Two runs at once\<close>

text \<open>A full rebuild is started while the first one is still uploading; the first one commits.\<close>

definition run5 :: refresh_run where
  "run5 = run0\<lparr>run_id := 4002, run_idempotency_key := ''key-0003'', run_created_at := 1789992000000000\<rparr>"

definition race_db :: db where
  "race_db = staged_db\<lparr>refresh_runs := [run1, run5]\<rparr>"

definition won_db :: db where
  "won_db = live_db\<lparr>refresh_runs := [run2, run5]\<rparr>"

lemma race_begin: "begin_refresh later_env begin0 ''key-0003'' 500 100000 staged_db
  = Inr (started_view\<lparr>bv_run_id := 4002\<rparr>, race_db)"
  by code_simp

lemma race_commit: "commit_refresh toy_env 4001 commit0 race_db = Inr (committed_view, won_db)"
  by code_simp

lemma won_run: "sys_run toy_digest empty_db won_db"
proof -
  have e: "env_sha256 later_env = toy_digest" "env_sha256 toy_env = toy_digest" by (simp_all add: later_env_def)
  show ?thesis
    by (rule sys_run.more [OF sys_run.more [OF history(2) sys_step.start [OF e(1) race_begin]]
        sys_step.commit [OF e(2) race_commit]])
qed

end
