(* ===== verification/RefreshTheorems.thy ===== *)
theory RefreshTheorems
  imports RefreshExample
begin

text \<open>
  The properties of the refresh service over histories of requests: the invariant, the chain of
  commits, the three idempotent retries, and what a commit publishes. Each has an evaluation of
  its hypotheses on the run of \<open>RefreshExample\<close>.
\<close>

section \<open>Histories\<close>

text \<open>
  C1: In every database reached from the empty one by any sequence of configuration PUTs, refresh
  starts, batch uploads and commits: the configuration invariant holds; every run's counters
  agree with its batches and staged rows, and a committed run has every batch index, every
  account and nothing staged; the sync revision is the number of committed runs, the last of
  them is the recorded one, and every live transaction was classified under the active
  configuration and has a category.
\<close>

theorem reachable_refresh_inv:
  assumes "sys_run H empty_db db"
  shows "config_inv H db \<and> (\<forall>r \<in> set (refresh_runs db). run_ok db r) \<and> sync_ok db"
  using sys_run_inv [OF assms sys_inv_empty] by (simp add: sys_inv_def refresh_inv_def)

lemma reachable_refresh_inv_witness:
  "config_inv toy_digest live_db \<and> run_ok live_db run2 \<and> sync_ok live_db"
  using reachable_refresh_inv [OF history(3)] by (simp add: live_db_def)

text \<open>
  C2: No lost update. The committed runs form a chain: the revisions they were started at are
  exactly 0 to one below the number of commits, so no two commits were prepared against the
  same revision and each one saw the commit before it.
\<close>

theorem commits_form_chain:
  assumes "sys_run H empty_db db"
  shows "rank ` set (committed_runs db) = {0..<int (length (committed_runs db))}
    \<and> inj_on rank (set (committed_runs db))"
proof -
  have "commit_chain empty_db" by (simp add: commit_chain_def committed_runs_def empty_db_def)
  then have "commit_chain db" by (rule sys_run_chain [OF assms sys_inv_empty])
  then show ?thesis using chain_inj by (simp add: commit_chain_def)
qed

lemma commits_form_chain_witness: "rank ` set (committed_runs live_db) = {0..<1}"
  using commits_form_chain [OF history(3)] by (simp add: committed_runs_def live_db_def run2_def)

section \<open>Idempotent retries\<close>

text \<open>
  C26: Starting a refresh is idempotent under its Idempotency-Key. Once a start has succeeded, a
  later start with the same key, however many requests came between, changes nothing: with the
  same request it answers with the run it started, with another request (another digest) it is
  an idempotency conflict.
\<close>

theorem begin_idempotent:
  assumes first: "begin_refresh en request key n m db = Inr (v, db')" and I: "sys_inv (env_sha256 en) db"
    and later: "sys_run (env_sha256 en) db' db''" and en': "env_sha256 en' = env_sha256 en"
  shows "if sha256_hex (env_sha256 en) (begin_json request') = sha256_hex (env_sha256 en) (begin_json request)
    then \<exists>v'. begin_refresh en' request' key n' m' db'' = Inr (v', db'') \<and> bv_run_id v' = bv_run_id v
    else begin_refresh en' request' key n' m' db'' = Inl IdempotencyConflict"
proof -
  let ?h = "sha256_hex (env_sha256 en) (begin_json request)"
  have I1: "sys_inv (env_sha256 en) db'" by (rule sys_step_inv [OF sys_step.start [OF refl first] I])
  have "\<exists>r. r \<in> set (refresh_runs db') \<and> run_idempotency_key r = key \<and> run_request_hash r = ?h \<and> run_id r = bv_run_id v"
  proof (cases "get_row run_idempotency_key key (refresh_runs db)")
    case (Some e)
    with first have "db' = db" "run_request_hash e = ?h" "bv_run_id v = run_id e"
      by (auto simp: begin_refresh_def replay_begin_def result_simps Let_def begin_response_def)
    with get_row_SomeD [OF Some] show ?thesis by auto
  next
    case None
    obtain target where i: "insert_refresh_run (new_run en request key ?h target (get_sync_state db)) db = Inr db'"
      and v: "v = begin_response db' (new_run en request key ?h target (get_sync_state db)) target n m"
      by (rule begin_new_InrD [OF first None]) blast
    from insert_refresh_run_InrD(1) [OF i] v show ?thesis
      by (intro exI [of _ "new_run en request key ?h target (get_sync_state db)"]) (simp add: begin_response_def)
  qed
  then obtain r where r: "r \<in> set (refresh_runs db')" "run_idempotency_key r = key" "run_request_hash r = ?h"
    "run_id r = bv_run_id v" by blast
  have g1: "integrity db'" using I1 by (simp add: sys_inv_def config_inv_def)
  have "get_row run_id (run_id r) (refresh_runs db') = Some r"
    by (rule get_row_distinct [OF integrity_distinct(4) [OF g1] r(1)])
  then obtain r' where r': "run_identity_unchanged r r'" "get_row run_idempotency_key key (refresh_runs db'') = Some r'"
    by (rule run_found_again [OF _ later I1]) (simp add: r)
  have g2: "integrity db''" using sys_run_inv [OF later I1] by (simp add: sys_inv_def config_inv_def)
  have "r' \<in> set (refresh_runs db'')" using r'(2) by (auto dest: get_row_SomeD)
  then have "run_config_version_id r' \<in> cv_id ` set (config_versions db'')"
    using g2 by (auto simp: integrity_def config_refs_def)
  then obtain c where c: "get_row cv_id (run_config_version_id r') (config_versions db'') = Some c"
    by (cases "get_row cv_id (run_config_version_id r') (config_versions db'')") (auto simp: get_row_None)
  have "run_request_hash r' = ?h" "run_id r' = bv_run_id v" using r'(1) r by (auto simp: run_identity_unchanged_def)
  then show ?thesis
    by (simp add: begin_refresh_def replay_begin_def r'(2) c en' begin_response_def raise_if_def)
qed

lemma begin_idempotent_witness:
  "\<exists>v'. begin_refresh toy_env begin0 ''key-0001'' 500 100000 live_db = Inr (v', live_db) \<and> bv_run_id v' = 4001"
  using begin_idempotent [OF begin_run, of live_db toy_env begin0 500 100000] history(4) history_inv(1)
  by (simp add: started_view_def)

text \<open>
  C27: Uploading a batch is idempotent. Once batch \<open>idx\<close> of a run is stored, a later upload of that
  index within the size limits changes nothing: with the same content (digest of the request and
  of the items) it repeats the stored answer, marked as a replay; with other content it is a
  content conflict.
\<close>

theorem upload_idempotent:
  assumes first: "upload_batch en rid idx request n m db = Inr (v, db')" and I: "sys_inv (env_sha256 en) db"
    and later: "sys_run (env_sha256 en) db' db''" and en': "env_sha256 en' = env_sha256 en"
    and fits: "int (length (bq_transactions request')) \<le> n'"
      "int (length (canonical_json (batch_json request'))) \<le> m'"
  shows "upload_batch en' rid idx request' n' m' db'' =
    (if sha256_hex (env_sha256 en) (batch_json request') = sha256_hex (env_sha256 en) (batch_json request) \<and>
        sha256_hex (env_sha256 en) (JArr (map upload_json (bq_transactions request')))
          = sha256_hex (env_sha256 en) (JArr (map upload_json (bq_transactions request)))
     then Inr (v\<lparr>uv_replayed := True\<rparr>, db'') else Inl BatchContentConflict)"
proof -
  let ?h = "sha256_hex (env_sha256 en) (batch_json request)"
    and ?c = "sha256_hex (env_sha256 en) (JArr (map upload_json (bq_transactions request)))"
  have I1: "sys_inv (env_sha256 en) db'" by (rule sys_step_inv [OF sys_step.upload [OF refl first] I])
  have idx: "0 \<le> idx" using first by (auto simp: upload_batch_def Let_def result_simps)
  obtain b r where b: "get_row rb_key (rid, idx) (refresh_batches db') = Some b" "rb_request_hash b = ?h"
      "rb_checksum b = ?c" "v\<lparr>uv_replayed := True\<rparr> = batch_response b True"
    and r: "get_row run_id rid (refresh_runs db') = Some r"
  proof (cases "get_row rb_key (rid, idx) (refresh_batches db)")
    case (Some e)
    with first have "db' = db" "rb_request_hash e = ?h" "rb_checksum e = ?c" "v = batch_response e True"
      by (auto simp: upload_batch_def Let_def result_simps split: if_splits)
    moreover obtain r where "get_row run_id rid (refresh_runs db) = Some r"
      using first by (auto simp: upload_batch_def Let_def result_simps)
    ultimately show thesis using that [of e r] Some by (simp add: batch_response_def)
  next
    case None
    obtain run where run: "get_row run_id rid (refresh_runs db) = Some run"
      and s: "store_batch en run (batch_of en rid idx request) (bq_transactions request) db = Inr db'"
      and v: "v = batch_response (batch_of en rid idx request) False"
      by (rule upload_new_InrD [OF first None]) blast
    have "rb_key (batch_of en rid idx request) = (rid, idx)" by (simp add: batch_of_def rb_key_def)
    moreover have "refresh_batches db' = refresh_batches db @ [batch_of en rid idx request]"
      by (rule store_batch_InrD [OF s]) simp
    ultimately have "get_row rb_key (rid, idx) (refresh_batches db') = Some (batch_of en rid idx request)"
      using None by (simp add: get_row_append get_row_None)
    moreover have "\<exists>r. get_row run_id rid (refresh_runs db') = Some r"
      by (rule run_found_again [OF run sys_run.more [OF sys_run.none sys_step.upload [OF refl first]] I]) blast
    ultimately show thesis using that v by (auto simp: batch_of_def batch_response_def)
  qed
  have b2: "get_row rb_key (rid, idx) (refresh_batches db'') = Some b"
    by (rule batch_found_again [OF b(1) later I1])
  obtain r' where r2: "get_row run_id rid (refresh_runs db'') = Some r'"
    by (rule run_found_again [OF r later I1])
  show ?thesis
    using fits idx b2 r2 b(2-4) by (simp add: upload_batch_def Let_def en' raise_if_def)
qed

lemma upload_idempotent_witness:
  "upload_batch toy_env 4001 0 batch0 500 batch_bytes live_db
   = Inr (\<lparr>uv_run_id = 4001, uv_batch_index = 0, uv_item_count = 1, uv_replayed = True\<rparr>, live_db)"
  using upload_idempotent [OF upload_run, of live_db toy_env batch0 500 batch_bytes] history(5) history_inv(2)
  by (simp add: batch_bytes_def batch0_def)

text \<open>
  C25: Committing is idempotent. Once a run is committed, a later commit of it changes nothing:
  with the same batch count and accounts it gives the same view and receipt again, with others it
  is a replay conflict.
\<close>

theorem commit_idempotent:
  assumes first: "commit_refresh en rid request db = Inr (v, db')" and I: "sys_inv (env_sha256 en) db"
    and later: "sys_run (env_sha256 en) db' db''"
    and en': "env_sha256 en' = env_sha256 en" "env_dialect en' = env_dialect en"
  shows "commit_refresh en' rid request' db'' =
    (if cq_expected_batch_count request' = cq_expected_batch_count request \<and>
        cq_completed_accounts request' = cq_completed_accounts request
     then Inr (v, db'') else Inl CommitReplayConflict)"
proof -
  have I1: "sys_inv (env_sha256 en) db'" by (rule sys_step_inv [OF sys_step.commit [OF refl first] I])
  obtain r where r: "get_row run_id rid (refresh_runs db') = Some r" "run_state r = COMMITTED"
    "run_expected_batch_count r = Some (cq_expected_batch_count request)"
    "sort (case run_completed_accounts r of None \<Rightarrow> [] | Some a \<Rightarrow> a) = cq_completed_accounts request"
    "v = run_view_of en r"
  proof (cases "\<exists>run. get_row run_id rid (refresh_runs db) = Some run \<and> run_state run \<noteq> COMMITTED")
    case False
    obtain r where r: "get_row run_id rid (refresh_runs db) = Some r"
      using first by (auto simp: commit_refresh_def result_simps)
    with False have c: "run_state r = COMMITTED" by blast
    with first r have rep: "replay_commit en r request db = Inr (v, db')" by (simp add: commit_refresh_def)
    then have "v = run_view_of en r" "db' = db" "run_expected_batch_count r = Some (cq_expected_batch_count request)"
      "sort (case run_completed_accounts r of None \<Rightarrow> [] | Some a \<Rightarrow> a) = cq_completed_accounts request"
      by (simp_all add: replay_commit_def result_simps)
    with that r c show thesis by blast
  next
    case True
    then obtain run where run: "get_row run_id rid (refresh_runs db) = Some run" "run_state run \<noteq> COMMITTED" by blast
    have "run_ok db run" using I get_row_SomeD [OF run(1)] by (auto simp: sys_inv_def refresh_inv_def)
    then obtain to_date where w: "run_source_to_date run = Some to_date" by (auto simp: run_ok_def)
    have c: "config_inv (env_sha256 en) db" using I by (simp add: sys_inv_def)
    obtain comp: "check_complete db run request = Inr ()"
      and rr: "refresh_runs db' = put_row run_id (commit_result en db request run) (refresh_runs db)"
      and v: "v = run_view_of en (commit_result en db request run)"
      by (rule commit_shape [OF first run c w])
    have "rid \<in> run_id ` set (refresh_runs db)" "run_id run = rid" using get_row_SomeD [OF run(1)] by auto
    then have "get_row run_id rid (refresh_runs db') = Some (commit_result en db request run)"
      by (simp add: rr get_row_put_row)
    with v check_complete_InrD(2) [OF comp] show thesis by (intro that) (simp_all add: sorted_sort_id)
  qed
  obtain r' where "get_row run_id rid (refresh_runs db'') = Some r'" "r' = r"
    by (rule run_found_again [OF r(1) later I1]) (use r(2) in blast)
  moreover have "run_view_of en' r = run_view_of en r" by (auto simp: run_view_of_def en' split: option.splits)
  ultimately show ?thesis
    using r(2-5) by (auto simp: commit_refresh_def replay_commit_def raise_if_def)
qed

lemma commit_idempotent_witness:
  "commit_refresh toy_env 4001 commit0 live_db = Inr (committed_view, live_db)"
  using commit_idempotent [OF commit_example, of live_db toy_env commit0] history_inv(3) sys_run.none
  by simp

section \<open>What a commit publishes\<close>

text \<open>
  C3: A full rebuild replaces everything. After the commit of a FULL run the live transactions
  are, in staging order, exactly the run's staged transactions that no other staged transaction
  replaces and that lie within the look-back window of at least one of their categories; each
  keeps exactly the category links that are still within their window; and nothing of the run
  stays staged.
\<close>

theorem full_commit_publishes:
  assumes c: "commit_refresh en rid request db = Inr (v, db')"
    and r: "get_row run_id rid (refresh_runs db) = Some run" "run_state run \<noteq> COMMITTED" "run_mode run = FULL"
    and w: "run_source_to_date run = Some to_date" and I: "config_inv (env_sha256 en) db"
  shows "transactions db' = map (\<lambda>s. live_row en run s None)
      (filter (\<lambda>s. kept_cats db (run_rules db run) to_date rid s \<noteq> []) (run_published db run)) \<and>
    transaction_categories db' = concat (map (\<lambda>s. map (live_link run s) (kept_cats db (run_rules db run) to_date rid s))
      (run_published db run)) \<and>
    staged_of_run db' rid = []"
proof (intro conjI)
  note run = get_row_SomeD [OF r(1)]
  let ?F = "full_spec en run db (run_published db run)"
  obtain d where d: "transactions db' = transactions (prune_spec d (run_rules db run) to_date)"
    "transaction_categories db' = transaction_categories (prune_spec d (run_rules db run) to_date)"
    and F: "run_mode run = FULL \<longrightarrow> transactions d = transactions ?F \<and> transaction_categories d = transaction_categories ?F"
    by (rule commit_publication [OF c r(1,2) I w])
  have "distinct (map st_identity (staged_of_run db (run_id run)))"
    using I staged_identity_distinct by (simp add: config_inv_def)
  then have D: "distinct (map st_identity (run_published db run))"
    by (simp add: run_published_def published_def distinct_map_filter)
  have same: "transactions (prune_spec d rs n) = transactions (prune_spec ?F rs n)"
    "transaction_categories (prune_spec d rs n) = transaction_categories (prune_spec ?F rs n)" for rs n
    using F r(3) by (simp_all add: prune_spec_def Let_def kept_link_def [abs_def])
  show "transactions db' = map (\<lambda>s. live_row en run s None)
      (filter (\<lambda>s. kept_cats db (run_rules db run) to_date rid s \<noteq> []) (run_published db run))"
    "transaction_categories db' = concat (map (\<lambda>s. map (live_link run s) (kept_cats db (run_rules db run) to_date rid s))
      (run_published db run))"
    using full_pruned [OF D, of en run db] run by (simp_all add: d same)
  have "staged_transactions db' = drop_rows (\<lambda>s. st_run_id s = rid) (staged_transactions db)"
    by (rule commit_shape [OF c r(1,2) I w])
  then show "staged_of_run db' rid = []" by (auto simp: staged_of_run_def drop_rows_def filter_empty_conv)
qed

lemma full_commit_publishes_witness:
  "transactions live_db = map (\<lambda>s. live_row toy_env run1 s None)
     (filter (\<lambda>s. kept_cats staged_db (run_rules staged_db run1) 739847 4001 s \<noteq> []) (run_published staged_db run1)) \<and>
   map tx_amount (transactions live_db) = [42500]"
proof
  have run: "get_row run_id 4001 (refresh_runs staged_db) = Some run1" "run_state run1 \<noteq> COMMITTED" "run_mode run1 = FULL"
    "run_source_to_date run1 = Some 739847"
    by (simp_all add: staged_db_def get_row_def run1_def run0_def)
  have "config_inv (env_sha256 toy_env) staged_db" using history_inv(3) by (simp add: sys_inv_def)
  from full_commit_publishes [OF commit_example run this]
  show "transactions live_db = map (\<lambda>s. live_row toy_env run1 s None)
     (filter (\<lambda>s. kept_cats staged_db (run_rules staged_db run1) 739847 4001 s \<noteq> []) (run_published staged_db run1))" by blast
qed (simp add: live_db_def live_coffee_def)

text \<open>
  C4: An incremental refresh merges. After the commit of an INCREMENTAL run every transaction
  identity holds: the new row with its category links, if the run published it (keeping when and
  by which run it was first seen); nothing, if a published transaction replaces it; what it held
  before otherwise. Of these, links older than their category's window are dropped, and
  transactions left without a link with them. So an incremental refresh does delete transactions
  that it does not mention, once they leave their windows, where the README
  (\<open>README.md\<close>, lines 106-108) says that incremental absence never deletes one.
\<close>

theorem incremental_commit_merges:
  assumes c: "commit_refresh en rid request db = Inr (v, db')"
    and r: "get_row run_id rid (refresh_runs db) = Some run" "run_state run \<noteq> COMMITTED" "run_mode run = INCREMENTAL"
    and w: "run_source_to_date run = Some to_date" and I: "config_inv (env_sha256 en) db"
  shows "links_at db' k = (case merged_tx en run db (run_published db run) k of None \<Rightarrow> []
      | Some t \<Rightarrow> filter (\<lambda>c. in_window (run_rules db run) to_date (tc_category_id c) (tx_transaction_date t))
          (merged_links run db (run_published db run) k)) \<and>
    tx_at db' k = (if links_at db' k = [] then None else merged_tx en run db (run_published db run) k)"
proof -
  obtain d where d: "transactions db' = transactions (prune_spec d (run_rules db run) to_date)"
    "transaction_categories db' = transaction_categories (prune_spec d (run_rules db run) to_date)"
    and g: "integrity d"
    and M: "run_mode run = INCREMENTAL \<longrightarrow> (\<forall>k. tx_at d k = merged_tx en run db (run_published db run) k \<and>
       links_at d k = merged_links run db (run_published db run) k)"
    by (rule commit_publication [OF c r(1,2) I w])
  have "\<forall>c \<in> set (transaction_categories d). tx_at d (tc_tx_key c) \<noteq> None"
  proof (intro ballI notI)
    fix x assume x: "x \<in> set (transaction_categories d)" and "tx_at d (tc_tx_key x) = None"
    from no_orphan_links [OF g this(2)] x show False by (auto simp: links_at_def filter_empty_conv)
  qed
  note P = merged_pruned [OF integrity_distinct(9) [OF g] this, of "run_rules db run" to_date k]
  have at: "tx_at db' k = tx_at (prune_spec d (run_rules db run) to_date) k"
    "links_at db' k = links_at (prune_spec d (run_rules db run) to_date) k"
    by (simp_all add: tx_at_def links_at_def d)
  have m: "tx_at d k = merged_tx en run db (run_published db run) k" "links_at d k = merged_links run db (run_published db run) k"
    using M r(3) by blast+
  show ?thesis using P unfolding at m by (rule conjI)
qed

text \<open>Two weeks later the one transaction has left its window: an empty incremental refresh drops it.\<close>

lemma incremental_commit_merges_witness:
  "tx_at live_db (''checking'', ''t1'') = Some live_coffee \<and> tx_at empty_window_db (''checking'', ''t1'') = None"
proof
  have run: "get_row run_id 4002 (refresh_runs second_db) = Some run3" "run_state run3 \<noteq> COMMITTED"
    "run_mode run3 = INCREMENTAL" "run_source_to_date run3 = Some 739880"
    by (simp_all add: second_db_def get_row_def run3_def run2_def run1_def run0_def)
  have "config_inv (env_sha256 later_env) second_db" using second_inv by (simp add: sys_inv_def later_env_def)
  from incremental_commit_merges [OF second_commit run this, of "(''checking'', ''t1'')"]
  show "tx_at empty_window_db (''checking'', ''t1'') = None"
    by (simp add: links_at_def empty_window_db_def)
qed (simp add: tx_at_def live_db_def live_coffee_def get_row_def tx_key_def)

section \<open>Pending transactions that settled\<close>

text \<open>
  C23: A settled transaction replaces its pending one. When a run commits, every staged
  transaction that names a pending predecessor is itself settled, names another identity, and
  names one that was pending wherever it is known (staged or live); and the predecessor is no
  live transaction after the commit.
\<close>

theorem replaced_pending_is_gone:
  assumes c: "commit_refresh en rid request db = Inr (v, db')"
    and r: "get_row run_id rid (refresh_runs db) = Some run" "run_state run \<noteq> COMMITTED"
    and I: "sys_inv (env_sha256 en) db"
    and s: "s \<in> set (staged_of_run db rid)" "st_pending_source_id s = Some p"
  shows "\<not> st_pending s \<and> p \<noteq> st_source_id s \<and>
    (case get_row st_identity (st_account_id s, p) (staged_of_run db rid) of None \<Rightarrow> True | Some t \<Rightarrow> st_pending t) \<and>
    (case tx_at db (st_account_id s, p) of None \<Rightarrow> True | Some t \<Rightarrow> tx_pending t) \<and>
    tx_at db' (st_account_id s, p) = None"
proof -
  let ?k = "(st_account_id s, p)" and ?ss = "staged_of_run db rid"
  have run: "run_id run = rid" using get_row_SomeD [OF r(1)] by simp
  have J: "config_inv (env_sha256 en) db" and "run_ok db run"
    using I get_row_SomeD [OF r(1)] by (auto simp: sys_inv_def refresh_inv_def)
  then obtain to_date where w: "run_source_to_date run = Some to_date" by (auto simp: run_ok_def)
  obtain d where d: "transactions db' = transactions (prune_spec d (run_rules db run) to_date)"
    and ok: "\<forall>s \<in> set ?ss. replacement_ok db ?ss s"
    and F: "run_mode run = FULL \<longrightarrow> transactions d = transactions (full_spec en run db (run_published db run)) \<and>
       transaction_categories d = transaction_categories (full_spec en run db (run_published db run))"
    and M: "run_mode run = INCREMENTAL \<longrightarrow> (\<forall>k. tx_at d k = merged_tx en run db (run_published db run) k \<and>
       links_at d k = merged_links run db (run_published db run) k)"
    by (rule commit_publication [OF c r J w])
  have k: "replaced_by s = Some ?k" using s(2) by (simp add: replaced_by_def)
  have no: "st_identity x \<noteq> ?k" if "x \<in> set (run_published db run)" for x
    using that s(1) k run by (auto simp: run_published_def published_def replaced_def list_ex_iff)
  have one: "find (\<lambda>s. st_identity s = ?k) (run_published db run) = None"
    using no by (auto simp: find_None_iff)
  have "?k \<in> replaced (run_published db run)"
  proof -
    have D: "distinct (map st_identity ?ss)" using J staged_identity_distinct by (simp add: config_inv_def)
    have "st_identity s \<notin> replaced ?ss" by (rule replacing_published [OF ok D s(1)]) (simp add: k)
    then have "s \<in> set (run_published db run)" using s(1) run by (simp add: run_published_def published_def)
    with k show ?thesis by (auto simp: replaced_def list_ex_iff)
  qed
  then have "tx_at d ?k = None"
  proof (cases "run_mode run")
    case FULL
    with F have "transactions d = map (\<lambda>s. live_row en run s None) (run_published db run)" by (simp add: full_spec_def)
    moreover have "?k \<notin> st_identity ` set (run_published db run)" using no by fastforce
    ultimately show ?thesis by (simp add: tx_at_def get_row_None image_image)
  next
    case INCREMENTAL
    then have "tx_at d ?k = merged_tx en run db (run_published db run) ?k" using M by blast
    then show ?thesis using one \<open>?k \<in> replaced (run_published db run)\<close> by (simp add: merged_tx_def)
  qed
  then have "tx_at db' ?k = None" using tx_at_prune [of d "run_rules db run" to_date ?k] by (simp add: tx_at_def d)
  moreover have "replacement_ok db ?ss s" using ok s(1) by blast
  ultimately show ?thesis using k by (simp add: replacement_ok_def st_identity_def tx_at_def)
qed

text \<open>The coffee of the example names \<open>p0\<close>, which no upload contained.\<close>

lemma replaced_pending_is_gone_witness:
  "st_pending_source_id staged_coffee = Some ''p0'' \<and> \<not> st_pending staged_coffee \<and> tx_at live_db (''checking'', ''p0'') = None"
proof -
  have run: "get_row run_id 4001 (refresh_runs staged_db) = Some run1" "run_state run1 \<noteq> COMMITTED"
    by (simp_all add: staged_db_def get_row_def run1_def run0_def)
  have s: "staged_coffee \<in> set (staged_of_run staged_db 4001)" "st_pending_source_id staged_coffee = Some ''p0''"
    "st_account_id staged_coffee = ''checking''"
    by (simp_all add: staged_of_run_def staged_db_def staged_coffee_def)
  have "sys_inv (env_sha256 toy_env) staged_db" using history_inv(3) by simp
  from replaced_pending_is_gone [OF commit_example run this s(1,2)] s show ?thesis by simp
qed

section \<open>Activation\<close>

text \<open>
  C24: A commit activates what it was classified under. After the commit of a run its
  configuration is the one active version and no version is pending; every other version is
  superseded.
\<close>

theorem commit_activates:
  assumes c: "commit_refresh en rid request db = Inr (v, db')"
    and r: "get_row run_id rid (refresh_runs db) = Some run" "run_state run \<noteq> COMMITTED"
    and I: "sys_inv (env_sha256 en) db"
  shows "(\<exists>a. active_version db' = Some a \<and> cv_id a = run_config_version_id run) \<and> pending_version db' = None \<and>
    (\<forall>x \<in> set (config_versions db'). cv_id x \<noteq> run_config_version_id run \<longrightarrow> cv_status x = SUPERSEDED)"
proof -
  have J: "config_inv (env_sha256 en) db" and "run_ok db run"
    using I get_row_SomeD [OF r(1)] by (auto simp: sys_inv_def refresh_inv_def)
  then obtain to_date where w: "run_source_to_date run = Some to_date" by (auto simp: run_ok_def)
  obtain config where t: "check_target db run = Inr config"
    and a: "\<exists>a. active_version db' = Some a \<and> cv_id a = cv_id config"
    and vs: "config_versions db' = (if cv_status config = PENDING then map (activate_row en config) (config_versions db)
      else config_versions db)"
    and J': "config_inv (env_sha256 en) db'"
    by (rule commit_shape [OF c r J w])
  note T = check_target_InrD [OF t]
  have cfg: "config \<in> set (config_versions db)" "cv_id config = run_config_version_id run"
    using get_row_SomeD [OF T(1)] by auto
  have st: "status_inv db" "status_inv db'" using J J' by (simp_all add: config_inv_def)
  have idinj: "x = config" if "x \<in> set (config_versions db)" "cv_id x = cv_id config" for x
  proof -
    have "inj_on cv_id (set (config_versions db))" using J integrity_inj(4) by (simp add: config_inv_def)
    then show ?thesis using that cfg(1) by (simp add: inj_on_def)
  qed
  have none: "cv_status x \<noteq> PENDING" if x: "x \<in> set (config_versions db')" for x
  proof (cases "cv_status config = PENDING")
    case True
    from x True vs obtain y where y: "y \<in> set (config_versions db)" "x = activate_row en config y" by auto
    show ?thesis
    proof
      assume "cv_status x = PENDING"
      with y have "cv_status y = PENDING" "y \<noteq> config"
        by (auto simp: activate_row_def activated_def supersede_def split: if_splits)
      with y(1) cfg(1) True st(1) show False unfolding status_inv_def by blast
    qed
  next
    case False
    have "pending_version db = None"
    proof (cases "run_mode run")
      case FULL
      with T(5) have "pending_version db = None \<or> (\<exists>p. pending_version db = Some p \<and> cv_id p = cv_id config)"
        by (auto simp: current_target_def active_and_pending_def split: option.splits)
      with False idinj show ?thesis by (auto dest!: pending_version_SomeD)
    next
      case INCREMENTAL
      then show ?thesis by (rule T(4))
    qed
    then have "sort_key (\<lambda>c. - cv_version c) (filter (\<lambda>c. cv_status c = PENDING) (config_versions db)) = []"
      by (simp add: pending_version_def first_of_def split: list.splits)
    then have "set (filter (\<lambda>c. cv_status c = PENDING) (config_versions db)) = {}"
      by (metis list.set(1) set_sort)
    then have "\<forall>y \<in> set (config_versions db). cv_status y \<noteq> PENDING" by auto
    with x vs False show ?thesis by simp
  qed
  from a obtain b where b: "active_version db' = Some b" "cv_id b = cv_id config" by blast
  then have B: "b \<in> set (config_versions db')" "cv_status b = ACTIVE" by (auto dest: active_version_SomeD)
  have "cv_status x = SUPERSEDED" if "x \<in> set (config_versions db')" "cv_id x \<noteq> cv_id config" for x
  proof -
    have "cv_status x \<noteq> ACTIVE" using st(2) B that b(2) unfolding status_inv_def by blast
    with none [OF that(1)] show ?thesis by (cases "cv_status x") auto
  qed
  moreover have "pending_version db' = None"
    using none by (simp add: pending_version_def first_of_def filter_False)
  ultimately show ?thesis using b cfg(2) by auto
qed

lemma commit_activates_witness:
  "\<exists>a. active_version live_db = Some a \<and> cv_id a = 3001"
proof -
  have run: "get_row run_id 4001 (refresh_runs staged_db) = Some run1" "run_state run1 \<noteq> COMMITTED"
    "run_config_version_id run1 = 3001"
    by (simp_all add: staged_db_def get_row_def run1_def run0_def)
  have "sys_inv (env_sha256 toy_env) staged_db" using history_inv(3) by simp
  from commit_activates [OF commit_example run(1,2) this] run(3) show ?thesis by simp
qed

text \<open>
  C28: A stale run never commits. In a reachable database an uncommitted run, started before the last
  commit, that is, at a revision below the number of committed runs, cannot be committed: the
  request is refused whatever it says.
\<close>

theorem stale_run_refused:
  assumes "sys_run H empty_db db" and "get_row run_id rid (refresh_runs db) = Some run" and "run_state run \<noteq> COMMITTED"
    and "rank run < int (length (committed_runs db))"
  shows "\<exists>e. commit_refresh en rid request db = Inl e"
proof (cases "commit_refresh en rid request db")
  case (Inr x)
  then obtain v db' where c: "commit_refresh en rid request db = Inr (v, db')" by (cases x) auto
  have "sync_ok db" using sys_run_inv [OF assms(1) sys_inv_empty] by (simp add: sys_inv_def refresh_inv_def)
  moreover have "map_option ss_revision (get_sync_state db) = run_sync_revision_before run"
    by (rule commit_InrD [OF c assms(2,3)]) (auto dest: check_current_InrD(1))
  ultimately show ?thesis using sync_rank [of db run] assms(4) by simp
qed auto

lemma stale_run_refused_witness: "\<exists>e. commit_refresh later_env 4002 commit1 won_db = Inl e"
proof (rule stale_run_refused [OF won_run])
  show "get_row run_id 4002 (refresh_runs won_db) = Some run5" "run_state run5 \<noteq> COMMITTED"
    by (simp_all add: won_db_def get_row_def run5_def run2_def run1_def run0_def)
  show "rank run5 < int (length (committed_runs won_db))"
    by (simp add: rank_def run5_def run0_def committed_runs_def won_db_def run2_def)
qed

end
