(* ===== verification/Contracts.thy ===== *)
theory Contracts
  imports PyLib
begin

text \<open>
  The contract of a service on a shared state: it answers a request and gives the next state, it
  changes the state only for a request it authorises, and only by a step of a given relation.
  The lemmas hold for every such service, and for two of them served in any order.
\<close>

section \<open>Histories\<close>

definition serve_all :: "('r \<Rightarrow> 'd \<Rightarrow> 'a \<times> 'd) \<Rightarrow> 'r list \<Rightarrow> 'd \<Rightarrow> 'd" where
  "serve_all serve rs d = fold (\<lambda>r d. snd (serve r d)) rs d"

lemma serve_all_simps [simp]:
  "serve_all serve [] d = d" "serve_all serve (r # rs) d = serve_all serve rs (snd (serve r d))"
  by (simp_all add: serve_all_def)

text \<open>Two services on one state; a request names the service it is for.\<close>

definition serve_either ::
    "('r \<Rightarrow> 'd \<Rightarrow> 'a \<times> 'd) \<Rightarrow> ('q \<Rightarrow> 'd \<Rightarrow> 'b \<times> 'd) \<Rightarrow> 'r + 'q \<Rightarrow> 'd \<Rightarrow> ('a + 'b) \<times> 'd" where
  "serve_either serve1 serve2 r d = (case r of
     Inl x \<Rightarrow> map_prod Inl id (serve1 x d) | Inr y \<Rightarrow> map_prod Inr id (serve2 y d))"

section \<open>The contract\<close>

locale service =
  fixes serve :: "'r \<Rightarrow> 'd \<Rightarrow> 'a \<times> 'd"
    and wf :: "'r \<Rightarrow> bool"
    and may_write :: "'r \<Rightarrow> bool"
    and step :: "'d \<Rightarrow> 'd \<Rightarrow> bool"
  assumes writes: "wf r \<Longrightarrow> serve r d = (a, d') \<Longrightarrow> d' \<noteq> d \<Longrightarrow> may_write r \<and> step d d'"
begin

lemma refused [simp]: "wf r \<Longrightarrow> \<not> may_write r \<Longrightarrow> snd (serve r d) = d"
  using writes by (cases "serve r d") auto

lemma one_step: "wf r \<Longrightarrow> step\<^sup>*\<^sup>* d (snd (serve r d))"
  using writes [of r d] by (cases "serve r d"; cases "snd (serve r d) = d") auto

lemma served_steps: "list_all wf rs \<Longrightarrow> step\<^sup>*\<^sup>* d (serve_all serve rs d)"
proof (induction rs arbitrary: d)
  case (Cons r rs)
  then show ?case using one_step [of r d] by (simp, blast intro: rtranclp_trans)
qed simp

lemma served_inv:
  assumes "list_all wf rs" and "I d" and "\<And>d d'. step d d' \<Longrightarrow> I d \<Longrightarrow> I d'"
  shows "I (serve_all serve rs d)"
  using served_steps [OF assms(1), of d] assms(2) by (induction rule: rtranclp_induct) (auto intro: assms(3))

lemma only_authorised: "list_all wf rs \<Longrightarrow> serve_all serve rs d = serve_all serve (filter may_write rs) d"
  by (induction rs arbitrary: d) auto

lemma unauthorised: "list_all wf rs \<Longrightarrow> list_all (\<lambda>r. \<not> may_write r) rs \<Longrightarrow> serve_all serve rs d = d"
  by (induction rs) auto

end

locale two_services = one: service serve1 wf1 may1 step + two: service serve2 wf2 may2 step
  for serve1 :: "'r \<Rightarrow> 'd \<Rightarrow> 'a \<times> 'd" and wf1 may1 and step :: "'d \<Rightarrow> 'd \<Rightarrow> bool"
    and serve2 :: "'q \<Rightarrow> 'd \<Rightarrow> 'b \<times> 'd" and wf2 may2

sublocale two_services \<subseteq> both: service "serve_either serve1 serve2" "case_sum wf1 wf2" "case_sum may1 may2" step
proof (standard, goal_cases)
  case (1 r d a d')
  show ?case
  proof (cases r)
    case (Inl x)
    with 1 have "wf1 x" "serve1 x d = (fst (serve1 x d), d')" by (auto simp: serve_either_def prod_eq_iff)
    with one.writes [of x d _ d'] 1(3) Inl show ?thesis by simp
  next
    case (Inr y)
    with 1 have "wf2 y" "serve2 y d = (fst (serve2 y d), d')" by (auto simp: serve_either_def prod_eq_iff)
    with two.writes [of y d _ d'] 1(3) Inr show ?thesis by simp
  qed
qed

end
