(* ===== verification/Urls.thy ===== *)
theory Urls
  imports OAuthService
begin

text \<open>
  \<open>urllib.parse.urlsplit\<close> and \<open>urlunsplit\<close> as the settings, the OAuth configuration, the OAuth
  endpoints and the MCP server use them. Whether the library accepts the text between the
  brackets of an IPv6 host is the argument \<open>bracket_ok\<close>.
\<close>

section \<open>Splitting text\<close>

text \<open>\<open>str.partition\<close> and \<open>str.rpartition\<close> at one character.\<close>

definition partition_at :: "char \<Rightarrow> string \<Rightarrow> string \<times> bool \<times> string" where
  "partition_at c s = (takeWhile (\<lambda>x. x \<noteq> c) s, c \<in> set s, drop 1 (dropWhile (\<lambda>x. x \<noteq> c) s))"

definition rpartition_at :: "char \<Rightarrow> string \<Rightarrow> string \<times> bool \<times> string" where
  "rpartition_at c s = (case partition_at c (rev s) of (a, found, b) \<Rightarrow> (rev b, found, rev a))"

definition ascii_alpha :: "char \<Rightarrow> bool" where
  "ascii_alpha c \<longleftrightarrow> char_in (CHR ''A'') (CHR ''Z'') c \<or> char_in (CHR ''a'') (CHR ''z'') c"

definition ascii_digit :: "char \<Rightarrow> bool" where
  "ascii_digit c \<longleftrightarrow> char_in (CHR ''0'') (CHR ''9'') c"

definition scheme_char :: "char \<Rightarrow> bool" where
  "scheme_char c \<longleftrightarrow> ascii_alpha c \<or> ascii_digit c \<or> c \<in> {CHR ''+'', CHR ''-'', CHR ''.''}"

text \<open>\<open>str.lower\<close> below code point 256.\<close>

definition lower_char :: "char \<Rightarrow> char" where
  "lower_char c = (let n = of_char c :: nat in
     if 65 \<le> n \<and> n \<le> 90 \<or> 192 \<le> n \<and> n \<le> 222 \<and> n \<noteq> 215 then char_of (n + 32) else c)"

definition lower :: "string \<Rightarrow> string" where
  "lower s = map lower_char s"

text \<open>\<open>str.strip()\<close>: unlike pydantic's, it also removes the four separators below the space.\<close>

definition py_space :: "char \<Rightarrow> bool" where
  "py_space c \<longleftrightarrow> is_space c \<or> (of_char c :: int) \<in> {28..31}"

definition py_strip :: "string \<Rightarrow> string" where
  "py_strip = strip_chars py_space"

section \<open>Integers\<close>

text \<open>
  \<open>int()\<close> of a text: white space around, a sign, ASCII digits with single underscores between
  them.
\<close>

fun digits_value :: "bool \<Rightarrow> int \<Rightarrow> string \<Rightarrow> int option" where
  "digits_value after_digit n [] = (if after_digit then Some n else None)"
| "digits_value after_digit n (c # cs) =
     (if ascii_digit c then digits_value True (10 * n + (of_char c - 48)) cs
      else if c = CHR ''_'' \<and> after_digit then digits_value False n cs
      else None)"

definition py_int :: "string \<Rightarrow> int option" where
  "py_int text = (case py_strip text of
     [] \<Rightarrow> None
   | c # cs \<Rightarrow> if c = CHR ''-'' then map_option uminus (digits_value False 0 cs)
       else if c = CHR ''+'' then digits_value False 0 cs
       else digits_value False 0 (c # cs))"

section \<open>urlsplit\<close>

record split_result =
  us_scheme :: string
  us_netloc :: string
  us_path :: string
  us_query :: string
  us_fragment :: string

definition url_clean :: "string \<Rightarrow> string" where
  "url_clean s = filter (\<lambda>c. c \<notin> {CHR 0x09, CHR 0x0A, CHR 0x0D}) (dropWhile (\<lambda>c. (of_char c :: nat) \<le> 32) s)"

definition take_scheme :: "string \<Rightarrow> string \<times> string" where
  "take_scheme url = (case partition_at (CHR '':'') url of (before, found, after) \<Rightarrow>
     if found \<and> before \<noteq> [] \<and> ascii_alpha (hd before) \<and> list_all scheme_char before
     then (lower before, after) else ([], url))"

definition netloc_end :: "char \<Rightarrow> bool" where
  "netloc_end c \<longleftrightarrow> c \<in> {CHR ''/'', CHR ''?'', CHR ''#''}"

definition take_netloc :: "string \<Rightarrow> string \<times> string" where
  "take_netloc url =
     (if take 2 url = ''//'' then (takeWhile (\<lambda>c. \<not> netloc_end c) (drop 2 url), dropWhile (\<lambda>c. \<not> netloc_end c) (drop 2 url))
      else ([], url))"

definition urlsplit :: "(string \<Rightarrow> bool) \<Rightarrow> string \<Rightarrow> split_result res" where
  "urlsplit bracket_ok url =
     (case take_scheme (url_clean url) of (scheme, rest) \<Rightarrow>
      case take_netloc rest of (netloc, rest) \<Rightarrow>
        bindR (raise_if ((CHR ''['' \<in> set netloc) \<noteq> (CHR '']'' \<in> set netloc)) ValueError) (\<lambda>_.
        bindR (raise_if (CHR ''['' \<in> set netloc \<and> \<not> bracket_ok netloc) ValueError) (\<lambda>_.
        case partition_at (CHR ''#'') rest of (rest, _, fragment) \<Rightarrow>
        case partition_at (CHR ''?'') rest of (path, _, query) \<Rightarrow>
          Inr \<lparr>us_scheme = scheme, us_netloc = netloc, us_path = path, us_query = query,
               us_fragment = fragment\<rparr>)))"

text \<open>\<open>SplitResult.username\<close>, \<open>.password\<close> and \<open>.hostname\<close>.\<close>

definition url_username :: "split_result \<Rightarrow> string option" where
  "url_username u = (case rpartition_at (CHR ''@'') (us_netloc u) of (userinfo, have_info, _) \<Rightarrow>
     if have_info then Some (fst (partition_at (CHR '':'') userinfo)) else None)"

definition url_password :: "split_result \<Rightarrow> string option" where
  "url_password u = (case rpartition_at (CHR ''@'') (us_netloc u) of (userinfo, have_info, _) \<Rightarrow>
     if have_info then (case partition_at (CHR '':'') userinfo of (_, have_password, password) \<Rightarrow>
       if have_password then Some password else None) else None)"

definition url_hostname :: "split_result \<Rightarrow> string option" where
  "url_hostname u =
     (let hostinfo = snd (snd (rpartition_at (CHR ''@'') (us_netloc u)));
          host = (case partition_at (CHR ''['') hostinfo of (_, have_open_br, bracketed) \<Rightarrow>
            if have_open_br then fst (partition_at (CHR '']'') bracketed)
            else fst (partition_at (CHR '':'') hostinfo))
      in if host = [] then None
         else case partition_at (CHR ''%'') host of (name, percent, zone) \<Rightarrow>
           Some (lower name @ (if percent then ''%'' else []) @ zone))"

text \<open>\<open>urlunsplit\<close> of a result with a network location.\<close>

definition urlunsplit :: "string \<Rightarrow> string \<Rightarrow> string \<Rightarrow> string \<Rightarrow> string" where
  "urlunsplit scheme netloc path query =
     (if scheme = [] then [] else scheme @ '':'') @ ''//'' @ netloc @
     (if path \<noteq> [] \<and> hd path \<noteq> CHR ''/'' then ''/'' @ path else path) @
     (if query = [] then [] else ''?'' @ query)"

section \<open>Exact origins\<close>

text \<open>The three checks the source repeats: no credentials, no path, no query, no fragment.\<close>

definition exact_origin :: "split_result \<Rightarrow> bool" where
  "exact_origin u \<longleftrightarrow> us_netloc u \<noteq> [] \<and> url_username u = None \<and> url_password u = None \<and>
     us_path u \<in> {[], ''/''} \<and> us_query u = [] \<and> us_fragment u = []"

definition loopback_http :: "split_result \<Rightarrow> bool" where
  "loopback_http u \<longleftrightarrow> us_scheme u = ''http'' \<and>
     url_hostname u \<in> {Some ''127.0.0.1'', Some ''::1'', Some ''localhost''}"

section \<open>Facts\<close>

lemma partition_at_absent: "c \<notin> set s \<Longrightarrow> partition_at c s = (s, False, [])"
proof -
  assume "c \<notin> set s"
  then have e: "takeWhile (\<lambda>x. x \<noteq> c) s = s" "dropWhile (\<lambda>x. x \<noteq> c) s = []"
    by (auto simp: takeWhile_eq_all_conv dropWhile_eq_Nil_conv)
  show ?thesis unfolding partition_at_def e using \<open>c \<notin> set s\<close> by simp
qed

lemma takeWhile_netloc: "\<forall>c \<in> set n. \<not> netloc_end c \<Longrightarrow>
    takeWhile (\<lambda>c. \<not> netloc_end c) n = n \<and> dropWhile (\<lambda>c. \<not> netloc_end c) n = []"
  by (auto simp: takeWhile_eq_all_conv dropWhile_eq_Nil_conv)

lemma scheme_facts:
  assumes "s \<in> {''http'', ''https''}"
  shows "take_scheme (s @ '':'' @ rest) = (s, rest)" "dropWhile (\<lambda>c. (of_char c :: nat) \<le> 32) (s @ t) = s @ t"
proof -
  have "take_scheme (''http'' @ '':'' @ rest) = (''http'', rest)" "take_scheme (''https'' @ '':'' @ rest) = (''https'', rest)"
    by (simp_all add: take_scheme_def partition_at_def scheme_char_def ascii_alpha_def char_in_def lower_def lower_char_def)
  then show "take_scheme (s @ '':'' @ rest) = (s, rest)" using assms by auto
  show "dropWhile (\<lambda>c. (of_char c :: nat) \<le> 32) (s @ t) = s @ t" using assms by auto
qed

text \<open>Splitting an origin with a plain path gives its three parts back.\<close>

definition plain_path :: "string \<Rightarrow> bool" where
  "plain_path p \<longleftrightarrow> (p = [] \<or> hd p = CHR ''/'') \<and> (\<forall>c \<in> set p. c \<notin> {CHR ''?'', CHR ''#'', CHR 0x09, CHR 0x0A, CHR 0x0D})"

lemma urlsplit_path:
  assumes s: "s \<in> {''http'', ''https''}" and n: "\<forall>c \<in> set n. \<not> netloc_end c \<and> c \<notin> {CHR 0x09, CHR 0x0A, CHR 0x0D}"
    and b: "(CHR ''['' \<in> set n) = (CHR '']'' \<in> set n)" "CHR ''['' \<in> set n \<Longrightarrow> bracket_ok n" and p: "plain_path p"
  shows "urlsplit bracket_ok (urlunsplit s n p []) =
    Inr \<lparr>us_scheme = s, us_netloc = n, us_path = p, us_query = [], us_fragment = []\<rparr>"
proof -
  have u: "urlunsplit s n p [] = s @ '':'' @ ''//'' @ n @ p" using s p by (auto simp: urlunsplit_def plain_path_def)
  have "filter (\<lambda>c. c \<notin> {CHR 0x09, CHR 0x0A, CHR 0x0D}) n = n" using n by (auto simp: filter_id_conv)
  moreover have "filter (\<lambda>c. c \<notin> {CHR 0x09, CHR 0x0A, CHR 0x0D}) p = p" using p by (auto simp: filter_id_conv plain_path_def)
  moreover have "filter (\<lambda>c. c \<notin> {CHR 0x09, CHR 0x0A, CHR 0x0D}) (s @ '':'' @ ''//'') = s @ '':'' @ ''//''"
    using s by auto
  ultimately have "url_clean (s @ '':'' @ ''//'' @ n @ p) = s @ '':'' @ ''//'' @ n @ p"
    using scheme_facts(2) [OF s] by (simp add: url_clean_def)
  moreover have "take_netloc (''//'' @ n @ p) = (n, p)"
  proof -
    have "takeWhile (\<lambda>c. \<not> netloc_end c) p = []" "dropWhile (\<lambda>c. \<not> netloc_end c) p = p"
      using p by (cases p; simp add: plain_path_def netloc_end_def)+
    then show ?thesis
      using n by (simp add: take_netloc_def takeWhile_append2 dropWhile_append2)
  qed
  moreover have "partition_at (CHR ''#'') p = (p, False, [])" "partition_at (CHR ''?'') p = (p, False, [])"
    using p by (intro partition_at_absent; auto simp: plain_path_def)+
  ultimately show ?thesis
    using scheme_facts(1) [OF s] b
    by (simp add: urlsplit_def u raise_if_def)
qed

text \<open>The network location never contains a delimiter or a removed character.\<close>

lemma urlsplit_netloc:
  assumes "urlsplit bracket_ok url = Inr u"
  shows "\<forall>c \<in> set (us_netloc u). \<not> netloc_end c \<and> c \<notin> {CHR 0x09, CHR 0x0A, CHR 0x0D}"
    and "(CHR ''['' \<in> set (us_netloc u)) = (CHR '']'' \<in> set (us_netloc u))"
    and "CHR ''['' \<in> set (us_netloc u) \<Longrightarrow> bracket_ok (us_netloc u)"
proof -
  obtain sc rest where sc: "take_scheme (url_clean url) = (sc, rest)" by fastforce
  obtain n rest' where n: "take_netloc rest = (n, rest')" by fastforce
  have sub: "set rest \<subseteq> set (url_clean url)"
    using sc by (auto simp: take_scheme_def partition_at_def split: if_splits dest: in_set_dropD set_dropWhileD)
  have un: "us_netloc u = n" "(CHR ''['' \<in> set n) = (CHR '']'' \<in> set n)" "CHR ''['' \<in> set n \<longrightarrow> bracket_ok n"
    using assms by (auto simp: urlsplit_def sc n result_simps partition_at_def)
  have "\<not> netloc_end c \<and> c \<in> set rest" if "c \<in> set n" for c
    using n that by (auto simp: take_netloc_def split: if_splits dest: set_takeWhileD in_set_dropD)
  then show "\<forall>c \<in> set (us_netloc u). \<not> netloc_end c \<and> c \<notin> {CHR 0x09, CHR 0x0A, CHR 0x0D}"
    using sub by (fastforce simp: un(1) url_clean_def)
  show "(CHR ''['' \<in> set (us_netloc u)) = (CHR '']'' \<in> set (us_netloc u))"
    "CHR ''['' \<in> set (us_netloc u) \<Longrightarrow> bracket_ok (us_netloc u)"
    using un by simp_all
qed

end
