(* ===== verification/AppSettings.thy ===== *)
theory AppSettings
  imports Urls
begin

text \<open>
  \<open>core/config.py\<close> and the constructor of \<open>oauth/config.py\<close>: the settings read from the
  environment, their field constraints and validators, and the OAuth configuration derived from
  them. \<open>settings_env\<close> is what the environment says, \<open>None\<close> for a variable that is not set or
  empty (\<open>env_ignore_empty\<close>); pydantic collects all the errors of a model in one
  ValidationError, so which check failed is not told apart.
\<close>

section \<open>Settings\<close>

record settings_env =
  se_app_env :: "string option"
  se_log_level :: "string option"
  se_database_url :: "string option"
  se_api_key :: "string option"
  se_budget_read_api_key :: "string option"
  se_budget_write_api_key :: "string option"
  se_budget_admin_api_key :: "string option"
  se_cors_allowed_origins :: "string option"
  se_max_batch_items :: "int option"
  se_max_request_bytes :: "int option"
  se_stale_after_hours :: "int option"
  se_public_base_url :: "string option"
  se_oauth_consent_secret :: "string option"
  se_oauth_form_action_origins :: "string option"
  se_oauth_authorization_code_ttl_seconds :: "int option"
  se_oauth_access_token_ttl_seconds :: "int option"
  se_oauth_refresh_token_ttl_seconds :: "int option"
  se_mcp_max_request_bytes :: "int option"

record settings =
  set_app_env :: string
  set_log_level :: string
  set_database_url :: string
  set_api_key :: "string option"
  set_budget_read_api_key :: "string option"
  set_budget_write_api_key :: "string option"
  set_budget_admin_api_key :: "string option"
  set_cors_allowed_origins :: "string list"
  set_max_batch_items :: int
  set_max_request_bytes :: int
  set_stale_after_hours :: int
  set_public_base_url :: "string option"
  set_oauth_consent_secret :: "string option"
  set_oauth_form_action_origins :: "string list"
  set_oauth_authorization_code_ttl_seconds :: int
  set_oauth_access_token_ttl_seconds :: int
  set_oauth_refresh_token_ttl_seconds :: int
  set_mcp_max_request_bytes :: int

text \<open>\<open>Field(default=..., ge=..., le=...)\<close> and \<open>Field(default=None, min_length=24)\<close>.\<close>

definition int_field :: "int \<Rightarrow> int \<Rightarrow> int \<Rightarrow> int option \<Rightarrow> int res" where
  "int_field dflt lo hi v = (case v of None \<Rightarrow> Inr dflt
     | Some n \<Rightarrow> bindR (raise_if (\<not> (lo \<le> n \<and> n \<le> hi)) ValidationError) (\<lambda>_. Inr n))"

definition key_field :: "string option \<Rightarrow> string option res" where
  "key_field v = (case v of None \<Rightarrow> Inr None
     | Some k \<Rightarrow> bindR (raise_if (length k < 24) ValidationError) (\<lambda>_. Inr (Some k)))"

definition split_origins :: "string \<Rightarrow> string list" where
  "split_origins value = filter (\<lambda>w. w \<noteq> []) (map py_strip (split_on (CHR '','') value))"

definition validate_wildcard :: "string list \<Rightarrow> string list res" where
  "validate_wildcard value =
     bindR (raise_if (''*'' \<in> set value \<and> length value \<noteq> 1) ValidationError) (\<lambda>_. Inr value)"

text \<open>The loop over the form-action origins: every one an exact HTTPS origin, kept once.\<close>

definition add_origin :: "(string \<Rightarrow> bool) \<Rightarrow> string list \<Rightarrow> string \<Rightarrow> string list res" where
  "add_origin bracket_ok normalized origin =
     bindR (urlsplit bracket_ok (py_strip origin)) (\<lambda>parsed.
     bindR (raise_if (us_scheme parsed \<noteq> ''https'' \<or> \<not> exact_origin parsed) ValueError) (\<lambda>_.
     let exact = urlunsplit (us_scheme parsed) (us_netloc parsed) [] [] in
     Inr (if exact \<in> set normalized then normalized else normalized @ [exact])))"

definition validate_oauth_form_action_origins :: "(string \<Rightarrow> bool) \<Rightarrow> string list \<Rightarrow> string list res" where
  "validate_oauth_form_action_origins bracket_ok value =
     bindR (raise_if (value = []) ValueError) (\<lambda>_. for_each (add_origin bracket_ok) [] value)"

definition base_origin :: "(string \<Rightarrow> bool) \<Rightarrow> string \<Rightarrow> string res" where
  "base_origin bracket_ok value =
     bindR (urlsplit bracket_ok (py_strip value)) (\<lambda>parsed.
     bindR (raise_if (us_scheme parsed \<noteq> ''https'' \<and> \<not> loopback_http parsed) ValueError) (\<lambda>_.
     bindR (raise_if (\<not> exact_origin parsed) ValueError) (\<lambda>_.
     Inr (urlunsplit (us_scheme parsed) (us_netloc parsed) [] []))))"

definition validate_public_base_url :: "(string \<Rightarrow> bool) \<Rightarrow> string option \<Rightarrow> string option res" where
  "validate_public_base_url bracket_ok value = (case value of None \<Rightarrow> Inr None
     | Some v \<Rightarrow> bindR (base_origin bracket_ok v) (\<lambda>u. Inr (Some u)))"

definition role_keys :: "settings \<Rightarrow> string option list" where
  "role_keys s = [set_budget_read_api_key s, set_budget_write_api_key s, set_budget_admin_api_key s]"

definition configured_keys :: "settings \<Rightarrow> string list" where
  "configured_keys s = List.map_filter (\<lambda>k. k) (set_api_key s # role_keys s)"

definition validate_api_keys :: "settings \<Rightarrow> settings res" where
  "validate_api_keys s =
     bindR (raise_if (set_api_key s = None \<and> list_ex (\<lambda>k. k = None \<or> k = Some []) (role_keys s)) ValueError) (\<lambda>_.
     bindR (raise_if (\<not> distinct (configured_keys s)) ValueError) (\<lambda>_.
     bindR (raise_if (set_mcp_max_request_bytes s < set_max_request_bytes s + 65536) ValueError) (\<lambda>_.
     bindR (raise_if (set_public_base_url s \<noteq> None \<and> set_oauth_consent_secret s = None \<and> set_api_key s = None)
              ValueError) (\<lambda>_.
     Inr s))))"

definition with_default :: "'a \<Rightarrow> 'a option \<Rightarrow> 'a" where
  "with_default d v = (case v of None \<Rightarrow> d | Some x \<Rightarrow> x)"

definition Settings :: "(string \<Rightarrow> bool) \<Rightarrow> settings_env \<Rightarrow> settings res" where
  "Settings bracket_ok e = map_error (\<lambda>_. ValidationError)
     (bindR (key_field (se_api_key e)) (\<lambda>api_key.
     bindR (key_field (se_budget_read_api_key e)) (\<lambda>read_key.
     bindR (key_field (se_budget_write_api_key e)) (\<lambda>write_key.
     bindR (key_field (se_budget_admin_api_key e)) (\<lambda>admin_key.
     bindR (validate_wildcard (case se_cors_allowed_origins e of None \<Rightarrow> [''*''] | Some v \<Rightarrow> split_origins v)) (\<lambda>cors.
     bindR (int_field 250 1 1000 (se_max_batch_items e)) (\<lambda>max_batch_items.
     bindR (int_field 262144 16384 4194304 (se_max_request_bytes e)) (\<lambda>max_request_bytes.
     bindR (int_field 36 1 720 (se_stale_after_hours e)) (\<lambda>stale_after_hours.
     bindR (validate_public_base_url bracket_ok (se_public_base_url e)) (\<lambda>public_base_url.
     bindR (key_field (se_oauth_consent_secret e)) (\<lambda>consent_secret.
     bindR (case se_oauth_form_action_origins e of None \<Rightarrow> Inr [''https://chatgpt.com'']
              | Some v \<Rightarrow> validate_oauth_form_action_origins bracket_ok (split_origins v)) (\<lambda>form_origins.
     bindR (int_field 300 60 900 (se_oauth_authorization_code_ttl_seconds e)) (\<lambda>code_ttl.
     bindR (int_field 900 300 86400 (se_oauth_access_token_ttl_seconds e)) (\<lambda>access_ttl.
     bindR (int_field 7776000 86400 31536000 (se_oauth_refresh_token_ttl_seconds e)) (\<lambda>refresh_ttl.
     bindR (int_field 524288 65536 8388608 (se_mcp_max_request_bytes e)) (\<lambda>mcp_max_request_bytes.
     validate_api_keys
       \<lparr>set_app_env = with_default ''production'' (se_app_env e),
        set_log_level = with_default ''INFO'' (se_log_level e),
        set_database_url = with_default ''sqlite:////data/budget.db'' (se_database_url e),
        set_api_key = api_key, set_budget_read_api_key = read_key,
        set_budget_write_api_key = write_key, set_budget_admin_api_key = admin_key,
        set_cors_allowed_origins = cors, set_max_batch_items = max_batch_items,
        set_max_request_bytes = max_request_bytes, set_stale_after_hours = stale_after_hours,
        set_public_base_url = public_base_url, set_oauth_consent_secret = consent_secret,
        set_oauth_form_action_origins = form_origins,
        set_oauth_authorization_code_ttl_seconds = code_ttl,
        set_oauth_access_token_ttl_seconds = access_ttl,
        set_oauth_refresh_token_ttl_seconds = refresh_ttl,
        set_mcp_max_request_bytes = mcp_max_request_bytes\<rparr>))))))))))))))))"

definition mcp_public_url :: "settings \<Rightarrow> string option" where
  "mcp_public_url s = map_option (\<lambda>u. u @ ''/mcp'') (set_public_base_url s)"

text \<open>\<open>a or b\<close> on two optional strings: the empty string counts as missing.\<close>

definition truthy_or :: "string option \<Rightarrow> string option \<Rightarrow> string option" where
  "truthy_or a b = (if a = None \<or> a = Some [] then b else a)"

definition oauth_owner_secret :: "settings \<Rightarrow> string res" where
  "oauth_owner_secret s = require RuntimeError (truthy_or (set_oauth_consent_secret s) (set_api_key s))"

section \<open>The OAuth configuration\<close>

text \<open>\<open>__post_init__\<close>, on the fields as the caller gave them.\<close>

definition OAuthConfig_init :: "(string \<Rightarrow> bool) \<Rightarrow> oauth_config \<Rightarrow> oauth_config res" where
  "OAuthConfig_init bracket_ok c =
     bindR (base_origin bracket_ok (oc_public_base_url c)) (\<lambda>normalized.
     let unique_secrets = map fst (dict_of (map (\<lambda>k. (k, ())) (filter (\<lambda>s. s \<noteq> []) (oc_consent_secrets c)))) in
     bindR (raise_if (unique_secrets = [] \<or> list_ex (\<lambda>s. length s < 24) unique_secrets) ValueError) (\<lambda>_.
     bindR (for_each (add_origin bracket_ok) [] (oc_form_action_origins c)) (\<lambda>origins.
     bindR (raise_if (origins = []) ValueError) (\<lambda>_.
     bindR (raise_if (\<not> (60 \<le> oc_authorization_code_ttl_seconds c \<and> oc_authorization_code_ttl_seconds c \<le> 900))
              ValueError) (\<lambda>_.
     bindR (raise_if (\<not> (300 \<le> oc_access_token_ttl_seconds c \<and> oc_access_token_ttl_seconds c \<le> 86400))
              ValueError) (\<lambda>_.
     bindR (raise_if (\<not> (86400 \<le> oc_refresh_token_ttl_seconds c \<and> oc_refresh_token_ttl_seconds c \<le> 31536000))
              ValueError) (\<lambda>_.
     Inr (c\<lparr>oc_public_base_url := normalized, oc_consent_secrets := unique_secrets,
            oc_form_action_origins := origins\<rparr>))))))))"

definition from_settings :: "(string \<Rightarrow> bool) \<Rightarrow> settings \<Rightarrow> oauth_config res" where
  "from_settings bracket_ok s =
     bindR (require ValueError (set_public_base_url s)) (\<lambda>public_base_url.
     bindR (require ValueError (truthy_or (set_oauth_consent_secret s) (set_api_key s))) (\<lambda>primary.
     OAuthConfig_init bracket_ok
       \<lparr>oc_public_base_url = public_base_url,
        oc_consent_secrets = [primary],
        oc_form_action_origins = set_oauth_form_action_origins s,
        oc_authorization_code_ttl_seconds = set_oauth_authorization_code_ttl_seconds s,
        oc_access_token_ttl_seconds = set_oauth_access_token_ttl_seconds s,
        oc_refresh_token_ttl_seconds = set_oauth_refresh_token_ttl_seconds s\<rparr>))"

section \<open>Facts\<close>

text \<open>An exact origin, split: its scheme and network location.\<close>

definition origin_parts :: "(string \<Rightarrow> bool) \<Rightarrow> string \<Rightarrow> string \<Rightarrow> bool" where
  "origin_parts bracket_ok s n \<longleftrightarrow> s \<in> {''http'', ''https''} \<and> n \<noteq> [] \<and> CHR ''@'' \<notin> set n \<and>
     (\<forall>c \<in> set n. \<not> netloc_end c \<and> c \<notin> {CHR 0x09, CHR 0x0A, CHR 0x0D}) \<and>
     (CHR ''['' \<in> set n) = (CHR '']'' \<in> set n) \<and> (CHR ''['' \<in> set n \<longrightarrow> bracket_ok n)"

abbreviation origin_split :: "string \<Rightarrow> string \<Rightarrow> split_result" where
  "origin_split s n \<equiv> \<lparr>us_scheme = s, us_netloc = n, us_path = [], us_query = [], us_fragment = []\<rparr>"

lemma origin_parts_split: "origin_parts bracket_ok s n \<Longrightarrow> urlsplit bracket_ok (urlunsplit s n [] []) = Inr (origin_split s n)"
  by (rule urlsplit_path) (auto simp: origin_parts_def plain_path_def)

lemma no_userinfo: "CHR ''@'' \<notin> set n \<Longrightarrow> rpartition_at (CHR ''@'') n = ([], False, n)"
  by (simp add: rpartition_at_def partition_at_absent)

lemma origin_parts_exact: "origin_parts bracket_ok s n \<Longrightarrow> exact_origin (origin_split s n)"
  by (simp add: origin_parts_def exact_origin_def url_username_def url_password_def no_userinfo)

lemma exact_origin_parts:
  assumes "urlsplit bracket_ok v = Inr u" and "exact_origin u" and "us_scheme u \<in> {''http'', ''https''}"
  shows "origin_parts bracket_ok (us_scheme u) (us_netloc u)"
proof -
  have "CHR ''@'' \<notin> set (us_netloc u)"
    using assms(2) by (auto simp: exact_origin_def url_username_def rpartition_at_def partition_at_def split: if_splits)
  with urlsplit_netloc [OF assms(1)] assms(2,3) show ?thesis by (simp add: origin_parts_def exact_origin_def)
qed

lemma base_origin_InrD:
  assumes "base_origin bracket_ok v = Inr u"
  obtains s n where "origin_parts bracket_ok s n" "u = urlunsplit s n [] []"
    "s = ''https'' \<or> loopback_http (origin_split s n)"
proof -
  from assms obtain w where w: "urlsplit bracket_ok (py_strip v) = Inr w" "exact_origin w"
    "us_scheme w = ''https'' \<or> loopback_http w" "u = urlunsplit (us_scheme w) (us_netloc w) [] []"
    by (auto simp: base_origin_def result_simps)
  then have "us_scheme w \<in> {''http'', ''https''}" by (auto simp: loopback_http_def)
  with w have "origin_parts bracket_ok (us_scheme w) (us_netloc w)" by (intro exact_origin_parts)
  moreover have "loopback_http (origin_split (us_scheme w) (us_netloc w)) = loopback_http w"
    by (simp add: loopback_http_def url_hostname_def)
  ultimately show thesis using that w by auto
qed

lemma base_origin_again:
  assumes "base_origin bracket_ok v = Inr u" and "py_strip u = u"
  shows "base_origin bracket_ok u = Inr u"
proof (rule base_origin_InrD [OF assms(1)])
  fix s n assume o: "origin_parts bracket_ok s n" "u = urlunsplit s n [] []" "s = ''https'' \<or> loopback_http (origin_split s n)"
  with origin_parts_split [OF o(1)] origin_parts_exact [OF o(1)] assms(2) show ?thesis
    by (auto simp: base_origin_def)
qed

definition exact_https :: "(string \<Rightarrow> bool) \<Rightarrow> string \<Rightarrow> bool" where
  "exact_https bracket_ok origin \<longleftrightarrow> (\<exists>n. origin_parts bracket_ok ''https'' n \<and> origin = urlunsplit ''https'' n [] [])"

lemma add_origin_InrD:
  assumes "add_origin bracket_ok acc v = Inr acc'"
  shows "\<exists>x. exact_https bracket_ok x \<and> acc' = (if x \<in> set acc then acc else acc @ [x])"
proof -
  from assms obtain w where w: "urlsplit bracket_ok (py_strip v) = Inr w" "exact_origin w" "us_scheme w = ''https''"
    "acc' = (if urlunsplit (us_scheme w) (us_netloc w) [] [] \<in> set acc then acc
       else acc @ [urlunsplit (us_scheme w) (us_netloc w) [] []])"
    by (auto simp: add_origin_def Let_def result_simps)
  with exact_origin_parts [OF w(1,2)] show ?thesis by (auto simp: exact_https_def)
qed

lemma add_origin_again:
  "exact_https bracket_ok x \<Longrightarrow> py_strip x = x \<Longrightarrow>
   add_origin bracket_ok acc x = Inr (if x \<in> set acc then acc else acc @ [x])"
  using origin_parts_split origin_parts_exact
  by (fastforce simp: exact_https_def add_origin_def)

lemma origins_loop:
  assumes "for_each (add_origin bracket_ok) [] vs = Inr origins"
  shows "distinct origins \<and> (\<forall>x \<in> set origins. exact_https bracket_ok x) \<and> (vs \<noteq> [] \<longrightarrow> origins \<noteq> [])"
  using assms
proof (rule for_each_prefix_inv)
  fix ys :: "string list" and x zs t t'
  assume "distinct t \<and> (\<forall>x \<in> set t. exact_https bracket_ok x) \<and> (ys \<noteq> [] \<longrightarrow> t \<noteq> [])"
    and "add_origin bracket_ok t x = Inr t'"
  then show "distinct t' \<and> (\<forall>x \<in> set t'. exact_https bracket_ok x) \<and> (ys @ [x] \<noteq> [] \<longrightarrow> t' \<noteq> [])"
    using add_origin_InrD [of bracket_ok t x t'] by (auto split: if_splits)
qed simp

lemma origins_again:
  assumes "\<forall>x \<in> set vs. exact_https bracket_ok x \<and> py_strip x = x" and "distinct (acc @ vs)"
  shows "for_each (add_origin bracket_ok) acc vs = Inr (acc @ vs)"
  using assms
proof (induction vs arbitrary: acc)
  case (Cons x vs)
  then have "add_origin bracket_ok acc x = Inr (acc @ [x])" using add_origin_again [of bracket_ok x acc] by auto
  with Cons show ?case by simp
qed simp

end
