(* ===== verification/Auth.thy ===== *)
theory Auth
  imports AppSettings
begin

text \<open>
  \<open>core/auth.py\<close>: the bearer keys of the REST API. A key gives a level; an endpoint asks for a
  least level. \<open>access_level\<close> is an IntEnum, so the levels are ordered by their values.
\<close>

section \<open>Levels\<close>

datatype access_level = READ | WRITE | ADMIN

definition level_value :: "access_level \<Rightarrow> int" where
  "level_value l = (case l of READ \<Rightarrow> 1 | WRITE \<Rightarrow> 2 | ADMIN \<Rightarrow> 3)"

instantiation access_level :: linorder
begin

definition less_eq_access_level :: "access_level \<Rightarrow> access_level \<Rightarrow> bool" where
  "less_eq_access_level a b \<longleftrightarrow> level_value a \<le> level_value b"

definition less_access_level :: "access_level \<Rightarrow> access_level \<Rightarrow> bool" where
  "less_access_level a b \<longleftrightarrow> level_value a < level_value b"

instance
  by standard (auto simp: less_eq_access_level_def less_access_level_def level_value_def split: access_level.splits)

end

lemma level_order [simp]: "READ \<le> l" "l \<le> ADMIN" "WRITE \<le> l \<longleftrightarrow> l \<noteq> READ" "ADMIN \<le> l \<longleftrightarrow> l = ADMIN"
  by (cases l; simp add: less_eq_access_level_def level_value_def)+

section \<open>Bearer keys\<close>

datatype auth_error = KeyRequired | InvalidKey | InsufficientAccess | AuthFailure err

text \<open>The status of each refusal; an unhandled exception is a server error.\<close>

definition auth_status :: "auth_error \<Rightarrow> int" where
  "auth_status e = (case e of KeyRequired \<Rightarrow> 401 | InvalidKey \<Rightarrow> 401 | InsufficientAccess \<Rightarrow> 403 | AuthFailure _ \<Rightarrow> 500)"

definition key_candidates :: "settings \<Rightarrow> (string option \<times> access_level) list" where
  "key_candidates s =
     [(set_budget_admin_api_key s, ADMIN), (set_budget_write_api_key s, WRITE),
      (set_budget_read_api_key s, READ), (set_api_key s, ADMIN)]"

fun first_match :: "string \<Rightarrow> (string option \<times> access_level) list \<Rightarrow> access_level option res" where
  "first_match token [] = Inr None"
| "first_match token ((None, level) # candidates) = first_match token candidates"
| "first_match token ((Some configured, level) # candidates) =
     bindR (compare_digest token configured) (\<lambda>equal.
       if equal then Inr (Some level) else first_match token candidates)"

definition provided_level :: "string \<Rightarrow> settings \<Rightarrow> access_level option res" where
  "provided_level token s = first_match token (key_candidates s)"

record credentials =
  cr_scheme :: string
  cr_credentials :: string

definition require_access :: "access_level \<Rightarrow> credentials option \<Rightarrow> settings \<Rightarrow> auth_error + access_level" where
  "require_access minimum creds s =
     (case creds of
        None \<Rightarrow> Inl KeyRequired
      | Some c \<Rightarrow>
          bindR (raise_if (lower (cr_scheme c) \<noteq> ''bearer'') KeyRequired) (\<lambda>_.
          bindR (map_error AuthFailure (provided_level (cr_credentials c) s)) (\<lambda>found.
          bindR (require InvalidKey found) (\<lambda>level.
          bindR (raise_if (level < minimum) InsufficientAccess) (\<lambda>_.
          Inr level)))))"

definition require_read :: "credentials option \<Rightarrow> settings \<Rightarrow> auth_error + access_level" where
  "require_read = require_access READ"

definition require_write :: "credentials option \<Rightarrow> settings \<Rightarrow> auth_error + access_level" where
  "require_write = require_access WRITE"

definition require_admin :: "credentials option \<Rightarrow> settings \<Rightarrow> auth_error + access_level" where
  "require_admin = require_access ADMIN"

section \<open>Facts\<close>

lemma first_match_Inr:
  "first_match token cs = Inr (Some level) \<Longrightarrow> \<exists>k. (Some k, level) \<in> set cs \<and> token = k"
  by (induction token cs rule: first_match.induct) (auto simp: result_simps compare_digest_def split: if_splits)

lemma first_match_ascii:
  assumes "is_ascii token" and "\<forall>(k, l) \<in> set cs. \<forall>c. k = Some c \<longrightarrow> is_ascii c"
  shows "first_match token cs = Inr (map_option snd (find (\<lambda>(k, l). k = Some token) cs))"
  using assms
  by (induction token cs rule: first_match.induct) (auto simp: compare_digest_def)

end
