(* ===== verification/Api.thy ===== *)
theory Api
  imports Auth ConfigService RefreshCommit Dashboard
begin

text \<open>
  The HTTP side of the budget: the session of one request (\<open>db/session.py\<close>), the middleware and
  the error handler of \<open>main.py\<close>, and the endpoints of \<open>api/routes/\<close>. FastAPI decodes a request
  into the typed fields of \<open>rest_call\<close> and resolves the dependencies in order: the bearer key
  first, then the header, path and body models. The database argument is what is committed.
\<close>

section \<open>Sessions\<close>

text \<open>
  \<open>session_scope\<close>: commit when the block returns, roll back and raise again when it does not. The
  services commit nothing before they fail, so the \<open>get_db\<close> dependency, which only closes the
  session, has the same outcome.
\<close>

definition session_scope :: "(db \<Rightarrow> ('a \<times> db) res) \<Rightarrow> db \<Rightarrow> 'a res \<times> db" where
  "session_scope block db = (case block db of Inl e \<Rightarrow> (Inl e, db) | Inr (v, db') \<Rightarrow> (Inr v, db'))"

text \<open>A block that only reads.\<close>

definition reading :: "(db \<Rightarrow> 'a res) \<Rightarrow> db \<Rightarrow> ('a \<times> db) res" where
  "reading f db = bindR (f db) (\<lambda>v. Inr (v, db))"

section \<open>Requests and responses\<close>

text \<open>The path, the headers the endpoint declares and the decoded body of one request.\<close>

datatype rest_call =
    Liveness
  | Readiness
  | ReadConfig
  | ReplaceConfig config_request "string option"
  | CreateRefreshRun begin_request "string option"
  | PutRefreshBatch uuid int batch_request
  | FinalizeRefreshRun uuid commit_request
  | ReadRefreshRun uuid
  | ReadBudgetDashboard "date option"

datatype rest_body =
    StatusBody string
  | ConfigBody config_view
  | BeginBody begin_response_view
  | BatchBody batch_response_view
  | RunBody run_view
  | DashboardBody dashboard_response
  | DetailBody auth_error
  | DomainErrorBody string string
  | ValidationBody
  | ServerErrorBody
  | InvalidContentLength
  | BodyTooLarge
  | NotReadyBody

record rest_response =
  rp_status :: int
  rp_etag :: "string option"
  rp_body :: rest_body

definition response :: "int \<Rightarrow> rest_body \<Rightarrow> rest_response" where
  "response status body = \<lparr>rp_status = status, rp_etag = None, rp_body = body\<rparr>"

text \<open>The handler of DomainError; any other exception ends in the server error of Starlette.\<close>

definition domain_error_handler :: "err \<Rightarrow> rest_response" where
  "domain_error_handler e = (case e of
     Domain d \<Rightarrow> response (err_status d) (DomainErrorBody (err_message d) (err_code d))
   | _ \<Rightarrow> response 500 ServerErrorBody)"

definition auth_refusal :: "auth_error \<Rightarrow> rest_response" where
  "auth_refusal e = response (auth_status e) (case e of AuthFailure _ \<Rightarrow> ServerErrorBody | _ \<Rightarrow> DetailBody e)"

definition validation_error :: rest_response where
  "validation_error = response 422 ValidationBody"

definition outcome :: "('a \<Rightarrow> rest_response) \<Rightarrow> 'a res \<times> db \<Rightarrow> rest_response \<times> db" where
  "outcome f r = ((case fst r of Inl e \<Rightarrow> domain_error_handler e | Inr v \<Rightarrow> f v), snd r)"

section \<open>Endpoints\<close>

definition quoted :: "string \<Rightarrow> string" where
  "quoted s = CHR 0x22 # s @ [CHR 0x22]"

definition config_response :: "config_view \<Rightarrow> rest_response" where
  "config_response view =
     (response 200 (ConfigBody view))\<lparr>rp_etag := map_option (\<lambda>base. quoted (vv_config_hash base))
        (or_else (view_pending view) (view_active view))\<rparr>"

definition read_config :: "env \<Rightarrow> db \<Rightarrow> rest_response \<times> db" where
  "read_config en db = outcome config_response (session_scope (reading (get_config en)) db)"

definition replace_config :: "env \<Rightarrow> config_request \<Rightarrow> string option \<Rightarrow> db \<Rightarrow> rest_response \<times> db" where
  "replace_config en request if_match db =
     outcome config_response (session_scope (put_config en request if_match) db)"

definition create_refresh_run :: "env \<Rightarrow> settings \<Rightarrow> begin_request \<Rightarrow> string \<Rightarrow> db \<Rightarrow> rest_response \<times> db" where
  "create_refresh_run en s request idempotency_key db =
     outcome (\<lambda>v. response 201 (BeginBody v))
       (session_scope (begin_refresh en request idempotency_key (set_max_batch_items s) (set_max_request_bytes s)) db)"

definition put_refresh_batch :: "env \<Rightarrow> settings \<Rightarrow> uuid \<Rightarrow> int \<Rightarrow> batch_request \<Rightarrow> db \<Rightarrow> rest_response \<times> db" where
  "put_refresh_batch en s rid batch_index request db =
     outcome (\<lambda>v. response 200 (BatchBody v))
       (session_scope (upload_batch en rid batch_index request (set_max_batch_items s) (set_max_request_bytes s)) db)"

definition finalize_refresh_run :: "env \<Rightarrow> uuid \<Rightarrow> commit_request \<Rightarrow> db \<Rightarrow> rest_response \<times> db" where
  "finalize_refresh_run en rid request db =
     outcome (\<lambda>v. response 200 (RunBody v)) (session_scope (commit_refresh en rid request) db)"

definition read_refresh_run :: "env \<Rightarrow> uuid \<Rightarrow> db \<Rightarrow> rest_response \<times> db" where
  "read_refresh_run en rid db =
     outcome (\<lambda>v. response 200 (RunBody v)) (session_scope (reading (get_refresh_run en rid)) db)"

definition read_budget_dashboard :: "env \<Rightarrow> settings \<Rightarrow> date option \<Rightarrow> db \<Rightarrow> rest_response \<times> db" where
  "read_budget_dashboard en s as_of db =
     outcome (\<lambda>v. response 200 (DashboardBody v))
       (session_scope (reading (get_dashboard en as_of (set_stale_after_hours s))) db)"

definition liveness :: rest_response where
  "liveness = response 200 (StatusBody ''ok'')"

text \<open>The argument says whether the probe statement ran.\<close>

definition readiness :: "bool \<Rightarrow> rest_response" where
  "readiness database_answers =
     (if database_answers then response 200 (StatusBody ''ready'') else response 503 NotReadyBody)"

text \<open>The dependency of each route; the health routes have none.\<close>

definition required_level :: "rest_call \<Rightarrow> access_level option" where
  "required_level call = (case call of
     Liveness \<Rightarrow> None | Readiness \<Rightarrow> None
   | ReadConfig \<Rightarrow> Some READ | ReplaceConfig _ _ \<Rightarrow> Some ADMIN
   | CreateRefreshRun _ _ \<Rightarrow> Some WRITE | PutRefreshBatch _ _ _ \<Rightarrow> Some WRITE
   | FinalizeRefreshRun _ _ \<Rightarrow> Some WRITE | ReadRefreshRun _ \<Rightarrow> Some WRITE
   | ReadBudgetDashboard _ \<Rightarrow> Some READ)"

text \<open>The rest of a request once its key is accepted: 422 when a declared model refuses it.\<close>

definition validated :: "'a res \<Rightarrow> ('a \<Rightarrow> rest_response \<times> db) \<Rightarrow> db \<Rightarrow> rest_response \<times> db" where
  "validated m f db = (case m of Inl _ \<Rightarrow> (validation_error, db) | Inr x \<Rightarrow> f x)"

definition endpoint :: "env \<Rightarrow> settings \<Rightarrow> rest_call \<Rightarrow> db \<Rightarrow> rest_response \<times> db" where
  "endpoint en s call db = (case call of
     Liveness \<Rightarrow> (liveness, db)
   | Readiness \<Rightarrow> (readiness True, db)
   | ReadConfig \<Rightarrow> read_config en db
   | ReplaceConfig raw if_match \<Rightarrow>
       validated (ConfigPutRequest raw) (\<lambda>request. replace_config en request if_match db) db
   | CreateRefreshRun raw key \<Rightarrow>
       validated (bindR (require ValidationError key) (\<lambda>k.
           bindR (raise_if (\<not> len_between 8 128 k) ValidationError) (\<lambda>_.
           bindR (RefreshBeginRequest raw) (\<lambda>request. Inr (request, k)))))
         (\<lambda>(request, k). create_refresh_run en s request k db) db
   | PutRefreshBatch rid batch_index raw \<Rightarrow>
       validated (bindR (raise_if (batch_index < 0) ValidationError) (\<lambda>_. RefreshBatchRequest raw))
         (\<lambda>request. put_refresh_batch en s rid batch_index request db) db
   | FinalizeRefreshRun rid raw \<Rightarrow>
       validated (RefreshCommitRequest raw) (\<lambda>request. finalize_refresh_run en rid request db) db
   | ReadRefreshRun rid \<Rightarrow> read_refresh_run en rid db
   | ReadBudgetDashboard as_of \<Rightarrow> read_budget_dashboard en s as_of db)"

definition authorized :: "settings \<Rightarrow> credentials option \<Rightarrow> rest_call \<Rightarrow> auth_error + unit" where
  "authorized s creds call = (case required_level call of None \<Rightarrow> Inr ()
     | Some minimum \<Rightarrow> bindR (require_access minimum creds s) (\<lambda>_. Inr ()))"

section \<open>The middleware\<close>

definition request_limit :: "settings \<Rightarrow> string \<Rightarrow> int" where
  "request_limit s path = (if path = ''/mcp'' then set_mcp_max_request_bytes s else set_max_request_bytes s)"

definition request_safety :: "settings \<Rightarrow> string \<Rightarrow> string option \<Rightarrow> (db \<Rightarrow> rest_response \<times> db) \<Rightarrow> db \<Rightarrow> rest_response \<times> db" where
  "request_safety s path content_length call_next db =
     (case content_length of
        None \<Rightarrow> call_next db
      | Some text \<Rightarrow>
          if text = [] then call_next db
          else case py_int text of
            None \<Rightarrow> (response 400 InvalidContentLength, db)
          | Some n \<Rightarrow> if request_limit s path < n then (response 413 BodyTooLarge, db) else call_next db)"

text \<open>One REST request, under the paths of \<open>api/router.py\<close>.\<close>

definition call_path :: "rest_call \<Rightarrow> string" where
  "call_path call = (case call of
     Liveness \<Rightarrow> ''/health/live'' | Readiness \<Rightarrow> ''/health/ready''
   | ReadConfig \<Rightarrow> ''/v1/config'' | ReplaceConfig _ _ \<Rightarrow> ''/v1/config''
   | CreateRefreshRun _ _ \<Rightarrow> ''/v1/refresh-runs''
   | PutRefreshBatch rid idx _ \<Rightarrow> ''/v1/refresh-runs/'' @ uuid_str rid @ ''/batches/'' @ int_str idx
   | FinalizeRefreshRun rid _ \<Rightarrow> ''/v1/refresh-runs/'' @ uuid_str rid @ ''/commit''
   | ReadRefreshRun rid \<Rightarrow> ''/v1/refresh-runs/'' @ uuid_str rid
   | ReadBudgetDashboard _ \<Rightarrow> ''/v1/dashboard/budgets'')"

definition rest_request ::
    "env \<Rightarrow> settings \<Rightarrow> string option \<Rightarrow> credentials option \<Rightarrow> rest_call \<Rightarrow> db \<Rightarrow> rest_response \<times> db" where
  "rest_request en s content_length creds call db =
     request_safety s (call_path call) content_length
       (\<lambda>db. case authorized s creds call of
          Inl e \<Rightarrow> (auth_refusal e, db)
        | Inr _ \<Rightarrow> endpoint en s call db) db"

end
