(* ===== verification/McpServer.thy ===== *)
theory McpServer
  imports Api
begin

text \<open>
  \<open>mcp/server.py\<close>: the tools, the scope each one needs and the sessions they run in. FastMCP
  decodes the arguments of a call into the typed fields of \<open>tool_call\<close>, validates them against
  the declared types and turns an exception of a tool into an error result. The access token of
  the request is what the token verifier returned (\<open>None\<close> without a valid bearer token).
\<close>

section \<open>Tools\<close>

datatype tool_call =
    ToolGetConfig
  | ToolUpdateConfig config_request "string option"
  | ToolBeginRefresh begin_request string
  | ToolUploadBatch uuid int string "transaction_upload list"
  | ToolCommitRefresh uuid commit_request
  | ToolGetRefreshStatus uuid
  | ToolGetDashboard "date option"
  | ToolUnknown string

definition tool_name :: "tool_call \<Rightarrow> string" where
  "tool_name call = (case call of
     ToolGetConfig \<Rightarrow> ''get_config''
   | ToolUpdateConfig _ _ \<Rightarrow> ''update_config''
   | ToolBeginRefresh _ _ \<Rightarrow> ''begin_refresh''
   | ToolUploadBatch _ _ _ _ \<Rightarrow> ''upload_batch''
   | ToolCommitRefresh _ _ \<Rightarrow> ''commit_refresh''
   | ToolGetRefreshStatus _ \<Rightarrow> ''get_refresh_status''
   | ToolGetDashboard _ \<Rightarrow> ''get_dashboard_budgets''
   | ToolUnknown name \<Rightarrow> name)"

definition TOOL_SCOPES :: "(string \<times> string) list" where
  "TOOL_SCOPES =
     [(''get_config'', BUDGET_READ_SCOPE),
      (''update_config'', BUDGET_CONFIG_SCOPE),
      (''begin_refresh'', BUDGET_REFRESH_SCOPE),
      (''upload_batch'', BUDGET_REFRESH_SCOPE),
      (''commit_refresh'', BUDGET_REFRESH_SCOPE),
      (''get_refresh_status'', BUDGET_REFRESH_SCOPE),
      (''get_dashboard_budgets'', BUDGET_READ_SCOPE)]"

definition protected_resource_metadata :: "(string \<Rightarrow> bool) \<Rightarrow> string \<Rightarrow> string res" where
  "protected_resource_metadata bracket_ok mcp_url =
     bindR (urlsplit bracket_ok mcp_url) (\<lambda>parsed.
     let resource_path = (if us_path parsed = ''/'' then [] else us_path parsed);
         metadata_path = ''/.well-known/oauth-protected-resource'' @ resource_path
     in Inr (urlunsplit (us_scheme parsed) (us_netloc parsed) metadata_path []))"

text \<open>The challenge of a refused call.\<close>

definition auth_error_challenge :: "string \<Rightarrow> string \<Rightarrow> string \<Rightarrow> string \<Rightarrow> string" where
  "auth_error_challenge metadata_url error description required_scope =
     ''Bearer resource_metadata='' @ quoted metadata_url @ '', error='' @ quoted error @
     '', error_description='' @ quoted description @ '', scope='' @ quoted required_scope"

datatype tool_result =
    ToolConfig config_view
  | ToolBegin begin_response_view
  | ToolBatch batch_response_view
  | ToolRun run_view
  | ToolDashboard dashboard_response
  | ToolError err
  | ToolArguments
  | ToolNotFound
  | AuthChallenge string

section \<open>The tool functions\<close>

definition tool_outcome :: "('a \<Rightarrow> tool_result) \<Rightarrow> 'a res \<times> db \<Rightarrow> tool_result \<times> db" where
  "tool_outcome f r = ((case fst r of Inl e \<Rightarrow> ToolError e | Inr v \<Rightarrow> f v), snd r)"

definition mcp_get_config :: "env \<Rightarrow> db \<Rightarrow> tool_result \<times> db" where
  "mcp_get_config en db = tool_outcome ToolConfig (session_scope (reading (get_config en)) db)"

definition mcp_update_config :: "env \<Rightarrow> config_request \<Rightarrow> string option \<Rightarrow> db \<Rightarrow> tool_result \<times> db" where
  "mcp_update_config en configuration expected_config_hash db =
     tool_outcome ToolConfig (session_scope (put_config_checked en configuration expected_config_hash) db)"

definition mcp_begin_refresh :: "env \<Rightarrow> settings \<Rightarrow> begin_request \<Rightarrow> string \<Rightarrow> db \<Rightarrow> tool_result \<times> db" where
  "mcp_begin_refresh en s args idempotency_key db =
     tool_outcome ToolBegin (session_scope (\<lambda>db.
       bindR (RefreshBeginRequest args) (\<lambda>request.
       begin_refresh en request idempotency_key (set_max_batch_items s) (set_max_request_bytes s) db)) db)"

text \<open>A batch built from transactions that are model instances already.\<close>

definition batch_of_models :: "string \<Rightarrow> transaction_upload list \<Rightarrow> batch_request res" where
  "batch_of_models key items =
     bindR (raise_if (\<not> (len_between 8 255 key \<and> len_between 1 1000 items)) ValidationError) (\<lambda>_.
     Inr \<lparr>bq_idempotency_key = key, bq_transactions = items\<rparr>)"

definition mcp_upload_batch ::
    "env \<Rightarrow> settings \<Rightarrow> uuid \<Rightarrow> int \<Rightarrow> string \<Rightarrow> transaction_upload list \<Rightarrow> db \<Rightarrow> tool_result \<times> db" where
  "mcp_upload_batch en s rid batch_index idempotency_key items db =
     tool_outcome ToolBatch (session_scope (\<lambda>db.
       bindR (batch_of_models idempotency_key items) (\<lambda>request.
       upload_batch en rid batch_index request (set_max_batch_items s) (set_max_request_bytes s) db)) db)"

definition mcp_commit_refresh :: "env \<Rightarrow> uuid \<Rightarrow> commit_request \<Rightarrow> db \<Rightarrow> tool_result \<times> db" where
  "mcp_commit_refresh en rid args db =
     tool_outcome ToolRun (session_scope (\<lambda>db.
       bindR (RefreshCommitRequest args) (\<lambda>request. commit_refresh en rid request db)) db)"

definition mcp_get_refresh_status :: "env \<Rightarrow> uuid \<Rightarrow> db \<Rightarrow> tool_result \<times> db" where
  "mcp_get_refresh_status en rid db = tool_outcome ToolRun (session_scope (reading (get_refresh_run en rid)) db)"

definition mcp_get_dashboard :: "env \<Rightarrow> settings \<Rightarrow> date option \<Rightarrow> db \<Rightarrow> tool_result \<times> db" where
  "mcp_get_dashboard en s as_of db =
     tool_outcome ToolDashboard (session_scope (reading (get_dashboard en as_of (set_stale_after_hours s))) db)"

section \<open>Arguments\<close>

text \<open>The declared argument types; an account ID is stripped by its type.\<close>

definition accounts_arg :: "string list \<Rightarrow> string list res" where
  "accounts_arg ids =
     (let ids = map strip_ws ids in
      bindR (raise_if (\<not> (len_between 1 100 ids \<and> list_all account_id_ok ids)) ValidationError) (\<lambda>_. Inr ids))"

definition begin_args :: "begin_request \<Rightarrow> string \<Rightarrow> begin_request res" where
  "begin_args raw key =
     bindR (raise_if (\<not> (br_mode raw \<in> {''INCREMENTAL'', ''FULL_REBUILD''} \<and> date_ok (br_source_from_date raw) \<and>
              date_ok (br_source_to_date raw) \<and> len_between 8 255 key)) ValidationError) (\<lambda>_.
     bindR (accounts_arg (br_expected_accounts raw)) (\<lambda>ids. Inr (raw\<lparr>br_expected_accounts := ids\<rparr>)))"

definition upload_args :: "int \<Rightarrow> string \<Rightarrow> transaction_upload list \<Rightarrow> transaction_upload list res" where
  "upload_args batch_index key raw =
     bindR (raise_if (batch_index < 0 \<or> \<not> len_between 8 255 key) ValidationError) (\<lambda>_.
     bindR (map_each TransactionUpload raw) (\<lambda>items.
     bindR (raise_if (\<not> len_between 1 1000 items) ValidationError) (\<lambda>_. Inr items)))"

definition commit_args :: "commit_request \<Rightarrow> commit_request res" where
  "commit_args raw =
     bindR (raise_if (cq_expected_batch_count raw < 0) ValidationError) (\<lambda>_.
     bindR (accounts_arg (cq_completed_accounts raw)) (\<lambda>ids. Inr (raw\<lparr>cq_completed_accounts := ids\<rparr>)))"

definition with_args :: "'a res \<Rightarrow> ('a \<Rightarrow> tool_result \<times> db) \<Rightarrow> db \<Rightarrow> tool_result \<times> db" where
  "with_args m f db = (case m of Inl _ \<Rightarrow> (ToolArguments, db) | Inr x \<Rightarrow> f x)"

definition run_tool :: "env \<Rightarrow> settings \<Rightarrow> tool_call \<Rightarrow> db \<Rightarrow> tool_result \<times> db" where
  "run_tool en s call db = (case call of
     ToolGetConfig \<Rightarrow> mcp_get_config en db
   | ToolUpdateConfig raw expected \<Rightarrow>
       with_args (ConfigPutRequest raw) (\<lambda>configuration. mcp_update_config en configuration expected db) db
   | ToolBeginRefresh raw key \<Rightarrow> with_args (begin_args raw key) (\<lambda>args. mcp_begin_refresh en s args key db) db
   | ToolUploadBatch rid batch_index key raw \<Rightarrow>
       with_args (upload_args batch_index key raw) (\<lambda>items. mcp_upload_batch en s rid batch_index key items db) db
   | ToolCommitRefresh rid raw \<Rightarrow> with_args (commit_args raw) (\<lambda>args. mcp_commit_refresh en rid args db) db
   | ToolGetRefreshStatus rid \<Rightarrow> mcp_get_refresh_status en rid db
   | ToolGetDashboard as_of \<Rightarrow> mcp_get_dashboard en s as_of db
   | ToolUnknown _ \<Rightarrow> (ToolNotFound, db))"

section \<open>Calling a tool\<close>

definition call_tool ::
    "env \<Rightarrow> settings \<Rightarrow> string \<Rightarrow> mcp_access_token option \<Rightarrow> tool_call \<Rightarrow> db \<Rightarrow> tool_result \<times> db" where
  "call_tool en s metadata_url token call db =
     (case map_of TOOL_SCOPES (tool_name call) of
        None \<Rightarrow> run_tool en s call db
      | Some required_scope \<Rightarrow>
          (case token of
             None \<Rightarrow> (AuthChallenge (auth_error_challenge metadata_url ''invalid_token''
                        ''a valid OAuth access token is required'' required_scope), db)
           | Some t \<Rightarrow>
               if required_scope \<notin> set (mt_scopes t)
               then (AuthChallenge (auth_error_challenge metadata_url ''insufficient_scope''
                      (''the '' @ required_scope @ '' scope is required'') required_scope), db)
               else run_tool en s call db))"

text \<open>\<open>list_tools\<close>: every tool is advertised with the scope \<open>call_tool\<close> asks for.\<close>

definition list_tools :: "(string \<times> string list) list res" where
  "list_tools = map_each (\<lambda>name. bindR (require KeyError (map_of TOOL_SCOPES name)) (\<lambda>scope. Inr (name, [scope])))
     [''get_config'', ''update_config'', ''begin_refresh'', ''upload_batch'', ''commit_refresh'',
      ''get_refresh_status'', ''get_dashboard_budgets'']"

section \<open>What a tool declares about itself\<close>

record tool_annotations =
  ta_title :: string
  ta_read_only :: bool
  ta_destructive :: bool
  ta_idempotent :: bool
  ta_open_world :: bool

definition get_config_annotations :: tool_annotations where
  "get_config_annotations = \<lparr>ta_title = ''Get budget configuration'', ta_read_only = True, ta_destructive = False,
     ta_idempotent = True, ta_open_world = False\<rparr>"

definition update_config_annotations :: tool_annotations where
  "update_config_annotations = \<lparr>ta_title = ''Update budget configuration'', ta_read_only = False, ta_destructive = True,
     ta_idempotent = True, ta_open_world = False\<rparr>"

definition begin_refresh_annotations :: tool_annotations where
  "begin_refresh_annotations = \<lparr>ta_title = ''Begin transaction refresh'', ta_read_only = False, ta_destructive = False,
     ta_idempotent = True, ta_open_world = False\<rparr>"

definition upload_batch_annotations :: tool_annotations where
  "upload_batch_annotations = \<lparr>ta_title = ''Upload classified transaction batch'', ta_read_only = False, ta_destructive = False,
     ta_idempotent = True, ta_open_world = False\<rparr>"

definition commit_refresh_annotations :: tool_annotations where
  "commit_refresh_annotations = \<lparr>ta_title = ''Commit transaction refresh'', ta_read_only = False, ta_destructive = True,
     ta_idempotent = True, ta_open_world = False\<rparr>"

definition get_refresh_status_annotations :: tool_annotations where
  "get_refresh_status_annotations = \<lparr>ta_title = ''Get refresh status'', ta_read_only = True, ta_destructive = False,
     ta_idempotent = True, ta_open_world = False\<rparr>"

definition get_dashboard_budgets_annotations :: tool_annotations where
  "get_dashboard_budgets_annotations = \<lparr>ta_title = ''Get rolling budget dashboard'', ta_read_only = True, ta_destructive = False,
     ta_idempotent = True, ta_open_world = False\<rparr>"

definition annotations_of :: "tool_call \<Rightarrow> tool_annotations option" where
  "annotations_of call = (case call of
     ToolGetConfig \<Rightarrow> Some get_config_annotations
   | ToolUpdateConfig _ _ \<Rightarrow> Some update_config_annotations
   | ToolBeginRefresh _ _ \<Rightarrow> Some begin_refresh_annotations
   | ToolUploadBatch _ _ _ _ \<Rightarrow> Some upload_batch_annotations
   | ToolCommitRefresh _ _ \<Rightarrow> Some commit_refresh_annotations
   | ToolGetRefreshStatus _ \<Rightarrow> Some get_refresh_status_annotations
   | ToolGetDashboard _ \<Rightarrow> Some get_dashboard_budgets_annotations
   | ToolUnknown _ \<Rightarrow> None)"

lemmas annotation_defs = annotations_of_def get_config_annotations_def update_config_annotations_def
  begin_refresh_annotations_def upload_batch_annotations_def commit_refresh_annotations_def
  get_refresh_status_annotations_def get_dashboard_budgets_annotations_def

section \<open>Building the application\<close>

record mcp_server =
  ms_resource_metadata_url :: string
  ms_max_request_body_size :: int

definition create_mcp_server :: "(string \<Rightarrow> bool) \<Rightarrow> settings \<Rightarrow> mcp_server res" where
  "create_mcp_server bracket_ok s =
     bindR (require ValueError (mcp_public_url s)) (\<lambda>url.
     bindR (protected_resource_metadata bracket_ok url) (\<lambda>metadata_url.
     Inr \<lparr>ms_resource_metadata_url = metadata_url, ms_max_request_body_size = set_mcp_max_request_bytes s\<rparr>))"

text \<open>
  \<open>logging.basicConfig\<close> sets the level only when the root logger has no handler yet; the level
  must then be a known name. Of the characters below 256 only the ASCII letters have an upper
  case that can occur in such a name.
\<close>

definition log_levels :: "string list" where
  "log_levels = [''CRITICAL'', ''FATAL'', ''ERROR'', ''WARN'', ''WARNING'', ''INFO'', ''DEBUG'', ''NOTSET'']"

definition upper_char :: "char \<Rightarrow> char" where
  "upper_char c = (let n = of_char c :: nat in if 97 \<le> n \<and> n \<le> 122 then char_of (n - 32) else c)"

definition basic_config :: "bool \<Rightarrow> string \<Rightarrow> unit res" where
  "basic_config has_handlers level = raise_if (\<not> has_handlers \<and> map upper_char level \<notin> set log_levels) ValueError"

text \<open>
  \<open>get_session_factory\<close>: \<open>environ\<close> is the variable DATABASE_URL, and \<open>open_engine\<close> stands for
  SQLAlchemy, whose \<open>make_url\<close> and \<open>create_engine\<close> raise on a URL they cannot read or whose
  driver is missing (\<open>Inl\<close> of the exception). The engine itself is the database of the model.
\<close>

definition DEFAULT_DATABASE_URL :: string where
  "DEFAULT_DATABASE_URL = ''sqlite:////data/budget.db''"

definition resolve_database_url :: "string option \<Rightarrow> string \<Rightarrow> string" where
  "resolve_database_url environ url =
     (case truthy_or (Some url) environ of
        None \<Rightarrow> DEFAULT_DATABASE_URL
      | Some chosen \<Rightarrow> if chosen = [] then DEFAULT_DATABASE_URL else chosen)"

definition get_session_factory :: "(string \<Rightarrow> unit res) \<Rightarrow> string option \<Rightarrow> string \<Rightarrow> unit res" where
  "get_session_factory open_engine environ url = open_engine (resolve_database_url environ url)"

text \<open>\<open>create_app\<close>: the OAuth endpoints and the MCP server exist when there is a public URL.\<close>

definition create_app ::
    "(string \<Rightarrow> bool) \<Rightarrow> (string \<Rightarrow> unit res) \<Rightarrow> string option \<Rightarrow> bool \<Rightarrow> settings
      \<Rightarrow> (oauth_config \<times> mcp_server) option res" where
  "create_app bracket_ok open_engine environ has_handlers s =
     bindR (basic_config has_handlers (set_log_level s)) (\<lambda>_.
     case set_public_base_url s of
       None \<Rightarrow> Inr None
     | Some _ \<Rightarrow>
         bindR (from_settings bracket_ok s) (\<lambda>cfg.
         bindR (get_session_factory open_engine environ (set_database_url s)) (\<lambda>_.
         bindR (create_mcp_server bracket_ok s) (\<lambda>server. Inr (Some (cfg, server))))))"

end
