(* ===== verification/ApiFacts.thy ===== *)
theory ApiFacts
  imports Contracts RefreshHistory McpServer OAuthGrants
begin

text \<open>
  The REST application and the MCP server are services in the sense of \<open>Contracts\<close>: they change
  the budget database only for an authorised request and only by a step of the system.
\<close>

section \<open>Sessions\<close>

lemma session_scope_cases:
  "session_scope block db = (r, db') \<longleftrightarrow>
     (\<exists>e. block db = Inl e \<and> r = Inl e \<and> db' = db) \<or> (\<exists>v. block db = Inr (v, db') \<and> r = Inr v)"
  by (auto simp: session_scope_def split: sum.splits)

lemma session_reading [simp]: "snd (session_scope (reading f) db) = db"
  by (auto simp: session_scope_def reading_def bindR_def split: sum.splits)

lemma snd_outcome [simp]: "snd (outcome f r) = snd r" "snd (tool_outcome g q) = snd q"
  by (simp_all add: outcome_def tool_outcome_def)

lemma session_changes: "snd (session_scope block db) \<noteq> db \<Longrightarrow> \<exists>v. block db = Inr (v, snd (session_scope block db))"
  by (auto simp: session_scope_def split: sum.splits)

section \<open>What one REST request changes\<close>

definition writing_call :: "rest_call \<Rightarrow> bool" where
  "writing_call call = (case call of ReplaceConfig _ _ \<Rightarrow> True | CreateRefreshRun _ _ \<Rightarrow> True
     | PutRefreshBatch _ _ _ \<Rightarrow> True | FinalizeRefreshRun _ _ \<Rightarrow> True | _ \<Rightarrow> False)"

definition rest_may_write :: "settings \<Rightarrow> credentials option \<Rightarrow> rest_call \<Rightarrow> bool" where
  "rest_may_write s creds call \<longleftrightarrow> writing_call call \<and> authorized s creds call = Inr ()"

lemma endpoint_step:
  assumes "env_sha256 en = H" and "snd (endpoint en s call db) \<noteq> db"
  shows "writing_call call \<and> sys_step H db (snd (endpoint en s call db))"
proof (cases call)
  case (ReplaceConfig raw if_match)
  with assms(2) obtain request where r: "ConfigPutRequest raw = Inr request"
    and e: "snd (endpoint en s call db) = snd (session_scope (put_config en request if_match) db)"
    by (auto simp: endpoint_def validated_def replace_config_def split: sum.splits)
  from assms(2) obtain v where "put_config en request if_match db = Inr (v, snd (endpoint en s call db))"
    unfolding e using session_changes by blast
  with assms(1) r ReplaceConfig show ?thesis by (auto simp: writing_call_def intro: rest_put)
next
  case (CreateRefreshRun raw key)
  with assms(2) obtain request k where
    e: "snd (endpoint en s call db) = snd (session_scope (begin_refresh en request k (set_max_batch_items s) (set_max_request_bytes s)) db)"
    by (auto simp: endpoint_def validated_def create_refresh_run_def split: sum.splits)
  from assms(2) obtain v where "begin_refresh en request k (set_max_batch_items s) (set_max_request_bytes s) db
      = Inr (v, snd (endpoint en s call db))"
    unfolding e using session_changes by blast
  with assms(1) CreateRefreshRun show ?thesis by (auto simp: writing_call_def intro: start)
next
  case (PutRefreshBatch rid idx raw)
  with assms(2) obtain request where
    e: "snd (endpoint en s call db) = snd (session_scope (upload_batch en rid idx request (set_max_batch_items s) (set_max_request_bytes s)) db)"
    by (auto simp: endpoint_def validated_def put_refresh_batch_def split: sum.splits)
  from assms(2) obtain v where "upload_batch en rid idx request (set_max_batch_items s) (set_max_request_bytes s) db
      = Inr (v, snd (endpoint en s call db))"
    unfolding e using session_changes by blast
  with assms(1) PutRefreshBatch show ?thesis by (auto simp: writing_call_def intro: upload)
next
  case (FinalizeRefreshRun rid raw)
  with assms(2) obtain request where
    e: "snd (endpoint en s call db) = snd (session_scope (commit_refresh en rid request) db)"
    by (auto simp: endpoint_def validated_def finalize_refresh_run_def split: sum.splits)
  from assms(2) obtain v where "commit_refresh en rid request db = Inr (v, snd (endpoint en s call db))"
    unfolding e using session_changes by blast
  with assms(1) FinalizeRefreshRun show ?thesis by (auto simp: writing_call_def intro: commit)
qed (use assms(2) in \<open>simp_all add: endpoint_def read_config_def read_refresh_run_def read_budget_dashboard_def\<close>)

lemma rest_request_changes:
  assumes "env_sha256 en = H" and "snd (rest_request en s cl creds call db) \<noteq> db"
  shows "rest_may_write s creds call \<and> sys_step H db (snd (rest_request en s cl creds call db)) \<and>
    rest_request en s cl creds call db = endpoint en s call db"
proof -
  have "rest_request en s cl creds call db =
      (case authorized s creds call of Inl e \<Rightarrow> (auth_refusal e, db) | Inr _ \<Rightarrow> endpoint en s call db)"
    using assms(2) by (auto simp: rest_request_def request_safety_def split: option.splits if_splits)
  moreover from this assms(2) have a: "authorized s creds call = Inr ()" by (auto split: sum.splits)
  ultimately have e: "rest_request en s cl creds call db = endpoint en s call db" by simp
  show ?thesis using endpoint_step [OF assms(1), of s call db] assms(2) a unfolding e by (simp add: rest_may_write_def)
qed

section \<open>What one tool call changes\<close>

definition writing_tool :: "tool_call \<Rightarrow> bool" where
  "writing_tool call = (case call of ToolUpdateConfig _ _ \<Rightarrow> True | ToolBeginRefresh _ _ \<Rightarrow> True
     | ToolUploadBatch _ _ _ _ \<Rightarrow> True | ToolCommitRefresh _ _ \<Rightarrow> True | _ \<Rightarrow> False)"

definition tool_may_write :: "mcp_access_token option \<Rightarrow> tool_call \<Rightarrow> bool" where
  "tool_may_write token call \<longleftrightarrow> writing_tool call \<and> (case token of None \<Rightarrow> False
     | Some t \<Rightarrow> (case call of ToolUpdateConfig _ _ \<Rightarrow> BUDGET_CONFIG_SCOPE | _ \<Rightarrow> BUDGET_REFRESH_SCOPE) \<in> set (mt_scopes t))"

lemma run_tool_step:
  assumes "env_sha256 en = H" and "snd (run_tool en s call db) \<noteq> db"
  shows "writing_tool call \<and> sys_step H db (snd (run_tool en s call db))"
proof (cases call)
  case (ToolUpdateConfig raw expected)
  with assms(2) obtain request where r: "ConfigPutRequest raw = Inr request"
    and e: "snd (run_tool en s call db) = snd (session_scope (put_config_checked en request expected) db)"
    by (auto simp: run_tool_def with_args_def mcp_update_config_def split: sum.splits)
  from assms(2) obtain v where "put_config_checked en request expected db = Inr (v, snd (run_tool en s call db))"
    unfolding e using session_changes by blast
  with assms(1) r ToolUpdateConfig show ?thesis by (auto simp: writing_tool_def intro: tool_put)
next
  case (ToolBeginRefresh raw key)
  with assms(2) obtain args where
    e: "snd (run_tool en s call db) = snd (session_scope (\<lambda>db. bindR (RefreshBeginRequest args) (\<lambda>request.
       begin_refresh en request key (set_max_batch_items s) (set_max_request_bytes s) db)) db)"
    by (auto simp: run_tool_def with_args_def mcp_begin_refresh_def split: sum.splits)
  from assms(2) obtain v request where
    "begin_refresh en request key (set_max_batch_items s) (set_max_request_bytes s) db = Inr (v, snd (run_tool en s call db))"
    unfolding e using session_changes by (fastforce simp: bindR_eq_Inr)
  with assms(1) ToolBeginRefresh show ?thesis by (auto simp: writing_tool_def intro: start)
next
  case (ToolUploadBatch rid idx key raw)
  with assms(2) obtain items where
    e: "snd (run_tool en s call db) = snd (session_scope (\<lambda>db. bindR (batch_of_models key items) (\<lambda>request.
       upload_batch en rid idx request (set_max_batch_items s) (set_max_request_bytes s) db)) db)"
    by (auto simp: run_tool_def with_args_def mcp_upload_batch_def split: sum.splits)
  from assms(2) obtain v request where
    "upload_batch en rid idx request (set_max_batch_items s) (set_max_request_bytes s) db = Inr (v, snd (run_tool en s call db))"
    unfolding e using session_changes by (fastforce simp: bindR_eq_Inr)
  with assms(1) ToolUploadBatch show ?thesis by (auto simp: writing_tool_def intro: upload)
next
  case (ToolCommitRefresh rid raw)
  with assms(2) obtain args where
    e: "snd (run_tool en s call db) = snd (session_scope (\<lambda>db. bindR (RefreshCommitRequest args) (\<lambda>request.
       commit_refresh en rid request db)) db)"
    by (auto simp: run_tool_def with_args_def mcp_commit_refresh_def split: sum.splits)
  from assms(2) obtain v request where "commit_refresh en rid request db = Inr (v, snd (run_tool en s call db))"
    unfolding e using session_changes by (fastforce simp: bindR_eq_Inr)
  with assms(1) ToolCommitRefresh show ?thesis by (auto simp: writing_tool_def intro: commit)
qed (use assms(2) in \<open>simp_all add: run_tool_def mcp_get_config_def mcp_get_refresh_status_def mcp_get_dashboard_def\<close>)

lemma call_tool_changes:
  assumes "env_sha256 en = H" and "snd (call_tool en s url token call db) \<noteq> db"
  shows "tool_may_write token call \<and> sys_step H db (snd (call_tool en s url token call db))"
proof -
  have e: "call_tool en s url token call db = run_tool en s call db"
    and scope: "map_of TOOL_SCOPES (tool_name call) = Some sc \<Longrightarrow> \<exists>t. token = Some t \<and> sc \<in> set (mt_scopes t)" for sc
    using assms(2) by (auto simp: call_tool_def split: option.splits if_splits)
  have "writing_tool call \<and> sys_step H db (snd (run_tool en s call db))"
    using run_tool_step [OF assms(1)] assms(2) unfolding e by blast
  moreover have "tool_may_write token call" if "writing_tool call"
    using that scope by (cases call) (auto simp: writing_tool_def tool_may_write_def tool_name_def TOOL_SCOPES_def)
  ultimately show ?thesis by (simp add: e)
qed

section \<open>The two services\<close>

definition rest_serve ::
    "env \<times> settings \<times> string option \<times> credentials option \<times> rest_call \<Rightarrow> db \<Rightarrow> rest_response \<times> db" where
  "rest_serve r db = (case r of (en, s, cl, creds, call) \<Rightarrow> rest_request en s cl creds call db)"

definition mcp_serve ::
    "env \<times> settings \<times> string \<times> mcp_access_token option \<times> tool_call \<Rightarrow> db \<Rightarrow> tool_result \<times> db" where
  "mcp_serve r db = (case r of (en, s, url, token, call) \<Rightarrow> call_tool en s url token call db)"

definition rest_authorised :: "env \<times> settings \<times> string option \<times> credentials option \<times> rest_call \<Rightarrow> bool" where
  "rest_authorised r = (case r of (en, s, cl, creds, call) \<Rightarrow> rest_may_write s creds call)"

definition mcp_authorised :: "env \<times> settings \<times> string \<times> mcp_access_token option \<times> tool_call \<Rightarrow> bool" where
  "mcp_authorised r = (case r of (en, s, url, token, call) \<Rightarrow> tool_may_write token call)"

interpretation rest: service rest_serve "\<lambda>r. env_sha256 (fst r) = H" rest_authorised "sys_step H" for H
proof (standard, goal_cases)
  case (1 r d a d')
  obtain en s cl creds call where r: "r = (en, s, cl, creds, call)" by (cases r) auto
  with 1 rest_request_changes [of en H s cl creds call d] show ?case
    by (auto simp: rest_serve_def rest_authorised_def)
qed

interpretation mcp: service mcp_serve "\<lambda>r. env_sha256 (fst r) = H" mcp_authorised "sys_step H" for H
proof (standard, goal_cases)
  case (1 r d a d')
  obtain en s url token call where r: "r = (en, s, url, token, call)" by (cases r) auto
  with 1 call_tool_changes [of en H s url token call d] show ?case
    by (auto simp: mcp_serve_def mcp_authorised_def)
qed

interpretation server: two_services rest_serve "\<lambda>r. env_sha256 (fst r) = H" rest_authorised "sys_step H"
    mcp_serve "\<lambda>r. env_sha256 (fst r) = H" mcp_authorised for H
  by standard

end
