(* ===== verification/AccessTheorems.thy ===== *)
theory AccessTheorems
  imports McpServer OAuthInvariant
begin

text \<open>
  Properties of the settings, of the OAuth configuration built from them, and of the bearer keys
  they configure.
\<close>

section \<open>Accepted settings\<close>

lemmas settings_simps = Settings_def int_field_def key_field_def validate_wildcard_def validate_api_keys_def

text \<open>What the field constraints and the validators leave true of an accepted model.\<close>

definition settings_ok :: "(string \<Rightarrow> bool) \<Rightarrow> settings \<Rightarrow> bool" where
  "settings_ok bracket_ok s \<longleftrightarrow>
     (\<forall>k \<in> set (configured_keys s). 24 \<le> length k) \<and> distinct (configured_keys s) \<and> configured_keys s \<noteq> [] \<and>
     (\<forall>u. set_public_base_url s = Some u \<longrightarrow> (\<exists>v. base_origin bracket_ok v = Inr u)) \<and>
     (\<forall>k. set_oauth_consent_secret s = Some k \<longrightarrow> 24 \<le> length k) \<and>
     (set_public_base_url s \<noteq> None \<longrightarrow> set_oauth_consent_secret s \<noteq> None \<or> set_api_key s \<noteq> None) \<and>
     distinct (set_oauth_form_action_origins s) \<and> set_oauth_form_action_origins s \<noteq> [] \<and>
     (\<forall>x \<in> set (set_oauth_form_action_origins s). exact_https bracket_ok x) \<and>
     60 \<le> set_oauth_authorization_code_ttl_seconds s \<and> set_oauth_authorization_code_ttl_seconds s \<le> 900 \<and>
     300 \<le> set_oauth_access_token_ttl_seconds s \<and> set_oauth_access_token_ttl_seconds s \<le> 86400 \<and>
     86400 \<le> set_oauth_refresh_token_ttl_seconds s \<and> set_oauth_refresh_token_ttl_seconds s \<le> 31536000 \<and>
     set_max_request_bytes s + 65536 \<le> set_mcp_max_request_bytes s"

lemma int_field_Inr: "int_field d lo hi v = Inr n \<Longrightarrow> lo \<le> d \<Longrightarrow> d \<le> hi \<Longrightarrow> lo \<le> n \<and> n \<le> hi"
  by (auto simp: int_field_def result_simps split: option.splits)

lemma key_field_Inr: "key_field v = Inr k \<Longrightarrow> k = Some x \<Longrightarrow> 24 \<le> length x"
  by (auto simp: key_field_def result_simps split: option.splits)

lemma default_origin: "exact_https bracket_ok ''https://chatgpt.com''"
  unfolding exact_https_def
  by (rule exI [of _ "''chatgpt.com''"]) (simp add: origin_parts_def netloc_end_def urlunsplit_def)

lemma form_origins_ok:
  assumes "(case v of None \<Rightarrow> Inr [''https://chatgpt.com'']
      | Some x \<Rightarrow> validate_oauth_form_action_origins bracket_ok (split_origins x)) = Inr origins"
  shows "distinct origins \<and> (\<forall>x \<in> set origins. exact_https bracket_ok x) \<and> origins \<noteq> []"
  using assms origins_loop default_origin
  by (auto simp: validate_oauth_form_action_origins_def result_simps split: option.splits)

lemma settings_accepted:
  assumes "Settings bracket_ok e = Inr s"
  shows "settings_ok bracket_ok s"
proof -
  have va: "t = s \<and> validate_api_keys s = Inr s" if "validate_api_keys t = Inr s" for t
    using that by (auto simp: validate_api_keys_def result_simps)
  have k: "key_field (se_api_key e) = Inr (set_api_key s)" "key_field (se_budget_read_api_key e) = Inr (set_budget_read_api_key s)"
      "key_field (se_budget_write_api_key e) = Inr (set_budget_write_api_key s)"
      "key_field (se_budget_admin_api_key e) = Inr (set_budget_admin_api_key s)"
      "key_field (se_oauth_consent_secret e) = Inr (set_oauth_consent_secret s)"
    and n: "int_field 300 60 900 (se_oauth_authorization_code_ttl_seconds e) = Inr (set_oauth_authorization_code_ttl_seconds s)"
      "int_field 900 300 86400 (se_oauth_access_token_ttl_seconds e) = Inr (set_oauth_access_token_ttl_seconds s)"
      "int_field 7776000 86400 31536000 (se_oauth_refresh_token_ttl_seconds e) = Inr (set_oauth_refresh_token_ttl_seconds s)"
    and u: "validate_public_base_url bracket_ok (se_public_base_url e) = Inr (set_public_base_url s)"
    and f: "(case se_oauth_form_action_origins e of None \<Rightarrow> Inr [''https://chatgpt.com'']
      | Some x \<Rightarrow> validate_oauth_form_action_origins bracket_ok (split_origins x)) = Inr (set_oauth_form_action_origins s)"
    and v: "validate_api_keys s = Inr s"
    using assms unfolding Settings_def map_error_Inr bindR_eq_Inr
    by (elim exE conjE, drule_tac va, elim conjE, hypsubst, simp)+
  have 1: "\<forall>k \<in> set (configured_keys s). 24 \<le> length k"
    using k [THEN key_field_Inr] by (auto simp: configured_keys_def role_keys_def List.map_filter_def)
  have 2: "configured_keys s \<noteq> []"
    using v by (auto simp: validate_api_keys_def result_simps configured_keys_def role_keys_def List.map_filter_def)
  have 3: "\<forall>u. set_public_base_url s = Some u \<longrightarrow> (\<exists>v. base_origin bracket_ok v = Inr u)"
    using u by (auto simp: validate_public_base_url_def result_simps split: option.splits)
  from 1 2 3 n [THEN int_field_Inr] form_origins_ok [OF f] key_field_Inr [OF k(5)] v show ?thesis
    by (auto simp: settings_ok_def validate_api_keys_def result_simps)
qed

lemma secret_accepted:
  assumes "settings_ok bracket_ok s" and "set_public_base_url s \<noteq> None"
  obtains k where "truthy_or (set_oauth_consent_secret s) (set_api_key s) = Some k" "24 \<le> length k"
proof -
  have "set_api_key s = Some k \<Longrightarrow> 24 \<le> length k" for k
    using assms(1) by (auto simp: settings_ok_def configured_keys_def List.map_filter_def)
  moreover have "set_oauth_consent_secret s = Some k \<Longrightarrow> 24 \<le> length k" for k
    using assms(1) by (simp add: settings_ok_def)
  moreover have "set_oauth_consent_secret s \<noteq> None \<or> set_api_key s \<noteq> None"
    using assms by (simp add: settings_ok_def)
  moreover have "x \<noteq> None \<or> y \<noteq> None \<Longrightarrow> (\<And>k. x = Some k \<Longrightarrow> 24 \<le> length k) \<Longrightarrow> (\<And>k. y = Some k \<Longrightarrow> 24 \<le> length k) \<Longrightarrow>
      \<exists>k. truthy_or x y = Some k \<and> 24 \<le> length k" for x y
    by (cases x; cases y) (auto simp: truthy_or_def)
  ultimately show thesis using that by metis
qed

lemma metadata_of_origin:
  assumes "origin_parts bracket_ok sc n"
  shows "protected_resource_metadata bracket_ok (urlunsplit sc n [] [] @ ''/mcp'') =
    Inr (urlunsplit sc n [] [] @ ''/.well-known/oauth-protected-resource/mcp'')"
proof -
  have "urlunsplit sc n ''/mcp'' [] = urlunsplit sc n [] [] @ ''/mcp''"
    "urlunsplit sc n (''/.well-known/oauth-protected-resource'' @ ''/mcp'') [] =
      urlunsplit sc n [] [] @ ''/.well-known/oauth-protected-resource/mcp''"
    by (simp_all add: urlunsplit_def)
  moreover have "urlsplit bracket_ok (urlunsplit sc n ''/mcp'' []) =
      Inr \<lparr>us_scheme = sc, us_netloc = n, us_path = ''/mcp'', us_query = [], us_fragment = []\<rparr>"
    using assms by (intro urlsplit_path) (auto simp: origin_parts_def plain_path_def)
  ultimately show ?thesis
    by (simp add: protected_resource_metadata_def del: append.simps append_Cons append_Nil)
qed

lemma create_mcp_server_accepted:
  assumes "base_origin bracket_ok u = Inr u" and "set_public_base_url s = Some u"
  shows "create_mcp_server bracket_ok s = Inr
    \<lparr>ms_resource_metadata_url = u @ ''/.well-known/oauth-protected-resource/mcp'',
     ms_max_request_body_size = set_mcp_max_request_bytes s\<rparr>"
proof -
  obtain sc n where "origin_parts bracket_ok sc n" "u = urlunsplit sc n [] []"
    using assms(1) by (rule base_origin_InrD)
  then show ?thesis using metadata_of_origin assms(2)
    by (simp add: create_mcp_server_def require_def mcp_public_url_def)
qed

lemma from_settings_accepted:
  assumes ok: "settings_ok bracket_ok s" and u: "base_origin bracket_ok u = Inr u" "set_public_base_url s = Some u"
    and strip: "\<forall>x \<in> set (set_oauth_form_action_origins s). py_strip x = x"
    and k: "truthy_or (set_oauth_consent_secret s) (set_api_key s) = Some k" "24 \<le> length k"
  shows "\<exists>cfg. from_settings bracket_ok s = Inr cfg \<and> oc_public_base_url cfg = u \<and> oc_consent_secrets cfg = [k] \<and>
    oc_form_action_origins cfg = set_oauth_form_action_origins s \<and>
    oc_authorization_code_ttl_seconds cfg = set_oauth_authorization_code_ttl_seconds s \<and>
    oc_access_token_ttl_seconds cfg = set_oauth_access_token_ttl_seconds s \<and>
    oc_refresh_token_ttl_seconds cfg = set_oauth_refresh_token_ttl_seconds s"
proof -
  have "for_each (add_origin bracket_ok) [] (set_oauth_form_action_origins s) = Inr (set_oauth_form_action_origins s)"
    using origins_again [of "set_oauth_form_action_origins s" bracket_ok "[]"] ok strip by (simp add: settings_ok_def)
  moreover have "k \<noteq> []" using k(2) by auto
  ultimately show ?thesis using ok k u
    by (simp add: from_settings_def require_def OAuthConfig_init_def raise_if_def settings_ok_def Let_def dict_of_def
        oauth_owner_secret_def)
qed

text \<open>
  C9: When settings that were accepted, with a public URL, build the application, and that its
  parts agree. The application is built unless LOG_LEVEL is not the name of a level (and the
  logger is not set up already), which raises ValueError, or SQLAlchemy cannot open the database
  URL, whose exception is passed on; nothing else can fail. The OAuth configuration then has the
  base URL of the settings, hence the same MCP resource, the MCP server points its clients to the
  metadata document the OAuth endpoints serve, the form-action origins and lifetimes are those of
  the settings, and the owner secret of the settings is the only consent secret, which therefore
  has at least 24 characters. The normalised public URL and form-action origins must end without
  white space, which the validators do not ensure.
\<close>

theorem accepted_settings_build_app:
  assumes "Settings bracket_ok e = Inr s" and "set_public_base_url s = Some u" and "py_strip u = u"
    and "\<forall>x \<in> set (set_oauth_form_action_origins s). py_strip x = x"
  shows "if \<not> has_handlers \<and> map upper_char (set_log_level s) \<notin> set log_levels
    then create_app bracket_ok open_engine environ has_handlers s = Inl ValueError
    else case open_engine (resolve_database_url environ (set_database_url s)) of
      Inl err \<Rightarrow> create_app bracket_ok open_engine environ has_handlers s = Inl err
    | Inr _ \<Rightarrow> \<exists>cfg server secret.
        create_app bracket_ok open_engine environ has_handlers s = Inr (Some (cfg, server)) \<and>
        oauth_owner_secret s = Inr secret \<and> 24 \<le> length secret \<and> oc_consent_secrets cfg = [secret] \<and>
        issuer cfg = u \<and> mcp_public_url s = Some (resource_of cfg) \<and>
        ms_resource_metadata_url server = protected_resource_metadata_url cfg \<and>
        oc_form_action_origins cfg = set_oauth_form_action_origins s \<and>
        oc_authorization_code_ttl_seconds cfg = set_oauth_authorization_code_ttl_seconds s \<and>
        oc_access_token_ttl_seconds cfg = set_oauth_access_token_ttl_seconds s \<and>
        oc_refresh_token_ttl_seconds cfg = set_oauth_refresh_token_ttl_seconds s"
proof -
  have ok: "settings_ok bracket_ok s" by (rule settings_accepted [OF assms(1)])
  have "set_public_base_url s \<noteq> None" using assms(2) by simp
  then obtain k where k: "truthy_or (set_oauth_consent_secret s) (set_api_key s) = Some k" "24 \<le> length k"
    using secret_accepted [OF ok] by auto
  have u: "base_origin bracket_ok u = Inr u"
    using ok assms(2,3) base_origin_again by (auto simp: settings_ok_def)
  obtain cfg where cfg: "from_settings bracket_ok s = Inr cfg" "oc_public_base_url cfg = u" "oc_consent_secrets cfg = [k]"
    "oc_form_action_origins cfg = set_oauth_form_action_origins s"
    "oc_authorization_code_ttl_seconds cfg = set_oauth_authorization_code_ttl_seconds s"
    "oc_access_token_ttl_seconds cfg = set_oauth_access_token_ttl_seconds s"
    "oc_refresh_token_ttl_seconds cfg = set_oauth_refresh_token_ttl_seconds s"
    using from_settings_accepted [OF ok u assms(2,4) k] by blast
  show ?thesis
    using k assms(2) create_mcp_server_accepted [OF u assms(2)]
    by (auto simp: create_app_def basic_config_def get_session_factory_def cfg raise_if_def oauth_owner_secret_def
        require_def mcp_public_url_def resource_of_def issuer_def protected_resource_metadata_url_def split: sum.split)
qed

section \<open>Bearer keys\<close>

lemma key_of_level: "(Some k, l) \<in> set (key_candidates s) \<Longrightarrow> k \<in> set (configured_keys s)"
  by (auto simp: key_candidates_def configured_keys_def role_keys_def List.map_filter_def split: option.splits dest: sym)

lemma configured_has_level: "k \<in> set (configured_keys s) \<Longrightarrow> \<exists>l. (Some k, l) \<in> set (key_candidates s)"
  by (auto simp: key_candidates_def configured_keys_def role_keys_def List.map_filter_def split: option.splits if_splits)

lemma level_unique:
  assumes "distinct (configured_keys s)" "(Some k, l) \<in> set (key_candidates s)" "(Some k, l') \<in> set (key_candidates s)"
  shows "l = l'"
  using assms
  by (auto simp: key_candidates_def configured_keys_def role_keys_def List.map_filter_def split: option.splits if_splits)

lemma provided_level_ascii:
  assumes "distinct (configured_keys s)" and "is_ascii token" and "\<forall>k \<in> set (configured_keys s). is_ascii k"
  shows "provided_level token s = Inr r \<longleftrightarrow>
    (case r of None \<Rightarrow> token \<notin> set (configured_keys s) | Some l \<Rightarrow> (Some token, l) \<in> set (key_candidates s))"
proof -
  let ?f = "find (\<lambda>(k, l). k = Some token) (key_candidates s)"
  have e: "provided_level token s = Inr (map_option snd ?f)"
    unfolding provided_level_def using assms(2,3) key_of_level by (intro first_match_ascii) fastforce+
  show ?thesis
  proof (cases ?f)
    case None
    then have "(Some token, l) \<notin> set (key_candidates s)" for l by (auto simp: find_None_iff)
    with e None configured_has_level [of token s] key_of_level show ?thesis by (auto split: option.split)
  next
    case (Some x)
    then obtain l where x: "x = (Some token, l)" "x \<in> set (key_candidates s)"
      by (auto dest!: find_SomeD)
    then have "(Some token, l') \<in> set (key_candidates s) \<longleftrightarrow> l = l'" for l'
      using level_unique [OF assms(1), of token l l'] by auto
    with e Some x key_of_level [of token l s] show ?thesis by (cases r) auto
  qed
qed

text \<open>
  C10: what a bearer token gives, with accepted settings whose keys are ASCII. An ASCII token passes
  exactly when the scheme is Bearer and the token is the configured key of a level that is at least
  the endpoint's; a token that is no configured key is refused with 401, a configured key of a
  lower level with 403. A token that is not ASCII is refused too, but by an unhandled TypeError of
  \<open>secrets.compare_digest\<close> (500, finding).
\<close>

theorem bearer_key_decides:
  assumes "Settings bracket_ok e = Inr s" and "\<forall>k \<in> set (configured_keys s). is_ascii k"
    and "lower (cr_scheme c) = ''bearer''"
  shows "if is_ascii (cr_credentials c) then
      (require_access minimum (Some c) s = Inr level \<longleftrightarrow>
         (Some (cr_credentials c), level) \<in> set (key_candidates s) \<and> minimum \<le> level) \<and>
      (require_access minimum (Some c) s = Inl InvalidKey \<longleftrightarrow> cr_credentials c \<notin> set (configured_keys s)) \<and>
      (require_access minimum (Some c) s = Inl InsufficientAccess \<longleftrightarrow>
         (\<exists>l. (Some (cr_credentials c), l) \<in> set (key_candidates s) \<and> l < minimum))
    else require_access minimum (Some c) s = Inl (AuthFailure TypeError)"
proof -
  have ok: "settings_ok bracket_ok s" by (rule settings_accepted [OF assms(1)])
  then have d: "distinct (configured_keys s)" "configured_keys s \<noteq> []" by (auto simp: settings_ok_def)
  have sch: "require_access minimum (Some c) s =
      bindR (map_error AuthFailure (provided_level (cr_credentials c) s)) (\<lambda>found.
      bindR (require InvalidKey found) (\<lambda>level.
      bindR (raise_if (level < minimum) InsufficientAccess) (\<lambda>_. Inr level)))"
    using assms(3) by (simp add: require_access_def raise_if_def)
  show ?thesis
  proof (cases "is_ascii (cr_credentials c)")
    case True
    note pl = provided_level_ascii [OF d(1) True assms(2)]
    show ?thesis
    proof (cases "cr_credentials c \<in> set (configured_keys s)")
      case key: True
      then obtain l where l: "(Some (cr_credentials c), l) \<in> set (key_candidates s)" using configured_has_level by blast
      then have "provided_level (cr_credentials c) s = Inr (Some l)" by (simp add: pl)
      moreover have "(Some (cr_credentials c), l') \<in> set (key_candidates s) \<longleftrightarrow> l' = l" for l'
        using l level_unique [OF d(1) l, of l'] by auto
      ultimately show ?thesis
        using True key by (auto simp: sch map_error_def require_def raise_if_def)
    next
      case False
      then have "provided_level (cr_credentials c) s = Inr None" by (simp add: pl)
      with True False key_of_level [of "cr_credentials c" _ s] show ?thesis
        by (auto simp: sch map_error_def require_def)
    qed
  next
    case False
    then have "provided_level (cr_credentials c) s = Inl TypeError"
      unfolding provided_level_def using d(2)
      by (cases "set_api_key s"; cases "set_budget_read_api_key s"; cases "set_budget_write_api_key s";
          cases "set_budget_admin_api_key s")
        (simp_all add: key_candidates_def configured_keys_def role_keys_def List.map_filter_def compare_digest_def)
    with False show ?thesis by (simp add: sch map_error_def)
  qed
qed

section \<open>Witnesses\<close>

definition env0 :: settings_env where
  "env0 = \<lparr>se_app_env = None, se_log_level = None, se_database_url = None, se_api_key = None,
     se_budget_read_api_key = Some ''read-key-0123456789abcdef'',
     se_budget_write_api_key = Some ''write-key-0123456789abcdef'',
     se_budget_admin_api_key = Some ''admin-key-0123456789abcdef'',
     se_cors_allowed_origins = None, se_max_batch_items = None, se_max_request_bytes = None,
     se_stale_after_hours = None, se_public_base_url = Some ''https://budget.test'',
     se_oauth_consent_secret = Some ''owner-secret-0123456789ab'', se_oauth_form_action_origins = None,
     se_oauth_authorization_code_ttl_seconds = None, se_oauth_access_token_ttl_seconds = None,
     se_oauth_refresh_token_ttl_seconds = None, se_mcp_max_request_bytes = None\<rparr>"

definition settings0 :: settings where
  "settings0 = \<lparr>set_app_env = ''production'', set_log_level = ''INFO'',
     set_database_url = ''sqlite:////data/budget.db'', set_api_key = None,
     set_budget_read_api_key = Some ''read-key-0123456789abcdef'',
     set_budget_write_api_key = Some ''write-key-0123456789abcdef'',
     set_budget_admin_api_key = Some ''admin-key-0123456789abcdef'',
     set_cors_allowed_origins = [''*''], set_max_batch_items = 250, set_max_request_bytes = 262144,
     set_stale_after_hours = 36, set_public_base_url = Some ''https://budget.test'',
     set_oauth_consent_secret = Some ''owner-secret-0123456789ab'',
     set_oauth_form_action_origins = [''https://chatgpt.com''],
     set_oauth_authorization_code_ttl_seconds = 300, set_oauth_access_token_ttl_seconds = 900,
     set_oauth_refresh_token_ttl_seconds = 7776000, set_mcp_max_request_bytes = 524288\<rparr>"

lemma settings0_accepted: "Settings (\<lambda>_. True) env0 = Inr settings0"
  by code_simp

text \<open>An engine for SQLite URLs only, as where the PostgreSQL driver is not installed.\<close>

definition sqlite_engine :: "string \<Rightarrow> unit res" where
  "sqlite_engine url = raise_if (take 7 url \<noteq> ''sqlite:'') RuntimeError"

theorem accepted_settings_build_app_witness:
  "(\<exists>cfg server secret. create_app (\<lambda>_. True) sqlite_engine None False settings0 = Inr (Some (cfg, server)) \<and>
    oauth_owner_secret settings0 = Inr secret \<and> 24 \<le> length secret \<and> oc_consent_secrets cfg = [secret] \<and>
    issuer cfg = ''https://budget.test'' \<and> mcp_public_url settings0 = Some (resource_of cfg) \<and>
    ms_resource_metadata_url server = protected_resource_metadata_url cfg) \<and>
   create_app (\<lambda>_. True) sqlite_engine None False (settings0\<lparr>set_log_level := ''verbose''\<rparr>) = Inl ValueError"
proof (rule conjI)
  have "set_public_base_url settings0 = Some ''https://budget.test''" by (simp add: settings0_def)
  moreover have "py_strip ''https://budget.test'' = ''https://budget.test''" by code_simp
  moreover have "py_strip ''https://chatgpt.com'' = ''https://chatgpt.com''" by code_simp
  then have "\<forall>x \<in> set (set_oauth_form_action_origins settings0). py_strip x = x" by (simp add: settings0_def)
  moreover have "map upper_char (set_log_level settings0) \<in> set log_levels" by code_simp
  moreover have "sqlite_engine (resolve_database_url None (set_database_url settings0)) = Inr ()" by code_simp
  ultimately show "\<exists>cfg server secret. create_app (\<lambda>_. True) sqlite_engine None False settings0 = Inr (Some (cfg, server)) \<and>
    oauth_owner_secret settings0 = Inr secret \<and> 24 \<le> length secret \<and> oc_consent_secrets cfg = [secret] \<and>
    issuer cfg = ''https://budget.test'' \<and> mcp_public_url settings0 = Some (resource_of cfg) \<and>
    ms_resource_metadata_url server = protected_resource_metadata_url cfg"
    using accepted_settings_build_app [OF settings0_accepted, where open_engine = sqlite_engine
      and environ = None and has_handlers = False] by fastforce
  let ?s = "settings0\<lparr>set_log_level := ''verbose''\<rparr>"
  have "Settings (\<lambda>_. True) (env0\<lparr>se_log_level := Some ''verbose''\<rparr>) = Inr ?s" by code_simp
  moreover have "set_public_base_url ?s = Some ''https://budget.test''" by (simp add: settings0_def)
  moreover have "py_strip ''https://budget.test'' = ''https://budget.test''" by code_simp
  moreover have "py_strip ''https://chatgpt.com'' = ''https://chatgpt.com''" by code_simp
  then have "\<forall>x \<in> set (set_oauth_form_action_origins ?s). py_strip x = x" by (simp add: settings0_def)
  moreover have "map upper_char (set_log_level ?s) \<notin> set log_levels" by code_simp
  ultimately show "create_app (\<lambda>_. True) sqlite_engine None False ?s = Inl ValueError"
    using accepted_settings_build_app [where open_engine = sqlite_engine and environ = None and has_handlers = False]
    by simp
qed

theorem bearer_key_decides_witness:
  "require_access WRITE (Some \<lparr>cr_scheme = ''Bearer'', cr_credentials = ''write-key-0123456789abcdef''\<rparr>) settings0 =
     Inr WRITE"
proof -
  let ?c = "\<lparr>cr_scheme = ''Bearer'', cr_credentials = ''write-key-0123456789abcdef''\<rparr>"
  have a: "\<forall>k \<in> set (configured_keys settings0). is_ascii k" by code_simp
  have b: "lower (cr_scheme ?c) = ''bearer''" by code_simp
  have d: "is_ascii (cr_credentials ?c)" by code_simp
  have e: "(Some (cr_credentials ?c), WRITE) \<in> set (key_candidates settings0)" by (simp add: key_candidates_def settings0_def)
  show ?thesis using bearer_key_decides [OF settings0_accepted a b, of WRITE WRITE] d e by simp
qed

end
