(* ===== verification/ApiTheorems.thy ===== *)
theory ApiTheorems
  imports ApiFacts OAuthTheorems AccessTheorems RefreshExample OAuthExample
begin

text \<open>
  Properties of the two front ends: who can change what, and what every history of their requests
  keeps.
\<close>

section \<open>What the refresh requests leave alone\<close>

definition rules_kept :: "db \<Rightarrow> db \<Rightarrow> bool" where
  "rules_kept db db' \<longleftrightarrow> rule_versions db' = rule_versions db \<and> config_version_rules db' = config_version_rules db \<and>
     map cv_id (config_versions db') = map cv_id (config_versions db)"

lemma rules_kept_trans: "rules_kept a b \<Longrightarrow> rules_kept b c \<Longrightarrow> rules_kept a c"
  by (simp add: rules_kept_def)

lemma rules_kept_presentation:
  assumes "apply_config_presentation config db = Inr db'"
  shows "rules_kept db db'"
proof -
  from assms obtain snapshot :: config_request where loop:
    "for_each (\<lambda>t item. bindR (require ConfigCategoryMissing (map_of (map (\<lambda>c. (cat_key c, c))
        (filter (\<lambda>c. cat_key c \<in> set (map ci_key (cr_categories snapshot))) (categories db))) (ci_key item)))
        (\<lambda>category. update_category (present item category) t)) db (cr_categories snapshot) = Inr db'"
    by (auto simp: apply_config_presentation_def result_simps Let_def)
  show ?thesis
    using loop by (rule for_each_inv) (auto simp: rules_kept_def result_simps dest!: update_category_InrD(1))
qed

lemma rules_kept_update: "update_config_version dia old new db = Inr db' \<Longrightarrow> rules_kept db db'"
  by (drule update_config_version_InrD(1)) (simp add: rules_kept_def)

lemma rules_kept_activate:
  assumes "activate_config en config db = Inr db'"
  shows "rules_kept db db'"
proof (cases "cv_status config = PENDING")
  case True
  with assms obtain d1 d2 where a: "apply_config_presentation config db = Inr d1"
    "(case active_version d1 of None \<Rightarrow> Inr d1 | Some old_active \<Rightarrow> if cv_id old_active \<noteq> cv_id config
        then update_config_version (env_dialect en) old_active (supersede en old_active) d1 else Inr d1) = Inr d2"
    "update_config_version (env_dialect en) config (activated en config) d2 = Inr db'"
    by (auto simp: activate_config_def result_simps)
  from a(2) have "rules_kept d1 d2"
    by (auto simp: rules_kept_def split: option.splits if_splits dest: update_config_version_InrD(1))
  with rules_kept_presentation [OF a(1)] rules_kept_update [OF a(3)] show ?thesis
    using rules_kept_trans by blast
qed (use assms in \<open>simp add: activate_config_def rules_kept_def\<close>)

lemma rules_kept_commit:
  assumes c: "commit_refresh en rid request db = Inr (v, db')" and I: "sys_inv H db"
  shows "rules_kept db db'"
proof (cases "\<exists>run. get_row run_id rid (refresh_runs db) = Some run \<and> run_state run \<noteq> COMMITTED")
  case False
  with c have "db' = db" by (auto simp: commit_refresh_def replay_commit_def result_simps split: if_splits)
  then show ?thesis by (simp add: rules_kept_def)
next
  case True
  then obtain run where r: "get_row run_id rid (refresh_runs db) = Some run" "run_state run \<noteq> COMMITTED" by blast
  have g: "integrity db" using I by (simp add: sys_inv_def config_inv_def)
  have "run_ok db run" using I get_row_SomeD [OF r(1)] by (simp add: sys_inv_def refresh_inv_def)
  then obtain to_date where w: "run_source_to_date run = Some to_date" by (auto simp: run_ok_def)
  show ?thesis
  proof (rule commit_InrD [OF c r], goal_cases)
    case (1 config d1 d2 d3)
    let ?d0 = "db\<lparr>refresh_runs := put_row run_id (validated_run en db request run) (refresh_runs db)\<rparr>"
    have "integrity ?d0" using integrity_update_refresh_run [OF g 1(5)] get_row_SomeD [OF r(1)] by blast
    moreover have "run_source_to_date (validated_run en db request run) = Some to_date"
      using w by (simp add: validated_run_def Let_def)
    ultimately have "live_only ?d0 d1" by (rule publish_live_only [OF 1(6)])
    note live_only_fields [OF this]
    then have "rules_kept db (d1\<lparr>refresh_runs := put_row run_id (commit_result en db request run) (refresh_runs d1)\<rparr>)"
      by (simp add: rules_kept_def)
    moreover have "rules_kept d2 d3"
      using 1(9) by (auto simp: advance_sync_def rules_kept_def split: option.splits
          dest: insert_sync_state_InrD(1) update_sync_state_InrD(1))
    moreover have "rules_kept d3 db'"
      unfolding 1(10) by (simp add: rules_kept_def reload_categories_def delete_staged_def)
    ultimately show ?case using rules_kept_activate [OF 1(8)] rules_kept_trans by blast
  qed
qed

lemma config_kept_begin:
  assumes "begin_refresh en request key n m db = Inr (v, db')"
  shows "rules_kept db db' \<and> categories db' = categories db \<and> config_versions db' = config_versions db"
proof (cases "get_row run_idempotency_key key (refresh_runs db)")
  case (Some e)
  with assms have "db' = db" by (auto simp: begin_refresh_def replay_begin_def result_simps Let_def)
  then show ?thesis by (simp add: rules_kept_def)
next
  case None
  show ?thesis
    by (rule begin_new_InrD [OF assms None]) (auto simp: rules_kept_def dest: insert_refresh_run_InrD(1))
qed

lemma config_kept_upload:
  assumes "upload_batch en rid idx request n m db = Inr (v, db')"
  shows "rules_kept db db' \<and> categories db' = categories db \<and> config_versions db' = config_versions db"
proof (cases "get_row rb_key (rid, idx) (refresh_batches db)")
  case (Some e)
  with assms have "db' = db" by (auto simp: upload_batch_def result_simps Let_def split: if_splits)
  then show ?thesis by (simp add: rules_kept_def)
next
  case None
  then obtain run where "store_batch en run (batch_of en rid idx request) (bq_transactions request) db = Inr db'"
    by (rule upload_new_InrD [OF assms]) blast
  then show ?thesis by (rule store_batch_InrD) (simp add: rules_kept_def)
qed

section \<open>Who changes what\<close>

text \<open>The step of an authorised call, with what a refresh call leaves alone.\<close>

lemma refresh_call_keeps:
  assumes "sys_inv H db" and "\<forall>raw tag. call \<noteq> ReplaceConfig raw tag"
  shows "rules_kept db (snd (endpoint en s call db)) \<and>
    ((\<forall>rid raw. call \<noteq> FinalizeRefreshRun rid raw) \<longrightarrow> categories (snd (endpoint en s call db)) = categories db)"
proof (cases "snd (endpoint en s call db) = db")
  case False
  show ?thesis
  proof (cases call)
    case (CreateRefreshRun raw key)
    with False obtain request k where
      e: "snd (endpoint en s call db) = snd (session_scope (begin_refresh en request k (set_max_batch_items s) (set_max_request_bytes s)) db)"
      by (auto simp: endpoint_def validated_def create_refresh_run_def split: sum.splits)
    with False session_changes config_kept_begin show ?thesis by metis
  next
    case (PutRefreshBatch rid idx raw)
    with False obtain request where
      e: "snd (endpoint en s call db) = snd (session_scope (upload_batch en rid idx request (set_max_batch_items s) (set_max_request_bytes s)) db)"
      by (auto simp: endpoint_def validated_def put_refresh_batch_def split: sum.splits)
    with False session_changes config_kept_upload show ?thesis by metis
  next
    case (FinalizeRefreshRun rid raw)
    with False obtain request where
      e: "snd (endpoint en s call db) = snd (session_scope (commit_refresh en rid request) db)"
      by (auto simp: endpoint_def validated_def finalize_refresh_run_def split: sum.splits)
    with False obtain v where "commit_refresh en rid request db = Inr (v, snd (endpoint en s call db))"
      using session_changes by metis
    from rules_kept_commit [OF this assms(1)] FinalizeRefreshRun show ?thesis by simp
  qed (use False assms(2) in \<open>simp_all add: endpoint_def read_config_def read_refresh_run_def read_budget_dashboard_def\<close>)
qed (simp add: rules_kept_def)

lemma authorized_Inr:
  assumes "authorized s creds call = Inr ()" and "required_level call = Some minimum"
  obtains c l where "creds = Some c" "lower (cr_scheme c) = ''bearer''"
    "(Some (cr_credentials c), l) \<in> set (key_candidates s)" "minimum \<le> l"
proof -
  from assms obtain c l where c: "creds = Some c" "lower (cr_scheme c) = ''bearer''"
    "provided_level (cr_credentials c) s = Inr (Some l)" "\<not> l < minimum"
    by (auto simp: authorized_def require_access_def result_simps split: option.splits)
  with first_match_Inr [of "cr_credentials c" "key_candidates s" l] that show thesis
    by (auto simp: provided_level_def not_less)
qed

text \<open>
  C6: a REST request changes the database only when it carries a configured key as its bearer
  token. The configuration is replaced only with a key of the ADMIN level; with a WRITE key the
  request is a refresh request, which leaves every rule, every link of a version to its rules
  and the list of versions as they are, and before the commit the categories too.
\<close>

theorem rest_change_needs_key:
  assumes "snd (rest_request en s content_length creds call db) \<noteq> db" and "sys_inv H db"
  shows "\<exists>c l. creds = Some c \<and> lower (cr_scheme c) = ''bearer'' \<and>
    (Some (cr_credentials c), l) \<in> set (key_candidates s) \<and> l \<noteq> READ \<and>
    (l = ADMIN \<or> rules_kept db (snd (rest_request en s content_length creds call db))) \<and>
    (l = ADMIN \<or> (\<exists>rid raw. call = FinalizeRefreshRun rid raw) \<or>
       categories (snd (rest_request en s content_length creds call db)) = categories db)"
proof -
  let ?d = "snd (rest_request en s content_length creds call db)"
  have r: "rest_may_write s creds call" "rest_request en s content_length creds call db = endpoint en s call db"
    using rest_request_changes [OF refl assms(1)] by simp_all
  then obtain minimum where m: "required_level call = Some minimum" "WRITE \<le> minimum"
    "(\<exists>raw tag. call = ReplaceConfig raw tag) \<longrightarrow> minimum = ADMIN"
    by (cases call) (auto simp: rest_may_write_def writing_call_def required_level_def)
  from r(1) have "authorized s creds call = Inr ()" by (simp add: rest_may_write_def)
  from this m(1) obtain c l where c: "creds = Some c" "lower (cr_scheme c) = ''bearer''"
    "(Some (cr_credentials c), l) \<in> set (key_candidates s)" "minimum \<le> l" by (rule authorized_Inr)
  have l: "l \<noteq> READ" "minimum = ADMIN \<longrightarrow> l = ADMIN" using m(2) c(4) by (cases l; cases minimum; simp add: less_eq_access_level_def level_value_def)+
  show ?thesis
  proof (cases "\<exists>raw tag. call = ReplaceConfig raw tag")
    case True
    with m(3) l c show ?thesis by blast
  next
    case False
    then have "rules_kept db ?d \<and> ((\<forall>rid raw. call \<noteq> FinalizeRefreshRun rid raw) \<longrightarrow> categories ?d = categories db)"
      unfolding r(2) by (intro refresh_call_keeps [OF assms(2)]) blast
    with l c show ?thesis by blast
  qed
qed

text \<open>
  A tool changes the budget only inside an authorization request that was approved, with the scope
  of the tool, and only when the tool does not declare itself read-only.
\<close>

lemma tool_change_approved:
  assumes "oauth_run (approved Q) empty_oauth_db odb"
    and "snd (call_tool en s url (verify_token oen bearer odb) call db) \<noteq> db"
  shows "(\<exists>q. Q q \<and> (case call of ToolUpdateConfig _ _ \<Rightarrow> BUDGET_CONFIG_SCOPE | _ \<Rightarrow> BUDGET_REFRESH_SCOPE) \<in> set (aq_scopes q)) \<and>
    (\<exists>a. annotations_of call = Some a \<and> \<not> ta_read_only a)"
proof (rule conjI)
  have w: "tool_may_write (verify_token oen bearer odb) call" using call_tool_changes [OF refl assms(2)] by simp
  then show "\<exists>a. annotations_of call = Some a \<and> \<not> ta_read_only a"
    by (cases call) (auto simp: tool_may_write_def writing_tool_def annotation_defs)
  from w obtain t where t: "verify_token oen bearer odb = Some t"
    "(case call of ToolUpdateConfig _ _ \<Rightarrow> BUDGET_CONFIG_SCOPE | _ \<Rightarrow> BUDGET_REFRESH_SCOPE) \<in> set (mt_scopes t)"
    by (auto simp: tool_may_write_def split: option.splits)
  then obtain v where "verify_access_token oen bearer odb = Some v" "mt_scopes t = vt_scopes v"
    by (auto simp: verify_token_def)
  with verified_from_approval [OF assms(1), of oen bearer v] t(2)
  show "\<exists>q. Q q \<and> (case call of ToolUpdateConfig _ _ \<Rightarrow> BUDGET_CONFIG_SCOPE | _ \<Rightarrow> BUDGET_REFRESH_SCOPE) \<in> set (aq_scopes q)"
    by auto
qed

section \<open>Histories of both front ends\<close>

lemma steps_are_run: "(sys_step H)\<^sup>*\<^sup>* db db' \<Longrightarrow> sys_run H db db'"
  by (induction rule: rtranclp_induct) (auto intro: sys_run.intros)

text \<open>
  C5: REST requests and tool calls in any order, from any clients, on an empty database refine the
  abstract system: the database they leave is one a run of the five service operations reaches,
  so it satisfies the invariants, and it is the same when every request that is not authorised
  to write is left out.
\<close>

theorem server_refines_system:
  assumes "list_all (case_sum (\<lambda>r. env_sha256 (fst r) = H) (\<lambda>r. env_sha256 (fst r) = H)) requests"
  shows "sys_run H empty_db (serve_all (serve_either rest_serve mcp_serve) requests empty_db) \<and>
    sys_inv H (serve_all (serve_either rest_serve mcp_serve) requests empty_db) \<and>
    serve_all (serve_either rest_serve mcp_serve) requests empty_db =
      serve_all (serve_either rest_serve mcp_serve)
        (filter (case_sum rest_authorised mcp_authorised) requests) empty_db"
proof (intro conjI)
  show "sys_run H empty_db (serve_all (serve_either rest_serve mcp_serve) requests empty_db)"
    by (rule steps_are_run [OF server.both.served_steps [OF assms]])
  show "sys_inv H (serve_all (serve_either rest_serve mcp_serve) requests empty_db)"
    by (rule server.both.served_inv [OF assms, where I = "sys_inv H"]) (blast intro: sys_inv_empty sys_step_inv)+
qed (rule server.both.only_authorised [OF assms])

section \<open>The two front ends agree\<close>

lemma check_base_either: "check_base en db h False None base = Inr () \<longleftrightarrow> check_base en db None True h base = Inr ()"
  by (auto simp: check_base_def result_simps split: option.splits)

lemma put_either: "put_config en request h db = Inr x \<longleftrightarrow> put_config_checked en request h db = Inr x"
  unfolding put_config_def put_config_checked_def put_config_impl_def
  by (simp add: bindR_eq_Inr split_beta check_base_either)


lemma strip_twice [simp]: "map (strip_ws \<circ> strip_ws) ids = map strip_ws ids"
  by simp








section \<open>Witnesses\<close>

definition admin_key :: credentials where
  "admin_key = \<lparr>cr_scheme = ''Bearer'', cr_credentials = ''admin-key-0123456789abcdef''\<rparr>"

lemma request0_valid: "ConfigPutRequest request0 = Inr request0"
  by code_simp

lemma rest_put0: "snd (rest_request toy_env settings0 None (Some admin_key) (ReplaceConfig request0 None) empty_db) = db1"
proof -
  have "authorized settings0 (Some admin_key) (ReplaceConfig request0 None) = Inr ()" by code_simp
  then show ?thesis
    by (simp add: rest_request_def request_safety_def endpoint_def validated_def request0_valid replace_config_def
        session_scope_def put1)
qed

lemma db1_not_empty: "db1 \<noteq> empty_db"
  by (simp add: db1_def empty_db_def)

theorem rest_change_needs_key_witness:
  "\<exists>c l. Some admin_key = Some c \<and> lower (cr_scheme c) = ''bearer'' \<and>
    (Some (cr_credentials c), l) \<in> set (key_candidates settings0) \<and> l \<noteq> READ \<and>
    (l = ADMIN \<or> rules_kept empty_db db1) \<and>
    (l = ADMIN \<or> (\<exists>rid raw. ReplaceConfig request0 None = FinalizeRefreshRun rid raw) \<or>
       categories db1 = categories empty_db)"
  using rest_change_needs_key [of toy_env settings0 None "Some admin_key" "ReplaceConfig request0 None" empty_db toy_digest]
  by (simp only: rest_put0 db1_not_empty sys_inv_empty not_False_eq_True simp_thms)

definition en2_later :: oauth_env where
  "en2_later = en2\<lparr>oe_now := 1070000000\<rparr>"

lemma token2: "verify_token en2_later ''a2'' odb2 = Some
  \<lparr>mt_token = ''a2'', mt_client_id = CHATGPT_STABLE_CLIENT_ID, mt_scopes = [''budget:config'', ''budget:read''],
    mt_expires_at = 1960, mt_resource = toy_resource, mt_subject = ''owner'', mt_claims = [(''iss'', issuer (oe_config en2))]\<rparr>"
  by code_simp

lemma tool_put0: "snd (call_tool toy_env settings0 url (verify_token en2_later ''a2'' odb2) (ToolUpdateConfig request0 None) empty_db) = db1"
proof -
  have "put_config_checked toy_env request0 None empty_db = Inr (view1, db1)" using put1 put_either by blast
  then show ?thesis
    unfolding token2
    by (simp add: call_tool_def tool_name_def TOOL_SCOPES_def run_tool_def with_args_def request0_valid
        mcp_update_config_def session_scope_def BUDGET_CONFIG_SCOPE_def)
qed

definition requests0 where
  "requests0 = [Inr (toy_env, settings0, [], None, ToolUpdateConfig request0 None),
     Inl (toy_env, settings0, None, Some admin_key, ReplaceConfig request0 None),
     Inl (toy_env, settings0, None, None, ReadConfig)]"

theorem server_refines_system_witness:
  "sys_run toy_digest empty_db (serve_all (serve_either rest_serve mcp_serve) requests0 empty_db) \<and>
    sys_inv toy_digest (serve_all (serve_either rest_serve mcp_serve) requests0 empty_db) \<and>
    serve_all (serve_either rest_serve mcp_serve) requests0 empty_db =
      serve_all (serve_either rest_serve mcp_serve)
        (filter (case_sum rest_authorised mcp_authorised) requests0) empty_db"
  by (rule server_refines_system) (simp add: requests0_def toy_env_def)

end
