(* ===== verification/Json.thy ===== *)
theory Json
  imports Urls
begin

text \<open>
  What the signed consent uses of the standard library: \<open>json.dumps\<close> with its default ASCII
  output, \<open>json.loads\<close>, the Base64url decoder and the UTF-8 decoder. Text is limited to code
  points below 256, and a JSON number with a fraction or an exponent has no value here: both
  count as an invalid document.
\<close>

section \<open>Dumping\<close>

definition escape_ascii :: "char \<Rightarrow> string" where
  "escape_ascii c = (if (of_char c :: int) < 127 then escape_char c
     else [CHR 0x5C, CHR ''u'', CHR ''0'', CHR ''0''] @ hex_digits 2 (of_char c))"

definition quote_ascii :: "string \<Rightarrow> string" where
  "quote_ascii s = [CHR 0x22] @ concat (map escape_ascii s) @ [CHR 0x22]"

fun dumps_ascii :: "json \<Rightarrow> string" where
  "dumps_ascii JNull = ''null''"
| "dumps_ascii (JBool b) = (if b then ''true'' else ''false'')"
| "dumps_ascii (JInt i) = int_str i"
| "dumps_ascii (JStr s) = quote_ascii s"
| "dumps_ascii (JArr js) = ''['' @ join '','' (map dumps_ascii js) @ '']''"
| "dumps_ascii (JObj kvs) =
     ''{'' @ join '','' (map (\<lambda>(k, t). quote_ascii k @ '':'' @ t)
               (sort_key fst (map (\<lambda>(k, j). (k, dumps_ascii j)) kvs))) @ ''}''"

section \<open>Loading\<close>

definition skip_ws :: "string \<Rightarrow> string" where
  "skip_ws s = dropWhile (\<lambda>c. c \<in> {CHR '' '', CHR 0x09, CHR 0x0A, CHR 0x0D}) s"

definition hex_value :: "char \<Rightarrow> int option" where
  "hex_value c =
     (if ascii_digit c then Some (of_char c - 48)
      else if char_in (CHR ''a'') (CHR ''f'') c then Some (of_char c - 87)
      else if char_in (CHR ''A'') (CHR ''F'') c then Some (of_char c - 55)
      else None)"

fun hex_number :: "int \<Rightarrow> string \<Rightarrow> int option" where
  "hex_number n [] = Some n"
| "hex_number n (c # cs) = (case hex_value c of None \<Rightarrow> None | Some d \<Rightarrow> hex_number (16 * n + d) cs)"

definition simple_escape :: "char \<Rightarrow> char option" where
  "simple_escape c =
     (if c \<in> {CHR 0x22, CHR 0x5C, CHR ''/''} then Some c
      else if c = CHR ''b'' then Some (CHR 0x08) else if c = CHR ''f'' then Some (CHR 0x0C)
      else if c = CHR ''n'' then Some (CHR 0x0A) else if c = CHR ''r'' then Some (CHR 0x0D)
      else if c = CHR ''t'' then Some (CHR 0x09) else None)"

text \<open>\<open>scanstring\<close> after the opening quote: the text and what follows the closing quote.\<close>

fun scanstring :: "string \<Rightarrow> (string \<times> string) option" where
  "scanstring [] = None"
| "scanstring (c # cs) =
     (if c = CHR 0x22 then Some ([], cs)
      else if c = CHR 0x5C then
        (case cs of
           u # a # b # d # e # r \<Rightarrow>
             if u = CHR ''u'' then
               (case hex_number 0 [a, b, d, e] of
                  None \<Rightarrow> None
                | Some n \<Rightarrow> if n < 256 then map_option (\<lambda>(s, r). (char_of (nat n) # s, r)) (scanstring r) else None)
             else (case simple_escape u of None \<Rightarrow> None
                   | Some x \<Rightarrow> map_option (\<lambda>(s, r). (x # s, r)) (scanstring (a # b # d # e # r)))
         | u # r \<Rightarrow>
             (case simple_escape u of None \<Rightarrow> None
              | Some x \<Rightarrow> map_option (\<lambda>(s, r). (x # s, r)) (scanstring r))
         | [] \<Rightarrow> None)
      else if (of_char c :: int) < 32 then None
      else map_option (\<lambda>(s, r). (c # s, r)) (scanstring cs))"

definition digit_run :: "string \<Rightarrow> string" where
  "digit_run t = (if take 1 t = ''0'' then ''0'' else takeWhile ascii_digit t)"

definition scan_nat :: "string \<Rightarrow> (int \<times> string) option" where
  "scan_nat t =
     (let ds = digit_run t; r = drop (length ds) t
      in if ds = [] then None
         else if take 1 r = ''.'' \<and> list_ex ascii_digit (take 1 (drop 1 r)) then None
         else if take 1 r \<in> {''e'', ''E''} then None
         else map_option (\<lambda>n. (n, r)) (digits_value False 0 ds))"

definition scan_int :: "string \<Rightarrow> (int \<times> string) option" where
  "scan_int s = (if take 1 s = ''-'' then map_option (\<lambda>(n, r). (- n, r)) (scan_nat (drop 1 s)) else scan_nat s)"

fun jvalue :: "nat \<Rightarrow> string \<Rightarrow> (json \<times> string) option"
  and jitems :: "nat \<Rightarrow> string \<Rightarrow> (json list \<times> string) option"
  and jmembers :: "nat \<Rightarrow> string \<Rightarrow> ((string \<times> json) list \<times> string) option" where
  "jvalue 0 s = None"
| "jvalue (Suc n) s = (case s of [] \<Rightarrow> None | c # cs \<Rightarrow>
     if c = CHR 0x22 then map_option (\<lambda>(t, r). (JStr t, r)) (scanstring cs)
     else if c = CHR ''['' then
       (if take 1 (skip_ws cs) = '']'' then Some (JArr [], drop 1 (skip_ws cs))
        else map_option (\<lambda>(js, r). (JArr js, r)) (jitems n (skip_ws cs)))
     else if c = CHR ''{'' then
       (if take 1 (skip_ws cs) = ''}'' then Some (JObj [], drop 1 (skip_ws cs))
        else map_option (\<lambda>(kvs, r). (JObj (dict_of kvs), r)) (jmembers n (skip_ws cs)))
     else if take 4 s = ''null'' then Some (JNull, drop 4 s)
     else if take 4 s = ''true'' then Some (JBool True, drop 4 s)
     else if take 5 s = ''false'' then Some (JBool False, drop 5 s)
     else map_option (\<lambda>(i, r). (JInt i, r)) (scan_int s))"
| "jitems 0 s = None"
| "jitems (Suc n) s = (case jvalue n s of None \<Rightarrow> None | Some (j, r) \<Rightarrow>
     (case skip_ws r of [] \<Rightarrow> None | c # r' \<Rightarrow>
        if c = CHR '']'' then Some ([j], r')
        else if c = CHR '','' then map_option (\<lambda>(js, r). (j # js, r)) (jitems n (skip_ws r'))
        else None))"
| "jmembers 0 s = None"
| "jmembers (Suc n) s = (case s of [] \<Rightarrow> None | c # cs \<Rightarrow>
     if c \<noteq> CHR 0x22 then None
     else case scanstring cs of None \<Rightarrow> None | Some (k, r) \<Rightarrow>
       (case skip_ws r of [] \<Rightarrow> None | d # r' \<Rightarrow>
          if d \<noteq> CHR '':'' then None
          else case jvalue n (skip_ws r') of None \<Rightarrow> None | Some (j, r2) \<Rightarrow>
            (case skip_ws r2 of [] \<Rightarrow> None | e # r3 \<Rightarrow>
               if e = CHR ''}'' then Some ([(k, j)], r3)
               else if e = CHR '','' then map_option (\<lambda>(kvs, r). ((k, j) # kvs, r)) (jmembers n (skip_ws r3))
               else None)))"

text \<open>Every level of the parser reads a character or is the only one that does not: this fuel is enough.\<close>

definition loads :: "string \<Rightarrow> json option" where
  "loads s = (case jvalue (2 * length s + 1) (skip_ws s) of None \<Rightarrow> None
     | Some (j, r) \<Rightarrow> if skip_ws r = [] then Some j else None)"

section \<open>Base64url and UTF-8\<close>

definition b64_value :: "char \<Rightarrow> nat option" where
  "b64_value c = (let n = of_char c :: nat in
     if 65 \<le> n \<and> n \<le> 90 then Some (n - 65)
     else if 97 \<le> n \<and> n \<le> 122 then Some (n - 71)
     else if 48 \<le> n \<and> n \<le> 57 then Some (n + 4)
     else if c \<in> {CHR ''-'', CHR ''+''} then Some 62
     else if c \<in> {CHR ''_'', CHR ''/''} then Some 63
     else None)"

text \<open>
  \<open>binascii.a2b_base64\<close>, not strict: characters outside the alphabet are skipped, padding ends
  the data once a group is complete. \<open>quad\<close> is the position in the group, \<open>left\<close> its pending
  bits, \<open>pads\<close> the padding characters seen in a row.
\<close>

fun a2b :: "nat \<Rightarrow> nat \<Rightarrow> nat \<Rightarrow> string \<Rightarrow> nat list option" where
  "a2b quad left pads [] = (if quad = 0 then Some [] else None)"
| "a2b quad left pads (c # cs) =
     (if c = CHR ''='' then
        (if 2 \<le> quad then (if 4 \<le> quad + pads + 1 then Some [] else a2b quad left (pads + 1) cs)
         else a2b quad left pads cs)
      else case b64_value c of
        None \<Rightarrow> a2b quad left pads cs
      | Some v \<Rightarrow>
          (if quad = 0 then a2b 1 v 0 cs
           else if quad = 1 then map_option ((#) (left * 4 + v div 16)) (a2b 2 (v mod 16) 0 cs)
           else if quad = 2 then map_option ((#) (left * 16 + v div 4)) (a2b 3 (v mod 4) 0 cs)
           else map_option ((#) (left * 64 + v)) (a2b 0 0 0 cs)))"

definition b64url_decode :: "string \<Rightarrow> nat list option" where
  "b64url_decode value =
     (if is_ascii value then a2b 0 0 0 (value @ replicate (nat (- int (length value) mod 4)) (CHR ''='')) else None)"

fun utf8_decode :: "nat list \<Rightarrow> string option" where
  "utf8_decode [] = Some []"
| "utf8_decode (b # bs) =
     (if b < 128 then map_option ((#) (char_of b)) (utf8_decode bs)
      else if b \<in> {194, 195} then
        (case bs of
           c # cs \<Rightarrow> if 128 \<le> c \<and> c < 192 then map_option ((#) (char_of ((b - 192) * 64 + (c - 128)))) (utf8_decode cs)
             else None
         | [] \<Rightarrow> None)
      else None)"

end
