(* ===== verification/JsonFacts.thy ===== *)
theory JsonFacts
  imports Json
begin

text \<open>
  Round trips of \<open>Json\<close>: what was dumped with sorted keys is loaded again, what was encoded is
  decoded again.
\<close>

section \<open>Strings\<close>

lemma hex_of_char: "\<forall>c :: char. hex_number 0 ([CHR ''0'', CHR ''0''] @ hex_digits 2 (of_char c)) = Some (of_char c)"
  by code_simp

lemma hex_two: "hex_digits 2 n = [hex_digit (n div 16 mod 16), hex_digit (n mod 16)]"
  by (simp add: numeral_2_eq_2)

lemma scan_unicode:
  "scanstring ([CHR 0x5C, CHR ''u'', CHR ''0'', CHR ''0''] @ hex_digits 2 (of_char c) @ t) =
     map_option (\<lambda>(s, r). (c # s, r)) (scanstring t)"
proof -
  have "hex_number 0 [CHR ''0'', CHR ''0'', hex_digit (of_char c div 16 mod 16), hex_digit (of_char c mod 16)] = Some (of_char c)"
    using hex_of_char by (simp add: hex_two del: hex_number.simps)
  moreover have "(of_char c :: int) < 256" by (simp add: of_char_def)
  ultimately show ?thesis by (simp add: hex_two del: hex_number.simps)
qed

lemma scan_simple:
  assumes "simple_escape u = Some x" and "u \<noteq> CHR ''u''"
  shows "scanstring (CHR 0x5C # u # t) = map_option (\<lambda>(s, r). (x # s, r)) (scanstring t)"
proof (cases "length t < 4")
  case True
  then show ?thesis using assms
    by (cases t; cases "tl t"; cases "tl (tl t)"; cases "tl (tl (tl t))") auto
next
  case False
  then obtain a b d e r where "t = a # b # d # e # r"
    by (metis Suc_le_length_iff eval_nat_numeral(2,3) not_less One_nat_def numeral_2_eq_2 semiring_norm(26,27))
  with assms show ?thesis by simp
qed

lemma scan_escape: "scanstring (escape_ascii c @ t) = map_option (\<lambda>(s, r). (c # s, r)) (scanstring t)"
proof -
  consider "c \<in> {CHR 0x22, CHR 0x5C, CHR 0x0A, CHR 0x0D, CHR 0x09, CHR 0x0C, CHR 0x08}"
    | "escape_ascii c = [CHR 0x5C, CHR ''u'', CHR ''0'', CHR ''0''] @ hex_digits 2 (of_char c)"
    | "escape_ascii c = [c]" "c \<noteq> CHR 0x22" "c \<noteq> CHR 0x5C" "\<not> (of_char c :: int) < 32"
  proof (cases "c \<in> {CHR 0x22, CHR 0x5C, CHR 0x0A, CHR 0x0D, CHR 0x09, CHR 0x0C, CHR 0x08}")
    case False
    then have "escape_ascii c = (if (of_char c :: int) < 32 \<or> 127 \<le> (of_char c :: int)
        then [CHR 0x5C, CHR ''u'', CHR ''0'', CHR ''0''] @ hex_digits 2 (of_char c) else [c])"
      by (simp add: escape_ascii_def escape_char_def)
    with False that show thesis by (cases "(of_char c :: int) < 32 \<or> 127 \<le> (of_char c :: int)") simp_all
  qed (rule that)
  then show ?thesis
  proof cases
    case 1
    then obtain u where "escape_ascii c = [CHR 0x5C, u]" "simple_escape u = Some c" "u \<noteq> CHR ''u''"
      by (auto simp: escape_ascii_def escape_char_def simple_escape_def)
    then show ?thesis using scan_simple [of u c t] by (simp del: scanstring.simps)
  next
    case 2
    then show ?thesis using scan_unicode [of c t] by simp
  next
    case 3
    then show ?thesis by simp
  qed
qed

lemma scan_quoted: "scanstring (concat (map escape_ascii s) @ CHR 0x22 # r) = Some (s, r)"
  by (induction s) (simp_all add: scan_escape)

lemma quote_ascii_Cons: "quote_ascii s @ r = CHR 0x22 # concat (map escape_ascii s) @ CHR 0x22 # r"
  by (simp add: quote_ascii_def)

section \<open>Integers\<close>

lemma digit_char_facts:
  assumes "0 \<le> d" "d \<le> 9"
  shows "ascii_digit (digit_char d)" "of_char (digit_char d) = (48 + d :: int)" "digit_char d = CHR ''0'' \<longleftrightarrow> d = 0"
proof -
  have "\<forall>d \<in> set [0..9]. ascii_digit (digit_char d) \<and> of_char (digit_char d) = (48 + d :: int) \<and> (digit_char d = CHR ''0'' \<longleftrightarrow> d = 0)"
    by code_simp
  with assms show "ascii_digit (digit_char d)" "of_char (digit_char d) = (48 + d :: int)" "digit_char d = CHR ''0'' \<longleftrightarrow> d = 0"
    by simp_all
qed

lemma digits_value_append:
  "\<forall>c \<in> set ds. ascii_digit c \<Longrightarrow> ds \<noteq> [] \<Longrightarrow> digits_value b n (ds @ es) =
     digits_value True (fold (\<lambda>c n. 10 * n + (of_char c - 48)) ds n) es"
proof (induction ds arbitrary: b n)
  case (Cons c cs)
  then show ?case by (cases "cs = []") auto
qed simp

lemma int_digits_facts:
  assumes "0 \<le> n"
  shows "int_digits n \<noteq> [] \<and> (\<forall>c \<in> set (int_digits n). ascii_digit c) \<and>
    digits_value False 0 (int_digits n) = Some n \<and> (hd (int_digits n) = CHR ''0'' \<longleftrightarrow> n = 0)"
  using assms
proof (induction n rule: int_digits.induct)
  case (1 n)
  show ?case
  proof (cases "n < 10")
    case True
    with 1(2) digit_char_facts [of n] show ?thesis by (simp add: int_digits.simps [of n])
  next
    case False
    have m: "0 \<le> n mod 10" "n mod 10 \<le> 9" by presburger+
    from False 1 have ih: "int_digits (n div 10) \<noteq> []" "\<forall>c \<in> set (int_digits (n div 10)). ascii_digit c"
      "digits_value False 0 (int_digits (n div 10)) = Some (n div 10)" "hd (int_digits (n div 10)) \<noteq> CHR ''0''"
      by (auto simp: pos_imp_zdiv_pos_iff)
    have "fold (\<lambda>c n. 10 * n + (of_char c - 48)) (int_digits (n div 10)) 0 = n div 10"
      using digits_value_append [OF ih(2,1), of False 0 "[]"] ih(3) by simp
    then have "digits_value False 0 (int_digits (n div 10) @ [digit_char (n mod 10)]) = Some n"
      using digits_value_append [OF ih(2,1), of False 0 "[digit_char (n mod 10)]"] digit_char_facts [OF m] by simp
    with False ih digit_char_facts(1) [OF m] show ?thesis by (simp add: int_digits.simps [of n])
  qed
qed

definition plain_stop :: "string \<Rightarrow> bool" where
  "plain_stop r \<longleftrightarrow> r = [] \<or> hd r \<in> {CHR '','', CHR '']'', CHR ''}''}"

lemma plain_stop_simps [simp]: "plain_stop []" "plain_stop (c # r) \<longleftrightarrow> c \<in> {CHR '','', CHR '']'', CHR ''}''}"
  by (simp_all add: plain_stop_def)

lemma digit_run_digits:
  assumes "0 \<le> n" and "takeWhile ascii_digit r = []"
  shows "digit_run (int_digits n @ r) = int_digits n"
proof (cases "n = 0")
  case True
  then show ?thesis using digit_char_facts(3) [of 0] by (simp add: digit_run_def int_digits.simps [of 0])
next
  case False
  with int_digits_facts [OF assms(1)] assms(2) show ?thesis
    by (cases "int_digits n") (auto simp: digit_run_def takeWhile_append2)
qed

lemma scan_int_str:
  assumes "plain_stop r"
  shows "scan_int (int_str i @ r) = Some (i, r)"
proof -
  have stop: "takeWhile ascii_digit r = []" "take 1 r \<noteq> ''.''" "take 1 r \<noteq> ''e''" "take 1 r \<noteq> ''E''"
    using assms by (cases r; auto simp: ascii_digit_def char_in_def)+
  have nat: "scan_nat (int_digits n @ r) = Some (n, r)" if "0 \<le> n" for n
    using digit_run_digits [OF that stop(1)] int_digits_facts [OF that] stop(2-4) by (simp add: scan_nat_def Let_def)
  have "take 1 (int_digits n @ r) \<noteq> ''-''" if "0 \<le> n" for n
    using int_digits_facts [OF that] by (cases "int_digits n") (auto simp: ascii_digit_def char_in_def)
  with nat [of i] nat [of "- i"] show ?thesis by (simp add: int_str_def scan_int_def)
qed

section \<open>Documents\<close>

fun sorted_json :: "json \<Rightarrow> bool" where
  "sorted_json (JArr js) \<longleftrightarrow> (\<forall>j \<in> set js. sorted_json j)"
| "sorted_json (JObj kvs) \<longleftrightarrow> sorted (map fst kvs) \<and> distinct (map fst kvs) \<and> (\<forall>kv \<in> set kvs. sorted_json (snd kv))"
| "sorted_json j \<longleftrightarrow> True"

definition member_text :: "string \<times> json \<Rightarrow> string" where
  "member_text kv = quote_ascii (fst kv) @ '':'' @ dumps_ascii (snd kv)"

lemma dumps_sorted_object:
  "sorted (map fst kvs) \<Longrightarrow> dumps_ascii (JObj kvs) = ''{'' @ join '','' (map member_text kvs) @ ''}''"
proof -
  assume "sorted (map fst kvs)"
  then have "sort_key fst (map (\<lambda>(k, j). (k, dumps_ascii j)) kvs) = map (\<lambda>(k, j). (k, dumps_ascii j)) kvs"
    by (intro sort_key_id_if_sorted) (simp add: comp_def case_prod_beta)
  then show ?thesis by (simp add: member_text_def [abs_def] comp_def case_prod_beta)
qed

lemma dumps_start:
  obtains c cs where "dumps_ascii j = c # cs" "c \<notin> {CHR '' '', CHR 0x09, CHR 0x0A, CHR 0x0D, CHR '']'', CHR ''}''}"
proof (cases j)
  case (JInt i)
  show thesis
  proof (cases "i < 0")
    case True
    with JInt that show thesis by (simp add: int_str_def)
  next
    case False
    then obtain c cs where c: "int_digits i = c # cs" "ascii_digit c"
      using int_digits_facts [of i] by (cases "int_digits i") auto
    then have "c \<notin> {CHR '' '', CHR 0x09, CHR 0x0A, CHR 0x0D, CHR '']'', CHR ''}''}"
      by (auto simp: ascii_digit_def char_in_def)
    with that False JInt c show thesis by (simp add: int_str_def)
  qed
next
  case (JBool b)
  with that show thesis by (cases b) auto
qed (use that in \<open>auto simp: quote_ascii_def\<close>)

lemma skip_ws_Cons [simp]: "c \<notin> {CHR '' '', CHR 0x09, CHR 0x0A, CHR 0x0D} \<Longrightarrow> skip_ws (c # s) = c # s"
  by (simp add: skip_ws_def)

lemma skip_ws_dumps [simp]: "skip_ws (dumps_ascii j @ r) = dumps_ascii j @ r"
  by (rule dumps_start [of j]) simp

lemma skip_ws_members [simp]: "kvs \<noteq> [] \<Longrightarrow> skip_ws (join '','' (map member_text kvs) @ r) = join '','' (map member_text kvs) @ r"
  by (cases kvs; cases "tl kvs") (auto simp: member_text_def quote_ascii_Cons)

lemma skip_ws_items [simp]: "js \<noteq> [] \<Longrightarrow> skip_ws (join '','' (map dumps_ascii js) @ r) = join '','' (map dumps_ascii js) @ r"
  by (cases js; cases "tl js") simp_all

lemma items_start:
  "js \<noteq> [] \<Longrightarrow> take 1 (join '','' (map dumps_ascii js) @ r) \<noteq> '']''"
  by (cases js; cases "tl js"; rule dumps_start [of "hd js"]) auto

lemma jitems_dumps:
  assumes "js \<noteq> []" and "length (join '','' (map dumps_ascii js)) < n"
    and "\<And>j n r. j \<in> set js \<Longrightarrow> length (dumps_ascii j) \<le> n \<Longrightarrow> plain_stop r \<Longrightarrow> jvalue n (dumps_ascii j @ r) = Some (j, r)"
  shows "jitems n (join '','' (map dumps_ascii js) @ '']'' @ r) = Some (js, r)"
  using assms
proof (induction js arbitrary: n)
  case (Cons j js)
  then obtain m where n: "n = Suc m" by (cases n) auto
  show ?case
  proof (cases "js = []")
    case True
    with Cons.prems(2) Cons.prems(3) [of j m "'']'' @ r"] n show ?thesis by simp
  next
    case False
    then have e: "join '','' (map dumps_ascii (j # js)) = dumps_ascii j @ '','' @ join '','' (map dumps_ascii js)"
      by (cases js) simp_all
    have "jvalue m (dumps_ascii j @ '','' @ join '','' (map dumps_ascii js) @ '']'' @ r) =
        Some (j, '','' @ join '','' (map dumps_ascii js) @ '']'' @ r)"
      using Cons.prems(2) n e by (intro Cons.prems(3)) auto
    moreover have "jitems m (join '','' (map dumps_ascii js) @ '']'' @ r) = Some (js, r)"
      using Cons.prems(2) n e False by (intro Cons.IH Cons.prems(3)) auto
    ultimately show ?thesis using n e False by simp
  qed
qed simp

lemma member_len: "length (dumps_ascii (snd kv)) \<le> length (member_text kv)"
  by (simp add: member_text_def)

lemma member_text_Cons: "member_text kv @ t =
    CHR 0x22 # concat (map escape_ascii (fst kv)) @ CHR 0x22 # CHR '':'' # dumps_ascii (snd kv) @ t"
  by (simp add: member_text_def quote_ascii_Cons)

lemma jmembers_dumps:
  assumes "kvs \<noteq> []" and "length (join '','' (map member_text kvs)) < n"
    and "\<And>kv n r. kv \<in> set kvs \<Longrightarrow> length (dumps_ascii (snd kv)) \<le> n \<Longrightarrow> plain_stop r \<Longrightarrow>
      jvalue n (dumps_ascii (snd kv) @ r) = Some (snd kv, r)"
  shows "jmembers n (join '','' (map member_text kvs) @ ''}'' @ r) = Some (kvs, r)"
  using assms
proof (induction kvs arbitrary: n)
  case (Cons kv kvs)
  then obtain m where n: "n = Suc m" by (cases n) auto
  have scan: "scanstring (concat (map escape_ascii (fst kv)) @ CHR 0x22 # t) = Some (fst kv, t)" for t
    by (rule scan_quoted)
  show ?case
  proof (cases "kvs = []")
    case True
    have "jvalue m (dumps_ascii (snd kv) @ ''}'' @ r) = Some (snd kv, ''}'' @ r)"
      using Cons.prems(2) n True by (intro Cons.prems(3)) (auto simp: member_text_def)
    with True n scan show ?thesis by (simp add: member_text_def quote_ascii_Cons)
  next
    case False
    then have e: "join '','' (map member_text (kv # kvs)) = member_text kv @ '','' @ join '','' (map member_text kvs)"
      by (cases kvs) simp_all
    have "jvalue m (dumps_ascii (snd kv) @ '','' @ join '','' (map member_text kvs) @ ''}'' @ r) =
        Some (snd kv, '','' @ join '','' (map member_text kvs) @ ''}'' @ r)"
      using Cons.prems(2) n e member_len [of kv] by (intro Cons.prems(3)) simp_all
    moreover have "jmembers m (join '','' (map member_text kvs) @ ''}'' @ r) = Some (kvs, r)"
      using Cons.prems(2) n e False by (intro Cons.IH Cons.prems(3)) auto
    ultimately show ?thesis using n e False scan by (simp add: member_text_Cons)
  qed
qed simp

lemma members_start: "kvs \<noteq> [] \<Longrightarrow> take 1 (join '','' (map member_text kvs) @ r) \<noteq> ''}''"
  by (cases kvs; cases "tl kvs") (auto simp: member_text_def quote_ascii_Cons)

lemma jvalue_dumps:
  "sorted_json j \<Longrightarrow> length (dumps_ascii j) \<le> n \<Longrightarrow> plain_stop r \<Longrightarrow> jvalue n (dumps_ascii j @ r) = Some (j, r)"
proof (induction j arbitrary: n r)
  case JNull
  then show ?case by (cases n) simp_all
next
  case (JBool b)
  then show ?case by (cases n; cases b) simp_all
next
  case (JInt i)
  obtain c cs where c: "int_str i = c # cs" "c = CHR ''-'' \<or> ascii_digit c"
    using int_digits_facts [of i] by (cases "i < 0"; cases "int_digits i") (auto simp: int_str_def)
  then obtain m where n: "n = Suc m" using JInt.prems by (cases n) auto
  have "c \<notin> {CHR 0x22, CHR ''['', CHR ''{'', CHR ''n'', CHR ''t'', CHR ''f''}"
    using c(2) by (auto simp: ascii_digit_def char_in_def)
  with scan_int_str [OF JInt.prems(3), of i] c(1) show ?case by (simp add: n)
next
  case (JStr s)
  then obtain m where "n = Suc m" by (cases n) (auto simp: quote_ascii_def)
  then show ?case by (simp add: quote_ascii_Cons scan_quoted)
next
  case (JArr js)
  then obtain m where n: "n = Suc m" by (cases n) auto
  show ?case
  proof (cases "js = []")
    case True
    then show ?thesis by (simp add: n)
  next
    case False
    have "jitems m (join '','' (map dumps_ascii js) @ '']'' @ r) = Some (js, r)"
      using JArr.prems n False by (intro jitems_dumps JArr.IH) auto
    then show ?thesis using False items_start [OF False] by (simp add: n)
  qed
next
  case (JObj kvs)
  then obtain m where n: "n = Suc m" by (cases n) auto
  have e: "dumps_ascii (JObj kvs) = ''{'' @ join '','' (map member_text kvs) @ ''}''"
    using JObj.prems by (intro dumps_sorted_object) simp
  show ?case
  proof (cases "kvs = []")
    case True
    then show ?thesis by (simp add: n)
  next
    case False
    have "jmembers m (join '','' (map member_text kvs) @ ''}'' @ r) = Some (kvs, r)"
    proof (rule jmembers_dumps [OF False])
      show "length (join '','' (map member_text kvs)) < m" using JObj.prems(2) n unfolding e by simp
      show "jvalue n (dumps_ascii (snd kv) @ r) = Some (snd kv, r)"
        if "kv \<in> set kvs" "length (dumps_ascii (snd kv)) \<le> n" "plain_stop r" for kv n r
        using that JObj.prems(1) by (intro JObj.IH) (auto simp: snds.simps)
    qed
    moreover have "dict_of kvs = kvs" using JObj.prems(1) by (intro dict_of_distinct) simp
    ultimately show ?thesis using False members_start [OF False] unfolding e by (simp add: n)
  qed
qed

text \<open>What was dumped with its keys in order is loaded again.\<close>

lemma loads_dumps: "sorted_json j \<Longrightarrow> loads (dumps_ascii j) = Some j"
  using jvalue_dumps [of j "2 * length (dumps_ascii j) + 1" "[]"] skip_ws_dumps [of j "[]"]
  by (simp add: loads_def skip_ws_def)

section \<open>Base64url and UTF-8\<close>

lemma b64_char_value:
  assumes "n < 64"
  shows "b64_value (b64_char n) = Some n" "b64_char n \<noteq> CHR ''=''" "b64_char n \<noteq> CHR ''.''" "(of_char (b64_char n) :: nat) < 128"
proof -
  have "b64_value (b64_char n) = Some n \<and> (of_char (b64_char n) :: nat) < 128"
  proof -
    have "n < 26 \<or> n = 26 + (n - 26) \<and> n - 26 < 26 \<or> n = 52 + (n - 52) \<and> n - 52 < 10 \<or> n = 62 \<or> n = 63"
      using assms by linarith
    then consider "n < 26" | k where "n = 26 + k" "k < 26" | k where "n = 52 + k" "k < 10" | "n = 62" | "n = 63"
      by blast
    then show ?thesis by cases (simp_all add: b64_char_def b64_value_def)
  qed
  moreover have "b64_value (CHR ''='') = None" "b64_value (CHR ''.'') = None" by (simp_all add: b64_value_def)
  ultimately show "b64_value (b64_char n) = Some n" "b64_char n \<noteq> CHR ''=''" "b64_char n \<noteq> CHR ''.''" "(of_char (b64_char n) :: nat) < 128"
    by auto
qed

lemma byte_split:
  assumes "(b :: nat) < 256"
  shows "b div 16 div 16 = 0" "b div 16 mod 16 * 16 + b mod 16 = b" "b div 64 div 4 = 0" "b div 64 mod 4 * 64 + b mod 64 = b"
proof -
  have "b div 16 < 16" "b div 64 < 4" using assms by (simp_all add: less_mult_imp_div_less)
  then have m: "b div 16 mod 16 = b div 16" "b div 64 mod 4 = b div 64" and
    "b div 16 div 16 = 0" "b div 64 div 4 = 0" by simp_all
  then show "b div 16 div 16 = 0" "b div 64 div 4 = 0" by simp_all
  show "b div 16 mod 16 * 16 + b mod 16 = b" "b div 64 mod 4 * 64 + b mod 64 = b"
    unfolding m by (rule div_mult_mod_eq)+
qed

lemma sextets_bound: "\<forall>b \<in> set bs. b < 256 \<Longrightarrow> n \<in> set (sextets bs) \<Longrightarrow> n < 64"
  by (induction bs rule: sextets.induct) (auto simp: less_mult_imp_div_less)

lemma b64url_chars:
  assumes "\<forall>b \<in> set bs. b < 256"
  shows "is_ascii (b64url bs)" "CHR ''.'' \<notin> set (b64url bs)"
proof -
  have "\<forall>c \<in> set (b64url bs). (of_char c :: nat) < 128 \<and> c \<noteq> CHR ''.''"
    using sextets_bound [OF assms] b64_char_value(3,4) by (simp add: b64url_def)
  then show "is_ascii (b64url bs)" "CHR ''.'' \<notin> set (b64url bs)" by (auto simp: is_ascii_def list_all_iff)
qed

lemma a2b_sextets:
  "\<forall>b \<in> set bs. b < 256 \<Longrightarrow>
   a2b 0 0 p (map b64_char (sextets bs) @ replicate (nat (- int (length (sextets bs)) mod 4)) (CHR ''='')) = Some bs"
proof (induction bs arbitrary: p rule: sextets.induct)
  case 1
  show ?case by simp
next
  case (2 a)
  have pad: "replicate (nat (- int (length (sextets [a])) mod 4)) (CHR ''='') = ''==''" by (simp add: numeral_2_eq_2)
  have "a div 4 < 64" "a mod 4 * 16 < 64" "a div 4 * 4 + a mod 4 * 16 div 16 = a" using 2 by simp_all
  then show ?case unfolding pad by (simp add: b64_char_value)
next
  case (3 a b)
  have pad: "replicate (nat (- int (length (sextets [a, b])) mod 4)) (CHR ''='') = ''=''" by simp
  have "a div 4 < 64" "a mod 4 * 16 + b div 16 < 64" "b mod 16 * 4 < 64" using 3 by auto
  then show ?case unfolding pad using 3 byte_split [of b] by (simp add: b64_char_value)
next
  case (4 a b c bs)
  have "(- int (length (sextets (a # b # c # bs))) mod 4) = (- int (length (sextets bs)) mod 4)"
    by simp presburger
  moreover have "a div 4 < 64" "a mod 4 * 16 + b div 16 < 64" "b mod 16 * 4 + c div 64 < 64" "c mod 64 < 64"
    using 4(2) by auto
  ultimately show ?case using 4 byte_split [of b] byte_split [of c] by (simp add: b64_char_value)
qed

lemma b64url_decode_encode:
  assumes "\<forall>b \<in> set bs. b < 256"
  shows "b64url_decode (b64url bs) = Some bs"
  using a2b_sextets [OF assms, of 0] b64url_chars(1) [OF assms] by (simp add: b64url_decode_def b64url_def)

lemma utf8_bytes: "\<forall>b \<in> set (utf8 s). b < 256"
proof -
  have "\<forall>c :: char. list_all (\<lambda>b. b < 256) (utf8_char c)" by code_simp
  then show ?thesis by (auto simp: utf8_def list_all_iff)
qed

lemma utf8_decode_encode: "utf8_decode (utf8 s) = Some s"
proof (induction s)
  case (Cons c s)
  show ?case
  proof (cases "(of_char c :: nat) < 128")
    case True
    with Cons show ?thesis by (simp add: utf8_def utf8_char_def)
  next
    case False
    let ?n = "of_char c :: nat"
    have "?n < 256" by simp
    with False have "2 \<le> ?n div 64" "?n div 64 < 4" by (simp_all add: less_mult_imp_div_less)
    then have "?n div 64 = 2 \<or> ?n div 64 = 3" by linarith
    moreover have "?n div 64 * 64 + ?n mod 64 = ?n" by (rule div_mult_mod_eq)
    ultimately have "192 + ?n div 64 \<in> {194, 195}" "char_of ((192 + ?n div 64 - 192) * 64 + (128 + ?n mod 64 - 128)) = c"
      by simp_all
    with False Cons show ?thesis by (simp add: utf8_def utf8_char_def Let_def)
  qed
qed (simp add: utf8_def)

end
