(* ===== verification/Consent.thy ===== *)
theory Consent
  imports JsonFacts OAuthInvariant
begin

text \<open>
  The consent token of \<open>oauth/service.py\<close>: the authorization request the owner is asked to
  approve travels through the browser as signed JSON. \<open>nonce\<close> is the draw of
  \<open>secrets.token_urlsafe\<close>.
\<close>

section \<open>Signing\<close>

definition consent_signature :: "oauth_env \<Rightarrow> string \<Rightarrow> string" where
  "consent_signature en encoded =
     b64url (oe_hmac en (hmac_key en) (utf8 (''consent'' @ [CHR 0x00] @ encoded)))"

definition consent_payload :: "oauth_env \<Rightarrow> string \<Rightarrow> authorization_request \<Rightarrow> json" where
  "consent_payload en nonce request =
     (let now = oe_now en div 1000000 in JObj
        [(''v'', JInt 1),
         (''client_id'', JStr (aq_client_id request)),
         (''redirect_uri'', JStr (aq_redirect_uri request)),
         (''resource'', JStr (aq_resource request)),
         (''scopes'', JArr (map JStr (aq_scopes request))),
         (''code_challenge'', JStr (aq_code_challenge request)),
         (''state'', opt_json JStr (aq_state request)),
         (''iat'', JInt now),
         (''exp'', JInt (now + oc_authorization_code_ttl_seconds (oe_config en))),
         (''nonce'', JStr nonce)])"

definition sign_consent :: "oauth_env \<Rightarrow> string \<Rightarrow> authorization_request \<Rightarrow> string oauth_res" where
  "sign_consent en nonce request =
     bindR (validate_authorization_request request (oe_config en)) (\<lambda>_.
     let encoded = b64url (utf8 (dumps_ascii (consent_payload en nonce request)))
     in Inr (encoded @ ''.'' @ consent_signature en encoded))"

section \<open>Verifying\<close>

definition invalid_consent :: oauth_error where
  "invalid_consent = invalid_request ''The consent request is invalid''"

definition consent_expired :: oauth_error where
  "consent_expired = invalid_request ''The consent request expired''"

text \<open>\<open>int()\<close> of a JSON value.\<close>

definition json_int :: "json \<Rightarrow> int option" where
  "json_int j = (case j of JInt n \<Rightarrow> Some n | JBool b \<Rightarrow> Some (if b then 1 else 0) | JStr s \<Rightarrow> py_int s | _ \<Rightarrow> None)"

text \<open>
  \<open>str()\<close> of a JSON value. The text of a list or a dict starts with its bracket, which is enough
  for the checks that follow: no client, redirect URI, resource or challenge starts with one.
\<close>

definition json_str :: "json \<Rightarrow> string" where
  "json_str j = (case j of JStr s \<Rightarrow> s | JInt n \<Rightarrow> int_str n | JNull \<Rightarrow> ''None''
     | JBool b \<Rightarrow> (if b then ''True'' else ''False'') | JArr _ \<Rightarrow> ''['' | JObj _ \<Rightarrow> ''{'')"

definition payload_fields :: "json \<Rightarrow> (string \<times> json) list oauth_res" where
  "payload_fields payload = (case payload of
     JObj members \<Rightarrow> bindR (raise_if (map_of members ''v'' \<notin> {Some (JInt 1), Some (JBool True)}) invalid_consent) (\<lambda>_. Inr members)
   | _ \<Rightarrow> Inl invalid_consent)"

definition json_text :: "json \<Rightarrow> string oauth_res" where
  "json_text j = (case j of JStr s \<Rightarrow> Inr s | _ \<Rightarrow> Inl invalid_consent)"

definition payload_scopes :: "json \<Rightarrow> string list oauth_res" where
  "payload_scopes j = (case j of JArr items \<Rightarrow> map_each json_text items | _ \<Rightarrow> Inl invalid_consent)"

definition payload_state :: "json option \<Rightarrow> string option oauth_res" where
  "payload_state j = (case j of None \<Rightarrow> Inr None | Some JNull \<Rightarrow> Inr None
     | Some (JStr s) \<Rightarrow> Inr (Some s) | _ \<Rightarrow> Inl invalid_consent)"

definition payload_request :: "oauth_env \<Rightarrow> (string \<times> json) list \<Rightarrow> authorization_request oauth_res" where
  "payload_request en members =
     bindR (require invalid_consent (map_of members ''exp'')) (\<lambda>expiry.
     bindR (require invalid_consent (json_int expiry)) (\<lambda>exp.
     bindR (raise_if (exp < oe_now en div 1000000) consent_expired) (\<lambda>_.
     bindR (require invalid_consent (map_of members ''scopes'')) (\<lambda>scopes.
     bindR (payload_scopes scopes) (\<lambda>scopes_raw.
     bindR (payload_state (map_of members ''state'')) (\<lambda>state.
     bindR (require invalid_consent (map_of members ''client_id'')) (\<lambda>client_id.
     bindR (require invalid_consent (map_of members ''redirect_uri'')) (\<lambda>redirect_uri.
     bindR (require invalid_consent (map_of members ''resource'')) (\<lambda>resource.
     bindR (normalize_scopes scopes_raw) (\<lambda>normalized.
     bindR (require invalid_consent (map_of members ''code_challenge'')) (\<lambda>code_challenge.
     Inr \<lparr>aq_client_id = json_str client_id, aq_redirect_uri = json_str redirect_uri,
          aq_resource = json_str resource, aq_scopes = normalized,
          aq_code_challenge = json_str code_challenge, aq_state = state\<rparr>)))))))))))"

definition verify_consent :: "oauth_env \<Rightarrow> string \<Rightarrow> authorization_request oauth_res" where
  "verify_consent en signed =
     (case partition_at (CHR ''.'') signed of (encoded, found, supplied_signature) \<Rightarrow>
      bindR (raise_if (\<not> found) invalid_consent) (\<lambda>_.
      bindR (map_error (\<lambda>_. invalid_consent) (compare_digest supplied_signature (consent_signature en encoded))) (\<lambda>same.
      bindR (raise_if (\<not> same) invalid_consent) (\<lambda>_.
      bindR (require invalid_consent (Option.bind (b64url_decode encoded) utf8_decode)) (\<lambda>text.
      bindR (require invalid_consent (loads text)) (\<lambda>payload.
      bindR (payload_fields payload) (\<lambda>members.
      bindR (payload_request en members) (\<lambda>request.
      bindR (validate_authorization_request request (oe_config en)) (\<lambda>_.
      Inr request)))))))))"

section \<open>Facts\<close>

lemma verified_consent_valid: "verify_consent en signed = Inr q \<Longrightarrow> validate_authorization_request q (oe_config en) = Inr ()"
  by (auto simp: verify_consent_def result_simps split_beta)

lemma b64_char_plain: "(of_char (b64_char n) :: nat) < 128" "b64_char n \<noteq> CHR ''.''"
proof -
  have "b64_char n = CHR ''_''" if "63 \<le> n" using that by (simp add: b64_char_def)
  then show "(of_char (b64_char n) :: nat) < 128" "b64_char n \<noteq> CHR ''.''"
    using b64_char_value(3,4) [of n] by (cases "n < 63"; simp)+
qed

lemma b64url_plain: "is_ascii (b64url bs)" "CHR ''.'' \<notin> set (b64url bs)"
proof -
  have "\<forall>c \<in> set (b64url bs). (of_char c :: nat) < 128 \<and> c \<noteq> CHR ''.''"
    using b64_char_plain by (auto simp: b64url_def)
  then show "is_ascii (b64url bs)" "CHR ''.'' \<notin> set (b64url bs)" by (auto simp: is_ascii_def list_all_iff)
qed

lemma partition_at_middle: "c \<notin> set s \<Longrightarrow> partition_at c (s @ [c] @ t) = (s, True, t)"
  by (simp add: partition_at_def takeWhile_append2 dropWhile_append2 takeWhile_eq_all_conv dropWhile_append)

definition sorted_payload :: "oauth_env \<Rightarrow> string \<Rightarrow> authorization_request \<Rightarrow> (string \<times> json) list" where
  "sorted_payload en nonce request =
     [(''client_id'', JStr (aq_client_id request)),
      (''code_challenge'', JStr (aq_code_challenge request)),
      (''exp'', JInt (oe_now en div 1000000 + oc_authorization_code_ttl_seconds (oe_config en))),
      (''iat'', JInt (oe_now en div 1000000)),
      (''nonce'', JStr nonce),
      (''redirect_uri'', JStr (aq_redirect_uri request)),
      (''resource'', JStr (aq_resource request)),
      (''scopes'', JArr (map JStr (aq_scopes request))),
      (''state'', opt_json JStr (aq_state request)),
      (''v'', JInt 1)]"

lemma dumps_ascii_perm:
  assumes "mset kvs = mset kvs'" and "distinct (map fst kvs)"
  shows "dumps_ascii (JObj kvs) = dumps_ascii (JObj kvs')"
proof -
  let ?f = "\<lambda>(k, j). (k, dumps_ascii j)"
  have "mset (map ?f kvs) = mset (map ?f kvs')" using assms(1) by simp
  moreover have "inj_on fst (set (map ?f kvs))"
    by (rule inj_on_fst_distinct) (use assms(2) in \<open>simp add: comp_def case_prod_beta\<close>)
  ultimately have "sort_key fst (map ?f kvs) = sort_key fst (map ?f kvs')"
    by (rule sort_key_perm)
  then show ?thesis by simp
qed

lemma payload_sorted: "dumps_ascii (consent_payload en nonce q) = dumps_ascii (JObj (sorted_payload en nonce q))"
  unfolding consent_payload_def Let_def
  by (rule dumps_ascii_perm) (simp_all add: sorted_payload_def add_mset_commute)

lemma sorted_payload_ok: "sorted_json (JObj (sorted_payload en nonce q))"
proof -
  have "sorted [''client_id'', ''code_challenge'', ''exp'', ''iat'', ''nonce'', ''redirect_uri'', ''resource'', ''scopes'', ''state'', ''v'']"
    by code_simp
  moreover have "sorted_json (opt_json JStr x)" for x by (cases x) (simp_all add: opt_json_def)
  ultimately show ?thesis by (simp add: sorted_payload_def)
qed

lemma payload_scopes_back: "payload_scopes (JArr (map JStr scopes)) = Inr scopes"
  by (simp add: payload_scopes_def map_each_eq_Inr list_all2_conv_all_nth json_text_def)

lemma payload_request_back:
  assumes "normalize_scopes (aq_scopes q) = Inr (aq_scopes q)"
  shows "payload_request en' (sorted_payload en nonce q) =
    (if oe_now en' div 1000000 \<le> oe_now en div 1000000 + oc_authorization_code_ttl_seconds (oe_config en)
     then Inr q else Inl consent_expired)"
proof -
  have "payload_state (Some (opt_json JStr x)) = Inr x" for x
    by (cases x) (simp_all add: opt_json_def payload_state_def)
  then show ?thesis using assms
    by (simp add: payload_request_def sorted_payload_def require_def json_int_def json_str_def raise_if_def
        payload_scopes_back)
qed

lemma fields_back: "payload_fields (JObj (sorted_payload en nonce q)) = Inr (sorted_payload en nonce q)"
  by (simp add: payload_fields_def sorted_payload_def raise_if_def)

text \<open>The round trip, in the environment of a later request of the same server.\<close>

lemma verify_signed:
  assumes s: "sign_consent en nonce q = Inr signed" and n: "normalize_scopes (aq_scopes q) = Inr (aq_scopes q)"
    and e: "oe_config en' = oe_config en" "oe_hmac en' = oe_hmac en"
  shows "verify_consent en' signed =
    (if oe_now en' div 1000000 \<le> oe_now en div 1000000 + oc_authorization_code_ttl_seconds (oe_config en)
     then Inr q else Inl consent_expired)"
proof -
  let ?text = "dumps_ascii (JObj (sorted_payload en nonce q))"
  let ?encoded = "b64url (utf8 ?text)"
  from s have v: "validate_authorization_request q (oe_config en) = Inr ()"
    and g: "signed = ?encoded @ [CHR ''.''] @ consent_signature en ?encoded"
    by (auto simp: sign_consent_def result_simps Let_def payload_sorted)
  have sig: "consent_signature en' x = consent_signature en x" for x
    using e by (simp add: consent_signature_def hmac_key_def)
  have p: "partition_at (CHR ''.'') signed = (?encoded, True, consent_signature en ?encoded)"
    unfolding g by (rule partition_at_middle) (rule b64url_plain)
  have c: "compare_digest (consent_signature en ?encoded) (consent_signature en ?encoded) = Inr True"
    by (simp add: compare_digest_def consent_signature_def b64url_plain)
  have t: "Option.bind (b64url_decode ?encoded) utf8_decode = Some ?text"
    by (simp add: b64url_decode_encode [OF utf8_bytes] utf8_decode_encode del: dumps_ascii.simps)
  show ?thesis
    unfolding verify_consent_def p
    by (simp add: sig c t loads_dumps [OF sorted_payload_ok] fields_back payload_request_back [OF n] e v
        raise_if_def map_error_def require_def del: dumps_ascii.simps)
qed

end
