(* ===== verification/OAuthEndpoints.thy ===== *)
theory OAuthEndpoints
  imports Consent AppSettings
begin

text \<open>
  \<open>oauth/client_metadata.py\<close> and \<open>oauth/router.py\<close>: the ChatGPT client metadata and the OAuth
  endpoints. The HTTP client, \<open>urllib.parse.parse_qs\<close> and the query parameters (all values of a
  name, in order) are arguments; an \<open>OAuthFailure\<close> that no handler catches ends in a server error.
\<close>

section \<open>Client metadata\<close>

record http_response =
  hr_status :: int
  hr_content_type :: string
  hr_body :: "nat list"

text \<open>\<open>Inl\<close> is the message of the ClientMetadataError. A document is decoded as UTF-8.\<close>

type_synonym 'a metadata_res = "string + 'a"

definition MAX_DOCUMENT_BYTES :: nat where "MAX_DOCUMENT_BYTES = 65536"

definition fetch_chatgpt_client_metadata ::
    "(string \<Rightarrow> http_response option) \<Rightarrow> string \<Rightarrow> (string \<times> json) list metadata_res" where
  "fetch_chatgpt_client_metadata get client_id =
     bindR (require ''The client metadata document is unavailable'' (get client_id)) (\<lambda>response.
     bindR (raise_if (hr_status response \<noteq> 200) ''The client metadata document is unavailable'') (\<lambda>_.
     let content_type = fst (partition_at (CHR '';'') (hr_content_type response)) in
     bindR (raise_if (lower (py_strip content_type) \<noteq> ''application/json'') ''The client metadata document is not JSON'') (\<lambda>_.
     bindR (raise_if (MAX_DOCUMENT_BYTES < length (hr_body response)) ''The client metadata document is too large'') (\<lambda>_.
     bindR (require ''The client metadata document is invalid'' (Option.bind (utf8_decode (hr_body response)) loads)) (\<lambda>document.
     case document of JObj members \<Rightarrow> Inr members | _ \<Rightarrow> Inl ''The client metadata document is invalid'')))))"

text \<open>A member that has to be a list of strings.\<close>

definition is_text :: "json \<Rightarrow> bool" where
  "is_text j = (case j of JStr _ \<Rightarrow> True | _ \<Rightarrow> False)"

definition string_list :: "json option \<Rightarrow> string list option" where
  "string_list j = (case j of
     Some (JArr items) \<Rightarrow> (if list_all is_text items
       then Some (map (\<lambda>i. case i of JStr s \<Rightarrow> s | _ \<Rightarrow> []) items) else None)
   | _ \<Rightarrow> None)"

definition absent :: "json option \<Rightarrow> bool" where
  "absent j \<longleftrightarrow> j \<in> {None, Some JNull}"

definition auth_methods :: "(string \<times> json) list \<Rightarrow> string list metadata_res" where
  "auth_methods document =
     (let supported_methods = map_of document ''token_endpoint_auth_methods_supported'';
          legacy_method = map_of document ''token_endpoint_auth_method'' in
      bindR (if absent supported_methods then Inr []
             else require ''The client token authentication methods are invalid'' (string_list supported_methods)) (\<lambda>methods.
      if absent legacy_method then Inr methods
      else case legacy_method of
        Some (JStr s) \<Rightarrow> Inr (methods @ [s])
      | _ \<Rightarrow> Inl ''The client token authentication method is invalid''))"

definition validate_chatgpt_client_metadata ::
    "(string \<Rightarrow> (string \<times> json) list metadata_res) \<Rightarrow> string \<Rightarrow> string \<Rightarrow> unit metadata_res" where
  "validate_chatgpt_client_metadata loader client_id redirect_uri =
     bindR (map_error client_error_text (validate_chatgpt_client client_id redirect_uri)) (\<lambda>_.
     bindR (loader client_id) (\<lambda>document.
     bindR (raise_if (map_of document ''client_id'' \<noteq> Some (JStr client_id)) ''The client metadata identity does not match'') (\<lambda>_.
     bindR (require ''The client metadata redirect URIs are invalid'' (string_list (map_of document ''redirect_uris''))) (\<lambda>redirect_uris.
     bindR (raise_if (redirect_uri \<notin> set redirect_uris) ''The redirect URI is not registered by the client'') (\<lambda>_.
     bindR (require ''The client metadata grant types are invalid'' (string_list (map_of document ''grant_types''))) (\<lambda>grant_types.
     bindR (raise_if (\<not> {''authorization_code'', ''refresh_token''} \<subseteq> set grant_types) ''The client does not support the required grants'') (\<lambda>_.
     bindR (require ''The client metadata response types are invalid'' (string_list (map_of document ''response_types''))) (\<lambda>response_types.
     bindR (raise_if (''code'' \<notin> set response_types) ''The client does not support authorization codes'') (\<lambda>_.
     bindR (auth_methods document) (\<lambda>methods.
     raise_if (''none'' \<notin> set methods) ''The client does not support public token exchange''))))))))))"

section \<open>Requests\<close>

record form_request =
  fr_content_type :: string
  fr_body :: "nat list"

definition FORM_LIMIT_BYTES :: nat where "FORM_LIMIT_BYTES = 65536"

type_synonym form = "(string \<times> string) list"

definition add_field :: "form \<Rightarrow> string \<times> string list \<Rightarrow> form oauth_res" where
  "add_field result field = (case field of (name, values) \<Rightarrow>
     bindR (raise_if (length values \<noteq> 1) (invalid_request (''Duplicate '' @ name @ '' parameter''))) (\<lambda>_.
     Inr (dict_set name (hd values) result)))"

definition read_form :: "(string \<Rightarrow> (string \<times> string list) list) \<Rightarrow> form_request \<Rightarrow> form oauth_res" where
  "read_form parse_qs request =
     (let content_type = lower (py_strip (fst (partition_at (CHR '';'') (fr_content_type request)))) in
      bindR (raise_if (content_type \<noteq> ''application/x-www-form-urlencoded'')
               (invalid_request ''OAuth endpoints require form encoding'')) (\<lambda>_.
      bindR (raise_if (FORM_LIMIT_BYTES < length (fr_body request)) (invalid_request ''The OAuth request is too large'')) (\<lambda>_.
      bindR (require (invalid_request ''The OAuth form is invalid'') (utf8_decode (fr_body request))) (\<lambda>body.
      for_each add_field [] (parse_qs body)))))"

definition required :: "form \<Rightarrow> string \<Rightarrow> string oauth_res" where
  "required form name = (case map_of form name of
     None \<Rightarrow> Inl (invalid_request (''Missing '' @ name))
   | Some value \<Rightarrow> bindR (raise_if (value = []) (invalid_request (''Missing '' @ name))) (\<lambda>_. Inr value))"

definition query_names :: "string list" where
  "query_names = [''response_type'', ''client_id'', ''redirect_uri'', ''resource'', ''scope'', ''code_challenge'',
     ''code_challenge_method'', ''state'']"

definition unique_query_values :: "(string \<Rightarrow> string list) \<Rightarrow> (string \<rightharpoonup> string) oauth_res" where
  "unique_query_values getlist =
     for_each (\<lambda>result name.
       bindR (raise_if (1 < length (getlist name)) (invalid_request (''Duplicate '' @ name @ '' parameter''))) (\<lambda>_.
       Inr (case getlist name of [] \<Rightarrow> result | v # _ \<Rightarrow> result(name \<mapsto> v)))) Map.empty query_names"

section \<open>Responses\<close>

record consent_page =
  cp_status :: int
  cp_scope_items :: string
  cp_error_html :: string
  cp_consent_token :: string
  cp_content_security_policy :: string

datatype oauth_response =
    JsonResponse int json
  | RedirectResponse string
  | EmptyResponse
  | HtmlResponse consent_page
  | OAuthServerError oauth_error

definition oauth_error_response :: "oauth_error \<Rightarrow> oauth_response" where
  "oauth_error_response e = (case e of
     OAuthProtocolError code description \<Rightarrow>
       JsonResponse 400 (JObj [(''error'', JStr code), (''error_description'', JStr description)])
   | OAuthFailure _ \<Rightarrow> OAuthServerError e)"

text \<open>\<open>quote_plus\<close> and \<open>urlencode\<close>.\<close>

definition quote_plus_byte :: "nat \<Rightarrow> string" where
  "quote_plus_byte b =
     (let c = char_of b :: char in
      if b < 128 \<and> (ascii_alpha c \<or> ascii_digit c \<or> c \<in> {CHR ''_'', CHR ''.'', CHR ''-'', CHR ''~''}) then [c]
      else if c = CHR '' '' then ''+''
      else ''%'' @ map (\<lambda>d. if char_in (CHR ''a'') (CHR ''f'') d then char_of (of_char d - 32 :: nat) else d) (hex_digits 2 (int b)))"

definition quote_plus :: "string \<Rightarrow> string" where
  "quote_plus s = concat (map quote_plus_byte (utf8 s))"

definition urlencode :: "(string \<times> string) list \<Rightarrow> string" where
  "urlencode items = join ''&'' (map (\<lambda>(k, v). quote_plus k @ ''='' @ quote_plus v) items)"

definition redirect :: "(string \<Rightarrow> bool) \<Rightarrow> string \<Rightarrow> (string \<times> string option) list \<Rightarrow> oauth_response" where
  "redirect bracket_ok base_uri values =
     (case urlsplit bracket_ok base_uri of
        Inl e \<Rightarrow> OAuthServerError (OAuthFailure e)
      | Inr parsed \<Rightarrow>
          let query = urlencode (List.map_filter (\<lambda>(k, v). map_option (\<lambda>x. (k, x)) v) values)
          in RedirectResponse (urlunsplit (us_scheme parsed) (us_netloc parsed) (us_path parsed) query))"

definition authorization_error ::
    "(string \<Rightarrow> bool) \<Rightarrow> (string \<Rightarrow> string list) \<Rightarrow> oauth_config \<Rightarrow> oauth_error \<Rightarrow> oauth_response" where
  "authorization_error bracket_ok getlist cfg e =
     (let value = (\<lambda>name. case getlist name of [] \<Rightarrow> None | vs \<Rightarrow> Some (last vs));
          client_id = value ''client_id''; redirect_uri = value ''redirect_uri'' in
      case (client_id, redirect_uri, e) of
        (Some (c # cs), Some (r # rs), OAuthProtocolError code description) \<Rightarrow>
          (case validate_chatgpt_client (c # cs) (r # rs) of
             Inl _ \<Rightarrow> oauth_error_response e
           | Inr _ \<Rightarrow> redirect bracket_ok (r # rs)
               [(''error'', Some code), (''error_description'', Some description), (''state'', value ''state''),
                (''iss'', Some (issuer cfg))])
      | _ \<Rightarrow> oauth_error_response e)"

text \<open>\<open>html.escape\<close>; the page itself is fixed text around these parts.\<close>

definition html_escape :: "string \<Rightarrow> string" where
  "html_escape s = concat (map (\<lambda>c.
     if c = CHR ''&'' then ''&amp;'' else if c = CHR ''<'' then ''&lt;'' else if c = CHR ''>'' then ''&gt;''
     else if c = CHR 0x22 then ''&quot;'' else if c = CHR 0x27 then ''&#x27;'' else [c]) s)"

definition single_quoted :: "string \<Rightarrow> string" where
  "single_quoted s = CHR 0x27 # s @ [CHR 0x27]"

definition content_security_policy :: "string list \<Rightarrow> string" where
  "content_security_policy form_action_origins =
     ''default-src '' @ single_quoted ''none'' @ ''; style-src '' @ single_quoted ''unsafe-inline'' @
     ''; form-action '' @ single_quoted ''self'' @ '' '' @ join '' '' form_action_origins @
     ''; frame-ancestors '' @ single_quoted ''none'' @ ''; base-uri '' @ single_quoted ''none''"

definition make_consent_page :: "string \<Rightarrow> string list \<Rightarrow> string list \<Rightarrow> string option \<Rightarrow> int \<Rightarrow> oauth_response" where
  "make_consent_page consent_token scopes form_action_origins error status_code =
     HtmlResponse
       \<lparr>cp_status = status_code,
        cp_scope_items = concat (map (\<lambda>scope. ''<li>'' @ html_escape scope @ ''</li>'') scopes),
        cp_error_html = (case error of None \<Rightarrow> [] | Some text \<Rightarrow>
          if text = [] then [] else ''<p class='' @ [CHR 0x22] @ ''error'' @ [CHR 0x22] @ ''>'' @ html_escape text @ ''</p>''),
        cp_consent_token = html_escape consent_token,
        cp_content_security_policy = content_security_policy form_action_origins\<rparr>"

section \<open>Metadata documents\<close>

definition protected_resource_document :: "oauth_config \<Rightarrow> json" where
  "protected_resource_document cfg = JObj
     [(''resource'', JStr (resource_of cfg)),
      (''authorization_servers'', JArr [JStr (issuer cfg)]),
      (''scopes_supported'', JArr (map JStr SUPPORTED_SCOPES))]"

definition authorization_server_document :: "oauth_config \<Rightarrow> json" where
  "authorization_server_document cfg = JObj
     [(''issuer'', JStr (issuer cfg)),
      (''authorization_endpoint'', JStr (issuer cfg @ ''/oauth/authorize'')),
      (''token_endpoint'', JStr (issuer cfg @ ''/oauth/token'')),
      (''revocation_endpoint'', JStr (issuer cfg @ ''/oauth/revoke'')),
      (''response_types_supported'', JArr [JStr ''code'']),
      (''grant_types_supported'', JArr [JStr ''authorization_code'', JStr ''refresh_token'']),
      (''code_challenge_methods_supported'', JArr [JStr ''S256'']),
      (''token_endpoint_auth_methods_supported'', JArr [JStr ''none'']),
      (''revocation_endpoint_auth_methods_supported'', JArr [JStr ''none'']),
      (''client_id_metadata_document_supported'', JBool True),
      (''authorization_response_iss_parameter_supported'', JBool True),
      (''scopes_supported'', JArr (map JStr SUPPORTED_SCOPES))]"

section \<open>Endpoints\<close>

text \<open>What one request brings with it: the environment of the service, the draw of the nonce and the library.\<close>

record http_env =
  he_env :: oauth_env
  he_nonce :: string
  he_loader :: "string \<Rightarrow> (string \<times> json) list metadata_res"
  he_parse_qs :: "string \<Rightarrow> (string \<times> string list) list"
  he_bracket_ok :: "string \<Rightarrow> bool"

definition authorize :: "http_env \<Rightarrow> (string \<Rightarrow> string list) \<Rightarrow> oauth_response" where
  "authorize he getlist =
     (let cfg = oe_config (he_env he) in
      case bindR (unique_query_values getlist) (\<lambda>values. parse_authorization_request values cfg) of
        Inl e \<Rightarrow> authorization_error (he_bracket_ok he) getlist cfg e
      | Inr authorization \<Rightarrow>
          (case validate_chatgpt_client_metadata (he_loader he) (aq_client_id authorization) (aq_redirect_uri authorization) of
             Inl _ \<Rightarrow> oauth_error_response (OAuthProtocolError ''unauthorized_client''
               ''The ChatGPT client metadata could not be validated'')
           | Inr _ \<Rightarrow>
               (case sign_consent (he_env he) (he_nonce he) authorization of
                  Inl e \<Rightarrow> OAuthServerError e
                | Inr consent_token \<Rightarrow>
                    make_consent_page consent_token (aq_scopes authorization) (oc_form_action_origins cfg) None 200)))"

definition consent_form :: "http_env \<Rightarrow> form_request \<Rightarrow> (form \<times> string \<times> authorization_request) oauth_res" where
  "consent_form he request =
     bindR (read_form (he_parse_qs he) request) (\<lambda>form.
     bindR (required form ''consent_token'') (\<lambda>consent_token.
     bindR (verify_consent (he_env he) consent_token) (\<lambda>authorization.
     Inr (form, consent_token, authorization))))"

definition authorize_consent :: "http_env \<Rightarrow> form_request \<Rightarrow> oauth_db \<Rightarrow> oauth_response \<times> oauth_db" where
  "authorize_consent he request db =
     (let cfg = oe_config (he_env he) in
      case consent_form he request of
        Inl e \<Rightarrow> (oauth_error_response e, db)
      | Inr (form, consent_token, authorization) \<Rightarrow>
          if map_of form ''action'' = Some ''deny'' then
            (redirect (he_bracket_ok he) (aq_redirect_uri authorization)
               [(''error'', Some ''access_denied''), (''error_description'', Some ''The owner denied access''),
                (''state'', aq_state authorization), (''iss'', Some (issuer cfg))], db)
          else if map_of form ''action'' \<noteq> Some ''approve'' then
            (oauth_error_response (invalid_request ''Choose approve or deny''), db)
          else
            (case owner_secret_matches cfg (with_default [] (map_of form ''owner_secret'')) of
               Inl e \<Rightarrow> (OAuthServerError (OAuthFailure e), db)
             | Inr matches \<Rightarrow>
                 if \<not> matches then
                   (make_consent_page consent_token (aq_scopes authorization) (oc_form_action_origins cfg)
                      (Some ''The owner secret is invalid'') 401, db)
                 else
                   (case issue_authorization_code (he_env he) authorization db of
                      (Inl e, db) \<Rightarrow> (OAuthServerError e, db)
                    | (Inr code, db) \<Rightarrow>
                        (redirect (he_bracket_ok he) (aq_redirect_uri authorization)
                           [(''code'', Some code), (''state'', aq_state authorization), (''iss'', Some (issuer cfg))], db))))"

text \<open>The operation a token request asks for, with its parameters.\<close>

definition token_operation :: "form \<Rightarrow> oauth_op oauth_res" where
  "token_operation form =
     bindR (raise_if (map_of form ''client_secret'' \<noteq> None \<or> map_of form ''client_assertion'' \<noteq> None)
              (OAuthProtocolError ''invalid_client'' ''This CIMD public client does not use client authentication'')) (\<lambda>_.
     bindR (required form ''grant_type'') (\<lambda>grant_type.
     bindR (required form ''client_id'') (\<lambda>client_id.
     bindR (required form ''resource'') (\<lambda>resource.
     if grant_type = ''authorization_code'' then
       bindR (required form ''code'') (\<lambda>code.
       bindR (required form ''redirect_uri'') (\<lambda>redirect_uri.
       bindR (required form ''code_verifier'') (\<lambda>code_verifier.
       Inr (Exchange code client_id redirect_uri resource code_verifier))))
     else if grant_type = ''refresh_token'' then
       (let requested_scopes = (case map_of form ''scope'' of None \<Rightarrow> None
              | Some scope \<Rightarrow> if scope = [] then None else Some (split_words scope)) in
        bindR (required form ''refresh_token'') (\<lambda>refresh_token.
        Inr (RefreshOp refresh_token client_id resource requested_scopes)))
     else Inl (OAuthProtocolError ''unsupported_grant_type'' ''Only authorization_code and refresh_token are supported'')))))"

definition token :: "http_env \<Rightarrow> form_request \<Rightarrow> oauth_db \<Rightarrow> oauth_response \<times> oauth_db" where
  "token he request db =
     (let respond = (\<lambda>(r, db). ((case r of Inl e \<Rightarrow> oauth_error_response e | Inr pair \<Rightarrow> JsonResponse 200 (as_dict pair)), db)) in
      case bindR (read_form (he_parse_qs he) request) token_operation of
        Inl e \<Rightarrow> (oauth_error_response e, db)
      | Inr (Exchange code client_id redirect_uri resource verifier) \<Rightarrow>
          respond (exchange_authorization_code (he_env he) code client_id redirect_uri resource verifier db)
      | Inr (RefreshOp raw client_id resource scopes) \<Rightarrow>
          respond (refresh_grant (he_env he) raw client_id resource scopes db)
      | Inr _ \<Rightarrow> (EmptyResponse, db))"

definition revoke_form :: "oauth_config \<Rightarrow> form \<Rightarrow> string oauth_res" where
  "revoke_form cfg form =
     bindR (case map_of form ''client_id'' of None \<Rightarrow> Inr ()
            | Some client_id \<Rightarrow> map_error (\<lambda>_. invalid_client) (validate_chatgpt_client_id client_id)) (\<lambda>_.
     bindR (case map_of form ''resource'' of None \<Rightarrow> Inr ()
            | Some resource \<Rightarrow> raise_if (resource \<noteq> resource_of cfg) invalid_target) (\<lambda>_.
     required form ''token''))"

definition revoke_endpoint :: "http_env \<Rightarrow> form_request \<Rightarrow> oauth_db \<Rightarrow> oauth_response \<times> oauth_db" where
  "revoke_endpoint he request db =
     (case bindR (read_form (he_parse_qs he) request) (revoke_form (oe_config (he_env he))) of
        Inl e \<Rightarrow> (oauth_error_response e, db)
      | Inr raw \<Rightarrow> (EmptyResponse, revoke (he_env he) raw db))"

section \<open>One request\<close>

datatype oauth_request =
    GetProtectedResource
  | GetAuthorizationServer
  | GetAuthorize "string \<Rightarrow> string list"
  | PostAuthorize form_request
  | PostToken form_request
  | PostRevoke form_request

definition oauth_http :: "http_env \<Rightarrow> oauth_request \<Rightarrow> oauth_db \<Rightarrow> oauth_response \<times> oauth_db" where
  "oauth_http he request db = (case request of
     GetProtectedResource \<Rightarrow> (JsonResponse 200 (protected_resource_document (oe_config (he_env he))), db)
   | GetAuthorizationServer \<Rightarrow> (JsonResponse 200 (authorization_server_document (oe_config (he_env he))), db)
   | GetAuthorize getlist \<Rightarrow> (authorize he getlist, db)
   | PostAuthorize form \<Rightarrow> authorize_consent he form db
   | PostToken form \<Rightarrow> token he form db
   | PostRevoke form \<Rightarrow> revoke_endpoint he form db)"

end
