(* ===== verification/OAuthHttp.thy ===== *)
theory OAuthHttp
  imports OAuthEndpoints OAuthGrants Contracts
begin

text \<open>
  The OAuth endpoints as a service: what one HTTP request does to the authorization database is
  one operation of the service, and a code is issued only for a consent form the owner signed
  with the secret. \<open>oauth_http_step R\<close> is such a step when all the requests are in \<open>R\<close>.
\<close>

section \<open>What the owner approved\<close>

definition owner_approves :: "http_env \<Rightarrow> form_request \<Rightarrow> authorization_request \<Rightarrow> bool" where
  "owner_approves he request q \<longleftrightarrow>
     (\<exists>form consent_token. consent_form he request = Inr (form, consent_token, q) \<and>
        map_of form ''action'' = Some ''approve'' \<and>
        with_default [] (map_of form ''owner_secret'') \<in> set (oc_consent_secrets (oe_config (he_env he))))"

definition http_approved :: "(http_env \<times> oauth_request) set \<Rightarrow> oauth_env \<Rightarrow> oauth_op \<Rightarrow> bool" where
  "http_approved R en op \<longleftrightarrow> (\<forall>q. op = Issue q \<longrightarrow>
     (\<exists>he form. (he, PostAuthorize form) \<in> R \<and> he_env he = en \<and> owner_approves he form q))"

definition oauth_http_step :: "(http_env \<times> oauth_request) set \<Rightarrow> oauth_db \<Rightarrow> oauth_db \<Rightarrow> bool" where
  "oauth_http_step R db db' \<longleftrightarrow> (\<exists>en op. http_approved R en op \<and> db' = oauth_step en op db)"

definition oauth_serve :: "http_env \<times> oauth_request \<Rightarrow> oauth_db \<Rightarrow> oauth_response \<times> oauth_db" where
  "oauth_serve r db = oauth_http (fst r) (snd r) db"

definition oauth_writing :: "http_env \<times> oauth_request \<Rightarrow> bool" where
  "oauth_writing r = (case snd r of PostAuthorize _ \<Rightarrow> True | PostToken _ \<Rightarrow> True | PostRevoke _ \<Rightarrow> True | _ \<Rightarrow> False)"

section \<open>One request\<close>

lemma secret_loop:
  assumes "for_each (\<lambda>matches configured. bindR (compare_digest candidate configured) (\<lambda>m. Inr (m \<or> matches))) False secrets = Inr b"
  shows "b \<longrightarrow> candidate \<in> set secrets"
  using assms
proof (rule for_each_prefix_inv)
  fix ys :: "string list" and x zs t t'
  assume "t \<longrightarrow> candidate \<in> set ys" "bindR (compare_digest candidate x) (\<lambda>m. Inr (m \<or> t)) = Inr t'"
  then show "t' \<longrightarrow> candidate \<in> set (ys @ [x])" by (auto simp: result_simps compare_digest_def split: if_splits)
qed simp

lemma consent_step:
  assumes "snd (authorize_consent he form db) \<noteq> db"
  shows "\<exists>q. owner_approves he form q \<and> snd (authorize_consent he form db) = oauth_step (he_env he) (Issue q) db"
proof -
  from assms obtain f t q where c: "consent_form he form = Inr (f, t, q)" "map_of f ''action'' = Some ''approve''"
    and m: "owner_secret_matches (oe_config (he_env he)) (with_default [] (map_of f ''owner_secret'')) = Inr True"
    and e: "snd (authorize_consent he form db) = snd (issue_authorization_code (he_env he) q db)"
    by (auto simp: authorize_consent_def Let_def split_beta split: sum.splits if_splits)
  from m have "with_default [] (map_of f ''owner_secret'') \<in> set (oc_consent_secrets (oe_config (he_env he)))"
    using secret_loop unfolding owner_secret_matches_def by blast
  with c e show ?thesis by (auto simp: owner_approves_def)
qed

lemma token_step:
  "snd (token he form db) = db \<or> (\<exists>op. (\<forall>q. op \<noteq> Issue q) \<and> snd (token he form db) = oauth_step (he_env he) op db)"
proof (cases "bindR (read_form (he_parse_qs he) form) token_operation")
  case (Inr op)
  show ?thesis
  proof (cases op)
    case (Exchange a b c d e)
    with Inr have "snd (token he form db) = oauth_step (he_env he) op db" by (simp add: token_def Let_def split_beta)
    with Exchange show ?thesis by blast
  next
    case (RefreshOp a b c d)
    with Inr have "snd (token he form db) = oauth_step (he_env he) op db" by (simp add: token_def Let_def split_beta)
    with RefreshOp show ?thesis by blast
  qed (use Inr in \<open>simp_all add: token_def\<close>)
qed (simp add: token_def)

lemma revoke_step:
  "snd (revoke_endpoint he form db) = db \<or> (\<exists>raw. snd (revoke_endpoint he form db) = oauth_step (he_env he) (Revoke raw) db)"
  by (auto simp: revoke_endpoint_def split: sum.splits)

lemma http_stepI: "http_approved R en op \<Longrightarrow> oauth_http_step R db (oauth_step en op db)"
  by (auto simp: oauth_http_step_def)

lemma http_approved_other: "\<forall>q. op \<noteq> Issue q \<Longrightarrow> http_approved R en op"
  by (simp add: http_approved_def)

lemma oauth_http_changes:
  assumes "(he, request) \<in> R" and "snd (oauth_http he request db) \<noteq> db"
  shows "oauth_writing (he, request) \<and> oauth_http_step R db (snd (oauth_http he request db))"
proof (cases request)
  case (PostAuthorize form)
  then have e: "snd (oauth_http he request db) = snd (authorize_consent he form db)" by (simp add: oauth_http_def)
  with assms(2) consent_step [of he form db] obtain q where q: "owner_approves he form q"
    "snd (authorize_consent he form db) = oauth_step (he_env he) (Issue q) db" by metis
  have "http_approved R (he_env he) (Issue q)" using q(1) assms(1) PostAuthorize by (auto simp: http_approved_def)
  from http_stepI [OF this] show ?thesis unfolding e q(2) by (simp add: PostAuthorize oauth_writing_def)
next
  case (PostToken form)
  then have e: "snd (oauth_http he request db) = snd (token he form db)" by (simp add: oauth_http_def)
  with assms(2) token_step [of he form db] obtain op where op: "\<forall>q. op \<noteq> Issue q"
    "snd (token he form db) = oauth_step (he_env he) op db" by metis
  from http_stepI [OF http_approved_other [OF op(1)]] show ?thesis unfolding e op(2) by (simp add: PostToken oauth_writing_def)
next
  case (PostRevoke form)
  then have e: "snd (oauth_http he request db) = snd (revoke_endpoint he form db)" by (simp add: oauth_http_def)
  with assms(2) revoke_step [of he form db] obtain raw where raw:
    "snd (revoke_endpoint he form db) = oauth_step (he_env he) (Revoke raw) db" by metis
  have "http_approved R (he_env he) (Revoke raw)" by (rule http_approved_other) simp
  from http_stepI [OF this] show ?thesis unfolding e raw by (simp add: PostRevoke oauth_writing_def)
qed (use assms(2) in \<open>simp_all add: oauth_http_def\<close>)

interpretation oauth_server: service oauth_serve "\<lambda>r. r \<in> R" oauth_writing "oauth_http_step R" for R
proof (standard, goal_cases)
  case (1 r d a d')
  then show ?case using oauth_http_changes [of "fst r" "snd r" R d] by (simp add: oauth_serve_def)
qed

section \<open>Histories\<close>

lemma http_steps_run:
  "(oauth_http_step R)\<^sup>*\<^sup>* db db' \<Longrightarrow> oauth_run (http_approved R) db db'"
  by (induction rule: rtranclp_induct) (auto simp: oauth_http_step_def intro: oauth_run.intros)

text \<open>Every history of HTTP requests is a history of operations the owner approved.\<close>

lemma http_history:
  "oauth_run (http_approved (set requests)) empty_oauth_db (serve_all oauth_serve requests empty_oauth_db)"
  by (rule http_steps_run) (rule oauth_server.served_steps, simp add: list_all_iff)

lemma http_approved_weaken:
  "oauth_run (http_approved R) db db' \<Longrightarrow>
   oauth_run (approved (\<lambda>q. \<exists>he form. (he, PostAuthorize form) \<in> R \<and> owner_approves he form q)) db db'"
proof (induction rule: oauth_run.induct)
  case (run_step db' en op)
  have "approved (\<lambda>q. \<exists>he form. (he, PostAuthorize form) \<in> R \<and> owner_approves he form q) en op"
    using run_step(2) unfolding http_approved_def approved_def by blast
  with run_step(3) show ?case by (rule oauth_run.run_step)
qed (rule run_now)

lemmas http_history_approved = http_approved_weaken [OF http_history]

end
