(* ===== verification/HttpTheorems.thy ===== *)
theory HttpTheorems
  imports OAuthHttp ApiTheorems
begin

text \<open>
  Properties that span the browser, the OAuth endpoints and the MCP server: the consent token, and
  what has to have happened before a tool can change the budget.
\<close>

section \<open>The consent token\<close>

text \<open>
  C39: the consent token gives back the authorization request it was signed for, whatever its text,
  until the lifetime of a code has passed; after that it is refused as expired. (The scopes of a
  parsed request are normalised.)
\<close>

theorem consent_roundtrip:
  assumes "sign_consent en nonce q = Inr signed" and "normalize_scopes (aq_scopes q) = Inr (aq_scopes q)"
    and "oe_config en' = oe_config en" and "oe_hmac en' = oe_hmac en"
  shows "verify_consent en' signed =
    (if oe_now en' div 1000000 \<le> oe_now en div 1000000 + oc_authorization_code_ttl_seconds (oe_config en)
     then Inr q else Inl consent_expired)"
  by (rule verify_signed [OF assms])

section \<open>Who has to have agreed\<close>

text \<open>
  C7: from the browser to the budget. When a tool call with a bearer token changes the budget, then
  among the HTTP requests that made the authorization database there is a consent form, with a
  valid consent token and the owner secret, that approved an authorization request with the scope
  of that tool; and the tool is not one of those that declare themselves read-only. Nothing is
  assumed of the HTTP requests.
\<close>

theorem tool_change_needs_owner:
  assumes "snd (call_tool en s url
      (verify_token oen bearer (serve_all oauth_serve requests empty_oauth_db)) call db) \<noteq> db"
  shows "(\<exists>he form f consent_token q.
      (he, PostAuthorize form) \<in> set requests \<and> consent_form he form = Inr (f, consent_token, q) \<and>
      map_of f ''action'' = Some ''approve'' \<and>
      with_default [] (map_of f ''owner_secret'') \<in> set (oc_consent_secrets (oe_config (he_env he))) \<and>
      (case call of ToolUpdateConfig _ _ \<Rightarrow> BUDGET_CONFIG_SCOPE | _ \<Rightarrow> BUDGET_REFRESH_SCOPE) \<in> set (aq_scopes q)) \<and>
    (\<exists>a. annotations_of call = Some a \<and> \<not> ta_read_only a)"
  using tool_change_approved [OF http_history_approved assms] unfolding owner_approves_def by blast

section \<open>Witnesses\<close>

definition toy_nonce :: string where "toy_nonce = ''nonce''"

definition toy_token :: string where
  "toy_token = (case sign_consent en1 toy_nonce toy_request of Inl _ \<Rightarrow> [] | Inr t \<Rightarrow> t)"

lemma toy_valid: "validate_authorization_request toy_request (oe_config en1) = Inr ()"
  "normalize_scopes (aq_scopes toy_request) = Inr (aq_scopes toy_request)"
  by code_simp+

lemma toy_signed: "sign_consent en1 toy_nonce toy_request = Inr toy_token" "toy_token \<noteq> []"
  by (simp_all add: toy_token_def sign_consent_def toy_valid Let_def)

theorem consent_roundtrip_witness: "verify_consent en1 toy_token = Inr toy_request"
  using consent_roundtrip [OF toy_signed(1) toy_valid(2) refl refl]
  by (simp add: en1_def toy_env_at_def toy_oauth_config_def)

definition form_body :: form_request where
  "form_body = \<lparr>fr_content_type = ''application/x-www-form-urlencoded'', fr_body = []\<rparr>"

definition toy_http :: "oauth_env \<Rightarrow> (string \<times> string list) list \<Rightarrow> http_env" where
  "toy_http en form = \<lparr>he_env = en, he_nonce = toy_nonce, he_loader = (\<lambda>_. Inr []), he_parse_qs = (\<lambda>_. form),
     he_bracket_ok = (\<lambda>_. True)\<rparr>"

definition approve_form :: "(string \<times> string list) list" where
  "approve_form = [(''consent_token'', [toy_token]), (''action'', [''approve'']), (''owner_secret'', [toy_secret])]"

definition exchange_form :: "(string \<times> string list) list" where
  "exchange_form = [(''grant_type'', [''authorization_code'']), (''client_id'', [CHATGPT_STABLE_CLIENT_ID]),
     (''resource'', [toy_resource]), (''code'', [''c1'']), (''redirect_uri'', [CHATGPT_STABLE_REDIRECT_URI]),
     (''code_verifier'', [toy_verifier])]"

definition browser :: "(http_env \<times> oauth_request) list" where
  "browser = [(toy_http en1 approve_form, PostAuthorize form_body), (toy_http en2 exchange_form, PostToken form_body)]"

lemma form_read:
  "read_form (\<lambda>_. form) form_body = for_each add_field [] form"
proof -
  have "lower (py_strip (fst (partition_at (CHR '';'') ''application/x-www-form-urlencoded''))) = ''application/x-www-form-urlencoded''"
    by code_simp
  then show ?thesis by (simp add: read_form_def form_body_def FORM_LIMIT_BYTES_def)
qed

lemma approved_code: "snd (oauth_serve (toy_http en1 approve_form, PostAuthorize form_body) empty_oauth_db) = odb1"
proof -
  have f: "for_each add_field [] approve_form =
      Inr [(''consent_token'', toy_token), (''action'', ''approve''), (''owner_secret'', toy_secret)]"
    by (simp add: approve_form_def add_field_def)
  have v: "verify_consent en1 toy_token = Inr toy_request"
    using verify_signed [OF toy_signed(1) toy_valid(2) refl refl]
    by (simp add: en1_def toy_env_at_def toy_oauth_config_def)
  have s: "owner_secret_matches (oe_config en1) toy_secret = Inr True" by code_simp
  have "snd (issue_authorization_code en1 toy_request empty_oauth_db) = odb1" using step1 by simp
  then show ?thesis
    by (simp add: oauth_serve_def oauth_http_def authorize_consent_def consent_form_def toy_http_def form_read f
        required_def toy_signed(2) v with_default_def s split_beta Let_def split: sum.splits)
qed

lemma exchanged_pair: "snd (oauth_serve (toy_http en2 exchange_form, PostToken form_body) odb1) = odb2"
proof -
  have "bindR (for_each add_field [] exchange_form) token_operation =
      Inr (Exchange ''c1'' CHATGPT_STABLE_CLIENT_ID CHATGPT_STABLE_REDIRECT_URI toy_resource toy_verifier)"
    by code_simp
  then show ?thesis
    by (simp add: oauth_serve_def oauth_http_def token_def toy_http_def form_read exchanged)
qed

lemma browsed: "serve_all oauth_serve browser empty_oauth_db = odb2"
  by (simp add: browser_def approved_code exchanged_pair)

theorem tool_change_needs_owner_witness:
  "\<exists>he form f consent_token q.
      (he, PostAuthorize form) \<in> set browser \<and> consent_form he form = Inr (f, consent_token, q) \<and>
      map_of f ''action'' = Some ''approve'' \<and>
      with_default [] (map_of f ''owner_secret'') \<in> set (oc_consent_secrets (oe_config (he_env he))) \<and>
      BUDGET_CONFIG_SCOPE \<in> set (aq_scopes q)"
proof -
  have "snd (call_tool toy_env settings0 [] (verify_token en2_later ''a2'' (serve_all oauth_serve browser empty_oauth_db))
      (ToolUpdateConfig request0 None) empty_db) \<noteq> empty_db"
    unfolding browsed by (simp only: tool_put0 db1_not_empty not_False_eq_True)
  from tool_change_needs_owner [OF this] show ?thesis by simp
qed

end
