(* ===== verification/Ratios.thy ===== *)
theory Ratios
  imports Dashboard
begin

text \<open>
  How far a rounded quotient is from the exact one, and sums of money decimals. The quotient
  of two money values has 28 significant digits, so it lies on the same side of the dashboard's
  limit of four fifths as the exact ratio of the amounts does.
\<close>

section \<open>Rounding to the context\<close>

lemma half_even_near: "2 * \<bar>half_even c k * 10 ^ k - c\<bar> \<le> 10 ^ k"
proof -
  obtain q r where qr: "c div 10 ^ k = q" "c mod 10 ^ k = r" by blast
  have c: "c = q * 10 ^ k + r" using div_mult_mod_eq [of c "10 ^ k"] qr by simp
  have r: "0 \<le> r" "r < 10 ^ k" unfolding qr(2) [symmetric] by simp_all
  have "(if b then q + 1 else q) * 10 ^ k - c = (if b then 10 ^ k - r else - r)" for b
    by (simp add: c distrib_right)
  then show ?thesis using r by (auto simp: half_even_def Let_def qr)
qed

lemma half_even_le:
  assumes "c < 10 ^ (n + k)"
  shows "half_even c k \<le> 10 ^ n"
proof -
  have "c div 10 ^ k < 10 ^ n"
  proof (rule ccontr)
    assume "\<not> c div 10 ^ k < 10 ^ n"
    then have "10 ^ n * 10 ^ k \<le> c div 10 ^ k * 10 ^ k" by (intro mult_right_mono) auto
    moreover have "c div 10 ^ k * 10 ^ k + c mod 10 ^ k = c" by (rule div_mult_mod_eq)
    moreover have "0 \<le> c mod 10 ^ k" by simp
    ultimately show False using assms unfolding power_add by linarith
  qed
  then show ?thesis by (auto simp: half_even_def Let_def)
qed

lemma dec_fix_near:
  assumes "0 \<le> m" and "num_digits m \<le> dec_prec + k"
  shows "\<exists>c j. dec_fix \<lparr>dec_neg = s, dec_coef = m, dec_exp = e\<rparr>
      = \<lparr>dec_neg = s, dec_coef = c, dec_exp = e + int j\<rparr>
    \<and> 0 \<le> c \<and> j \<le> k + 1 \<and> 2 * \<bar>c * 10 ^ j - m\<bar> \<le> 10 ^ min j k"
proof (cases "num_digits m \<le> dec_prec")
  case True
  then show ?thesis using assms(1) by (intro exI [of _ m] exI [of _ 0]) (simp add: dec_fix_def)
next
  case False
  define i where "i = num_digits m - dec_prec"
  define h where "h = half_even m i"
  have i: "0 < i" "i \<le> k" "num_digits m = dec_prec + i" using False assms(2) by (auto simp: i_def)
  have h: "0 \<le> h" "2 * \<bar>h * 10 ^ i - m\<bar> \<le> 10 ^ i"
    unfolding h_def using assms(1) by (auto intro: half_even_nonneg half_even_near)
  have le: "h \<le> 10 ^ dec_prec"
    unfolding h_def using num_digits_upper [of m] i(3) by (intro half_even_le) simp
  have fx: "dec_fix \<lparr>dec_neg = s, dec_coef = m, dec_exp = e\<rparr> =
      (if num_digits h > dec_prec
       then \<lparr>dec_neg = s, dec_coef = h div 10, dec_exp = e + int (Suc i)\<rparr>
       else \<lparr>dec_neg = s, dec_coef = h, dec_exp = e + int i\<rparr>)"
    using i(1) by (simp add: dec_fix_def Let_def i_def h_def)
  show ?thesis
  proof (cases "num_digits h \<le> dec_prec")
    case True
    then show ?thesis using fx h i by (intro exI [of _ h] exI [of _ i]) (simp add: min_def)
  next
    case big: False
    then have "h = 10 ^ dec_prec"
      using le num_digits_le_iff [of dec_prec h] by (simp add: dec_prec_def)
    then have "h div 10 * 10 = h" by (simp add: dec_prec_def)
    then have "h div 10 * 10 ^ Suc i = h * 10 ^ i" by (metis mult.assoc power_Suc)
    moreover have "(10::int) ^ i \<le> 10 ^ min (Suc i) k" using i by (intro power_increasing) auto
    ultimately have "2 * \<bar>h div 10 * 10 ^ Suc i - m\<bar> \<le> 10 ^ min (Suc i) k"
      using h(2) by (metis order_trans)
    then show ?thesis using fx h i big
      by (intro exI [of _ "h div 10"] exI [of _ "Suc i"]) (simp add: pos_imp_zdiv_nonneg_iff)
  qed
qed

section \<open>Division\<close>

text \<open>
  The quotient of two positive decimals, as an integer at the exponent of the guarded
  division: within half a unit of the last kept place of the exact quotient \<open>q\<close>, or of
  \<open>q + 1\<close> when the last guard digit of an inexact quotient was made sticky.
\<close>

lemma guarded_quotient_less:
  assumes "0 < a" and "0 < b" and "int (num_digits b) + 29 = int (num_digits a) + int n"
  shows "a * 10 ^ n div b < 10 ^ 30"
proof (rule ccontr)
  assume "\<not> a * 10 ^ n div b < 10 ^ 30"
  then have "10 ^ 30 * b \<le> a * 10 ^ n div b * b" using assms(2) by (intro mult_right_mono) auto
  also have "\<dots> \<le> a * 10 ^ n"
    using div_mult_mod_eq [of "a * 10 ^ n" b] pos_mod_sign [OF assms(2), of "a * 10 ^ n"] by linarith
  also have "\<dots> < 10 ^ num_digits a * 10 ^ n"
    using num_digits_upper [of a] by (intro mult_strict_right_mono) auto
  also have "\<dots> = 10 ^ (num_digits b + 29)" using assms(3) by (metis of_nat_add of_nat_eq_iff of_nat_numeral power_add)
  also have "\<dots> = 10 ^ 30 * 10 ^ (num_digits b - 1)"
  proof -
    have "num_digits b + 29 = 30 + (num_digits b - 1)" using num_digits_pos [of b] by linarith
    then show ?thesis by (metis power_add)
  qed
  also have "\<dots> \<le> 10 ^ 30 * b" using num_digits_lower [OF assms(2)] by (intro mult_left_mono) auto
  finally show False by simp
qed

lemma dec_div_near:
  fixes x y :: decimal
  defines "shift \<equiv> int (num_digits (dec_coef y)) - int (num_digits (dec_coef x)) + 29"
  defines "q \<equiv> dec_coef x * 10 ^ nat shift div dec_coef y"
    and "e \<equiv> dec_exp x - dec_exp y - shift"
  assumes pos: "0 < dec_coef x" "0 < dec_coef y" and shift: "0 \<le> shift"
  obtains c n q' i where
    "dec_div x y = \<lparr>dec_neg = (dec_neg x \<noteq> dec_neg y), dec_coef = c, dec_exp = e + int n\<rparr>"
    "0 \<le> c" "10 ^ i dvd c * 10 ^ n" "i \<le> 3" "q \<le> q'" "q' \<le> q + 1"
    "2 * \<bar>c * 10 ^ n - q'\<bar> \<le> 10 ^ min i 2"
proof -
  let ?num = "dec_coef x * 10 ^ nat shift" and ?s = "dec_neg x \<noteq> dec_neg y"
  have q0: "0 \<le> q" unfolding q_def using pos by (simp add: pos_imp_zdiv_nonneg_iff)
  have q30: "q < 10 ^ 30" unfolding q_def
    by (rule guarded_quotient_less) (use pos shift in \<open>simp_all add: shift_def\<close>)
  have digits: "num_digits m \<le> dec_prec + 2" if "m < 10 ^ 30" for m
    using num_digits_le [OF _ that] by (simp add: dec_prec_def)
  have div: "dec_div x y =
      (if ?num mod dec_coef y \<noteq> 0
       then dec_fix \<lparr>dec_neg = ?s, dec_coef = (if q mod 5 = 0 then q + 1 else q), dec_exp = e\<rparr>
       else case strip_zeros (nat shift) q e of
              (c, e') \<Rightarrow> dec_fix \<lparr>dec_neg = ?s, dec_coef = c, dec_exp = e'\<rparr>)"
  proof -
    have sh: "int (num_digits (dec_coef y)) - int (num_digits (dec_coef x)) + int dec_prec + 1 = shift"
      by (simp add: shift_def dec_prec_def)
    have "dec_coef x \<noteq> 0" "dec_exp x - dec_exp y - e = shift" using pos(1) by (simp_all add: e_def)
    then show ?thesis
      unfolding dec_div_def Let_def sh e_def [symmetric] if_P [OF shift] q_def [symmetric]
      by (simp only: if_False)
  qed
  show thesis
  proof (cases "?num mod dec_coef y = 0")
    case False
    define q' where "q' = (if q mod 5 = 0 then q + 1 else q)"
    have "q' < 10 ^ 30"
    proof (cases "q = 10 ^ 30 - 1")
      case True
      have "(10 ^ 30 - 1) mod 5 = (4 :: int)" by simp
      with True show ?thesis by (simp add: q'_def)
    qed (use q30 in \<open>simp add: q'_def\<close>)
    moreover have "0 \<le> q'" using q0 by (simp add: q'_def)
    ultimately obtain c j where f:
      "dec_fix \<lparr>dec_neg = ?s, dec_coef = q', dec_exp = e\<rparr> = \<lparr>dec_neg = ?s, dec_coef = c, dec_exp = e + int j\<rparr>"
      "0 \<le> c" "j \<le> 2 + 1" "2 * \<bar>c * 10 ^ j - q'\<bar> \<le> 10 ^ min j 2"
      using dec_fix_near [OF _ digits, of q'] by blast
    have "dec_div x y = \<lparr>dec_neg = ?s, dec_coef = c, dec_exp = e + int j\<rparr>"
      using div False f(1) by (simp add: q'_def)
    then show thesis by (rule that [of _ _ j q']) (use f in \<open>auto simp: q'_def\<close>)
  next
    case True
    obtain c0 e0 where "strip_zeros (nat shift) q e = (c0, e0)" by fastforce
    moreover from strip_zeros_spec [OF this] obtain s where s: "q = c0 * 10 ^ s" "e0 = e + int s" by blast
    ultimately have dv: "dec_div x y = dec_fix \<lparr>dec_neg = ?s, dec_coef = c0, dec_exp = e + int s\<rparr>"
      using div True by simp
    have c0: "0 \<le> c0" using s(1) q0
      by (metis linorder_not_le mult_neg_pos zero_less_numeral zero_less_power)
    show thesis
    proof (cases "c0 < 10 ^ dec_prec")
      case True
      then have "dec_div x y = \<lparr>dec_neg = ?s, dec_coef = c0, dec_exp = e + int s\<rparr>"
        using dv by (simp add: dec_fix_small)
      then show thesis by (rule that [of _ _ 0 q]) (use c0 s(1) in simp_all)
    next
      case False
      then have c1: "0 < c0" by (simp add: dec_prec_def)
      have "num_digits q = num_digits c0 + s" unfolding s(1) by (rule num_digits_shift [OF c1])
      moreover have "dec_prec < num_digits c0"
        using False num_digits_le_iff [of dec_prec c0] by (simp add: dec_prec_def)
      ultimately have s2: "s \<le> 2" "num_digits c0 \<le> dec_prec + (2 - s)" using digits [OF q30] by auto
      obtain c j where f:
        "dec_fix \<lparr>dec_neg = ?s, dec_coef = c0, dec_exp = e + int s\<rparr>
          = \<lparr>dec_neg = ?s, dec_coef = c, dec_exp = e + int s + int j\<rparr>"
        "0 \<le> c" "j \<le> 2 - s + 1" "2 * \<bar>c * 10 ^ j - c0\<bar> \<le> 10 ^ min j (2 - s)"
        using dec_fix_near [OF c0 s2(2)] by blast
      have "c * 10 ^ (s + j) - q = (c * 10 ^ j - c0) * 10 ^ s"
        by (simp add: s(1) power_add left_diff_distrib)
      then have "2 * \<bar>c * 10 ^ (s + j) - q\<bar> = 2 * \<bar>c * 10 ^ j - c0\<bar> * 10 ^ s"
        by (simp add: abs_mult)
      also have "\<dots> \<le> 10 ^ min j (2 - s) * 10 ^ s" using f(4) by (intro mult_right_mono) auto
      also have "\<dots> = 10 ^ min (s + j) 2" using s2(1) by (simp flip: power_add)
      finally have near: "2 * \<bar>c * 10 ^ (s + j) - q\<bar> \<le> 10 ^ min (s + j) 2" .
      have "dec_div x y = \<lparr>dec_neg = ?s, dec_coef = c, dec_exp = e + int (s + j)\<rparr>"
        using dv f(1) by simp
      then show thesis by (rule that [of _ _ "s + j" q]) (use near f s2 in auto)
    qed
  qed
qed

section \<open>Four fifths of the limit\<close>

lemma dec_le_near_limit:
  assumes "0 \<le> c" and "e \<le> -1"
  shows "dec_le near_limit_ratio \<lparr>dec_neg = False, dec_coef = c, dec_exp = e + int n\<rparr>
    \<longleftrightarrow> 8 * 10 ^ nat (-1 - e) \<le> c * 10 ^ n"
proof -
  let ?m = "min (-1) (e + int n)"
  have "dec_le near_limit_ratio \<lparr>dec_neg = False, dec_coef = c, dec_exp = e + int n\<rparr>
      \<longleftrightarrow> 8 * 10 ^ nat (-1 - ?m) \<le> c * 10 ^ nat (e + int n - ?m)"
    by (simp add: dec_le_def dec_align_def near_limit_ratio_def dec_signed_def min.commute)
  also have "\<dots> \<longleftrightarrow> 8 * 10 ^ nat (-1 - ?m) * 10 ^ nat (?m - e) \<le> c * 10 ^ nat (e + int n - ?m) * (10 ^ nat (?m - e) :: int)"
    by (rule mult_le_cancel_right_pos [symmetric]) simp
  also have "8 * 10 ^ nat (-1 - ?m) * 10 ^ nat (?m - e) = 8 * (10 :: int) ^ nat (-1 - e)"
  proof -
    have "nat (-1 - ?m) + nat (?m - e) = nat (-1 - e)" using assms(2) by auto
    then show ?thesis by (metis mult.assoc power_add)
  qed
  also have "c * 10 ^ nat (e + int n - ?m) * (10 ^ nat (?m - e) :: int) = c * 10 ^ n"
  proof -
    have "nat (e + int n - ?m) + nat (?m - e) = n" using assms(2) by auto
    then show ?thesis by (metis mult.assoc power_add)
  qed
  finally show ?thesis .
qed

lemma multiples_cmp:
  fixes T V :: int
  assumes "m dvd T" and "m dvd V" and "0 < m" and "V < T"
  shows "V + m \<le> T"
proof -
  obtain t v where "T = m * t" "V = m * v" using assms(1,2) by (auto elim!: dvdE)
  moreover from this have "v + 1 \<le> t" using assms(3,4) by simp
  then have "m * (v + 1) \<le> m * t" using assms(3) by (intro mult_left_mono) auto
  ultimately show ?thesis by (simp add: distrib_left)
qed

lemma has_units_posD:
  assumes "has_units d u" and "0 < u"
  shows "\<not> dec_neg d" "0 < dec_coef d" "-4 \<le> dec_exp d" "dec_exp d \<le> 0"
    "dec_coef d * 10 ^ nat (dec_exp d + 4) = u"
    "u < 10 ^ 18 \<Longrightarrow> int (num_digits (dec_coef d)) + dec_exp d \<le> 14"
proof -
  have c: "0 \<le> dec_coef d" "-4 \<le> dec_exp d" "dec_exp d \<le> 0"
    "dec_signed d * 10 ^ nat (dec_exp d + 4) = u" using assms(1) by (simp_all add: has_units_def)
  show "-4 \<le> dec_exp d" "dec_exp d \<le> 0" using c by simp_all
  show neg: "\<not> dec_neg d"
  proof
    assume "dec_neg d"
    then have "u = - (dec_coef d * 10 ^ nat (dec_exp d + 4))" using c(4) by (simp add: dec_signed_def)
    moreover have "0 \<le> dec_coef d * 10 ^ nat (dec_exp d + 4)" using c(1) by simp
    ultimately show False using assms(2) by linarith
  qed
  show u: "dec_coef d * 10 ^ nat (dec_exp d + 4) = u" using c(4) neg by (simp add: dec_signed_def)
  show pos: "0 < dec_coef d" using u assms(2) c(1) by (cases "dec_coef d = 0") auto
  assume "u < 10 ^ 18"
  then have "num_digits u \<le> 18" by (intro num_digits_le) auto
  moreover have "num_digits u = num_digits (dec_coef d) + nat (dec_exp d + 4)"
    unfolding u [symmetric] by (rule num_digits_shift [OF pos])
  ultimately show "int (num_digits (dec_coef d)) + dec_exp d \<le> 14" using c(2) by linarith
qed

lemma near_multiple:
  fixes V T m t p :: int
  assumes "m dvd T" and "m dvd V" and "0 < m" and "T \<le> p" and "2 * \<bar>V - p\<bar> \<le> t" and "t \<le> m"
  shows "T \<le> V"
proof (rule ccontr)
  assume "\<not> T \<le> V"
  then have "V + m \<le> T" using multiples_cmp [OF assms(1-3)] by simp
  then show False using assms(3-6) by arith
qed

lemma near_below:
  fixes V T q t p :: int
  assumes "q + 100 \<le> T" and "p \<le> q + 1" and "2 * \<bar>V - p\<bar> \<le> t" and "t \<le> 10 ^ 2"
  shows "V < T"
proof -
  have "t \<le> 100" using assms(4) by simp
  with assms(1-3) show ?thesis by arith
qed

text \<open>The exact quotient \<open>n div b\<close> against a threshold, given both at a common scale.\<close>

lemma quotient_above:
  fixes T b n P M X Y :: int
  assumes "T * b * P = 8 * M * Y" and "n * P = 10 * M * X" and "0 < b" "0 < P" "0 < M" and "4 * Y \<le> 5 * X"
  shows "T \<le> n div b"
proof -
  have "2 * M * (4 * Y) \<le> 2 * M * (5 * X)" using assms(5,6) by (intro mult_left_mono) auto
  then have "T * b * P \<le> n * P" using assms(1,2) by (simp add: mult.assoc)
  then have "T * b \<le> n" using assms(4) by simp
  then have "T * b div b \<le> n div b" using assms(3) by (rule zdiv_mono1)
  then show ?thesis using assms(3) by simp
qed

lemma quotient_below:
  fixes T b n P M X Y :: int
  assumes "T * b * P = 8 * M * Y" and "n * P = 10 * M * X" and "0 < b" "0 < P" "0 < M" and "5 * X < 4 * Y"
    and gap: "100 * (b * P) \<le> M"
  shows "n div b + 100 \<le> T"
proof -
  have "n div b * b \<le> n" using div_mult_mod_eq [of n b] pos_mod_sign [OF assms(3), of n] by linarith
  then have "n div b * b * P \<le> n * P" using assms(4) by (intro mult_right_mono) auto
  moreover have "2 * M * (5 * X + 1) \<le> 2 * M * (4 * Y)" using assms(5,6) by (intro mult_left_mono) auto
  ultimately have "n div b * (b * P) + 100 * (b * P) \<le> T * (b * P)"
    using assms(1,2,5) gap by (simp add: distrib_left mult.assoc)
  then have "(n div b + 100) * (b * P) \<le> T * (b * P)" by (simp add: distrib_right)
  then show ?thesis using assms(3,4) by (simp add: mult_le_cancel_right)
qed

text \<open>
  The ratio of two amounts is at least four fifths as a rounded quotient exactly when it is so
  as a fraction: a smaller fraction misses four fifths by more than the rounding can add.
\<close>

lemma ratio_near_limit:
  assumes x: "has_units x X" and y: "has_units y Y" and Y: "0 < Y" "Y < 10 ^ 18" and X: "0 < X" "X \<le> Y"
  shows "dec_le near_limit_ratio (dec_div x y) \<longleftrightarrow> 4 * Y \<le> 5 * X"
proof -
  let ?a = "dec_coef x" and ?b = "dec_coef y"
  note x = has_units_posD [OF x X(1)] and y = has_units_posD [OF y Y(1)]
  have X18: "X < 10 ^ 18" using X(2) Y(2) by linarith
  define shift where "shift = int (num_digits ?b) - int (num_digits ?a) + 29"
  define q where "q = ?a * 10 ^ nat shift div ?b"
  define e where "e = dec_exp x - dec_exp y - shift"
  define T where "T = 8 * (10 :: int) ^ nat (-1 - e)"
  define M P where "M = (10 :: int) ^ nat shift" and "P = (10 :: int) ^ nat (dec_exp x + 5)"
  have "0 < num_digits ?b" by simp
  then have sh: "12 \<le> shift" and e8: "e \<le> -8"
    using x(3,4,6) y(3,4) X18 unfolding shift_def e_def by linarith+
  have TP: "T * ?b * P = 8 * M * Y"
  proof -
    have "nat (-1 - e) + nat (dec_exp x + 5) = nat shift + nat (dec_exp y + 4)"
      using e8 sh x(3) y(3) unfolding e_def by linarith
    then have "(10 :: int) ^ nat (-1 - e) * P = M * 10 ^ nat (dec_exp y + 4)"
      unfolding P_def M_def by (metis power_add)
    then show ?thesis unfolding T_def y(5) [symmetric] by (simp add: ac_simps)
  qed
  have NP: "?a * M * P = 10 * M * X"
  proof -
    have "nat (dec_exp x + 5) = Suc (nat (dec_exp x + 4))" using x(3) by linarith
    then show ?thesis unfolding P_def x(5) [symmetric] by (simp add: ac_simps)
  qed
  have gap: "100 * (?b * P) \<le> M"
  proof -
    have "?b * (10 ^ 2 * P) \<le> 10 ^ num_digits ?b * (10 ^ 2 * P)"
      using num_digits_upper [of ?b] by (intro mult_right_mono) (auto simp: P_def)
    also have "\<dots> = 10 ^ (num_digits ?b + (2 + nat (dec_exp x + 5)))" by (simp add: P_def power_add)
    also have "\<dots> \<le> M" unfolding M_def
      by (intro power_increasing) (use x(3,6) X18 sh in \<open>simp_all add: shift_def\<close>)
    finally show ?thesis by (simp add: mult.left_commute)
  qed
  have MP: "0 < P" "0 < M" by (simp_all add: M_def P_def)
  have above: "4 * Y \<le> 5 * X \<Longrightarrow> T \<le> q"
    unfolding q_def M_def [symmetric] by (rule quotient_above [OF TP NP y(2) MP])
  have below: "\<not> 4 * Y \<le> 5 * X \<Longrightarrow> q + 100 \<le> T"
    unfolding q_def M_def [symmetric] by (rule quotient_below [OF TP NP y(2) MP _ gap]) simp
  have "dec_div x y = \<lparr>dec_neg = (dec_neg x \<noteq> dec_neg y), dec_coef = c, dec_exp = e + int n\<rparr> \<Longrightarrow>
      0 \<le> c \<Longrightarrow> 10 ^ i dvd c * 10 ^ n \<Longrightarrow> i \<le> 3 \<Longrightarrow> q \<le> q' \<Longrightarrow> q' \<le> q + 1 \<Longrightarrow>
      2 * \<bar>c * 10 ^ n - q'\<bar> \<le> 10 ^ min i 2 \<Longrightarrow> ?thesis" for c n q' i
  proof -
    assume d: "dec_div x y = \<lparr>dec_neg = (dec_neg x \<noteq> dec_neg y), dec_coef = c, dec_exp = e + int n\<rparr>"
      "0 \<le> c" "10 ^ i dvd c * 10 ^ n" "i \<le> 3" "q \<le> q'" "q' \<le> q + 1"
      "2 * \<bar>c * 10 ^ n - q'\<bar> \<le> 10 ^ min i 2"
    let ?V = "c * 10 ^ n"
    have "dec_le near_limit_ratio (dec_div x y) \<longleftrightarrow> T \<le> ?V"
      using dec_le_near_limit [OF d(2), of e n] e8 x(1) y(1) d(1) by (simp add: T_def)
    moreover have "T \<le> ?V \<longleftrightarrow> 4 * Y \<le> 5 * X"
    proof (cases "4 * Y \<le> 5 * X")
      case True
      have "i \<le> nat (-1 - e)" using d(4) e8 by linarith
      then have "10 ^ i dvd T" unfolding T_def by (intro dvd_mult le_imp_power_dvd)
      moreover have "(10 :: int) ^ min i 2 \<le> 10 ^ i" by (intro power_increasing) simp_all
      ultimately have "T \<le> ?V"
        using near_multiple [of "10 ^ i" T ?V q' "10 ^ min i 2"] above [OF True] d(3,5,7) by simp
      with True show ?thesis by simp
    next
      case False
      have "(10 :: int) ^ min i 2 \<le> 10 ^ 2" by (intro power_increasing) simp_all
      then have "?V < T" by (rule near_below [OF below [OF False] d(6,7)])
      with False show ?thesis by simp
    qed
    ultimately show ?thesis by simp
  qed
  moreover have "0 \<le> shift" using sh by simp
  ultimately show ?thesis
    by (rule dec_div_near [OF x(2) y(2), folded shift_def, folded q_def e_def, rotated])
qed

section \<open>Sums\<close>

lemma has_units_foldl:
  assumes "list_all2 has_units ds us" and "has_units a x" and "\<bar>x\<bar> + sum_list (map abs us) < 10 ^ dec_prec"
  shows "has_units (foldl dec_add a ds) (x + sum_list us)"
  using assms
proof (induction arbitrary: a x rule: list_all2_induct)
  case (Cons d ds u us)
  have "0 \<le> sum_list (map abs us)" by (induction us) auto
  then have "has_units (dec_add a d) (x + u)"
    using Cons.prems Cons.hyps(1) by (intro has_units_add) auto
  then have "has_units (foldl dec_add (dec_add a d) ds) (x + u + sum_list us)"
    by (rule Cons.IH) (use Cons.prems(2) in auto)
  then show ?case by (simp add: add.assoc)
qed simp

lemma has_units_sum:
  assumes "\<And>t. t \<in> set ts \<Longrightarrow> has_units (f t) (g t)" and "(\<Sum>t\<leftarrow>ts. \<bar>g t\<bar>) < 10 ^ dec_prec"
  shows "has_units (dec_sum (map f ts)) (\<Sum>t\<leftarrow>ts. g t)"
proof -
  have "list_all2 has_units (map f ts) (map g ts)"
    using assms(1) by (simp add: list_all2_conv_all_nth)
  from has_units_foldl [OF this has_units_zero] assms(2) show ?thesis by (simp add: dec_sum_def comp_def)
qed

lemma sum_list_bounded:
  assumes "\<And>t. t \<in> set ts \<Longrightarrow> 0 \<le> g t \<and> g t < (b :: int)" and "int (length ts) \<le> k" and "0 \<le> b"
  shows "0 \<le> (\<Sum>t\<leftarrow>ts. g t)" "(\<Sum>t\<leftarrow>ts. g t) \<le> k * b" "(\<Sum>t\<leftarrow>ts. \<bar>g t\<bar>) = (\<Sum>t\<leftarrow>ts. g t)"
proof -
  have "0 \<le> (\<Sum>t\<leftarrow>ts. g t) \<and> (\<Sum>t\<leftarrow>ts. g t) \<le> int (length ts) * b"
    using assms(1) by (induction ts) (auto simp: distrib_right intro: add_mono less_imp_le)
  moreover have "int (length ts) * b \<le> k * b" using assms(2,3) by (intro mult_right_mono)
  ultimately show "0 \<le> (\<Sum>t\<leftarrow>ts. g t)" "(\<Sum>t\<leftarrow>ts. g t) \<le> k * b" by auto
  have "map (\<lambda>t. \<bar>g t\<bar>) ts = map g ts" using assms(1) by simp
  then show "(\<Sum>t\<leftarrow>ts. \<bar>g t\<bar>) = (\<Sum>t\<leftarrow>ts. g t)" by (rule arg_cong [of _ _ sum_list])
qed

end
