(* ===== verification/DashboardTheorems.thy ===== *)
theory DashboardTheorems
  imports RefreshExample Ratios ConfigCorrect
begin

text \<open>
  The dashboard's figures against integer sums of money units: although the code adds, subtracts
  and divides decimals rounded to 28 digits, every total is exact and the status is the one the
  exact amounts have.
\<close>

section \<open>The rows of a window\<close>

text \<open>The amounts an accepted upload can have.\<close>

definition amounts_ok :: "db \<Rightarrow> bool" where
  "amounts_ok db \<longleftrightarrow> (\<forall>t \<in> set (transactions db).
     0 \<le> tx_refund_amount t \<and> tx_refund_amount t \<le> tx_amount t \<and> tx_amount t < 10 ^ 18)"

lemma window_rows_subset: "set (window_rows db config_id category_id a b) \<subseteq> set (transactions db)"
  by (auto simp: window_rows_def)

lemma length_join:
  assumes "distinct (map f xs)"
  shows "length (concat (map (\<lambda>x. map (\<lambda>c. x) (filter (\<lambda>c. g c = f x \<and> P x c) cs)) xs)) \<le> length cs"
proof (induction cs)
  case (Cons c cs)
  let ?rows = "\<lambda>cs. concat (map (\<lambda>x. map (\<lambda>c. x) (filter (\<lambda>c. g c = f x \<and> P x c) cs)) xs)"
  have "length (?rows (c # cs)) = length (?rows cs) + length (filter (\<lambda>x. g c = f x \<and> P x c) xs)"
    by (induction xs) auto
  moreover have "length (filter (\<lambda>x. g c = f x \<and> P x c) xs) \<le> 1"
    using assms by (induction xs) (auto simp: filter_empty_conv)
  ultimately show ?case using Cons by simp
qed simp

lemma concat_guarded: "concat (map (\<lambda>c. if P c then if Q c then [x] else [] else []) cs)
    = map (\<lambda>c. x) (filter (\<lambda>c. P c \<and> Q c) cs)"
  by (induction cs) auto

lemma length_window_rows:
  assumes "integrity db"
  shows "length (window_rows db config_id category_id a b) \<le> length (transaction_categories db)"
proof -
  have "distinct (map tx_key (transactions db))" using assms by (simp add: integrity_defs)
  from length_join [OF this, of tc_tx_key "\<lambda>t c. tx_config_version_id t = config_id \<and>
      tc_category_id c = category_id \<and> a \<le> tx_transaction_date t \<and> tx_transaction_date t \<le> b"]
  show ?thesis by (simp add: window_rows_def concat_guarded)
qed

section \<open>One category\<close>

text \<open>The amount a transaction counts with, and the status of exact amounts.\<close>

definition net_units :: "transaction \<Rightarrow> int" where
  "net_units t = tx_amount t - tx_refund_amount t"

definition spending_status :: "int \<Rightarrow> int \<Rightarrow> string" where
  "spending_status limit spent =
     (if limit < spent then ''over''
      else if 0 < limit \<and> 4 * limit \<le> 5 * spent then ''near_limit'' else ''ok'')"

lemma has_units_net:
  assumes "amounts_ok db" and "t \<in> set (transactions db)"
  shows "has_units (net_amount dia t) (net_units t)" "0 \<le> net_units t" "net_units t < 10 ^ 18"
    "has_units (load_money dia (tx_refund_amount t)) (tx_refund_amount t)"
proof -
  have b: "0 \<le> tx_refund_amount t" "tx_refund_amount t \<le> tx_amount t" "tx_amount t < 10 ^ 18"
    using assms by (auto simp: amounts_ok_def)
  have p: "(10 :: int) ^ 18 \<le> 10 ^ dec_prec" by (simp add: dec_prec_def)
  then show "has_units (load_money dia (tx_refund_amount t)) (tx_refund_amount t)"
    using b by (intro has_units_load) linarith
  then show "has_units (net_amount dia t) (net_units t)" unfolding net_amount_def net_units_def
    using b p by (intro has_units_sub has_units_load) linarith+
  show "0 \<le> net_units t" "net_units t < 10 ^ 18" using b by (simp_all add: net_units_def)
qed

text \<open>A sum over rows of the window, and over any of them.\<close>

lemma has_units_rows:
  assumes ok: "amounts_ok db" and ts: "set ts \<subseteq> set (transactions db)" and n: "length ts \<le> 10 ^ 9"
  shows "has_units (dec_sum (map (net_amount dia) ts)) (\<Sum>t\<leftarrow>ts. net_units t)"
    "has_units (dec_sum (map (\<lambda>t. load_money dia (tx_refund_amount t)) ts)) (\<Sum>t\<leftarrow>ts. tx_refund_amount t)"
    "0 \<le> (\<Sum>t\<leftarrow>ts. net_units t)" "(\<Sum>t\<leftarrow>ts. net_units t) \<le> 10 ^ 27"
proof -
  have n: "int (length ts) \<le> 10 ^ 9" using n by simp
  have net: "0 \<le> net_units t \<and> net_units t < 10 ^ 18" if "t \<in> set ts" for t
    using has_units_net(2,3) [OF ok] ts that by blast
  have refund: "0 \<le> tx_refund_amount t \<and> tx_refund_amount t < 10 ^ 18" if "t \<in> set ts" for t
    using ok ts that by (fastforce simp: amounts_ok_def)
  have b: "(0 :: int) \<le> 10 ^ 18" by simp
  note N = sum_list_bounded [of ts net_units, OF _ n b] and R = sum_list_bounded [of ts tx_refund_amount, OF _ n b]
  have N: "0 \<le> (\<Sum>t\<leftarrow>ts. net_units t)" "(\<Sum>t\<leftarrow>ts. net_units t) \<le> 10 ^ 9 * 10 ^ 18"
    "(\<Sum>t\<leftarrow>ts. \<bar>net_units t\<bar>) = (\<Sum>t\<leftarrow>ts. net_units t)"
    and R: "(\<Sum>t\<leftarrow>ts. tx_refund_amount t) \<le> 10 ^ 9 * 10 ^ 18"
    "(\<Sum>t\<leftarrow>ts. \<bar>tx_refund_amount t\<bar>) = (\<Sum>t\<leftarrow>ts. tx_refund_amount t)"
    using N R net refund by blast+
  show "0 \<le> (\<Sum>t\<leftarrow>ts. net_units t)" "(\<Sum>t\<leftarrow>ts. net_units t) \<le> 10 ^ 27" using N by simp_all
  have p: "(10 :: int) ^ 9 * 10 ^ 18 < 10 ^ dec_prec" by (simp add: dec_prec_def)
  show "has_units (dec_sum (map (net_amount dia) ts)) (\<Sum>t\<leftarrow>ts. net_units t)"
    by (rule has_units_sum) (use has_units_net(1) [OF ok] ts N(2) p in \<open>auto simp: N(3)\<close>)
  show "has_units (dec_sum (map (\<lambda>t. load_money dia (tx_refund_amount t)) ts)) (\<Sum>t\<leftarrow>ts. tx_refund_amount t)"
    by (rule has_units_sum) (use has_units_net(4) [OF ok] ts R(1) p in \<open>auto simp: R(2)\<close>)
qed

lemma status_exact:
  assumes s: "has_units s S" "0 \<le> S" and b: "has_units b B" "0 \<le> B" "B < 10 ^ 18"
    and o: "has_units ov (max (S - B) 0)"
  shows "status_of ov (progress_of s b) = spending_status B S"
proof -
  have over: "dec_lt dec_zero ov \<longleftrightarrow> B < S" using has_units_lt [OF has_units_zero o] by auto
  have zero: "dec_lt dec_zero b \<longleftrightarrow> 0 < B" "dec_lt dec_zero s \<longleftrightarrow> 0 < S"
    using has_units_lt [OF has_units_zero b(1)] has_units_lt [OF has_units_zero s(1)] by simp_all
  have none: "\<not> dec_le near_limit_ratio d" if "dec_coef d = 0" for d
    using that by (simp add: dec_le_def dec_align_def near_limit_ratio_def dec_signed_def not_le)
  have "dec_le near_limit_ratio (progress_of s b) \<longleftrightarrow> 0 < B \<and> 4 * B \<le> 5 * S" if le: "S \<le> B"
  proof (cases "0 < S")
    case True
    then have "0 < B" using le by simp
    with zero True show ?thesis
      using ratio_near_limit [OF s(1) b(1) _ b(3) _ le] by (simp add: progress_of_def)
  next
    case False
    then have "S = 0" using s(2) by simp
    then have "dec_coef s = 0" using s(1) by (auto simp: has_units_def dec_signed_def split: if_splits)
    then have "dec_coef (progress_of s b) = 0"
      using zero False by (auto simp: progress_of_def dec_div_def dec_zero_def Let_def)
    with none have "\<not> dec_le near_limit_ratio (progress_of s b)" by blast
    then show ?thesis using \<open>S = 0\<close> by simp
  qed
  then show ?thesis by (auto simp: status_of_def spending_status_def over)
qed

section \<open>What the dashboard should show\<close>

definition spent_units :: "db \<Rightarrow> uuid \<Rightarrow> category \<Rightarrow> dashboard_category \<Rightarrow> int" where
  "spent_units db config_id category c =
     (\<Sum>t\<leftarrow>window_rows db config_id (cat_id category) (dc_window_start c) (dc_window_end c). net_units t)"

definition exact_totals :: "db \<Rightarrow> uuid \<Rightarrow> category \<Rightarrow> int \<Rightarrow> dashboard_category \<Rightarrow> bool" where
  "exact_totals db config_id category limit c \<longleftrightarrow>
     (let rows = window_rows db config_id (cat_id category) (dc_window_start c) (dc_window_end c);
          spent = spent_units db config_id category c
      in has_units (dc_spent c) spent \<and>
         has_units (dc_budget c) limit \<and>
         has_units (dc_remaining c) (max (limit - spent) 0) \<and>
         has_units (dc_over c) (max (spent - limit) 0) \<and>
         has_units (dc_pending_amount c) (\<Sum>t\<leftarrow>filter tx_pending rows. net_units t) \<and>
         has_units (dc_refund_amount c) (\<Sum>t\<leftarrow>filter tx_refunded rows. tx_refund_amount t))"

text \<open>Categories as they are after loading them from the database.\<close>

definition loaded :: "dialect \<Rightarrow> db \<Rightarrow> bool" where
  "loaded dia db \<longleftrightarrow> reload_categories dia db = db"

lemma loaded_limit:
  assumes "loaded dia db" and "config_inv H db" and "c \<in> set (categories db)"
  obtains B where "money_units (cat_budget_limit c) = Some B" "has_units (cat_budget_limit c) B"
    "0 \<le> B" "B < 10 ^ 18"
proof -
  have "categories (reload_categories dia db) = categories db" using assms(1) by (simp add: loaded_def)
  then have "map (reload_row dia) (categories db) = map id (categories db)"
    by (simp add: reload_categories_def reload_row_def [abs_def])
  then have "reload_row dia c = c" using assms(3) by (metis id_apply map_eq_conv)
  then have "cat_budget_limit (reload_row dia c) = cat_budget_limit c" by simp
  then have r: "reload_limit dia (cat_budget_limit c) = cat_budget_limit c" by (simp add: reload_row_def)
  have "money_field (cat_budget_limit c)"
    using assms(2,3) by (auto simp: config_inv_def rules_inv_def category_row_ok_def)
  then show thesis by (rule reload_limit_units [of _ dia]) (rule that, simp_all add: r)
qed

lemma category_totals_exact:
  assumes t: "category_totals dia db config_id window_end rule category = Inr c"
    and I: "integrity db" and ok: "amounts_ok db" and n: "length (transaction_categories db) \<le> 10 ^ 9"
    and b: "has_units (cat_budget_limit category) B" "0 \<le> B" "B < 10 ^ 18"
  shows "exact_totals db config_id category B c \<and>
    dc_status c = spending_status B (spent_units db config_id category c) \<and>
    dc_window_end c = window_end \<and> dc_window_start c = window_end - (rv_lookback_days rule - 1)"
proof -
  obtain ws where ws: "date_minus_days window_end (rv_lookback_days rule - 1) = Some ws"
    using t by (auto simp: category_totals_def result_simps)
  define rows where "rows = window_rows db config_id (cat_id category) ws window_end"
  define S where "S = (\<Sum>t\<leftarrow>rows. net_units t)"
  let ?spent = "dec_sum (map (net_amount dia) rows)"
  have sub: "set rows \<subseteq> set (transactions db)" unfolding rows_def by (rule window_rows_subset)
  have len: "length rows \<le> 10 ^ 9"
    using length_window_rows [OF I] n unfolding rows_def by (metis order_trans)
  have part: "set (filter P rows) \<subseteq> set (transactions db)" "length (filter P rows) \<le> 10 ^ 9" for P
    using sub order_trans [OF length_filter_le len] by auto
  have spent: "has_units ?spent S" and S: "0 \<le> S" "S \<le> 10 ^ 27"
    unfolding S_def by (rule has_units_rows [OF ok sub len])+
  have p: "(10 :: int) ^ 27 + 10 ^ 18 < 10 ^ dec_prec" by (simp add: dec_prec_def)
  have rem: "has_units (max_zero (dec_sub (cat_budget_limit category) ?spent)) (max (B - S) 0)"
    by (intro has_units_max_zero has_units_sub b spent) (use b S p in linarith)
  have over: "has_units (max_zero (dec_sub ?spent (cat_budget_limit category))) (max (S - B) 0)"
    by (intro has_units_max_zero has_units_sub b spent) (use b S p in linarith)
  have c: "dc_window_start c = ws" "dc_window_end c = window_end" "dc_spent c = ?spent"
    "dc_budget c = cat_budget_limit category"
    "dc_remaining c = max_zero (dec_sub (cat_budget_limit category) ?spent)"
    "dc_over c = max_zero (dec_sub ?spent (cat_budget_limit category))"
    "dc_pending_amount c = dec_sum (map (net_amount dia) (filter tx_pending rows))"
    "dc_refund_amount c = dec_sum (map (\<lambda>t. load_money dia (tx_refund_amount t)) (filter tx_refunded rows))"
    "dc_status c = status_of (dc_over c) (progress_of ?spent (cat_budget_limit category))"
    using t by (simp_all add: category_totals_def ws Let_def flip: rows_def) (auto simp: rows_def)
  have S': "spent_units db config_id category c = S"
    by (simp add: spent_units_def c S_def rows_def)
  have "exact_totals db config_id category B c"
    unfolding exact_totals_def S' Let_def c rows_def [symmetric]
    using spent b(1) rem over has_units_rows(1) [OF ok part] has_units_rows(2) [OF ok part] by blast
  moreover have "dc_status c = spending_status B (spent_units db config_id category c)"
    unfolding S' c(9) by (rule status_exact [OF spent S(1) b]) (simp add: c over)
  ultimately show ?thesis using c(1,2) date_minus_days_Some [OF ws] by simp
qed

section \<open>The response\<close>

lemma get_dashboard_InrD:
  assumes "get_dashboard en as_of stale_after_hours db = Inr view"
  obtains a where "active_version db = Some a" "dr_config_version view = cv_version a"
    "list_all2 (\<lambda>(rule, category) c. category_totals (env_dialect en) db (cv_id a) (dr_as_of view) rule category = Inr c)
       (enabled_rules db (cv_id a)) (dr_categories view)"
    "dr_as_of view = (case as_of of None \<Rightarrow> env_local_date en (cv_timezone a) (env_now en) | Some d \<Rightarrow> d)"
  using assms by (auto simp: get_dashboard_def result_simps Let_def map_each_eq_Inr case_prod_beta')

lemma enabled_rules_category:
  "(rule, category) \<in> set (enabled_rules db config_id) \<Longrightarrow> category \<in> set (categories db)"
  by (auto simp: enabled_rules_def rules_for_config_def)

lemma dashboard_each:
  assumes g: "get_dashboard en as_of stale_after_hours db = Inr view" and a: "active_version db = Some a"
    and I: "config_inv H db" and l: "loaded (env_dialect en) db"
    and ok: "amounts_ok db" and n: "length (transaction_categories db) \<le> 10 ^ 9"
  shows "list_all2 (\<lambda>(rule, category) c. \<exists>B. money_units (cat_budget_limit category) = Some B \<and>
      exact_totals db (cv_id a) category B c \<and>
      dc_status c = spending_status B (spent_units db (cv_id a) category c) \<and>
      dc_window_end c = dr_as_of view \<and> dc_window_start c = dr_as_of view - (rv_lookback_days rule - 1))
    (enabled_rules db (cv_id a)) (dr_categories view)"
proof -
  have "list_all2 (\<lambda>(rule, category) c. category_totals (env_dialect en) db (cv_id a) (dr_as_of view) rule category = Inr c)
       (enabled_rules db (cv_id a)) (dr_categories view)"
    using a by (rule_tac get_dashboard_InrD [OF g]) simp
  then show ?thesis
  proof (rule list.rel_mono_strong, clarify)
    fix rule :: rule_version and category :: category and c :: dashboard_category
    assume m: "(rule, category) \<in> set (enabled_rules db (cv_id a))"
      and t: "category_totals (env_dialect en) db (cv_id a) (dr_as_of view) rule category = Inr c"
    obtain B where B: "money_units (cat_budget_limit category) = Some B" "has_units (cat_budget_limit category) B"
      "0 \<le> B" "B < 10 ^ 18"
      using loaded_limit [OF l I enabled_rules_category [OF m]] .
    have "integrity db" using I by (simp add: config_inv_def)
    from category_totals_exact [OF t this ok n B(2-4)] B(1)
    show "\<exists>B. money_units (cat_budget_limit category) = Some B \<and> exact_totals db (cv_id a) category B c \<and>
      dc_status c = spending_status B (spent_units db (cv_id a) category c) \<and>
      dc_window_end c = dr_as_of view \<and> dc_window_start c = dr_as_of view - (rv_lookback_days rule - 1)"
      by blast
  qed
qed

section \<open>Exact totals\<close>

text \<open>
  C11: The dashboard's figures are exact. If the amounts are those an upload can have and there
  are at most a thousand million links, then spent, budget, remaining, over, pending and refund
  of every enabled category stand for exactly the integer sums, in units of the fourth decimal
  place, over the rows of its window: the decimal context never rounds, and neither \<open>remaining\<close>
  nor \<open>over\<close> is negative.
\<close>

theorem dashboard_totals_exact:
  assumes "get_dashboard en as_of stale_after_hours db = Inr view" and "active_version db = Some a"
    and "config_inv H db" and "loaded (env_dialect en) db"
    and "amounts_ok db" and "length (transaction_categories db) \<le> 10 ^ 9"
  shows "list_all2 (\<lambda>(rule, category) c. \<exists>B. money_units (cat_budget_limit category) = Some B \<and>
      exact_totals db (cv_id a) category B c \<and>
      dc_window_end c = dr_as_of view \<and> dc_window_start c = dr_as_of view - (rv_lookback_days rule - 1))
    (enabled_rules db (cv_id a)) (dr_categories view)"
  by (rule list.rel_mono_strong [OF dashboard_each [OF assms]]) auto

text \<open>
  C12: The status is the one the exact amounts have: over when more than the limit was spent,
  near the limit from four fifths of a positive limit on, else ok. The quotient the code
  compares with 0.8 is rounded to 28 digits, which never moves it across.
\<close>

theorem dashboard_status_exact:
  assumes "get_dashboard en as_of stale_after_hours db = Inr view" and "active_version db = Some a"
    and "config_inv H db" and "loaded (env_dialect en) db"
    and "amounts_ok db" and "length (transaction_categories db) \<le> 10 ^ 9"
  shows "list_all2 (\<lambda>(rule, category) c. \<exists>B. money_units (cat_budget_limit category) = Some B \<and>
      dc_status c = spending_status B (\<Sum>t\<leftarrow>window_rows db (cv_id a) (cat_id category)
        (dr_as_of view - (rv_lookback_days rule - 1)) (dr_as_of view). net_units t))
    (enabled_rules db (cv_id a)) (dr_categories view)"
  by (rule list.rel_mono_strong [OF dashboard_each [OF assms]]) (auto simp: spent_units_def)

section \<open>The example's dashboard\<close>

lemma live_rules: "enabled_rules live_db 3001 = [(food_rule, food_row)]"
  by code_simp

lemma live_state: "active_version live_db = Some first_config" "cv_id first_config = 3001"
    "loaded PostgreSQL live_db" "amounts_ok live_db" "length (transaction_categories live_db) \<le> 10 ^ 9"
    "config_inv toy_digest live_db" "money_units (cat_budget_limit food_row) = Some 5000000"
    "window_rows live_db 3001 1001 739817 739846 = [live_coffee]"
proof -
  show "active_version live_db = Some first_config" "cv_id first_config = 3001" "loaded PostgreSQL live_db"
    "money_units (cat_budget_limit food_row) = Some 5000000"
    "window_rows live_db 3001 1001 739817 739846 = [live_coffee]"
    unfolding loaded_def by code_simp+
  show "amounts_ok live_db" by (simp add: amounts_ok_def live_db_def live_coffee_def)
  show "length (transaction_categories live_db) \<le> 10 ^ 9" by (simp add: live_db_def)
  show "config_inv toy_digest live_db" using history_inv(4) by (simp add: sys_inv_def)
qed

lemma live_dashboard:
  obtains view c where "get_dashboard toy_env (Some 739846) 24 live_db = Inr view" "dr_categories view = [c]"
    "dr_as_of view = 739846"
proof -
  have "first_config \<in> set (config_versions live_db)" by (simp add: live_db_def db1_def)
  from edit_hash_total [OF live_state(6) this, of toy_env] obtain h where
    h: "edit_hash_for_config toy_env live_db first_config = Inr h" by blast
  have "date_minus_days 739846 (rv_lookback_days food_rule - 1) = Some 739817" by code_simp
  then obtain c where "category_totals PostgreSQL live_db 3001 739846 food_rule food_row = Inr c"
    by (auto simp: category_totals_def Let_def)
  then show thesis using h
    by (intro that [of "projr (get_dashboard toy_env (Some 739846) 24 live_db)" c])
      (simp_all add: get_dashboard_def live_state live_rules Let_def)
qed

lemma dashboard_totals_exact_witness:
  "\<exists>view c. get_dashboard toy_env (Some 739846) 24 live_db = Inr view \<and> dr_categories view = [c] \<and>
    has_units (dc_spent c) 42500 \<and> has_units (dc_remaining c) 4957500 \<and> has_units (dc_over c) 0"
proof -
  obtain view c where v: "get_dashboard toy_env (Some 739846) 24 live_db = Inr view" "dr_categories view = [c]"
    "dr_as_of view = 739846" by (rule live_dashboard)
  have "loaded (env_dialect toy_env) live_db" using live_state(3) by simp
  from dashboard_totals_exact [OF v(1) live_state(1,6) this live_state(4,5)]
  have "exact_totals live_db 3001 food_row 5000000 c" "dc_window_end c = 739846" "dc_window_start c = 739817"
    by (simp_all add: live_state(2,7) live_rules v food_rule_def)
  then have "has_units (dc_spent c) 42500 \<and> has_units (dc_remaining c) 4957500 \<and> has_units (dc_over c) 0"
    by (simp add: exact_totals_def spent_units_def food_row_def live_state(8) net_units_def live_coffee_def Let_def)
  with v show ?thesis by blast
qed

lemma dashboard_status_exact_witness:
  "\<exists>view c. get_dashboard toy_env (Some 739846) 24 live_db = Inr view \<and> dr_categories view = [c] \<and>
    dc_status c = ''ok''"
proof -
  obtain view c where v: "get_dashboard toy_env (Some 739846) 24 live_db = Inr view" "dr_categories view = [c]"
    "dr_as_of view = 739846" by (rule live_dashboard)
  have "loaded (env_dialect toy_env) live_db" using live_state(3) by simp
  from dashboard_status_exact [OF v(1) live_state(1,6) this live_state(4,5)]
  have "dc_status c = spending_status 5000000 42500"
    using live_state(8) by (simp add: live_state(2,7) live_rules v food_rule_def food_row_def live_coffee_def net_units_def)
  then have "dc_status c = ''ok''" by (simp add: spending_status_def)
  with v show ?thesis by blast
qed

end
