(* ===== verification/MoneyRepair.thy ===== *)
theory MoneyRepair
  imports Json Models
begin

text \<open>
  \<open>migrations/versions/0004_sqlite_money_scale_repair.py\<close>: the data migration that undoes a
  multiplication of SQLite category budgets by the money factor. A JSON column comes back from
  the driver as bytes, as text or as the decoded document; \<open>Value (JStr s)\<close> is text. The
  document's numbers are integers (\<open>Json\<close>); budgets are written as text.
\<close>

section \<open>Documents\<close>

datatype driver_value = BytesValue "nat list" | Value json

definition decoded :: "driver_value \<Rightarrow> json res" where
  "decoded value = (case value of
     BytesValue bs \<Rightarrow> bindR (require ValueError (utf8_decode bs)) (\<lambda>s. Inr (JStr s))
   | Value j \<Rightarrow> Inr j)"

definition parsed :: "json \<Rightarrow> json res" where
  "parsed value = (case value of JStr s \<Rightarrow> require ValueError (loads s) | _ \<Rightarrow> Inr value)"

definition json_document :: "driver_value \<Rightarrow> (string \<times> json) list option res" where
  "json_document value =
     bindR (decoded value) (\<lambda>value.
     bindR (parsed value) (\<lambda>value.
     Inr (case value of JObj kvs \<Rightarrow> Some kvs | _ \<Rightarrow> None)))"

section \<open>\<open>Decimal(text)\<close>\<close>

datatype decimal_text = Finite decimal | Infinite | QuietNaN | SignallingNaN

definition digits_int :: "string \<Rightarrow> int" where
  "digits_int ds = foldl (\<lambda>n c. 10 * n + (of_char c - 48)) 0 ds"

definition lower :: "string \<Rightarrow> string" where
  "lower s = map (\<lambda>c. if char_in (CHR ''A'') (CHR ''Z'') c then char_of (of_char c + 32 :: int) else c) s"

definition special_decimal :: "string \<Rightarrow> decimal_text option" where
  "special_decimal s =
     (let t = lower s in
      if t \<in> {''inf'', ''infinity''} then Some Infinite
      else if take 3 t = ''nan'' \<and> list_all ascii_digit (drop 3 t) then Some QuietNaN
      else if take 4 t = ''snan'' \<and> list_all ascii_digit (drop 4 t) then Some SignallingNaN
      else None)"

definition exponent_of :: "string \<Rightarrow> int option" where
  "exponent_of s =
     (if s = [] then Some 0
      else if hd s \<notin> {CHR ''e'', CHR ''E''} then None
      else let t = tl s;
               ds = (if take 1 t \<in> {''+'', ''-''} then drop 1 t else t)
           in if ds = [] \<or> \<not> list_all ascii_digit ds then None
              else Some (if take 1 t = ''-'' then - digits_int ds else digits_int ds))"

definition unsigned_decimal :: "bool \<Rightarrow> string \<Rightarrow> decimal_text option" where
  "unsigned_decimal neg s =
     (let whole = takeWhile ascii_digit s; r = dropWhile ascii_digit s;
          frac = (if take 1 r = ''.'' then takeWhile ascii_digit (drop 1 r) else []);
          rest = (if take 1 r = ''.'' then dropWhile ascii_digit (drop 1 r) else r)
      in if whole = [] \<and> frac = [] then special_decimal s
         else map_option (\<lambda>e. Finite \<lparr>dec_neg = neg, dec_coef = digits_int (whole @ frac),
                 dec_exp = e - int (length frac)\<rparr>) (exponent_of rest))"

text \<open>\<open>None\<close> is the InvalidOperation of a text that is not a number.\<close>

definition decimal_of_text :: "string \<Rightarrow> decimal_text option" where
  "decimal_of_text text =
     (let s = filter (\<lambda>c. c \<noteq> CHR ''_'') (py_strip text)
      in if take 1 s = ''-'' then unsigned_decimal True (drop 1 s)
         else if take 1 s = ''+'' then unsigned_decimal False (drop 1 s)
         else unsigned_decimal False s)"

section \<open>\<open>_fixed_point\<close>\<close>

text \<open>\<open>str(value)\<close> of a parsed JSON value; the text of a container is never a number.\<close>

definition scalar_text :: "json \<Rightarrow> string option" where
  "scalar_text j = (case j of
     JNull \<Rightarrow> Some ''None''
   | JBool b \<Rightarrow> Some (if b then ''True'' else ''False'')
   | JInt i \<Rightarrow> Some (int_str i)
   | JStr s \<Rightarrow> Some s
   | JArr js \<Rightarrow> None
   | JObj kvs \<Rightarrow> None)"

text \<open>\<open>d == d.to_integral_value()\<close> and \<open>int(d)\<close>.\<close>

definition dec_integral :: "decimal \<Rightarrow> bool" where
  "dec_integral d \<longleftrightarrow> 0 \<le> dec_exp d \<or> dec_coef d mod 10 ^ nat (- dec_exp d) = 0"

definition dec_int :: "decimal \<Rightarrow> int" where
  "dec_int d =
     (let n = (if 0 \<le> dec_exp d then dec_coef d * 10 ^ nat (dec_exp d)
               else dec_coef d div 10 ^ nat (- dec_exp d))
      in if dec_neg d then - n else n)"

text \<open>\<open>amount * 10_000\<close>.\<close>

definition times_factor :: "decimal \<Rightarrow> decimal" where
  "times_factor d = dec_fix (d\<lparr>dec_coef := dec_coef d * MONEY_FACTOR\<rparr>)"

text \<open>
  An infinite or signalling value fails in \<open>quantize\<close>, inside the \<open>try\<close>; a quiet NaN passes it
  and the comparison with zero raises.
\<close>

definition fixed_point :: "json \<Rightarrow> int option res" where
  "fixed_point value =
     (case Option.bind (scalar_text value) decimal_of_text of
        None \<Rightarrow> Inr None
      | Some Infinite \<Rightarrow> Inr None
      | Some SignallingNaN \<Rightarrow> Inr None
      | Some QuietNaN \<Rightarrow> Inl InvalidOperation
      | Some (Finite d) \<Rightarrow>
          (case quantize MONEY_QUANTUM_EXP d of
             None \<Rightarrow> Inr None
           | Some amount \<Rightarrow>
               let scaled = times_factor amount in
               Inr (if dec_lt amount dec_zero \<or> \<not> dec_integral scaled then None
                    else Some (dec_int scaled))))"

section \<open>The repair\<close>

text \<open>A cell of a NUMERIC column: \<open>int(cell)\<close> raises for NULL and for text that is no integer.\<close>

datatype number_cell = IntegerCell int | TextCell string | NullCell

definition cell_int :: "number_cell \<Rightarrow> int option" where
  "cell_int c = (case c of IntegerCell i \<Rightarrow> Some i | TextCell s \<Rightarrow> py_int s | NullCell \<Rightarrow> None)"

record raw_config =
  rw_status :: config_status
  rw_version :: int
  rw_source_config :: driver_value

record raw_category =
  rw_key :: string
  rw_budget_limit :: number_cell

record raw_db =
  raw_configs :: "raw_config list"
  raw_categories :: "raw_category list"
  raw_transactions :: "transaction list"
  raw_transaction_categories :: "transaction_category list"
  raw_sync_states :: "sync_state list"

definition active_source :: "raw_db \<Rightarrow> driver_value" where
  "active_source db =
     (case sort_key (\<lambda>c. - rw_version c) (filter (\<lambda>c. rw_status c = ACTIVE) (raw_configs db)) of
        [] \<Rightarrow> Value JNull
      | c # cs \<Rightarrow> rw_source_config c)"

definition add_budget :: "(string \<times> int) list \<Rightarrow> json \<Rightarrow> (string \<times> int) list res" where
  "add_budget budgets category =
     (case category of
        JObj kvs \<Rightarrow>
          bindR (fixed_point (case map_of kvs ''budget_limit'' of None \<Rightarrow> JNull | Some v \<Rightarrow> v))
            (\<lambda>budget_limit.
          Inr (case (map_of kvs ''key'', budget_limit) of
                 (Some (JStr key), Some b) \<Rightarrow> if key \<noteq> [] then dict_set key b budgets else budgets
               | _ \<Rightarrow> budgets))
      | _ \<Rightarrow> Inr budgets)"

definition active_budget_limits :: "raw_db \<Rightarrow> (string \<times> int) list res" where
  "active_budget_limits db =
     bindR (json_document (active_source db)) (\<lambda>document.
     case document of
       None \<Rightarrow> Inr []
     | Some kvs \<Rightarrow>
         (case map_of kvs ''categories'' of
            Some (JArr cs) \<Rightarrow> for_each add_budget [] cs
          | _ \<Rightarrow> Inr []))"

definition set_budget :: "string \<Rightarrow> int \<Rightarrow> raw_category list \<Rightarrow> raw_category list" where
  "set_budget key budget rows =
     map (\<lambda>c. if rw_key c = key then c\<lparr>rw_budget_limit := IntegerCell budget\<rparr> else c) rows"

definition repair_row ::
    "(string \<times> int) list \<Rightarrow> raw_category list \<times> bool \<Rightarrow> raw_category \<Rightarrow> raw_category list \<times> bool" where
  "repair_row expected_budgets = (\<lambda>(rows, repaired) row.
     case map_of expected_budgets (rw_key row) of
       None \<Rightarrow> (rows, repaired)
     | Some expected \<Rightarrow>
         if expected = 0 then (rows, repaired)
         else (case cell_int (rw_budget_limit row) of
                 None \<Rightarrow> (rows, repaired)
               | Some current \<Rightarrow>
                   if current \<noteq> expected * MONEY_FACTOR then (rows, repaired)
                   else (set_budget (rw_key row) expected rows, True)))"

definition repair_sqlite_budgets :: "raw_db \<Rightarrow> raw_db res" where
  "repair_sqlite_budgets db =
     bindR (active_budget_limits db) (\<lambda>expected_budgets.
     if expected_budgets = [] then Inr db
     else
       (case foldl (repair_row expected_budgets) (raw_categories db, False) (raw_categories db) of
          (rows, repaired) \<Rightarrow>
            let db = db\<lparr>raw_categories := rows\<rparr> in
            Inr (if repaired
                 then db\<lparr>raw_transaction_categories := [], raw_transactions := [], raw_sync_states := []\<rparr>
                 else db)))"

definition upgrade_0004 :: "dialect \<Rightarrow> raw_db \<Rightarrow> raw_db res" where
  "upgrade_0004 dia db = (case dia of SQLite \<Rightarrow> repair_sqlite_budgets db | PostgreSQL \<Rightarrow> Inr db)"

definition downgrade_0004 :: "dialect \<Rightarrow> raw_db \<Rightarrow> raw_db" where
  "downgrade_0004 dia db = db"

end
