(* ===== verification/DecimalText.thy ===== *)
theory DecimalText
  imports MoneyRepair JsonFacts
begin

text \<open>
  \<open>Decimal(str(d))\<close> is \<open>d\<close>: the text of a decimal, plain or scientific, is read back as the same
  sign, coefficient and exponent.
\<close>

lemma digits_int_append: "digits_int (xs @ [c]) = 10 * digits_int xs + (of_char c - 48)"
  by (simp add: digits_int_def)

lemma digits_int_zeros: "digits_int (replicate k (CHR ''0'') @ ds) = digits_int ds"
proof (induction ds rule: rev_induct)
  case Nil
  show ?case by (induction k) (simp_all add: digits_int_def replicate_app_Cons_same [symmetric])
next
  case (snoc c ds)
  then show ?case using digits_int_append [of "replicate k (CHR ''0'') @ ds" c]
    by (simp add: digits_int_append)
qed

lemma digits_int_int_digits: "0 \<le> n \<Longrightarrow> digits_int (int_digits n) = n"
  using int_digits_facts [of n] digits_value_append [of "int_digits n" False 0 "[]"]
  by (simp add: digits_int_def foldl_conv_fold)

lemma int_digits_ascii: "0 \<le> n \<Longrightarrow> c \<in> set (int_digits n) \<Longrightarrow> ascii_digit c"
  using int_digits_facts by blast

lemma int_digits_nonempty [simp]: "int_digits n \<noteq> []"
  by (subst int_digits.simps) simp

lemma ascii_digit_facts:
  assumes "ascii_digit c"
  shows "c \<noteq> CHR ''_''" "c \<noteq> CHR ''.''" "c \<noteq> CHR ''-''" "c \<noteq> CHR ''+''" "\<not> py_space c"
    "c \<noteq> CHR ''E''"
proof -
  have "48 \<le> (of_char c :: int)" "(of_char c :: int) \<le> 57"
    using assms by (auto simp: ascii_digit_def char_in_def)
  then show "\<not> py_space c" by (auto simp: py_space_def is_space_def Let_def)
  show "c \<noteq> CHR ''_''" "c \<noteq> CHR ''.''" "c \<noteq> CHR ''-''" "c \<noteq> CHR ''+''" "c \<noteq> CHR ''E''"
    using assms by (auto simp: ascii_digit_def char_in_def)
qed

section \<open>Parsing the pieces\<close>

lemma takeWhile_digits: "list_all ascii_digit ds \<Longrightarrow> r = [] \<or> \<not> ascii_digit (hd r) \<Longrightarrow>
    takeWhile ascii_digit (ds @ r) = ds \<and> dropWhile ascii_digit (ds @ r) = r"
  by (induction ds) (auto simp: neq_Nil_conv takeWhile_eq_Nil_iff dropWhile_eq_self_iff)

lemma unsigned_decimal_eq:
  assumes "list_all ascii_digit ws" and "list_all ascii_digit fs" and "ws \<noteq> []"
    and "exponent_of x = Some e" and "x = [] \<or> hd x = CHR ''E''"
  shows "unsigned_decimal neg (ws @ (if fs = [] then [] else ''.'' @ fs) @ x)
    = Some (Finite \<lparr>dec_neg = neg, dec_coef = digits_int (ws @ fs), dec_exp = e - int (length fs)\<rparr>)"
proof -
  have x: "x = [] \<or> \<not> ascii_digit (hd x)" "take 1 x \<noteq> ''.''"
    using assms(5) ascii_digit_facts(6) by (cases x; auto)+
  show ?thesis
  proof (cases "fs = []")
    case True
    then show ?thesis
      using takeWhile_digits [OF assms(1) x(1)] x(2) assms(3,4) by (simp add: unsigned_decimal_def Let_def)
  next
    case False
    have "\<not> ascii_digit (CHR ''.'')" by code_simp
    then show ?thesis
      using takeWhile_digits [OF assms(1), of "''.'' @ fs @ x"] takeWhile_digits [OF assms(2) x(1)] False assms(3,4)
      by (simp add: unsigned_decimal_def Let_def)
  qed
qed

lemma exponent_of_text: "exponent_of (CHR ''E'' # (if i < 0 then int_str i else ''+'' @ int_str i)) = Some i"
proof -
  have d: "list_all ascii_digit (int_digits n)" if "0 \<le> n" for n
    using int_digits_ascii [OF that] by (simp add: list_all_iff)
  show ?thesis
    using d [of i] d [of "- i"] digits_int_int_digits [of i] digits_int_int_digits [of "- i"]
    by (auto simp: exponent_of_def int_str_def Let_def)
qed

section \<open>The text of a decimal\<close>

text \<open>Digits, an optional point and digits, an optional exponent.\<close>

lemma dec_str_pieces:
  assumes "0 \<le> dec_coef d"
  obtains ws fs x e where
    "dec_str d = (if dec_neg d then ''-'' else []) @ ws @ (if fs = [] then [] else ''.'' @ fs) @ x"
    "list_all ascii_digit ws" "list_all ascii_digit fs" "ws \<noteq> []"
    "exponent_of x = Some e" "x = [] \<or> hd x = CHR ''E''"
    "digits_int (ws @ fs) = dec_coef d" "e - int (length fs) = dec_exp d"
    "x = [] \<or> ascii_digit (last x)"
proof -
  define ds where "ds = int_digits (dec_coef d)"
  define n where "n = int (length ds)"
  define left where "left = dec_exp d + n"
  have ds: "list_all ascii_digit ds" "ds \<noteq> []" "digits_int ds = dec_coef d" "0 < n"
    using int_digits_ascii [OF assms] digits_int_int_digits [OF assms]
    by (auto simp: ds_def n_def list_all_iff)
  have z: "list_all ascii_digit (replicate k (CHR ''0''))" for k
    by (simp add: list_all_iff) code_simp
  show thesis
  proof (cases "dec_exp d \<le> 0 \<and> -6 < left")
    case plain: True
    then have str: "dec_str d = (if dec_neg d then ''-'' else []) @
        (if left \<le> 0 then ''0.'' @ replicate (nat (- left)) (CHR ''0'') @ ds
         else if n \<le> left then ds @ replicate (nat (left - n)) (CHR ''0'')
         else take (nat left) ds @ ''.'' @ drop (nat left) ds)"
      by (simp add: dec_str_def Let_def flip: ds_def n_def left_def)
    show thesis
    proof (cases "left \<le> 0")
      case True
      let ?fs = "replicate (nat (- left)) (CHR ''0'') @ ds"
      have "digits_int (''0'' @ ?fs) = dec_coef d"
        using digits_int_zeros [of "Suc (nat (- left))" ds] ds(3) by simp
      then show thesis
        by (intro that [of "''0''" ?fs "[]" 0])
          (use True str ds z in \<open>auto simp: exponent_of_def left_def n_def list_all_iff ascii_digit_def char_in_def\<close>)
    next
      case pos: False
      show thesis
      proof (cases "n \<le> left")
        case True
        then have "dec_exp d = 0" "left = n" using plain by (simp_all add: left_def)
        then show thesis
          by (intro that [of ds "[]" "[]" 0]) (use pos str ds in \<open>auto simp: exponent_of_def\<close>)
      next
        case False
        then have "nat left < length ds" using pos n_def by (simp add: nat_less_iff)
        moreover have "int (length ds - nat left) = - dec_exp d"
          using pos False by (simp add: left_def n_def of_nat_diff)
        ultimately show thesis
          by (intro that [of "take (nat left) ds" "drop (nat left) ds" "[]" 0])
            (use pos False str ds in \<open>auto simp: exponent_of_def list_all_iff dest: in_set_takeD in_set_dropD\<close>)
      qed
    qed
  next
    case False
    define e where "e = left - 1"
    have l1: "left \<noteq> 1" using False ds(4) by (auto simp: left_def)
    let ?x = "CHR ''E'' # (if e < 0 then int_str e else ''+'' @ int_str e)"
    have str: "dec_str d = (if dec_neg d then ''-'' else []) @ (if n \<le> 1 then ds else take 1 ds @ ''.'' @ drop 1 ds) @ ?x"
      using False l1 ds(4) by (auto simp: dec_str_def Let_def e_def simp flip: ds_def n_def left_def)
    have "ascii_digit (last (int_str e))"
      using int_digits_ascii [of e] int_digits_ascii [of "- e"] by (auto simp: int_str_def)
    then have last: "ascii_digit (last ?x)" by (auto simp: int_str_def)
    have len: "int (length ds - Suc 0) = int (length ds) - 1" using ds(2) by (cases ds) auto
    show thesis
      by (rule that [of "take 1 ds" "drop 1 ds" ?x e])
        (use str last ds len exponent_of_text [of e] in
          \<open>auto simp: list_all_iff e_def left_def n_def dest: in_set_takeD in_set_dropD\<close>)
  qed
qed

text \<open>Nothing is stripped and no underscore is dropped from such a text.\<close>

lemma py_strip_id: "s = [] \<or> (\<not> py_space (hd s) \<and> \<not> py_space (last s)) \<Longrightarrow> py_strip s = s"
  by (cases s rule: rev_cases) (auto simp: py_strip_def strip_chars_def dropWhile_no_op hd_append split: if_splits)

lemma exponent_no_underscore: "exponent_of x = Some e \<Longrightarrow> CHR ''_'' \<notin> set x"
proof -
  assume x: "exponent_of x = Some e"
  show "CHR ''_'' \<notin> set x"
  proof (cases x)
    case (Cons c t)
    with x have c: "c \<in> {CHR ''e'', CHR ''E''}" and d: "list_all ascii_digit (if take 1 t \<in> {''+'', ''-''} then drop 1 t else t)"
      by (auto simp: exponent_of_def Let_def split: if_splits)
    have "CHR ''_'' \<notin> set t"
    proof (cases "take 1 t \<in> {''+'', ''-''}")
      case True
      then obtain u r where "t = u # r" "u \<in> {CHR ''+'', CHR ''-''}" by (cases t) auto
      with True d ascii_digit_facts(1) show ?thesis by (auto simp: list_all_iff)
    next
      case False
      with d ascii_digit_facts(1) show ?thesis by (auto simp: list_all_iff)
    qed
    with Cons c show ?thesis by auto
  qed simp
qed

lemma decimal_of_dec_str:
  assumes "0 \<le> dec_coef d"
  shows "decimal_of_text (dec_str d) = Some (Finite d)"
proof -
  obtain ws fs x e where
    t: "dec_str d = (if dec_neg d then ''-'' else []) @ ws @ (if fs = [] then [] else ''.'' @ fs) @ x"
    and p: "list_all ascii_digit ws" "list_all ascii_digit fs" "ws \<noteq> []" "exponent_of x = Some e"
    "x = [] \<or> hd x = CHR ''E''"
    and v: "digits_int (ws @ fs) = dec_coef d" "e - int (length fs) = dec_exp d"
    and last: "x = [] \<or> ascii_digit (last x)"
    using dec_str_pieces [OF assms] .
  let ?body = "ws @ (if fs = [] then [] else ''.'' @ fs) @ x"
  obtain w ws' where ws: "ws = w # ws'" "ascii_digit w" using p(1,3) by (cases ws) auto
  note w = ascii_digit_facts [OF ws(2)]
  have sp: "\<not> py_space (CHR ''-'')" by code_simp
  have lastd: "ascii_digit (last ?body)" using last p(1-3)
    by (auto simp: list_all_iff last_append)
  have "py_strip (dec_str d) = dec_str d"
    by (rule py_strip_id) (use t w sp ws lastd ascii_digit_facts(5) in auto)
  moreover have "filter (\<lambda>c. c \<noteq> CHR ''_'') (dec_str d) = dec_str d"
    unfolding t using p(1,2) exponent_no_underscore [OF p(4)] ascii_digit_facts(1)
    by (intro filter_True) (auto simp: list_all_iff)
  moreover have "unsigned_decimal s ?body = Some (Finite \<lparr>dec_neg = s, dec_coef = dec_coef d, dec_exp = dec_exp d\<rparr>)" for s
    using unsigned_decimal_eq [OF p] v by simp
  ultimately show ?thesis using w ws by (auto simp: decimal_of_text_def Let_def t)
qed

end
