(* ===== verification/MoneyRepairFacts.thy ===== *)
theory MoneyRepairFacts
  imports DecimalText ConfigInvariant
begin

text \<open>
  What the repair does, without its loop: a row is damaged when its budget is the money factor
  times the configured one, and exactly the damaged rows get the configured budget back.
\<close>

definition damaged :: "(string \<times> int) list \<Rightarrow> raw_category \<Rightarrow> bool" where
  "damaged budgets row \<longleftrightarrow> (\<exists>b. map_of budgets (rw_key row) = Some b \<and> b \<noteq> 0 \<and>
     cell_int (rw_budget_limit row) = Some (b * MONEY_FACTOR))"

definition restored :: "(string \<times> int) list \<Rightarrow> raw_category \<Rightarrow> raw_category" where
  "restored budgets row = (if damaged budgets row
     then row\<lparr>rw_budget_limit := IntegerCell (the (map_of budgets (rw_key row)))\<rparr> else row)"

lemma repair_row_eq:
  "repair_row budgets (rows, repaired) row =
     (if damaged budgets row then (set_budget (rw_key row) (the (map_of budgets (rw_key row))) rows, True)
      else (rows, repaired))"
  by (auto simp: repair_row_def damaged_def split: option.splits)

lemma set_budget_other: "rw_key ` set rows \<inter> {key} = {} \<Longrightarrow> set_budget key b rows = rows"
  by (induction rows) (auto simp: set_budget_def)

lemma set_budget_append: "set_budget key b (xs @ ys) = set_budget key b xs @ set_budget key b ys"
  by (simp add: set_budget_def)

lemma key_restored [simp]: "rw_key (restored budgets row) = rw_key row"
  by (simp add: restored_def)

text \<open>The loop over the rows, when keys are unique.\<close>

lemma repair_loop:
  assumes "distinct (map rw_key (done @ rows))"
  shows "foldl (repair_row budgets) (map (restored budgets) done @ rows, repaired) rows
    = (map (restored budgets) (done @ rows), repaired \<or> (\<exists>r \<in> set rows. damaged budgets r))"
  using assms
proof (induction rows arbitrary: "done" repaired)
  case (Cons r rows)
  have fresh: "rw_key r \<notin> rw_key ` set done" "rw_key r \<notin> rw_key ` set rows"
    using Cons.prems by auto
  have step: "repair_row budgets (map (restored budgets) done @ r # rows, repaired) r
      = (map (restored budgets) (done @ [r]) @ rows, repaired \<or> damaged budgets r)"
  proof (cases "damaged budgets r")
    case True
    have "set_budget (rw_key r) b (map (restored budgets) done @ r # rows)
        = map (restored budgets) done @ r\<lparr>rw_budget_limit := IntegerCell b\<rparr> # rows" for b
      using fresh set_budget_other [of rows "rw_key r" b]
        set_budget_other [of "map (restored budgets) done" "rw_key r" b]
      by (auto simp: set_budget_append image_image) (simp add: set_budget_def)
    with True show ?thesis by (simp add: repair_row_eq restored_def)
  next
    case False
    then show ?thesis by (simp add: repair_row_eq restored_def)
  qed
  from Cons.IH [of "done @ [r]" "repaired \<or> damaged budgets r"] Cons.prems
  show ?case by (simp add: step)
qed simp

lemma repair_loop_all:
  assumes "distinct (map rw_key rows)"
  shows "foldl (repair_row budgets) (rows, False) rows
    = (map (restored budgets) rows, \<exists>r \<in> set rows. damaged budgets r)"
  using repair_loop [of "[]" rows budgets False] assms by simp

lemma not_damaged_restored: "\<not> damaged budgets (restored budgets row)"
  by (auto simp: damaged_def restored_def cell_int_def MONEY_FACTOR_def MONEY_SCALE_def)

lemma restored_restored [simp]: "restored budgets (restored budgets row) = restored budgets row"
  by (simp add: restored_def [of _ "restored budgets row"] not_damaged_restored)

text \<open>The whole repair: the damaged rows, and the live data when there is one.\<close>

definition repair_effect :: "(string \<times> int) list \<Rightarrow> raw_db \<Rightarrow> raw_db" where
  "repair_effect budgets db =
     (if list_ex (damaged budgets) (raw_categories db)
      then db\<lparr>raw_categories := map (restored budgets) (raw_categories db),
              raw_transactions := [], raw_transaction_categories := [], raw_sync_states := []\<rparr>
      else db)"

lemma restored_undamaged: "\<not> list_ex (damaged budgets) rows \<Longrightarrow> map (restored budgets) rows = rows"
  by (rule map_idI) (simp add: list_ex_iff restored_def)

lemma repair_eq_effect:
  assumes "distinct (map rw_key (raw_categories db))"
  shows "repair_sqlite_budgets db = bindR (active_budget_limits db) (\<lambda>b. Inr (repair_effect b db))"
proof (cases "active_budget_limits db")
  case (Inr b)
  have "b = [] \<Longrightarrow> \<not> list_ex (damaged b) (raw_categories db)" by (simp add: list_ex_iff damaged_def)
  then show ?thesis
    using restored_undamaged [of b "raw_categories db"]
    by (auto simp: repair_sqlite_budgets_def repair_loop_all [OF assms] Inr repair_effect_def list_ex_iff Let_def)
qed (simp add: repair_sqlite_budgets_def)

lemma repair_effect_simps [simp]:
  "raw_configs (repair_effect budgets db) = raw_configs db"
  "raw_categories (repair_effect budgets db) = map (restored budgets) (raw_categories db)"
  using restored_undamaged [of budgets "raw_categories db"] by (auto simp: repair_effect_def)

lemma active_budget_limits_effect [simp]:
  "active_budget_limits (repair_effect budgets db) = active_budget_limits db"
  by (simp add: active_budget_limits_def active_source_def)

lemma repair_effect_idem [simp]: "repair_effect budgets (repair_effect budgets db) = repair_effect budgets db"
  by (simp add: repair_effect_def [of _ "repair_effect budgets db"] list_ex_iff not_damaged_restored)

section \<open>The budgets of a stored request\<close>

lemma times_factor_small:
  assumes "0 \<le> u" and "u < 10 ^ 18"
  shows "times_factor \<lparr>dec_neg = s, dec_coef = u, dec_exp = -4\<rparr>
    = \<lparr>dec_neg = s, dec_coef = u * 10000, dec_exp = -4\<rparr>"
proof -
  have "u * 10000 < 10 ^ 18 * 10000" using assms(2) by simp
  then have "u * 10000 < 10 ^ dec_prec" by (simp add: dec_prec_def)
  then show ?thesis
    by (simp add: times_factor_def MONEY_FACTOR_def MONEY_SCALE_def dec_fix_small)
qed

lemma fixed_point_money:
  assumes "money_field v" and "money_units v = Some u"
  shows "fixed_point (JStr (dec_str v)) = Inr (Some u)"
proof -
  obtain w where q: "quantize (-4) v = Some \<lparr>dec_neg = dec_neg v, dec_coef = w, dec_exp = -4\<rparr>"
    and w: "0 \<le> w" "w < 10 ^ 18" "dec_neg v \<longrightarrow> w = 0"
    using money_field_quantize [OF assms(1)] .
  have u: "u = w" using assms(2) q w(3) by (auto simp: money_units_def MONEY_QUANTUM_EXP_eq dec_signed_def)
  have "0 \<le> dec_coef v" using assms(1) by (simp add: money_field_def)
  then have t: "decimal_of_text (dec_str v) = Some (Finite v)" by (rule decimal_of_dec_str)
  have "\<not> dec_lt \<lparr>dec_neg = dec_neg v, dec_coef = w, dec_exp = -4\<rparr> dec_zero"
    using w(1,3) by (auto simp: dec_lt_def dec_align_def dec_signed_def dec_zero_def)
  with w u show ?thesis
    by (auto simp: fixed_point_def scalar_text_def t MONEY_QUANTUM_EXP_eq q Let_def
        times_factor_small dec_integral_def dec_int_def)
qed

text \<open>\<open>request.model_dump(mode="json")\<close>, what a version keeps of the request that made it.\<close>

definition source_json :: "config_request \<Rightarrow> json" where
  "source_json r = JObj
     [(''timezone'', JStr (cr_timezone r)),
      (''display_currency'', JStr (cr_display_currency r)),
      (''aggregation_version'', JInt (cr_aggregation_version r)),
      (''categories'', JArr (map category_json (cr_categories r)))]"

definition request_budgets :: "config_request \<Rightarrow> (string \<times> int) list" where
  "request_budgets r = map (\<lambda>i. (ci_key i, the (money_units (ci_budget_limit i)))) (cr_categories r)"

lemma add_budget_item:
  assumes "category_ok i"
  shows "add_budget budgets (category_json i) = Inr (dict_set (ci_key i) (the (money_units (ci_budget_limit i))) budgets)"
proof -
  have m: "money_field (ci_budget_limit i)" and "key_pattern (ci_key i)" using assms by (simp_all add: category_ok_def)
  then have k: "ci_key i \<noteq> []" by (auto simp: key_pattern_def)
  obtain u where u: "money_units (ci_budget_limit i) = Some u" using money_field_units [OF m] by blast
  show ?thesis
    using k fixed_point_money [OF m u] u by (simp add: add_budget_def category_json_def category_json_with_def)
qed

lemma for_each_add_budget:
  assumes "\<And>i. i \<in> set cs \<Longrightarrow> category_ok i"
  shows "for_each add_budget budgets (map category_json cs)
    = Inr (foldl (\<lambda>d (k, v). dict_set k v d) budgets (map (\<lambda>i. (ci_key i, the (money_units (ci_budget_limit i)))) cs))"
  using assms by (induction cs arbitrary: budgets) (simp_all add: add_budget_item)

lemma budgets_of_source:
  assumes "config_request_wf r" and "json_document v = Inr (Some kvs)" and "source_json r = JObj kvs"
    and "active_source db = v"
  shows "active_budget_limits db = Inr (request_budgets r)"
proof -
  note w = config_request_wfD(1,3) [OF assms(1)]
  have "for_each add_budget [] (map category_json (cr_categories r)) = Inr (dict_of (request_budgets r))"
    by (subst for_each_add_budget) (simp_all add: w(1) dict_of_def request_budgets_def)
  moreover have "dict_of (request_budgets r) = request_budgets r"
    by (rule dict_of_distinct) (use w(2) in \<open>simp add: request_budgets_def comp_def\<close>)
  moreover have "map_of kvs ''categories'' = Some (JArr (map category_json (cr_categories r)))"
    using assms(3) by (auto simp: source_json_def)
  ultimately show ?thesis using assms(2,4) by (simp add: active_budget_limits_def)
qed

section \<open>The tables of a database the service wrote\<close>

text \<open>
  The columns the repair reads, as SQLite has them: \<open>dump\<close> is the text the JSON column stores,
  \<open>raw_units\<close> the scaled integer of a budget.
\<close>

definition raw_units :: "category \<Rightarrow> int" where
  "raw_units c = the (money_units (cat_budget_limit c))"

definition raw_config_of :: "(json \<Rightarrow> string) \<Rightarrow> config_version \<Rightarrow> raw_config" where
  "raw_config_of dump v = \<lparr>rw_status = cv_status v, rw_version = cv_version v,
     rw_source_config = Value (JStr (dump (source_json (cv_source_config v))))\<rparr>"

definition raw_category_of :: "int \<Rightarrow> category \<Rightarrow> raw_category" where
  "raw_category_of factor c = \<lparr>rw_key = cat_key c, rw_budget_limit = IntegerCell (raw_units c * factor)\<rparr>"

text \<open>\<open>factor\<close> is 1 in a healthy database; the faulty release multiplied every budget.\<close>

definition raw_db_of :: "(json \<Rightarrow> string) \<Rightarrow> int \<Rightarrow> db \<Rightarrow> raw_db" where
  "raw_db_of dump factor db =
     \<lparr>raw_configs = map (raw_config_of dump) (config_versions db),
      raw_categories = map (raw_category_of factor) (categories db),
      raw_transactions = transactions db,
      raw_transaction_categories = transaction_categories db,
      raw_sync_states = sync_states db\<rparr>"

lemma one_active_version:
  assumes "config_inv H db" and "active_version db = Some a"
  shows "filter (\<lambda>c. cv_status c = ACTIVE) (config_versions db) = [a]"
proof -
  let ?as = "filter (\<lambda>c. cv_status c = ACTIVE) (config_versions db)"
  have "distinct (map cv_id (config_versions db))" using assms(1) by (simp add: config_inv_def integrity_defs)
  then have d: "distinct ?as" by (simp add: distinct_map)
  obtain ys where ys: "?as = a # ys" using assms(2) by (auto simp: active_version_def first_of_def split: list.splits)
  have "y = a" if "y \<in> set ys" for y
  proof -
    have "y \<in> set ?as" "a \<in> set ?as" using that ys by simp_all
    then show ?thesis using assms(1) unfolding config_inv_def status_inv_def by auto
  qed
  with d ys show ?thesis by (cases ys) auto
qed

lemma active_source_of:
  assumes "config_inv H db" and "active_version db = Some a"
  shows "active_source (raw_db_of dump factor db) = Value (JStr (dump (source_json (cv_source_config a))))"
  using one_active_version [OF assms]
  by (simp add: active_source_def raw_db_of_def raw_config_of_def filter_map comp_def)

lemma budgets_of_db:
  assumes "config_inv H db" and "active_version db = Some a"
    and "loads (dump (source_json (cv_source_config a))) = Some (source_json (cv_source_config a))"
  shows "active_budget_limits (raw_db_of dump factor db) = Inr (request_budgets (cv_source_config a))"
proof -
  obtain kvs where kvs: "source_json (cv_source_config a) = JObj kvs" by (simp add: source_json_def)
  have "config_request_wf (cv_source_config a)"
    using assms(1) active_version_SomeD [OF assms(2)] by (auto simp: config_inv_def version_inv_def)
  then show ?thesis
    by (rule budgets_of_source [OF _ _ kvs active_source_of [OF assms(1,2)]])
      (use assms(3) kvs in \<open>simp add: json_document_def decoded_def parsed_def\<close>)
qed

lemma raw_keys_distinct:
  assumes "config_inv H db"
  shows "distinct (map rw_key (raw_categories (raw_db_of dump factor db)))"
proof -
  have "distinct (map cat_key (categories db))" using assms by (simp add: config_inv_def integrity_defs)
  then show ?thesis by (simp add: raw_db_of_def raw_category_of_def comp_def)
qed

text \<open>The snapshot's item for a category, and the units of its budget.\<close>

lemma map_of_budgets:
  assumes "config_request_wf r"
  shows "map_of (request_budgets r) k = Some u \<longleftrightarrow>
    (\<exists>i \<in> set (cr_categories r). ci_key i = k \<and> money_units (ci_budget_limit i) = Some u)"
proof -
  note w = config_request_wfD(1,3) [OF assms]
  have m: "\<exists>u. money_units (ci_budget_limit i) = Some u" if "i \<in> set (cr_categories r)" for i
    using w(1) [OF that] money_field_units by (metis category_ok_def)
  have d: "distinct (map fst (request_budgets r))" using w(2) by (simp add: request_budgets_def comp_def)
  have "map_of (request_budgets r) k = Some u \<longleftrightarrow> (k, u) \<in> set (request_budgets r)"
    by (rule map_of_eq_Some_iff [OF d])
  then show ?thesis using m by (fastforce simp: request_budgets_def)
qed

end
