(* ===== verification/RepairTheorems.thy ===== *)
theory RepairTheorems
  imports MoneyRepairFacts ConfigTheorems
begin

text \<open>
  The budget repair on the tables of a database the service wrote: which rows it changes, what
  becomes of the live data, and that it undoes the multiplication it is meant for.
\<close>

section \<open>Damaged rows\<close>

text \<open>The budget the active version's request gave a category, if it is nonzero.\<close>

definition snapshot_units :: "config_version \<Rightarrow> category \<Rightarrow> int \<Rightarrow> bool" where
  "snapshot_units a c u \<longleftrightarrow> u \<noteq> 0 \<and> (\<exists>i \<in> set (cr_categories (cv_source_config a)).
     ci_key i = cat_key c \<and> money_units (ci_budget_limit i) = Some u)"

text \<open>The stored integer is the money factor times the snapshot's.\<close>

definition misscaled :: "config_version \<Rightarrow> category \<Rightarrow> bool" where
  "misscaled a c \<longleftrightarrow> snapshot_units a c (raw_units c div MONEY_FACTOR) \<and> raw_units c mod MONEY_FACTOR = 0"

lemma active_wf: "config_inv H db \<Longrightarrow> active_version db = Some a \<Longrightarrow> config_request_wf (cv_source_config a)"
  using active_version_SomeD by (auto simp: config_inv_def version_inv_def)

lemma damaged_row:
  assumes "config_request_wf (cv_source_config a)"
  shows "damaged (request_budgets (cv_source_config a)) (raw_category_of factor c) \<longleftrightarrow>
    (\<exists>u. snapshot_units a c u \<and> raw_units c * factor = u * MONEY_FACTOR)"
  by (auto simp: damaged_def map_of_budgets [OF assms] raw_category_of_def cell_int_def snapshot_units_def)

lemma misscaled_iff: "misscaled a c \<longleftrightarrow> (\<exists>u. snapshot_units a c u \<and> raw_units c = u * MONEY_FACTOR)"
proof -
  have "raw_units c mod MONEY_FACTOR = 0 \<longleftrightarrow> (\<exists>u. raw_units c = u * MONEY_FACTOR)"
    by (auto simp: mod_eq_0_iff_dvd dvd_def mult.commute)
  then show ?thesis by (auto simp: misscaled_def MONEY_FACTOR_def)
qed

lemma snapshot_units_budget:
  assumes "config_request_wf (cv_source_config a)" and "snapshot_units a c u"
  shows "map_of (request_budgets (cv_source_config a)) (cat_key c) = Some u"
  using assms(2) by (simp add: map_of_budgets [OF assms(1)] snapshot_units_def)

lemma repair_of_db:
  assumes I: "config_inv H db" and a: "active_version db = Some a"
    and j: "loads (dump (source_json (cv_source_config a))) = Some (source_json (cv_source_config a))"
  shows "upgrade_0004 SQLite (raw_db_of dump factor db)
    = Inr (repair_effect (request_budgets (cv_source_config a)) (raw_db_of dump factor db))"
  by (simp add: upgrade_0004_def repair_eq_effect [OF raw_keys_distinct [OF I]] budgets_of_db [where dump = dump, OF I a j])

section \<open>What the repair changes\<close>

text \<open>
  C13: The repair changes exactly the budgets that are ten thousand times the nonzero budget the
  active version's request has for the category, to that budget. If there is one, the live
  transactions, their links and the sync state go, so that the next refresh has to be a full
  rebuild; if there is none the database stays as it is. A second run changes nothing.
\<close>

theorem repair_exact:
  assumes "config_inv H db" and "active_version db = Some a"
    and "loads (dump (source_json (cv_source_config a))) = Some (source_json (cv_source_config a))"
  shows "\<exists>raw. upgrade_0004 SQLite (raw_db_of dump 1 db) = Inr raw \<and> upgrade_0004 SQLite raw = Inr raw \<and>
    raw = (if \<exists>c \<in> set (categories db). misscaled a c
      then (raw_db_of dump 1 db)
        \<lparr>raw_categories := map (\<lambda>c. \<lparr>rw_key = cat_key c, rw_budget_limit = IntegerCell
             (if misscaled a c then raw_units c div MONEY_FACTOR else raw_units c)\<rparr>) (categories db),
         raw_transactions := [], raw_transaction_categories := [], raw_sync_states := []\<rparr>
      else raw_db_of dump 1 db)"
proof -
  let ?b = "request_budgets (cv_source_config a)" and ?raw = "raw_db_of dump 1 db"
  note wf = active_wf [OF assms(1,2)]
  have dam: "damaged ?b (raw_category_of 1 c) \<longleftrightarrow> misscaled a c" for c
    by (simp add: damaged_row [OF wf] misscaled_iff)
  have res: "restored ?b (raw_category_of 1 c) = \<lparr>rw_key = cat_key c, rw_budget_limit = IntegerCell
      (if misscaled a c then raw_units c div MONEY_FACTOR else raw_units c)\<rparr>" for c
    using dam [of c] snapshot_units_budget [OF wf, of c "raw_units c div MONEY_FACTOR"]
    by (auto simp: restored_def raw_category_of_def misscaled_def)
  have cats: "raw_categories ?raw = map (raw_category_of 1) (categories db)" by (simp add: raw_db_of_def)
  have up: "upgrade_0004 SQLite ?raw = Inr (repair_effect ?b ?raw)" by (rule repair_of_db [where dump = dump, OF assms])
  moreover have "upgrade_0004 SQLite (repair_effect ?b ?raw) = Inr (repair_effect ?b ?raw)"
  proof -
    have "distinct (map rw_key (raw_categories (repair_effect ?b ?raw)))"
      using raw_keys_distinct [OF assms(1)] by (simp add: comp_def)
    then show ?thesis
      by (simp add: upgrade_0004_def repair_eq_effect budgets_of_db [where dump = dump, OF assms])
  qed
  ultimately show ?thesis
    by (simp add: repair_effect_def cats list_ex_iff dam res [abs_def] comp_def)
qed

text \<open>
  C14: The repair undoes the faulty release when no budget was edited since the active version
  was created. If every budget is the one in the active version's request and one of them is not
  zero, a database whose budgets were all multiplied by ten thousand gets them back, without its
  live data; the same database with the right budgets is not touched. (A budget edited in place
  differs from the request, and the repair does not recognise it. The request stored as JSON must
  parse back.)
\<close>

theorem repair_undoes_double_scaling:
  assumes "config_inv H db" and "active_version db = Some a"
    and "loads (dump (source_json (cv_source_config a))) = Some (source_json (cv_source_config a))"
    and same: "\<forall>c \<in> set (categories db). \<exists>i \<in> set (cr_categories (cv_source_config a)).
      ci_key i = cat_key c \<and> money_units (ci_budget_limit i) = money_units (cat_budget_limit c)"
    and "\<exists>c \<in> set (categories db). raw_units c \<noteq> 0"
  shows "upgrade_0004 SQLite (raw_db_of dump MONEY_FACTOR db)
      = Inr ((raw_db_of dump 1 db)\<lparr>raw_transactions := [], raw_transaction_categories := [], raw_sync_states := []\<rparr>)
    \<and> upgrade_0004 SQLite (raw_db_of dump 1 db) = Inr (raw_db_of dump 1 db)"
proof -
  let ?b = "request_budgets (cv_source_config a)"
  note wf = active_wf [OF assms(1,2)]
  have key: "inj_on ci_key (set (cr_categories (cv_source_config a)))"
    using config_request_wfD(3) [OF wf] by (simp add: distinct_map)
  have snap: "snapshot_units a c u \<longleftrightarrow> u \<noteq> 0 \<and> u = raw_units c" if c: "c \<in> set (categories db)" for c u
  proof -
    obtain i where i: "i \<in> set (cr_categories (cv_source_config a))" "ci_key i = cat_key c"
      "money_units (ci_budget_limit i) = money_units (cat_budget_limit c)" using same c by blast
    have "money_field (ci_budget_limit i)" using config_request_wfD(1) [OF wf i(1)] by (simp add: category_ok_def)
    then obtain v where v: "money_units (ci_budget_limit i) = Some v" using money_field_units by blast
    then have "raw_units c = v" using i(3) by (simp add: raw_units_def)
    moreover have "i' = i" if "i' \<in> set (cr_categories (cv_source_config a))" "ci_key i' = cat_key c" for i'
      using key i(1,2) that by (auto simp: inj_on_def)
    ultimately show ?thesis using i(1,2) v unfolding snapshot_units_def
      by (metis option.inject)
  qed
  have dam: "damaged ?b (raw_category_of factor c) \<longleftrightarrow> raw_units c \<noteq> 0 \<and> factor = MONEY_FACTOR"
    if "c \<in> set (categories db)" for c factor
    using snap [OF that] by (auto simp: damaged_row [OF wf])
  have res: "restored ?b (raw_category_of MONEY_FACTOR c) = raw_category_of 1 c" if c: "c \<in> set (categories db)" for c
  proof (cases "raw_units c = 0")
    case True
    then show ?thesis using dam [OF c, of MONEY_FACTOR] by (simp add: restored_def) (simp add: raw_category_of_def)
  next
    case False
    then show ?thesis
      using dam [OF c, of MONEY_FACTOR] snapshot_units_budget [OF wf, of c "raw_units c"] snap [OF c, of "raw_units c"]
      by (simp add: restored_def) (simp add: raw_category_of_def)
  qed
  have "MONEY_FACTOR \<noteq> 1" by (simp add: MONEY_FACTOR_def MONEY_SCALE_def)
  then have "upgrade_0004 SQLite (raw_db_of dump 1 db) = Inr (raw_db_of dump 1 db)"
    unfolding repair_of_db [where dump = dump, OF assms(1-3)] using dam [of _ 1]
    by (auto simp: repair_effect_def list_ex_iff raw_db_of_def)
  moreover have "repair_effect ?b (raw_db_of dump MONEY_FACTOR db)
      = (raw_db_of dump 1 db)\<lparr>raw_transactions := [], raw_transaction_categories := [], raw_sync_states := []\<rparr>"
    using dam [of _ MONEY_FACTOR] res assms(5) by (auto simp: repair_effect_def list_ex_iff raw_db_of_def)
  ultimately show ?thesis by (simp add: repair_of_db [where dump = dump, OF assms(1-3)])
qed

section \<open>An example\<close>

text \<open>The text \<open>json.dumps\<close> gives for the request of the example.\<close>

definition stored_text :: string where
  "stored_text = ''{'' @ quote_str ''timezone'' @ '': '' @ quote_str ''UTC'' @ '', '' @
     quote_str ''display_currency'' @ '': '' @ quote_str ''USD'' @ '', '' @
     quote_str ''aggregation_version'' @ '': 1, '' @ quote_str ''categories'' @ '': [{'' @
     quote_str ''key'' @ '': '' @ quote_str ''food'' @ '', '' @
     quote_str ''name'' @ '': '' @ quote_str ''Food'' @ '', '' @
     quote_str ''icon'' @ '': null, '' @ quote_str ''sort_order'' @ '': 1, '' @
     quote_str ''budget_limit'' @ '': '' @ quote_str ''500.0000'' @ '', '' @
     quote_str ''budget_currency'' @ '': '' @ quote_str ''USD'' @ '', '' @
     quote_str ''lookback_days'' @ '': 30, '' @
     quote_str ''classification_instruction'' @ '': '' @ quote_str ''groceries'' @ '', '' @
     quote_str ''enabled'' @ '': true}]}''"

lemma stored_text_parses: "loads stored_text = Some (source_json request0)"
  by code_simp

definition food_dump :: "json \<Rightarrow> string" where
  "food_dump j = stored_text"

text \<open>
  The user raises the budget from 500 to 5 million, which edits the category in place and leaves
  the active version's request as it was: the repair takes the edit for damage.
\<close>

definition raised :: category_input where
  "raised = food\<lparr>ci_budget_limit := \<lparr>dec_neg = False, dec_coef = 5000000, dec_exp = 0\<rparr>\<rparr>"

definition raise_request :: config_request where
  "raise_request = request0\<lparr>cr_categories := [raised]\<rparr>"

definition raised_db :: db where
  "raised_db = db1\<lparr>categories := [present raised food_row]\<rparr>"

lemma raise_valid: "ConfigPutRequest raise_request = Inr raise_request"
  "ci_key raised = ''food''" "ci_budget_currency raised = ''USD''" "cr_categories raise_request = [raised]"
  "cr_display_currency raise_request = ''USD''"
  by code_simp+

lemma raise_edit: "edit_active toy_env raise_request first_config None db1 = Inr raised_db"
proof -
  have "update_category (present raised food_row) db1 = Inr raised_db"
    by (simp add: update_category_def raised_db_def db1_def food_row_def guard.simps put_row_def empty_db_def
        present_def raised_def food_def) code_simp
  moreover have "cv_id first_config = 3001" "cat_key food_row = ''food''"
    by (simp_all add: first_config_def food_row_def)
  ultimately show ?thesis
    by (simp add: edit_active_def supersede_pending_def dict_of_def raise_valid)
qed

lemma raised_inv: "config_inv toy_digest raised_db" "active_version raised_db = Some first_config"
proof -
  from versions1(1) show "active_version raised_db = Some first_config"
    by (simp add: raised_db_def active_version_def)
  have "edit_active toy_env raise_request first_config (pending_version db1) db1 = Inr raised_db"
    using raise_edit by (simp add: versions1)
  then show "config_inv toy_digest raised_db"
    by (rule edit_active_inv [OF _ config_inv1 ConfigPutRequest_wf [OF raise_valid(1)]])
qed

lemma source_of_first: "cv_source_config first_config = request0"
  by (simp add: first_config_def)

lemma repair_exact_witness:
  "\<exists>raw. upgrade_0004 SQLite (raw_db_of food_dump 1 raised_db) = Inr raw \<and>
    raw_categories raw = [\<lparr>rw_key = ''food'', rw_budget_limit = IntegerCell 5000000\<rparr>]"
proof -
  have "misscaled first_config (present raised food_row)" "raw_units (present raised food_row) = 50000000000"
    "cat_key (present raised food_row) = ''food''"
    by code_simp+
  moreover have "categories raised_db = [present raised food_row]" by (simp add: raised_db_def)
  moreover have "loads (food_dump (source_json (cv_source_config first_config)))
      = Some (source_json (cv_source_config first_config))"
    by (simp add: food_dump_def stored_text_parses source_of_first)
  ultimately show ?thesis
    using repair_exact [where dump = food_dump, OF raised_inv(1,2)]
    by (auto simp: MONEY_FACTOR_def MONEY_SCALE_def)
qed

lemma repair_undoes_double_scaling_witness:
  "upgrade_0004 SQLite (raw_db_of food_dump MONEY_FACTOR db1)
    = Inr ((raw_db_of food_dump 1 db1)\<lparr>raw_transactions := [], raw_transaction_categories := [], raw_sync_states := []\<rparr>)"
proof -
  have c: "categories db1 = [food_row]" by (simp add: db1_def)
  have "loads (food_dump (source_json (cv_source_config first_config)))
      = Some (source_json (cv_source_config first_config))"
    by (simp add: food_dump_def stored_text_parses source_of_first)
  moreover have "\<forall>c \<in> set (categories db1). \<exists>i \<in> set (cr_categories (cv_source_config first_config)).
      ci_key i = cat_key c \<and> money_units (ci_budget_limit i) = money_units (cat_budget_limit c)"
    by (simp add: c source_of_first request0_def food_def food_row_def)
  moreover have "\<exists>c \<in> set (categories db1). raw_units c \<noteq> 0"
  proof -
    have "raw_units food_row \<noteq> 0" by code_simp
    then show ?thesis by (simp add: c)
  qed
  ultimately show ?thesis
    using repair_undoes_double_scaling [where dump = food_dump, OF config_inv1 versions1(1)] by blast
qed

end
