(* ===== verification/SingleUser.thy ===== *)
theory SingleUser
  imports MoneyRepair ConfigService
begin

text \<open>
  \<open>migrations/versions/0003_single_user.py\<close>, the parts its upgrade and its downgrade share: the
  rows of the scoped schema, the constraints of both schemas, and the hashes recomputed from the
  stored rows. The transaction around a migration makes a failure leave nothing behind, so a
  failure is just an error.
\<close>

section \<open>The scoped schema\<close>

record stored_config =
  kc_id :: uuid
  kc_timezone :: string
  kc_display_currency :: string
  kc_aggregation_version :: int
  kc_config_hash :: string
  kc_source_config :: driver_value

text \<open>The configuration tables, which have the same columns in both schemas.\<close>

record config_tables =
  ct_categories :: "category list"
  ct_rule_versions :: "rule_version list"
  ct_config_version_rules :: "config_version_rule list"
  ct_configs :: "stored_config list"

record legacy_run =
  lr_id :: uuid
  lr_idempotency_key :: string
  lr_request_hash :: string
  lr_mode :: string
  lr_state :: run_state
  lr_config_version_id :: uuid
  lr_scope_key :: string
  lr_source_from_date :: "date option"
  lr_source_to_date :: "date option"
  lr_expected_accounts :: driver_value
  lr_expected_batch_count :: "int option"
  lr_expected_source_count :: "int option"
  lr_expected_store_count :: "int option"
  lr_expected_skip_count :: "int option"
  lr_source_complete :: bool
  lr_account_manifest :: "driver_value option"
  lr_input_checksum :: "string option"
  lr_computed_checksum :: "string option"
  lr_cursor_before :: "driver_value option"
  lr_cursor_after :: "driver_value option"
  lr_received_batch_count :: int
  lr_actual_source_count :: int
  lr_actual_store_count :: int
  lr_actual_skip_count :: int
  lr_created_at :: timestamp
  lr_uploaded_at :: "timestamp option"
  lr_validated_at :: "timestamp option"
  lr_committed_at :: "timestamp option"
  lr_failed_at :: "timestamp option"
  lr_error_code :: "string option"

record legacy_batch =
  lb_run_id :: uuid
  lb_batch_index :: int
  lb_idempotency_key :: string
  lb_request_hash :: string
  lb_checksum :: string
  lb_item_count :: int
  lb_store_count :: int
  lb_skip_count :: int

record legacy_staged =
  ls_run_id :: uuid
  ls_scope_key :: string
  ls_config_version_id :: uuid
  ls_account_id :: string
  ls_source_transaction_id :: string
  ls_batch_index :: int
  ls_decision :: string
  ls_transaction_date :: "date option"
  ls_amount :: "int option"
  ls_currency :: "string option"
  ls_status :: "string option"
  ls_merchant :: "string option"
  ls_description :: "string option"
  ls_refunded :: bool
  ls_refund_amount :: int
  ls_supersedes_source_transaction_id :: "string option"
  ls_source_hash :: string

record legacy_staged_link =
  lc_run_id :: uuid
  lc_scope_key :: string
  lc_config_version_id :: uuid
  lc_account_id :: string
  lc_source_transaction_id :: string
  lc_category_id :: uuid
  lc_rule_version_id :: uuid

record legacy_transaction =
  lt_scope_key :: string
  lt_account_id :: string
  lt_source_transaction_id :: string
  lt_transaction_date :: date
  lt_amount :: int
  lt_currency :: string
  lt_status :: string
  lt_merchant :: "string option"
  lt_description :: "string option"
  lt_refunded :: bool
  lt_refund_amount :: int
  lt_supersedes_source_transaction_id :: "string option"
  lt_source_hash :: string
  lt_config_version_id :: uuid
  lt_first_refresh_run_id :: uuid
  lt_last_refresh_run_id :: uuid
  lt_first_seen_at :: timestamp
  lt_last_seen_at :: timestamp

record legacy_link =
  lk_scope_key :: string
  lk_account_id :: string
  lk_source_transaction_id :: string
  lk_category_id :: uuid
  lk_config_version_id :: uuid
  lk_rule_version_id :: uuid

record legacy_sync =
  ly_scope_key :: string
  ly_cursor :: driver_value
  ly_cursor_hash :: string
  ly_config_version_id :: uuid
  ly_last_refresh_run_id :: uuid
  ly_revision :: int
  ly_updated_at :: timestamp

record legacy_db = config_tables +
  lg_runs :: "legacy_run list"
  lg_batches :: "legacy_batch list"
  lg_staged :: "legacy_staged list"
  lg_staged_links :: "legacy_staged_link list"
  lg_transactions :: "legacy_transaction list"
  lg_links :: "legacy_link list"
  lg_sync :: "legacy_sync list"

record single_user = config_tables +
  su_runs :: "refresh_run list"
  su_batches :: "refresh_batch list"
  su_staged :: "staged_transaction list"
  su_staged_links :: "staged_transaction_category list"
  su_transactions :: "transaction list"
  su_links :: "transaction_category list"
  su_sync :: "sync_state list"

section \<open>Constraints of the scoped schema\<close>

text \<open>
  What the tables of revision 0002 enforce: the CHECK constraints of a row, then the keys and
  foreign keys of the tables.
\<close>

definition legacy_run_ok :: "legacy_run \<Rightarrow> bool" where
  "legacy_run_ok r \<longleftrightarrow>
     lr_mode r \<in> {''incremental'', ''full''} \<and>
     (case (lr_source_from_date r, lr_source_to_date r) of (Some f, Some t) \<Rightarrow> f \<le> t | _ \<Rightarrow> True) \<and>
     opt_ok (\<lambda>n. 0 \<le> n) (lr_expected_batch_count r) \<and>
     opt_ok (\<lambda>n. 0 \<le> n) (lr_expected_source_count r) \<and>
     opt_ok (\<lambda>n. 0 \<le> n) (lr_expected_store_count r) \<and>
     opt_ok (\<lambda>n. 0 \<le> n) (lr_expected_skip_count r) \<and>
     0 \<le> lr_received_batch_count r \<and> 0 \<le> lr_actual_source_count r \<and>
     0 \<le> lr_actual_store_count r \<and> 0 \<le> lr_actual_skip_count r \<and>
     lr_actual_store_count r + lr_actual_skip_count r = lr_actual_source_count r \<and>
     (case (lr_expected_source_count r, lr_expected_store_count r, lr_expected_skip_count r) of
        (Some a, Some b, Some c) \<Rightarrow> b + c = a | _ \<Rightarrow> True) \<and>
     opt_ok (\<lambda>h. length h = 64) (lr_input_checksum r) \<and>
     length (lr_request_hash r) = 64 \<and>
     opt_ok (\<lambda>h. length h = 64) (lr_computed_checksum r) \<and>
     (lr_state r \<noteq> FAILED \<or> lr_failed_at r \<noteq> None) \<and>
     (lr_state r \<noteq> COMMITTED \<or>
        (lr_source_complete r \<and> lr_expected_batch_count r \<noteq> None \<and> lr_expected_source_count r \<noteq> None \<and>
         lr_expected_store_count r \<noteq> None \<and> lr_expected_skip_count r \<noteq> None \<and>
         lr_input_checksum r \<noteq> None \<and> lr_computed_checksum r \<noteq> None \<and>
         lr_input_checksum r = lr_computed_checksum r \<and>
         lr_expected_batch_count r = Some (lr_received_batch_count r) \<and>
         lr_expected_source_count r = Some (lr_actual_source_count r) \<and>
         lr_expected_store_count r = Some (lr_actual_store_count r) \<and>
         lr_expected_skip_count r = Some (lr_actual_skip_count r) \<and>
         lr_account_manifest r \<noteq> None \<and>
         (lr_expected_batch_count r = Some 0 \<or> lr_uploaded_at r \<noteq> None) \<and>
         lr_validated_at r \<noteq> None \<and> lr_committed_at r \<noteq> None))"

definition legacy_batch_ok :: "legacy_batch \<Rightarrow> bool" where
  "legacy_batch_ok b \<longleftrightarrow>
     0 \<le> lb_batch_index b \<and> 0 \<le> lb_item_count b \<and> 0 \<le> lb_store_count b \<and> 0 \<le> lb_skip_count b \<and>
     lb_store_count b + lb_skip_count b = lb_item_count b \<and>
     length (lb_request_hash b) = 64 \<and> length (lb_checksum b) = 64"

definition legacy_transaction_ok :: "legacy_transaction \<Rightarrow> bool" where
  "legacy_transaction_ok t \<longleftrightarrow>
     lt_status t \<in> {''pending'', ''posted''} \<and> 0 \<le> lt_amount t \<and> 0 \<le> lt_refund_amount t \<and>
     refund_consistent (lt_refunded t) (lt_refund_amount t) (lt_amount t) \<and>
     length (lt_source_hash t) = 64"

definition legacy_staged_ok :: "legacy_staged \<Rightarrow> bool" where
  "legacy_staged_ok s \<longleftrightarrow>
     ls_decision s \<in> {''store'', ''skip''} \<and> opt_ok (\<lambda>t. t \<in> {''pending'', ''posted''}) (ls_status s) \<and>
     0 \<le> ls_batch_index s \<and> opt_ok (\<lambda>a. 0 \<le> a) (ls_amount s) \<and> 0 \<le> ls_refund_amount s \<and>
     (case ls_amount s of None \<Rightarrow> \<not> ls_refunded s \<and> ls_refund_amount s = 0
      | Some a \<Rightarrow> refund_consistent (ls_refunded s) (ls_refund_amount s) a) \<and>
     (ls_decision s \<noteq> ''store'' \<or>
        (ls_transaction_date s \<noteq> None \<and> ls_amount s \<noteq> None \<and> ls_currency s \<noteq> None \<and> ls_status s \<noteq> None)) \<and>
     length (ls_source_hash s) = 64"

definition legacy_sync_ok :: "legacy_sync \<Rightarrow> bool" where
  "legacy_sync_ok s \<longleftrightarrow> 0 \<le> ly_revision s \<and> length (ly_cursor_hash s) = 64"

definition ls_key :: "legacy_staged \<Rightarrow> uuid \<times> string \<times> string \<times> string" where
  "ls_key s = (ls_run_id s, ls_scope_key s, ls_account_id s, ls_source_transaction_id s)"

definition lc_tx_key :: "legacy_staged_link \<Rightarrow> uuid \<times> string \<times> string \<times> string" where
  "lc_tx_key c = (lc_run_id c, lc_scope_key c, lc_account_id c, lc_source_transaction_id c)"

definition lt_key :: "legacy_transaction \<Rightarrow> string \<times> string \<times> string" where
  "lt_key t = (lt_scope_key t, lt_account_id t, lt_source_transaction_id t)"

definition lk_tx_key :: "legacy_link \<Rightarrow> string \<times> string \<times> string" where
  "lk_tx_key l = (lk_scope_key l, lk_account_id l, lk_source_transaction_id l)"

text \<open>
  A table is filled by \<open>INSERT INTO table SELECT ...\<close> while it is empty, so its keys must be
  distinct among the inserted rows and each row must pass the CHECK constraints; no trigger
  exists yet. Foreign keys are deferred.
\<close>

definition unique_in :: "string \<Rightarrow> ('r \<Rightarrow> 'k) \<Rightarrow> 'r list \<Rightarrow> bool \<times> constraint" where
  "unique_in name key rows = (distinct (map key rows), UniqueKey name)"

definition load :: "(bool \<times> constraint) list \<Rightarrow> ('r \<Rightarrow> (bool \<times> constraint) list) \<Rightarrow> 'r list \<Rightarrow> unit res" where
  "load keys checks rows = guard (keys @ concat (map checks rows))"

definition load_legacy_runs :: "legacy_run list \<Rightarrow> unit res" where
  "load_legacy_runs rows = load
     [unique_in ''refresh_runs'' lr_id rows, unique_in ''refresh_runs.idempotency_key'' lr_idempotency_key rows]
     (\<lambda>r. [(legacy_run_ok r, CheckFailed ''refresh_runs'')]) rows"

definition load_legacy_batches :: "legacy_batch list \<Rightarrow> unit res" where
  "load_legacy_batches rows = load
     [unique_in ''pk_refresh_batches'' (\<lambda>b. (lb_run_id b, lb_batch_index b)) rows,
      unique_in ''uq_refresh_batches_run_idempotency'' (\<lambda>b. (lb_run_id b, lb_idempotency_key b)) rows]
     (\<lambda>b. [(legacy_batch_ok b, CheckFailed ''refresh_batches'')]) rows"

definition load_legacy_staged :: "legacy_staged list \<Rightarrow> unit res" where
  "load_legacy_staged rows = load [unique_in ''pk_staged_transactions'' ls_key rows]
     (\<lambda>s. [(legacy_staged_ok s, CheckFailed ''staged_transactions'')]) rows"

definition load_legacy_staged_links :: "legacy_staged_link list \<Rightarrow> unit res" where
  "load_legacy_staged_links rows = load
     [unique_in ''pk_staged_transaction_categories'' (\<lambda>c. (lc_tx_key c, lc_category_id c)) rows] (\<lambda>c. []) rows"

definition load_legacy_transactions :: "legacy_transaction list \<Rightarrow> unit res" where
  "load_legacy_transactions rows = load [unique_in ''pk_transactions'' lt_key rows]
     (\<lambda>t. [(legacy_transaction_ok t, CheckFailed ''transactions'')]) rows"

definition load_legacy_links :: "legacy_link list \<Rightarrow> unit res" where
  "load_legacy_links rows = load
     [unique_in ''pk_transaction_categories'' (\<lambda>l. (lk_tx_key l, lk_category_id l)) rows] (\<lambda>l. []) rows"

definition load_legacy_sync :: "legacy_sync list \<Rightarrow> unit res" where
  "load_legacy_sync rows = load
     [unique_in ''pk_sync_states'' ly_scope_key rows, unique_in ''sync_states.last_refresh_run_id'' ly_last_refresh_run_id rows]
     (\<lambda>s. [(legacy_sync_ok s, CheckFailed ''sync_states'')]) rows"

definition load_legacy :: "legacy_db \<Rightarrow> unit res" where
  "load_legacy lg =
     bindR (load_legacy_runs (lg_runs lg)) (\<lambda>_.
     bindR (load_legacy_batches (lg_batches lg)) (\<lambda>_.
     bindR (load_legacy_staged (lg_staged lg)) (\<lambda>_.
     bindR (load_legacy_staged_links (lg_staged_links lg)) (\<lambda>_.
     bindR (load_legacy_transactions (lg_transactions lg)) (\<lambda>_.
     bindR (load_legacy_links (lg_links lg)) (\<lambda>_.
     load_legacy_sync (lg_sync lg)))))))"

text \<open>The foreign keys of the refresh tables.\<close>

definition legacy_refs :: "legacy_db \<Rightarrow> bool" where
  "legacy_refs lg \<longleftrightarrow>
     list_all (\<lambda>r. lr_config_version_id r \<in> kc_id ` set (ct_configs lg)) (lg_runs lg) \<and>
     list_all (\<lambda>b. lb_run_id b \<in> lr_id ` set (lg_runs lg)) (lg_batches lg) \<and>
     list_all (\<lambda>s. (ls_run_id s, ls_scope_key s, ls_config_version_id s)
          \<in> (\<lambda>r. (lr_id r, lr_scope_key r, lr_config_version_id r)) ` set (lg_runs lg) \<and>
        (ls_run_id s, ls_batch_index s) \<in> (\<lambda>b. (lb_run_id b, lb_batch_index b)) ` set (lg_batches lg)) (lg_staged lg) \<and>
     list_all (\<lambda>c. (lc_tx_key c, lc_config_version_id c)
          \<in> (\<lambda>s. (ls_key s, ls_config_version_id s)) ` set (lg_staged lg) \<and>
        (lc_config_version_id c, lc_category_id c, lc_rule_version_id c)
          \<in> cvr_mapping ` set (ct_config_version_rules lg)) (lg_staged_links lg) \<and>
     list_all (\<lambda>t. (lt_first_refresh_run_id t, lt_scope_key t) \<in> (\<lambda>r. (lr_id r, lr_scope_key r)) ` set (lg_runs lg) \<and>
        (lt_last_refresh_run_id t, lt_scope_key t, lt_config_version_id t)
          \<in> (\<lambda>r. (lr_id r, lr_scope_key r, lr_config_version_id r)) ` set (lg_runs lg)) (lg_transactions lg) \<and>
     list_all (\<lambda>l. (lk_tx_key l, lk_config_version_id l)
          \<in> (\<lambda>t. (lt_key t, lt_config_version_id t)) ` set (lg_transactions lg) \<and>
        (lk_config_version_id l, lk_category_id l, lk_rule_version_id l)
          \<in> cvr_mapping ` set (ct_config_version_rules lg)) (lg_links lg) \<and>
     list_all (\<lambda>s. (ly_last_refresh_run_id s, ly_scope_key s, ly_config_version_id s)
          \<in> (\<lambda>r. (lr_id r, lr_scope_key r, lr_config_version_id r)) ` set (lg_runs lg)) (lg_sync lg)"

text \<open>A database of revision 0002.\<close>

definition legacy_ok :: "legacy_db \<Rightarrow> bool" where
  "legacy_ok lg \<longleftrightarrow> load_legacy lg = Inr () \<and> legacy_refs lg \<and> distinct (map kc_id (ct_configs lg))"

section \<open>Constraints of the single-user schema\<close>

definition load_runs :: "refresh_run list \<Rightarrow> unit res" where
  "load_runs rows = load
     [unique_in ''refresh_runs'' run_id rows, unique_in ''refresh_runs.idempotency_key'' run_idempotency_key rows]
     run_checks rows"

definition batch_checks :: "refresh_batch \<Rightarrow> (bool \<times> constraint) list" where
  "batch_checks b =
     [(0 \<le> rb_batch_index b, CheckFailed ''batch_index_nonnegative''),
      (0 \<le> rb_item_count b, CheckFailed ''item_count_nonnegative''),
      (length (rb_request_hash b) = 64, CheckFailed ''request_hash_sha256''),
      (length (rb_checksum b) = 64, CheckFailed ''checksum_sha256'')]"

definition load_batches :: "refresh_batch list \<Rightarrow> unit res" where
  "load_batches rows = load
     [unique_in ''pk_refresh_batches'' rb_key rows,
      unique_in ''uq_refresh_batches_run_idempotency'' (\<lambda>b. (rb_run_id b, rb_idempotency_key b)) rows]
     batch_checks rows"

definition staged_checks :: "staged_transaction \<Rightarrow> (bool \<times> constraint) list" where
  "staged_checks s =
     [(0 \<le> st_batch_index s, CheckFailed ''batch_index_nonnegative''),
      (0 \<le> st_amount s, CheckFailed ''amount_nonnegative''),
      (0 \<le> st_refund_amount s, CheckFailed ''refund_amount_nonnegative''),
      (refund_consistent (st_refunded s) (st_refund_amount s) (st_amount s), CheckFailed ''refund_consistent''),
      (length (st_source_hash s) = 64, CheckFailed ''source_hash_sha256'')]"

definition load_staged :: "staged_transaction list \<Rightarrow> unit res" where
  "load_staged rows = load [unique_in ''pk_staged_transactions'' st_key rows] staged_checks rows"

definition load_staged_links :: "staged_transaction_category list \<Rightarrow> unit res" where
  "load_staged_links rows = load [unique_in ''pk_staged_transaction_categories'' sc_key rows] (\<lambda>c. []) rows"

definition transaction_checks :: "transaction \<Rightarrow> (bool \<times> constraint) list" where
  "transaction_checks t =
     [(0 \<le> tx_amount t, CheckFailed ''amount_nonnegative''),
      (0 \<le> tx_refund_amount t, CheckFailed ''refund_amount_nonnegative''),
      (refund_consistent (tx_refunded t) (tx_refund_amount t) (tx_amount t), CheckFailed ''refund_consistent''),
      (length (tx_source_hash t) = 64, CheckFailed ''source_hash_sha256'')]"

definition load_transactions :: "transaction list \<Rightarrow> unit res" where
  "load_transactions rows = load [unique_in ''pk_transactions'' tx_key rows] transaction_checks rows"

definition load_links :: "transaction_category list \<Rightarrow> unit res" where
  "load_links rows = load [unique_in ''pk_transaction_categories'' tc_key rows] (\<lambda>c. []) rows"

definition sync_row_checks :: "sync_state \<Rightarrow> (bool \<times> constraint) list" where
  "sync_row_checks s = [(ss_id s = 1, CheckFailed ''singleton''), (0 \<le> ss_revision s, CheckFailed ''revision_nonnegative'')]"

definition load_sync :: "sync_state list \<Rightarrow> unit res" where
  "load_sync rows = load
     [unique_in ''sync_states'' ss_id rows, unique_in ''sync_states.last_refresh_run_id'' ss_last_refresh_run_id rows]
     sync_row_checks rows"

definition load_single_user :: "single_user \<Rightarrow> unit res" where
  "load_single_user su =
     bindR (load_runs (su_runs su)) (\<lambda>_.
     bindR (load_batches (su_batches su)) (\<lambda>_.
     bindR (load_staged (su_staged su)) (\<lambda>_.
     bindR (load_staged_links (su_staged_links su)) (\<lambda>_.
     bindR (load_transactions (su_transactions su)) (\<lambda>_.
     bindR (load_links (su_links su)) (\<lambda>_.
     load_sync (su_sync su)))))))"

definition single_user_refs :: "single_user \<Rightarrow> bool" where
  "single_user_refs su \<longleftrightarrow>
     list_all (\<lambda>r. run_config_version_id r \<in> kc_id ` set (ct_configs su)) (su_runs su) \<and>
     list_all (\<lambda>b. rb_run_id b \<in> run_id ` set (su_runs su)) (su_batches su) \<and>
     list_all (\<lambda>s. (st_run_id s, st_config_version_id s)
          \<in> (\<lambda>r. (run_id r, run_config_version_id r)) ` set (su_runs su) \<and>
        (st_run_id s, st_batch_index s) \<in> rb_key ` set (su_batches su)) (su_staged su) \<and>
     list_all (\<lambda>c. ((sc_run_id c, sc_account_id c, sc_source_id c), sc_config_version_id c)
          \<in> (\<lambda>s. (st_key s, st_config_version_id s)) ` set (su_staged su) \<and>
        (sc_config_version_id c, sc_category_id c, sc_rule_version_id c)
          \<in> cvr_mapping ` set (ct_config_version_rules su)) (su_staged_links su) \<and>
     list_all (\<lambda>t. tx_first_refresh_run_id t \<in> run_id ` set (su_runs su) \<and>
        (tx_last_refresh_run_id t, tx_config_version_id t)
          \<in> (\<lambda>r. (run_id r, run_config_version_id r)) ` set (su_runs su)) (su_transactions su) \<and>
     list_all (\<lambda>c. (tc_tx_key c, tc_config_version_id c)
          \<in> (\<lambda>t. (tx_key t, tx_config_version_id t)) ` set (su_transactions su) \<and>
        (tc_config_version_id c, tc_category_id c, tc_rule_version_id c)
          \<in> cvr_mapping ` set (ct_config_version_rules su)) (su_links su) \<and>
     list_all (\<lambda>s. (ss_last_refresh_run_id s, ss_config_version_id s)
          \<in> (\<lambda>r. (run_id r, run_config_version_id r)) ` set (su_runs su)) (su_sync su)"

text \<open>A database of revision 0003.\<close>

definition single_user_ok :: "single_user \<Rightarrow> bool" where
  "single_user_ok su \<longleftrightarrow> load_single_user su = Inr () \<and> single_user_refs su \<and> distinct (map kc_id (ct_configs su))"

section \<open>Reading\<close>

text \<open>\<open>_json_value\<close>: \<open>None\<close> stays \<open>None\<close>, bytes and text are parsed.\<close>

definition json_value :: "driver_value \<Rightarrow> json res" where
  "json_value value = bindR (decoded value) parsed"

definition canonical_hash :: "env \<Rightarrow> json \<Rightarrow> string" where
  "canonical_hash en value = env_sha256 en (utf8 (dumps value))"

text \<open>\<open>_iso_date\<close>: PostgreSQL gives a date, SQLite its ISO text; NULL is refused.\<close>

definition iso_date :: "date option \<Rightarrow> string res" where
  "iso_date value = (case value of None \<Rightarrow> Inl RuntimeError | Some d \<Rightarrow> Inr (date_iso d))"

section \<open>One scope\<close>

text \<open>\<open>str(scope)\<close>; \<open>repr\<close> is Python's text of a list or a dictionary.\<close>

definition scope_text :: "(json \<Rightarrow> string) \<Rightarrow> json \<Rightarrow> string" where
  "scope_text repr j = (case scalar_text j of Some t \<Rightarrow> t | None \<Rightarrow> repr j)"

definition document_scope :: "(json \<Rightarrow> string) \<Rightarrow> stored_config \<Rightarrow> string list res" where
  "document_scope repr config =
     bindR (json_value (kc_source_config config)) (\<lambda>document.
     Inr (case document of
            JObj kvs \<Rightarrow> (case map_of kvs ''scope_key'' of
               None \<Rightarrow> [] | Some JNull \<Rightarrow> [] | Some j \<Rightarrow> [scope_text repr j])
          | _ \<Rightarrow> []))"

definition table_scopes :: "legacy_db \<Rightarrow> string list" where
  "table_scopes lg = map lr_scope_key (lg_runs lg) @ map ls_scope_key (lg_staged lg)
     @ map lc_scope_key (lg_staged_links lg) @ map lt_scope_key (lg_transactions lg)
     @ map lk_scope_key (lg_links lg) @ map ly_scope_key (lg_sync lg)"

definition legacy_scopes :: "(json \<Rightarrow> string) \<Rightarrow> legacy_db \<Rightarrow> string set res" where
  "legacy_scopes repr lg =
     bindR (map_each (document_scope repr) (ct_configs lg)) (\<lambda>scopes.
     Inr (set (table_scopes lg @ concat scopes)))"

definition assert_single_legacy_scope :: "(json \<Rightarrow> string) \<Rightarrow> legacy_db \<Rightarrow> unit res" where
  "assert_single_legacy_scope repr lg =
     bindR (legacy_scopes repr lg) (\<lambda>scopes. raise_if (card scopes > 1) RuntimeError)"

section \<open>Configurations\<close>

text \<open>The rules of a version in key order: by code point on SQLite, and on PostgreSQL under the C collation.\<close>

definition stored_rules :: "'a config_tables_scheme \<Rightarrow> uuid \<Rightarrow> (string \<times> string) list" where
  "stored_rules ct config_id = sort_key fst
     [(cat_key c, rv_rule_hash rv).
        cvr \<leftarrow> ct_config_version_rules ct, cvr_config_version_id cvr = config_id,
        c \<leftarrow> ct_categories ct, cat_id c = cvr_category_id cvr,
        rv \<leftarrow> ct_rule_versions ct, rv_id rv = cvr_rule_version_id cvr]"

record config_rewrite =
  kw_id :: uuid
  kw_source_config :: json
  kw_config_hash :: string

definition rewritten_source :: "bool \<Rightarrow> (string \<times> json) list \<Rightarrow> (string \<times> json) list" where
  "rewritten_source restore_scope kvs =
     filter (\<lambda>(k, v). k \<noteq> ''account_ids'' \<and> k \<noteq> ''scope_key'') kvs
     @ (if restore_scope then [(''scope_key'', JStr ''personal'')] else [])"

definition config_rewrite_of :: "env \<Rightarrow> bool \<Rightarrow> 'a config_tables_scheme \<Rightarrow> stored_config \<Rightarrow> config_rewrite res" where
  "config_rewrite_of en restore_scope ct config =
     bindR (json_value (kc_source_config config)) (\<lambda>source.
     case source of
       JObj kvs \<Rightarrow>
         Inr \<lparr>kw_id = kc_id config,
              kw_source_config = JObj (rewritten_source restore_scope kvs),
              kw_config_hash = canonical_hash en (JObj
                [(''timezone'', JStr (kc_timezone config)),
                 (''display_currency'', JStr (kc_display_currency config)),
                 (''aggregation_version'', JInt (kc_aggregation_version config)),
                 (''rules'', JArr (map (\<lambda>(key, h). JObj
                    [(''category_key'', JStr key), (''rule_hash'', JStr h)])
                    (stored_rules ct (kc_id config))))])\<rparr>
     | _ \<Rightarrow> Inl RuntimeError)"

definition config_rewrites :: "env \<Rightarrow> bool \<Rightarrow> 'a config_tables_scheme \<Rightarrow> config_rewrite list res" where
  "config_rewrites en restore_scope ct = map_each (config_rewrite_of en restore_scope ct) (ct_configs ct)"

text \<open>An UPDATE per rewrite; the JSON column type writes the document as text and reads it back.\<close>

definition apply_config_rewrites :: "config_rewrite list \<Rightarrow> stored_config list \<Rightarrow> stored_config list" where
  "apply_config_rewrites rewrites configs = foldl (\<lambda>configs w.
     map (\<lambda>c. if kc_id c = kw_id w
       then c\<lparr>kc_source_config := Value (kw_source_config w), kc_config_hash := kw_config_hash w\<rparr> else c) configs)
     configs rewrites"

section \<open>Request hashes\<close>

text \<open>The columns of \<open>refresh_runs\<close> the migration selects, the same in both schemas.\<close>

record request_row =
  rq_id :: uuid
  rq_mode :: string
  rq_source_from_date :: "date option"
  rq_source_to_date :: "date option"
  rq_expected_accounts :: driver_value

definition legacy_request_row :: "legacy_run \<Rightarrow> request_row" where
  "legacy_request_row r = \<lparr>rq_id = lr_id r, rq_mode = lr_mode r, rq_source_from_date = lr_source_from_date r,
     rq_source_to_date = lr_source_to_date r, rq_expected_accounts = lr_expected_accounts r\<rparr>"

definition account_array :: "string list \<Rightarrow> driver_value" where
  "account_array accounts = Value (JArr (map JStr accounts))"

definition run_request_row :: "refresh_run \<Rightarrow> request_row" where
  "run_request_row r = \<lparr>rq_id = run_id r, rq_mode = refresh_mode_value (run_mode r),
     rq_source_from_date = run_source_from_date r, rq_source_to_date = run_source_to_date r,
     rq_expected_accounts = account_array (run_expected_accounts r)\<rparr>"

definition json_strings :: "json \<Rightarrow> string list option" where
  "json_strings j = (case j of
     JArr js \<Rightarrow> if list_all (\<lambda>j. case j of JStr s \<Rightarrow> True | _ \<Rightarrow> False) js
       then Some (map (\<lambda>j. case j of JStr s \<Rightarrow> s | _ \<Rightarrow> []) js) else None
   | _ \<Rightarrow> None)"

definition accounts_in :: "driver_value \<Rightarrow> string list res" where
  "accounts_in value =
     bindR (json_value value) (\<lambda>accounts.
     require RuntimeError (json_strings accounts))"

definition request_rewrite_of :: "env \<Rightarrow> bool \<Rightarrow> request_row \<Rightarrow> (uuid \<times> string) res" where
  "request_rewrite_of en restore_scope row =
     bindR (accounts_in (rq_expected_accounts row)) (\<lambda>accounts.
     bindR (raise_if (rq_mode row \<notin> {''full'', ''incremental''}) RuntimeError) (\<lambda>_.
     bindR (iso_date (rq_source_from_date row)) (\<lambda>from_date.
     bindR (iso_date (rq_source_to_date row)) (\<lambda>to_date.
     Inr (rq_id row, canonical_hash en (JObj
       ([(''mode'', JStr (if rq_mode row = ''full'' then ''FULL_REBUILD'' else ''INCREMENTAL'')),
         (''source_from_date'', JStr from_date),
         (''source_to_date'', JStr to_date),
         (''expected_accounts'', JArr (map JStr (sort accounts)))]
        @ (if restore_scope then [(''scope_key'', JStr ''personal''), (''cursor_before'', JObj [])] else []))))))))"

definition request_hash_rewrites :: "env \<Rightarrow> bool \<Rightarrow> request_row list \<Rightarrow> (uuid \<times> string) list res" where
  "request_hash_rewrites en restore_scope rows = map_each (request_rewrite_of en restore_scope) rows"

text \<open>An UPDATE by id per rewrite, on the table \<open>refresh_runs\<close> of either schema.\<close>

definition apply_request_hash_rewrites ::
    "('r \<Rightarrow> uuid) \<Rightarrow> (string \<Rightarrow> 'r \<Rightarrow> 'r) \<Rightarrow> (uuid \<times> string) list \<Rightarrow> 'r list \<Rightarrow> 'r list" where
  "apply_request_hash_rewrites row_id set_hash rewrites runs = foldl (\<lambda>runs (i, h).
     map (\<lambda>r. if row_id r = i then set_hash h r else r) runs) runs rewrites"

text \<open>Both kinds of UPDATE are refused by the length checks of the two hash columns.\<close>

definition hash_checks :: "config_rewrite list \<Rightarrow> (uuid \<times> string) list \<Rightarrow> (bool \<times> constraint) list" where
  "hash_checks configs requests =
     map (\<lambda>w. (length (kw_config_hash w) = 64, CheckFailed ''config_hash_sha256'')) configs
     @ map (\<lambda>(i, h). (length h = 64, CheckFailed ''request_hash_sha256'')) requests"

end
