(* ===== verification/SingleUserMigration.thy ===== *)
theory SingleUserMigration
  imports SingleUser
begin

text \<open>
  \<open>migrations/versions/0003_single_user.py\<close>: \<open>upgrade\<close> and \<open>downgrade\<close>. SQLite copies every
  refresh table into a new one; PostgreSQL alters the tables in place, with an UPDATE for each
  column whose meaning changes. A row is described before and after by the records of the two
  schemas; adding, renaming and dropping columns is the change from one record to the other.
\<close>

section \<open>Upgraded rows\<close>

definition stored_accounts :: "driver_value \<Rightarrow> string list" where
  "stored_accounts value = (case accounts_in value of Inl e \<Rightarrow> [] | Inr accounts \<Rightarrow> accounts)"

definition unfinished :: "run_state \<Rightarrow> bool" where
  "unfinished s \<longleftrightarrow> s \<in> {CREATED, UPLOADED, VALIDATED}"

text \<open>
  A run that was not finished fails; a committed one completed the accounts it expected. The
  account text was read by \<open>request_hash_rewrites\<close> before, so it denotes a list.
\<close>

definition upgraded_run :: "env \<Rightarrow> legacy_run \<Rightarrow> refresh_run" where
  "upgraded_run en r =
     \<lparr>run_id = lr_id r,
      run_idempotency_key = lr_idempotency_key r,
      run_request_hash = lr_request_hash r,
      run_mode = (if lr_mode r = ''full'' then FULL else INCREMENTAL),
      run_state = (if unfinished (lr_state r) then FAILED else lr_state r),
      run_config_version_id = lr_config_version_id r,
      run_source_from_date = lr_source_from_date r,
      run_source_to_date = lr_source_to_date r,
      run_expected_accounts = stored_accounts (lr_expected_accounts r),
      run_completed_accounts =
        (if lr_state r = COMMITTED then Some (stored_accounts (lr_expected_accounts r)) else None),
      run_expected_batch_count = lr_expected_batch_count r,
      run_computed_checksum = lr_computed_checksum r,
      run_sync_revision_before = None,
      run_received_batch_count = lr_received_batch_count r,
      run_actual_item_count = lr_actual_store_count r,
      run_created_at = lr_created_at r,
      run_uploaded_at = lr_uploaded_at r,
      run_validated_at = lr_validated_at r,
      run_committed_at = lr_committed_at r,
      run_failed_at = (if unfinished (lr_state r) then Some (server_now en) else lr_failed_at r),
      run_error_code = (if unfinished (lr_state r) then Some ''upgrade_invalidated'' else lr_error_code r)\<rparr>"

definition upgraded_batch :: "legacy_batch \<Rightarrow> refresh_batch" where
  "upgraded_batch b = \<lparr>rb_run_id = lb_run_id b, rb_batch_index = lb_batch_index b,
     rb_idempotency_key = lb_idempotency_key b, rb_request_hash = lb_request_hash b,
     rb_checksum = lb_checksum b, rb_item_count = lb_store_count b\<rparr>"

definition upgraded_transaction :: "legacy_transaction \<Rightarrow> transaction" where
  "upgraded_transaction t =
     \<lparr>tx_account_id = lt_account_id t, tx_account_name = None, tx_source_id = lt_source_transaction_id t,
      tx_transaction_date = lt_transaction_date t, tx_amount = lt_amount t, tx_currency = lt_currency t,
      tx_pending = (lt_status t = ''pending''), tx_merchant = lt_merchant t, tx_name = lt_description t,
      tx_refunded = lt_refunded t, tx_refund_amount = lt_refund_amount t,
      tx_pending_source_id = lt_supersedes_source_transaction_id t, tx_source_hash = lt_source_hash t,
      tx_config_version_id = lt_config_version_id t, tx_first_refresh_run_id = lt_first_refresh_run_id t,
      tx_last_refresh_run_id = lt_last_refresh_run_id t, tx_first_seen_at = lt_first_seen_at t,
      tx_last_seen_at = lt_last_seen_at t\<rparr>"

definition upgraded_link :: "legacy_link \<Rightarrow> transaction_category" where
  "upgraded_link l = \<lparr>tc_account_id = lk_account_id l, tc_source_id = lk_source_transaction_id l,
     tc_category_id = lk_category_id l, tc_config_version_id = lk_config_version_id l,
     tc_rule_version_id = lk_rule_version_id l\<rparr>"

definition upgraded_sync :: "legacy_sync \<Rightarrow> sync_state" where
  "upgraded_sync s = \<lparr>ss_id = 1, ss_config_version_id = ly_config_version_id s,
     ss_last_refresh_run_id = ly_last_refresh_run_id s, ss_revision = ly_revision s,
     ss_updated_at = ly_updated_at s\<rparr>"

section \<open>The upgrade on SQLite\<close>

text \<open>\<open>_sqlite_atomic\<close>: foreign keys must be enforced, and are checked when the work is done.\<close>

definition sqlite_atomic :: "bool \<Rightarrow> 'd res \<Rightarrow> ('d \<Rightarrow> bool) \<Rightarrow> 'd res" where
  "sqlite_atomic foreign_keys work refs =
     bindR (raise_if (\<not> foreign_keys) RuntimeError) (\<lambda>_.
     bindR work (\<lambda>d.
     bindR (raise_if (\<not> refs d) RuntimeError) (\<lambda>_. Inr d)))"

definition sqlite_upgrade ::
    "env \<Rightarrow> bool \<Rightarrow> legacy_db \<Rightarrow> config_rewrite list \<Rightarrow> (uuid \<times> string) list \<Rightarrow> single_user res" where
  "sqlite_upgrade en foreign_keys lg configs requests = sqlite_atomic foreign_keys
     (let copied = \<lparr>ct_categories = ct_categories lg, ct_rule_versions = ct_rule_versions lg,
            ct_config_version_rules = ct_config_version_rules lg, ct_configs = ct_configs lg,
            su_runs = map (upgraded_run en) (lg_runs lg),
            su_batches = map upgraded_batch (lg_batches lg),
            su_staged = [], su_staged_links = [],
            su_transactions = map upgraded_transaction (lg_transactions lg),
            su_links = map upgraded_link (lg_links lg),
            su_sync = map upgraded_sync (lg_sync lg)\<rparr>
      in bindR (load_single_user copied) (\<lambda>_.
         bindR (guard (hash_checks configs requests)) (\<lambda>_.
         Inr (copied
           \<lparr>ct_configs := apply_config_rewrites configs (ct_configs copied),
            su_runs := apply_request_hash_rewrites run_id (\<lambda>h. run_request_hash_update (\<lambda>_. h)) requests (su_runs copied)\<rparr>))))
     single_user_refs"

section \<open>The upgrade on PostgreSQL\<close>

definition postgres_invalidate :: "env \<Rightarrow> legacy_run \<Rightarrow> legacy_run" where
  "postgres_invalidate en r =
     (if unfinished (lr_state r)
      then r\<lparr>lr_state := FAILED, lr_failed_at := Some (server_now en), lr_error_code := Some ''upgrade_invalidated''\<rparr>
      else r)"

text \<open>\<open>account_manifest\<close> has just been renamed to \<open>completed_accounts\<close>.\<close>

definition postgres_complete :: "legacy_run \<Rightarrow> legacy_run" where
  "postgres_complete r =
     r\<lparr>lr_account_manifest := (if lr_state r = COMMITTED then Some (lr_expected_accounts r) else None)\<rparr>"

definition postgres_altered_run :: "legacy_run \<Rightarrow> refresh_run" where
  "postgres_altered_run r =
     \<lparr>run_id = lr_id r,
      run_idempotency_key = lr_idempotency_key r,
      run_request_hash = lr_request_hash r,
      run_mode = (if lr_mode r = ''full'' then FULL else INCREMENTAL),
      run_state = lr_state r,
      run_config_version_id = lr_config_version_id r,
      run_source_from_date = lr_source_from_date r,
      run_source_to_date = lr_source_to_date r,
      run_expected_accounts = stored_accounts (lr_expected_accounts r),
      run_completed_accounts = map_option stored_accounts (lr_account_manifest r),
      run_expected_batch_count = lr_expected_batch_count r,
      run_computed_checksum = lr_computed_checksum r,
      run_sync_revision_before = None,
      run_received_batch_count = lr_received_batch_count r,
      run_actual_item_count = lr_actual_store_count r,
      run_created_at = lr_created_at r,
      run_uploaded_at = lr_uploaded_at r,
      run_validated_at = lr_validated_at r,
      run_committed_at = lr_committed_at r,
      run_failed_at = lr_failed_at r,
      run_error_code = lr_error_code r\<rparr>"

text \<open>
  The trigger \<open>trg_refresh_batches_immutable\<close> of \<open>0001_initial.py\<close> runs before every UPDATE or
  DELETE of a row of \<open>refresh_batches\<close> and always raises. \<open>_drop_postgres_guards\<close> does not drop
  it, so it is in force while the migration runs, and an UPDATE of the table gets through only
  when there is no row. (SQLite has no such UPDATE: it copies the tables, and drops its triggers
  before.)
\<close>

definition postgres_update_batches :: "('a \<Rightarrow> 'b) \<Rightarrow> 'a list \<Rightarrow> 'b list res" where
  "postgres_update_batches changed rows =
     bindR (guard (map (\<lambda>b. (False, TriggerAbort ''trg_refresh_batches_immutable'')) rows)) (\<lambda>_.
     Inr (map changed rows))"

text \<open>\<open>UPDATE refresh_batches SET item_count = store_count\<close>.\<close>

definition postgres_item_count :: "legacy_batch \<Rightarrow> legacy_batch" where
  "postgres_item_count b = b\<lparr>lb_item_count := lb_store_count b\<rparr>"

text \<open>The columns \<open>store_count\<close> and \<open>skip_count\<close> are dropped.\<close>

definition postgres_altered_batch :: "legacy_batch \<Rightarrow> refresh_batch" where
  "postgres_altered_batch b =
     \<lparr>rb_run_id = lb_run_id b, rb_batch_index = lb_batch_index b, rb_idempotency_key = lb_idempotency_key b,
      rb_request_hash = lb_request_hash b, rb_checksum = lb_checksum b, rb_item_count = lb_item_count b\<rparr>"

text \<open>
  The data is changed first, with the hash checks and the trigger on batches in force; the keys,
  the checks and the foreign keys of the new schema are created at the end, on the changed rows.
\<close>

definition postgres_upgrade ::
    "env \<Rightarrow> legacy_db \<Rightarrow> config_rewrite list \<Rightarrow> (uuid \<times> string) list \<Rightarrow> single_user res" where
  "postgres_upgrade en lg configs requests =
     (let runs = map (postgres_invalidate en) (lg_runs lg);
          runs = map postgres_complete runs;
          configs' = apply_config_rewrites configs (ct_configs lg);
          runs = apply_request_hash_rewrites lr_id (\<lambda>h. lr_request_hash_update (\<lambda>_. h)) requests runs
      in bindR (guard (hash_checks configs requests)) (\<lambda>_.
         bindR (postgres_update_batches postgres_item_count (lg_batches lg)) (\<lambda>batches.
         let su = \<lparr>ct_categories = ct_categories lg, ct_rule_versions = ct_rule_versions lg,
            ct_config_version_rules = ct_config_version_rules lg, ct_configs = configs',
            su_runs = map postgres_altered_run runs,
            su_batches = map postgres_altered_batch batches,
            su_staged = [], su_staged_links = [],
            su_transactions = map upgraded_transaction (lg_transactions lg),
            su_links = map upgraded_link (lg_links lg),
            su_sync = map upgraded_sync (lg_sync lg)\<rparr>
         in bindR (load_single_user su) (\<lambda>_.
            bindR (guard [(single_user_refs su, ForeignKey ''single_user'')]) (\<lambda>_. Inr su)))))"

definition upgrade_0003 :: "env \<Rightarrow> (json \<Rightarrow> string) \<Rightarrow> bool \<Rightarrow> legacy_db \<Rightarrow> single_user res" where
  "upgrade_0003 en repr foreign_keys lg =
     bindR (assert_single_legacy_scope repr lg) (\<lambda>_.
     bindR (config_rewrites en False lg) (\<lambda>configs.
     bindR (request_hash_rewrites en False (map legacy_request_row (lg_runs lg))) (\<lambda>requests.
     case env_dialect en of
       SQLite \<Rightarrow> sqlite_upgrade en foreign_keys lg configs requests
     | PostgreSQL \<Rightarrow> postgres_upgrade en lg configs requests)))"

section \<open>Downgraded rows\<close>

text \<open>
  The manifest of a committed run: SQLite goes through the completed accounts and writes the
  integer 1, PostgreSQL through the expected ones in order and writes \<open>true\<close>.
\<close>

definition manifest :: "json \<Rightarrow> string list \<Rightarrow> driver_value" where
  "manifest complete accounts = Value (JArr (map (\<lambda>a. JObj
     [(''account_id'', JStr a), (''pages_complete'', complete), (''observed_count'', JInt 0),
      (''source_reported_count'', JNull)]) accounts))"

definition sqlite_manifest :: "refresh_run \<Rightarrow> driver_value" where
  "sqlite_manifest r = manifest (JInt 1)
     (case run_completed_accounts r of None \<Rightarrow> run_expected_accounts r | Some accounts \<Rightarrow> accounts)"

definition postgres_manifest :: "refresh_run \<Rightarrow> driver_value" where
  "postgres_manifest r = manifest (JBool True) (sort (run_expected_accounts r))"

definition empty_object :: driver_value where
  "empty_object = Value (JObj [])"

definition downgraded_run :: "(refresh_run \<Rightarrow> driver_value) \<Rightarrow> refresh_run \<Rightarrow> legacy_run" where
  "downgraded_run manifest_of r =
     \<lparr>lr_id = run_id r,
      lr_idempotency_key = run_idempotency_key r,
      lr_request_hash = run_request_hash r,
      lr_mode = refresh_mode_value (run_mode r),
      lr_state = run_state r,
      lr_config_version_id = run_config_version_id r,
      lr_scope_key = ''personal'',
      lr_source_from_date = run_source_from_date r,
      lr_source_to_date = run_source_to_date r,
      lr_expected_accounts = account_array (run_expected_accounts r),
      lr_expected_batch_count = run_expected_batch_count r,
      lr_expected_source_count = Some (run_actual_item_count r),
      lr_expected_store_count = Some (run_actual_item_count r),
      lr_expected_skip_count = Some 0,
      lr_source_complete = (run_state r = COMMITTED),
      lr_account_manifest = (if run_state r = COMMITTED then Some (manifest_of r) else None),
      lr_input_checksum = (if run_state r = COMMITTED then run_computed_checksum r else None),
      lr_computed_checksum = run_computed_checksum r,
      lr_cursor_before = Some empty_object,
      lr_cursor_after = Some empty_object,
      lr_received_batch_count = run_received_batch_count r,
      lr_actual_source_count = run_actual_item_count r,
      lr_actual_store_count = run_actual_item_count r,
      lr_actual_skip_count = 0,
      lr_created_at = run_created_at r,
      lr_uploaded_at = run_uploaded_at r,
      lr_validated_at = run_validated_at r,
      lr_committed_at = run_committed_at r,
      lr_failed_at = run_failed_at r,
      lr_error_code = run_error_code r\<rparr>"

definition downgraded_batch :: "refresh_batch \<Rightarrow> legacy_batch" where
  "downgraded_batch b = \<lparr>lb_run_id = rb_run_id b, lb_batch_index = rb_batch_index b,
     lb_idempotency_key = rb_idempotency_key b, lb_request_hash = rb_request_hash b,
     lb_checksum = rb_checksum b, lb_item_count = rb_item_count b, lb_store_count = rb_item_count b,
     lb_skip_count = 0\<rparr>"

definition status_text :: "bool \<Rightarrow> string" where
  "status_text pending = (if pending then ''pending'' else ''posted'')"

definition downgraded_staged :: "staged_transaction \<Rightarrow> legacy_staged" where
  "downgraded_staged s =
     \<lparr>ls_run_id = st_run_id s, ls_scope_key = ''personal'', ls_config_version_id = st_config_version_id s,
      ls_account_id = st_account_id s, ls_source_transaction_id = st_source_id s,
      ls_batch_index = st_batch_index s, ls_decision = ''store'',
      ls_transaction_date = Some (st_transaction_date s), ls_amount = Some (st_amount s),
      ls_currency = Some (st_currency s), ls_status = Some (status_text (st_pending s)),
      ls_merchant = st_merchant s, ls_description = st_name s, ls_refunded = st_refunded s,
      ls_refund_amount = st_refund_amount s,
      ls_supersedes_source_transaction_id = st_pending_source_id s, ls_source_hash = st_source_hash s\<rparr>"

definition downgraded_staged_link :: "staged_transaction_category \<Rightarrow> legacy_staged_link" where
  "downgraded_staged_link c = \<lparr>lc_run_id = sc_run_id c, lc_scope_key = ''personal'',
     lc_config_version_id = sc_config_version_id c, lc_account_id = sc_account_id c,
     lc_source_transaction_id = sc_source_id c, lc_category_id = sc_category_id c,
     lc_rule_version_id = sc_rule_version_id c\<rparr>"

definition downgraded_transaction :: "transaction \<Rightarrow> legacy_transaction" where
  "downgraded_transaction t =
     \<lparr>lt_scope_key = ''personal'', lt_account_id = tx_account_id t, lt_source_transaction_id = tx_source_id t,
      lt_transaction_date = tx_transaction_date t, lt_amount = tx_amount t, lt_currency = tx_currency t,
      lt_status = status_text (tx_pending t), lt_merchant = tx_merchant t, lt_description = tx_name t,
      lt_refunded = tx_refunded t, lt_refund_amount = tx_refund_amount t,
      lt_supersedes_source_transaction_id = tx_pending_source_id t, lt_source_hash = tx_source_hash t,
      lt_config_version_id = tx_config_version_id t, lt_first_refresh_run_id = tx_first_refresh_run_id t,
      lt_last_refresh_run_id = tx_last_refresh_run_id t, lt_first_seen_at = tx_first_seen_at t,
      lt_last_seen_at = tx_last_seen_at t\<rparr>"

definition downgraded_link :: "transaction_category \<Rightarrow> legacy_link" where
  "downgraded_link c = \<lparr>lk_scope_key = ''personal'', lk_account_id = tc_account_id c,
     lk_source_transaction_id = tc_source_id c, lk_category_id = tc_category_id c,
     lk_config_version_id = tc_config_version_id c, lk_rule_version_id = tc_rule_version_id c\<rparr>"

definition empty_cursor_hash :: string where
  "empty_cursor_hash = ''44136fa355b3678a1146ad16f7e8649e94fb4fc21fe77e8310c060f61caaff8a''"

definition downgraded_sync :: "sync_state \<Rightarrow> legacy_sync" where
  "downgraded_sync s = \<lparr>ly_scope_key = ''personal'', ly_cursor = empty_object,
     ly_cursor_hash = empty_cursor_hash, ly_config_version_id = ss_config_version_id s,
     ly_last_refresh_run_id = ss_last_refresh_run_id s, ly_revision = ss_revision s,
     ly_updated_at = ss_updated_at s\<rparr>"

section \<open>The downgrade\<close>

definition downgraded :: "(refresh_run \<Rightarrow> driver_value) \<Rightarrow> single_user \<Rightarrow> legacy_db" where
  "downgraded manifest_of su =
     \<lparr>ct_categories = ct_categories su, ct_rule_versions = ct_rule_versions su,
      ct_config_version_rules = ct_config_version_rules su, ct_configs = ct_configs su,
      lg_runs = map (downgraded_run manifest_of) (su_runs su),
      lg_batches = map downgraded_batch (su_batches su),
      lg_staged = map downgraded_staged (su_staged su),
      lg_staged_links = map downgraded_staged_link (su_staged_links su),
      lg_transactions = map downgraded_transaction (su_transactions su),
      lg_links = map downgraded_link (su_links su),
      lg_sync = map downgraded_sync (su_sync su)\<rparr>"

definition rewrite_legacy :: "config_rewrite list \<Rightarrow> (uuid \<times> string) list \<Rightarrow> legacy_db \<Rightarrow> legacy_db" where
  "rewrite_legacy configs requests lg = lg
     \<lparr>ct_configs := apply_config_rewrites configs (ct_configs lg),
      lg_runs := apply_request_hash_rewrites lr_id (\<lambda>h. lr_request_hash_update (\<lambda>_. h)) requests (lg_runs lg)\<rparr>"

definition sqlite_downgrade ::
    "bool \<Rightarrow> single_user \<Rightarrow> config_rewrite list \<Rightarrow> (uuid \<times> string) list \<Rightarrow> legacy_db res" where
  "sqlite_downgrade foreign_keys su configs requests = sqlite_atomic foreign_keys
     (bindR (load_legacy (downgraded sqlite_manifest su)) (\<lambda>_.
      bindR (guard (hash_checks configs requests)) (\<lambda>_.
      Inr (rewrite_legacy configs requests (downgraded sqlite_manifest su)))))
     legacy_refs"

text \<open>
  PostgreSQL creates the checks on runs, updates the batches under their trigger, and then
  creates the other checks, the keys and the foreign keys.
\<close>

definition postgres_downgrade ::
    "single_user \<Rightarrow> config_rewrite list \<Rightarrow> (uuid \<times> string) list \<Rightarrow> legacy_db res" where
  "postgres_downgrade su configs requests =
     (let lg = downgraded postgres_manifest su
      in bindR (guard (map (\<lambda>r. (legacy_run_ok r, CheckFailed ''refresh_runs'')) (lg_runs lg))) (\<lambda>_.
         bindR (postgres_update_batches downgraded_batch (su_batches su)) (\<lambda>batches.
         let lg = lg\<lparr>lg_batches := batches\<rparr>
         in bindR (load_legacy lg) (\<lambda>_.
            bindR (guard [(legacy_refs lg, ForeignKey ''personal'')]) (\<lambda>_.
            bindR (guard (hash_checks configs requests)) (\<lambda>_.
            Inr (rewrite_legacy configs requests lg)))))))"

definition downgrade_0003 :: "env \<Rightarrow> bool \<Rightarrow> single_user \<Rightarrow> legacy_db res" where
  "downgrade_0003 en foreign_keys su =
     bindR (config_rewrites en True su) (\<lambda>configs.
     bindR (request_hash_rewrites en True (map run_request_row (su_runs su))) (\<lambda>requests.
     case env_dialect en of
       SQLite \<Rightarrow> sqlite_downgrade foreign_keys su configs requests
     | PostgreSQL \<Rightarrow> postgres_downgrade su configs requests))"

end
