(* ===== verification/SingleUserFacts.thy ===== *)
theory SingleUserFacts
  imports SingleUserMigration ConfigCorrect
begin

text \<open>
  The single-user upgrade and downgrade in closed form: the rewrites reach each row once, and
  the copied tables pass the constraints of the other schema. On the way up that is because all
  rows have one scope, on the way down because every row is given the same one.
\<close>

section \<open>Updates by key\<close>

lemma keyed_update_other:
  assumes "\<And>y. y \<in> set ys \<Longrightarrow> key y \<noteq> k"
  shows "map (\<lambda>y. if key y = k then g y else y) ys = ys"
  using assms by (induction ys) auto

lemma keyed_updates:
  assumes "distinct (map k (done @ xs))"
    and key: "\<And>x. key (row x) = k x" "\<And>x. key (upd x (row x)) = k x"
  shows "foldl (\<lambda>ys x. map (\<lambda>y. if key y = k x then upd x y else y) ys)
      (map (\<lambda>x. upd x (row x)) done @ map row xs) xs
    = map (\<lambda>x. upd x (row x)) (done @ xs)"
  using assms(1)
proof (induction xs arbitrary: "done")
  case (Cons x xs)
  define f where "f = (\<lambda>ys x. map (\<lambda>y. if key y = k x then upd x y else y) ys)"
  have "f (map (\<lambda>x. upd x (row x)) done) x = map (\<lambda>x. upd x (row x)) done"
    unfolding f_def by (rule keyed_update_other) (use Cons.prems key(2) in \<open>auto simp: image_iff\<close>)
  moreover have "f (map row xs) x = map row xs"
    unfolding f_def by (rule keyed_update_other) (use Cons.prems key(1) in \<open>auto simp: image_iff\<close>)
  moreover have "f (as @ row x # bs) x = f as x @ upd x (row x) # f bs x" for as bs
    by (simp add: f_def key(1))
  ultimately have step: "f (map (\<lambda>x. upd x (row x)) done @ map row (x # xs)) x
      = map (\<lambda>x. upd x (row x)) (done @ [x]) @ map row xs" by simp
  have "foldl f (map (\<lambda>x. upd x (row x)) (done @ [x]) @ map row xs) xs
      = map (\<lambda>x. upd x (row x)) ((done @ [x]) @ xs)"
    unfolding f_def by (rule Cons.IH) (use Cons.prems in simp)
  then have "foldl f (map (\<lambda>x. upd x (row x)) done @ map row (x # xs)) (x # xs)
      = map (\<lambda>x. upd x (row x)) (done @ x # xs)"
    by (simp only: foldl_Cons step) simp
  then show ?case unfolding f_def .
qed simp

lemma keyed_updates_all:
  assumes "distinct (map k xs)" and "\<And>x. key (row x) = k x" and "\<And>x. key (upd x (row x)) = k x"
  shows "foldl (\<lambda>ys x. map (\<lambda>y. if key y = k x then upd x y else y) ys) (map row xs) xs
    = map (\<lambda>x. upd x (row x)) xs"
  using keyed_updates [of k "[]" xs key row upd] assms by simp

section \<open>Loading a table\<close>

lemma load_eq_Inr [result_simps]:
  "load keys checks rows = Inr u \<longleftrightarrow> list_all fst keys \<and> (\<forall>r \<in> set rows. list_all fst (checks r))"
  by (auto simp: load_def result_simps list_all_iff)

lemmas loads_def = load_legacy_def load_legacy_runs_def load_legacy_batches_def load_legacy_staged_def
  load_legacy_staged_links_def load_legacy_transactions_def load_legacy_links_def load_legacy_sync_def
  load_single_user_def load_runs_def load_batches_def load_staged_def load_staged_links_def
  load_transactions_def load_links_def load_sync_def unique_in_def

lemma load_legacy_iff:
  "load_legacy lg = Inr u \<longleftrightarrow>
     distinct (map lr_id (lg_runs lg)) \<and> distinct (map lr_idempotency_key (lg_runs lg)) \<and>
     (\<forall>r \<in> set (lg_runs lg). legacy_run_ok r) \<and>
     distinct (map (\<lambda>b. (lb_run_id b, lb_batch_index b)) (lg_batches lg)) \<and>
     distinct (map (\<lambda>b. (lb_run_id b, lb_idempotency_key b)) (lg_batches lg)) \<and>
     (\<forall>b \<in> set (lg_batches lg). legacy_batch_ok b) \<and>
     distinct (map ls_key (lg_staged lg)) \<and> (\<forall>s \<in> set (lg_staged lg). legacy_staged_ok s) \<and>
     distinct (map (\<lambda>c. (lc_tx_key c, lc_category_id c)) (lg_staged_links lg)) \<and>
     distinct (map lt_key (lg_transactions lg)) \<and> (\<forall>t \<in> set (lg_transactions lg). legacy_transaction_ok t) \<and>
     distinct (map (\<lambda>l. (lk_tx_key l, lk_category_id l)) (lg_links lg)) \<and>
     distinct (map ly_scope_key (lg_sync lg)) \<and> distinct (map ly_last_refresh_run_id (lg_sync lg)) \<and>
     (\<forall>s \<in> set (lg_sync lg). legacy_sync_ok s)"
  by (auto simp: loads_def result_simps)

lemma load_single_user_iff:
  "load_single_user su = Inr u \<longleftrightarrow>
     distinct (map run_id (su_runs su)) \<and> distinct (map run_idempotency_key (su_runs su)) \<and>
     (\<forall>r \<in> set (su_runs su). list_all fst (run_checks r)) \<and>
     distinct (map rb_key (su_batches su)) \<and>
     distinct (map (\<lambda>b. (rb_run_id b, rb_idempotency_key b)) (su_batches su)) \<and>
     (\<forall>b \<in> set (su_batches su). list_all fst (batch_checks b)) \<and>
     distinct (map st_key (su_staged su)) \<and> (\<forall>s \<in> set (su_staged su). list_all fst (staged_checks s)) \<and>
     distinct (map sc_key (su_staged_links su)) \<and>
     distinct (map tx_key (su_transactions su)) \<and>
     (\<forall>t \<in> set (su_transactions su). list_all fst (transaction_checks t)) \<and>
     distinct (map tc_key (su_links su)) \<and>
     distinct (map ss_id (su_sync su)) \<and> distinct (map ss_last_refresh_run_id (su_sync su)) \<and>
     (\<forall>s \<in> set (su_sync su). list_all fst (sync_row_checks s))"
  by (auto simp: loads_def result_simps)

section \<open>One scope\<close>

lemma one_scope:
  assumes "assert_single_legacy_scope repr lg = Inr u" and "x \<in> set (table_scopes lg)" and "y \<in> set (table_scopes lg)"
  shows "x = y"
proof -
  obtain scopes where "\<not> 1 < card (set (table_scopes lg @ concat scopes))"
    using assms(1) by (auto simp: assert_single_legacy_scope_def legacy_scopes_def result_simps)
  then have "card (set (table_scopes lg @ concat scopes)) \<le> Suc 0" by simp
  then show ?thesis using assms(2,3) by (subst (asm) card_le_Suc0_iff_eq) auto
qed

text \<open>Without the scope the keys stay distinct, because the scope is always the same.\<close>

lemma distinct_drop_scope:
  assumes "distinct (map (\<lambda>x. (scope x, key x)) xs)" and "\<And>x y. x \<in> set xs \<Longrightarrow> y \<in> set xs \<Longrightarrow> scope x = scope y"
  shows "distinct (map key xs)"
  unfolding distinct_map
proof (intro conjI inj_onI)
  show "distinct xs" using assms(1) by (simp add: distinct_map)
  fix x y assume xy: "x \<in> set xs" "y \<in> set xs" "key x = key y"
  have eq: "(scope x, key x) = (scope y, key y)" using assms(2) [OF xy(1,2)] xy(3) by simp
  have "inj_on (\<lambda>x. (scope x, key x)) (set xs)" using assms(1) by (simp add: distinct_map)
  from inj_onD [OF this eq xy(1,2)] show "x = y" .
qed

section \<open>The upgraded tables\<close>

definition copied :: "env \<Rightarrow> legacy_db \<Rightarrow> single_user" where
  "copied en lg = \<lparr>ct_categories = ct_categories lg, ct_rule_versions = ct_rule_versions lg,
     ct_config_version_rules = ct_config_version_rules lg, ct_configs = ct_configs lg,
     su_runs = map (upgraded_run en) (lg_runs lg), su_batches = map upgraded_batch (lg_batches lg),
     su_staged = [], su_staged_links = [],
     su_transactions = map upgraded_transaction (lg_transactions lg),
     su_links = map upgraded_link (lg_links lg), su_sync = map upgraded_sync (lg_sync lg)\<rparr>"

lemma upgraded_run_simps [simp]:
  "run_id (upgraded_run en r) = lr_id r" "run_idempotency_key (upgraded_run en r) = lr_idempotency_key r"
  "run_config_version_id (upgraded_run en r) = lr_config_version_id r"
  "run_source_from_date (upgraded_run en r) = lr_source_from_date r"
  "run_source_to_date (upgraded_run en r) = lr_source_to_date r"
  "run_expected_accounts (upgraded_run en r) = stored_accounts (lr_expected_accounts r)"
  "run_state (upgraded_run en r) = (if lr_state r = COMMITTED then COMMITTED else FAILED)"
  by (cases "lr_state r"; simp add: upgraded_run_def unfinished_def)+

lemma upgraded_run_checks: "legacy_run_ok r \<Longrightarrow> list_all fst (run_checks (upgraded_run en r))"
  by (cases "lr_state r") (auto simp: run_checks_def upgraded_run_def legacy_run_ok_def opt_ok_def unfinished_def)

lemma load_copied:
  assumes scope: "assert_single_legacy_scope repr lg = Inr u" and "load_legacy lg = Inr u'"
  shows "load_single_user (copied en lg) = Inr ()"
proof -
  note L = assms(2) [unfolded load_legacy_iff]
  have same: "scope x = scope y" if "scope ` set xs \<subseteq> set (table_scopes lg)" "x \<in> set xs" "y \<in> set xs"
    for scope :: "'z \<Rightarrow> string" and xs x y
    using one_scope [OF scope, of "scope x" "scope y"] that by auto
  have "distinct (map (\<lambda>t. (lt_account_id t, lt_source_transaction_id t)) (lg_transactions lg))"
  proof (rule distinct_drop_scope [where scope = lt_scope_key])
    show "distinct (map (\<lambda>x. (lt_scope_key x, lt_account_id x, lt_source_transaction_id x)) (lg_transactions lg))"
      using L by (simp add: lt_key_def [abs_def])
  qed (rule same [of lt_scope_key "lg_transactions lg"], auto simp: table_scopes_def)
  moreover have "distinct (map (\<lambda>l. ((lk_account_id l, lk_source_transaction_id l), lk_category_id l)) (lg_links lg))"
  proof (rule distinct_drop_scope [where scope = lk_scope_key])
    have "distinct (map (\<lambda>l. (lk_tx_key l, lk_category_id l)) (lg_links lg))" using L by simp
    then show "distinct (map (\<lambda>l. (lk_scope_key l, (lk_account_id l, lk_source_transaction_id l), lk_category_id l)) (lg_links lg))"
      by (auto simp: distinct_map inj_on_def lk_tx_key_def)
  qed (rule same [of lk_scope_key "lg_links lg"], auto simp: table_scopes_def)
  moreover have "distinct (map (\<lambda>s. 1 :: int) (lg_sync lg))"
  proof (rule distinct_drop_scope [where scope = ly_scope_key])
    show "distinct (map (\<lambda>s. (ly_scope_key s, 1 :: int)) (lg_sync lg))"
      using L by (simp add: distinct_map inj_on_def)
  qed (rule same [of ly_scope_key "lg_sync lg"], auto simp: table_scopes_def)
  moreover have "list_all fst (batch_checks (upgraded_batch b))" if "legacy_batch_ok b" for b
    using that by (simp add: batch_checks_def upgraded_batch_def legacy_batch_ok_def)
  moreover have "list_all fst (transaction_checks (upgraded_transaction t))" if "legacy_transaction_ok t" for t
    using that by (simp add: transaction_checks_def upgraded_transaction_def legacy_transaction_ok_def)
  moreover have "list_all fst (sync_row_checks (upgraded_sync s))" if "legacy_sync_ok s" for s
    using that by (simp add: sync_row_checks_def upgraded_sync_def legacy_sync_ok_def)
  ultimately show ?thesis using L upgraded_run_checks unfolding load_single_user_iff copied_def
    by (simp add: comp_def rb_key_def tx_key_def tc_key_def tc_tx_key_def upgraded_batch_def
        upgraded_transaction_def upgraded_link_def upgraded_sync_def)
qed

text \<open>Foreign keys see a run by its id and its configuration, a configuration by its id.\<close>

lemma refs_cong:
  assumes "ct_config_version_rules su' = ct_config_version_rules su"
    and "map kc_id (ct_configs su') = map kc_id (ct_configs su)"
    and "map (\<lambda>r. (run_id r, run_config_version_id r)) (su_runs su')
      = map (\<lambda>r. (run_id r, run_config_version_id r)) (su_runs su)"
    and "su_batches su' = su_batches su" "su_staged su' = su_staged su" "su_staged_links su' = su_staged_links su"
    and "su_transactions su' = su_transactions su" "su_links su' = su_links su" "su_sync su' = su_sync su"
  shows "single_user_refs su' = single_user_refs su"
proof -
  have k: "kc_id ` set (ct_configs su') = kc_id ` set (ct_configs su)"
    using arg_cong [OF assms(2), of set] by simp
  have r: "(\<lambda>r. (run_id r, run_config_version_id r)) ` set (su_runs su')
      = (\<lambda>r. (run_id r, run_config_version_id r)) ` set (su_runs su)"
    using arg_cong [OF assms(3), of set] by simp
  then have i: "run_id ` set (su_runs su') = run_id ` set (su_runs su)"
  proof -
    have "run_id ` A = fst ` (\<lambda>r. (run_id r, run_config_version_id r)) ` A" for A :: "refresh_run set"
      by (simp add: image_image)
    then show ?thesis by (simp only: r)
  qed
  have c: "list_all (\<lambda>r. run_config_version_id r \<in> K) (su_runs x)
      \<longleftrightarrow> (\<forall>p \<in> (\<lambda>r. (run_id r, run_config_version_id r)) ` set (su_runs x). snd p \<in> K)" for K x
    by (simp add: list_all_iff)
  show ?thesis unfolding single_user_refs_def c k r i assms by simp
qed

lemma copied_refs:
  assumes "legacy_refs lg"
  shows "single_user_refs (copied en lg)"
proof -
  note R = assms [unfolded legacy_refs_def list_all_iff]
  have runs: "(\<lambda>r. (run_id r, run_config_version_id r)) ` set (su_runs (copied en lg))
      = (\<lambda>r. (lr_id r, lr_config_version_id r)) ` set (lg_runs lg)"
    "run_id ` set (su_runs (copied en lg)) = lr_id ` set (lg_runs lg)"
    by (simp_all add: copied_def image_image)
  have txs: "(\<lambda>t. (tx_key t, tx_config_version_id t)) ` set (su_transactions (copied en lg))
      = (\<lambda>t. ((lt_account_id t, lt_source_transaction_id t), lt_config_version_id t)) ` set (lg_transactions lg)"
    by (simp add: copied_def image_image upgraded_transaction_def tx_key_def)
  have run: "(i, c) \<in> (\<lambda>r. (lr_id r, lr_config_version_id r)) ` set (lg_runs lg)" "i \<in> lr_id ` set (lg_runs lg)"
    if "(i, s, c) \<in> (\<lambda>r. (lr_id r, lr_scope_key r, lr_config_version_id r)) ` set (lg_runs lg)" for i s c
    using that by auto
  have first: "i \<in> lr_id ` set (lg_runs lg)"
    if "(i, s) \<in> (\<lambda>r. (lr_id r, lr_scope_key r)) ` set (lg_runs lg)" for i s
    using that by auto
  have link: "((a, i), c) \<in> (\<lambda>t. ((lt_account_id t, lt_source_transaction_id t), lt_config_version_id t)) ` set (lg_transactions lg)"
    if "((s, a, i), c) \<in> (\<lambda>t. (lt_key t, lt_config_version_id t)) ` set (lg_transactions lg)" for s a i c
    using that by (auto simp: lt_key_def)
  have T: "list_all (\<lambda>t. tx_first_refresh_run_id t \<in> lr_id ` set (lg_runs lg) \<and>
        (tx_last_refresh_run_id t, tx_config_version_id t)
          \<in> (\<lambda>r. (lr_id r, lr_config_version_id r)) ` set (lg_runs lg)) (su_transactions (copied en lg))"
    using R run(1) first by (simp add: list_all_iff copied_def upgraded_transaction_def) blast
  have L: "list_all (\<lambda>c. (tc_tx_key c, tc_config_version_id c)
          \<in> (\<lambda>t. ((lt_account_id t, lt_source_transaction_id t), lt_config_version_id t)) ` set (lg_transactions lg) \<and>
        (tc_config_version_id c, tc_category_id c, tc_rule_version_id c)
          \<in> cvr_mapping ` set (ct_config_version_rules lg)) (su_links (copied en lg))"
    using R link by (simp add: list_all_iff copied_def upgraded_link_def tc_tx_key_def lk_tx_key_def) blast
  have S: "list_all (\<lambda>s. (ss_last_refresh_run_id s, ss_config_version_id s)
          \<in> (\<lambda>r. (lr_id r, lr_config_version_id r)) ` set (lg_runs lg)) (su_sync (copied en lg))"
    using R run(1) by (simp add: list_all_iff copied_def upgraded_sync_def) blast
  have "list_all (\<lambda>r. run_config_version_id r \<in> kc_id ` set (ct_configs lg)) (su_runs (copied en lg))"
    "list_all (\<lambda>b. rb_run_id b \<in> lr_id ` set (lg_runs lg)) (su_batches (copied en lg))"
    using R by (simp_all add: list_all_iff copied_def upgraded_batch_def)
  with T L S show ?thesis unfolding single_user_refs_def runs txs by (simp add: copied_def)
qed

section \<open>The rewrites in closed form\<close>

lemma map_each_projr:
  assumes "map_each f xs = Inr ys"
  shows "ys = map (\<lambda>x. projr (f x)) xs" and "\<And>x. x \<in> set xs \<Longrightarrow> f x = Inr (projr (f x))"
proof -
  have l: "list_all2 (\<lambda>x y. f x = Inr y) xs ys" using assms by (simp add: map_each_eq_Inr)
  then show "ys = map (\<lambda>x. projr (f x)) xs" by (induction rule: list_all2_induct) auto
  show "f x = Inr (projr (f x))" if "x \<in> set xs" for x
    using l that by (auto simp: in_set_conv_nth list_all2_conv_all_nth)
qed

lemma map_each_total:
  assumes "\<And>x. x \<in> set xs \<Longrightarrow> f x = Inr (g x)"
  shows "map_each f xs = Inr (map g xs)"
  using assms by (simp add: map_each_eq_Inr list_all2_conv_all_nth)

text \<open>A version can be rewritten when its source document is an object.\<close>

definition document_of :: "stored_config \<Rightarrow> (string \<times> json) list option" where
  "document_of k = (case json_value (kc_source_config k) of Inr (JObj kvs) \<Rightarrow> Some kvs | _ \<Rightarrow> None)"

definition stored_config_hash :: "env \<Rightarrow> 'a config_tables_scheme \<Rightarrow> stored_config \<Rightarrow> string" where
  "stored_config_hash en ct k = sha256_hex (env_sha256 en)
     (semantics_json (kc_timezone k) (kc_display_currency k) (kc_aggregation_version k) (stored_rules ct (kc_id k)))"

definition rewritten_config :: "env \<Rightarrow> bool \<Rightarrow> 'a config_tables_scheme \<Rightarrow> stored_config \<Rightarrow> stored_config" where
  "rewritten_config en restore_scope ct k =
     k\<lparr>kc_source_config := Value (JObj (rewritten_source restore_scope (the (document_of k)))),
       kc_config_hash := stored_config_hash en ct k\<rparr>"

definition config_rewrite_for :: "env \<Rightarrow> bool \<Rightarrow> 'a config_tables_scheme \<Rightarrow> stored_config \<Rightarrow> config_rewrite" where
  "config_rewrite_for en restore_scope ct k =
     \<lparr>kw_id = kc_id k, kw_source_config = JObj (rewritten_source restore_scope (the (document_of k))),
      kw_config_hash = stored_config_hash en ct k\<rparr>"

lemma config_rewrite_of_eq:
  "config_rewrite_of en restore_scope ct k = Inr w \<longleftrightarrow>
     document_of k \<noteq> None \<and> w = config_rewrite_for en restore_scope ct k"
  by (auto simp: config_rewrite_of_def config_rewrite_for_def document_of_def stored_config_hash_def
      semantics_json_def canonical_hash_def sha256_hex_def canonical_json_def result_simps
      split: sum.splits json.splits)

lemma config_rewrites_eq:
  "config_rewrites en restore_scope ct = Inr ws \<longleftrightarrow>
     (\<forall>k \<in> set (ct_configs ct). document_of k \<noteq> None) \<and>
     ws = map (config_rewrite_for en restore_scope ct) (ct_configs ct)"
  (is "_ \<longleftrightarrow> ?R")
proof
  assume "config_rewrites en restore_scope ct = Inr ws"
  note m = map_each_projr [OF this [unfolded config_rewrites_def]]
  have "document_of k \<noteq> None \<and> projr (config_rewrite_of en restore_scope ct k) = config_rewrite_for en restore_scope ct k"
    if "k \<in> set (ct_configs ct)" for k
    using config_rewrite_of_eq [THEN iffD1, OF m(2) [OF that]] by simp
  then show ?R using m(1) by simp
next
  assume ?R
  then show "config_rewrites en restore_scope ct = Inr ws"
    unfolding config_rewrites_def by (auto intro!: map_each_total simp: config_rewrite_of_eq)
qed

lemma config_rewrites_applied:
  assumes "distinct (map kc_id (ct_configs ct))"
  shows "apply_config_rewrites (map (config_rewrite_for en restore_scope ct) (ct_configs ct)) (ct_configs ct)
    = map (rewritten_config en restore_scope ct) (ct_configs ct)"
proof -
  let ?upd = "\<lambda>k c. c\<lparr>kc_source_config := Value (JObj (rewritten_source restore_scope (the (document_of k)))),
    kc_config_hash := stored_config_hash en ct k\<rparr>"
  have "foldl (\<lambda>cs k. map (\<lambda>c. if kc_id c = kc_id k then ?upd k c else c) cs) (map (\<lambda>k. k) (ct_configs ct)) (ct_configs ct)
      = map (\<lambda>k. ?upd k k) (ct_configs ct)"
    by (rule keyed_updates_all [OF assms]) simp_all
  then show ?thesis
    by (simp add: apply_config_rewrites_def foldl_map config_rewrite_for_def rewritten_config_def [abs_def] cong: if_cong)
qed

text \<open>A run can be rewritten when it has both dates, a known mode and a list of accounts.\<close>

definition request_known :: "request_row \<Rightarrow> bool" where
  "request_known row \<longleftrightarrow> accounts_in (rq_expected_accounts row) = Inr (stored_accounts (rq_expected_accounts row)) \<and>
     rq_mode row \<in> {''full'', ''incremental''} \<and> rq_source_from_date row \<noteq> None \<and> rq_source_to_date row \<noteq> None"

definition request_json :: "bool \<Rightarrow> request_row \<Rightarrow> json" where
  "request_json restore_scope row = JObj
     ([(''mode'', JStr (if rq_mode row = ''full'' then ''FULL_REBUILD'' else ''INCREMENTAL'')),
       (''source_from_date'', JStr (date_iso (the (rq_source_from_date row)))),
       (''source_to_date'', JStr (date_iso (the (rq_source_to_date row)))),
       (''expected_accounts'', JArr (map JStr (sort (stored_accounts (rq_expected_accounts row)))))]
      @ (if restore_scope then [(''scope_key'', JStr ''personal''), (''cursor_before'', JObj [])] else []))"

definition request_hash_of :: "env \<Rightarrow> bool \<Rightarrow> request_row \<Rightarrow> string" where
  "request_hash_of en restore_scope row = sha256_hex (env_sha256 en) (request_json restore_scope row)"

lemma stored_accounts_Inr: "accounts_in v = Inr accounts \<Longrightarrow> stored_accounts v = accounts"
  by (simp add: stored_accounts_def)

lemma request_rewrite_of_eq:
  "request_rewrite_of en restore_scope row = Inr w \<longleftrightarrow>
     request_known row \<and> w = (rq_id row, request_hash_of en restore_scope row)"
proof
  assume "request_rewrite_of en restore_scope row = Inr w"
  then show "request_known row \<and> w = (rq_id row, request_hash_of en restore_scope row)"
    by (auto simp: request_rewrite_of_def result_simps iso_date_def request_known_def request_hash_of_def
        request_json_def canonical_hash_def sha256_hex_def canonical_json_def stored_accounts_Inr split: option.splits)
next
  assume "request_known row \<and> w = (rq_id row, request_hash_of en restore_scope row)"
  then show "request_rewrite_of en restore_scope row = Inr w"
    by (auto simp: request_rewrite_of_def result_simps iso_date_def request_known_def request_hash_of_def
        request_json_def canonical_hash_def sha256_hex_def canonical_json_def)
qed

lemma request_hash_rewrites_eq:
  "request_hash_rewrites en restore_scope rows = Inr ws \<longleftrightarrow>
     (\<forall>row \<in> set rows. request_known row) \<and>
     ws = map (\<lambda>row. (rq_id row, request_hash_of en restore_scope row)) rows"
  (is "_ \<longleftrightarrow> ?R")
proof
  assume "request_hash_rewrites en restore_scope rows = Inr ws"
  note m = map_each_projr [OF this [unfolded request_hash_rewrites_def]]
  have "request_known row \<and> projr (request_rewrite_of en restore_scope row) = (rq_id row, request_hash_of en restore_scope row)"
    if "row \<in> set rows" for row
    using request_rewrite_of_eq [THEN iffD1, OF m(2) [OF that]] by simp
  then show ?R using m(1) by simp
next
  assume ?R
  then show "request_hash_rewrites en restore_scope rows = Inr ws"
    unfolding request_hash_rewrites_def by (auto intro!: map_each_total simp: request_rewrite_of_eq)
qed

lemma request_rewrites_applied:
  assumes "distinct (map k xs)" and "\<And>x. row_id (row x) = k x" and "\<And>x h. row_id (set_hash h (row x)) = k x"
  shows "apply_request_hash_rewrites row_id set_hash (map (\<lambda>x. (k x, h x)) xs) (map row xs)
    = map (\<lambda>x. set_hash (h x) (row x)) xs"
  using keyed_updates_all [of k xs row_id row "\<lambda>x. set_hash (h x)"] assms
  by (simp add: apply_request_hash_rewrites_def foldl_map)

section \<open>The upgrade in closed form\<close>

text \<open>What the upgrade needs: one scope, documents that are objects and runs with a known request.\<close>

definition upgradable :: "(json \<Rightarrow> string) \<Rightarrow> legacy_db \<Rightarrow> bool" where
  "upgradable repr lg \<longleftrightarrow> assert_single_legacy_scope repr lg = Inr () \<and>
     (\<forall>k \<in> set (ct_configs lg). document_of k \<noteq> None) \<and>
     (\<forall>r \<in> set (lg_runs lg). request_known (legacy_request_row r))"

definition upgraded :: "env \<Rightarrow> legacy_db \<Rightarrow> single_user" where
  "upgraded en lg = (copied en lg)
     \<lparr>ct_configs := map (rewritten_config en False lg) (ct_configs lg),
      su_runs := map (\<lambda>r. (upgraded_run en r)\<lparr>run_request_hash := request_hash_of en False (legacy_request_row r)\<rparr>)
        (lg_runs lg)\<rparr>"

definition digests :: "env \<Rightarrow> bool" where
  "digests en \<longleftrightarrow> (\<forall>x. length (env_sha256 en x) = 64)"

lemma hash_checks_pass:
  assumes "digests en"
  shows "list_all fst (hash_checks (map (config_rewrite_for en b ct) configs)
    (map (\<lambda>row. (rq_id row, request_hash_of en b row)) rows))"
  using assms by (auto simp: hash_checks_def list_all_iff config_rewrite_for_def digests_def
      stored_config_hash_def request_hash_of_def sha256_hex_def)

lemma upgraded_refs: "legacy_refs lg \<Longrightarrow> single_user_refs (upgraded en lg)"
proof -
  assume "legacy_refs lg"
  then have "single_user_refs (copied en lg)" by (rule copied_refs)
  moreover have "single_user_refs (upgraded en lg) = single_user_refs (copied en lg)"
    by (rule refs_cong) (simp_all add: upgraded_def copied_def comp_def rewritten_config_def)
  ultimately show ?thesis by simp
qed

lemma load_upgraded:
  assumes "digests en" and "load_single_user (copied en lg) = Inr u"
  shows "load_single_user (upgraded en lg) = Inr ()"
proof -
  have "list_all fst (run_checks (r\<lparr>run_request_hash := request_hash_of en b row\<rparr>))"
    if "list_all fst (run_checks r)" for r b row
    using that assms(1) by (auto simp: run_checks_def request_hash_of_def digests_def sha256_hex_def)
  then show ?thesis using assms(2) unfolding load_single_user_iff upgraded_def copied_def
    by (simp add: comp_def)
qed

lemma upgraded_ok:
  assumes "legacy_ok lg" and "upgradable repr lg" and "digests en"
  shows "single_user_ok (upgraded en lg)"
proof -
  have "load_single_user (copied en lg) = Inr ()"
    using assms by (intro load_copied) (auto simp: upgradable_def legacy_ok_def)
  then show ?thesis using assms load_upgraded upgraded_refs
    by (auto simp: single_user_ok_def legacy_ok_def upgraded_def comp_def rewritten_config_def)
qed

lemma upgrade_rewrites:
  fixes en lg
  defines "configs \<equiv> map (config_rewrite_for en False lg) (ct_configs lg)"
    and "requests \<equiv> map (\<lambda>row. (rq_id row, request_hash_of en False row)) (map legacy_request_row (lg_runs lg))"
  assumes "legacy_ok lg" and "digests en"
  shows "guard (hash_checks configs requests) = Inr ()"
    and "apply_config_rewrites configs (ct_configs lg) = map (rewritten_config en False lg) (ct_configs lg)"
    and "apply_request_hash_rewrites run_id (\<lambda>h. run_request_hash_update (\<lambda>_. h)) requests (map (upgraded_run en) (lg_runs lg))
      = map (\<lambda>r. (upgraded_run en r)\<lparr>run_request_hash := request_hash_of en False (legacy_request_row r)\<rparr>) (lg_runs lg)"
    and "apply_request_hash_rewrites lr_id (\<lambda>h. lr_request_hash_update (\<lambda>_. h)) requests
        (map postgres_complete (map (postgres_invalidate en) (lg_runs lg)))
      = map (\<lambda>r. (postgres_complete (postgres_invalidate en r))
          \<lparr>lr_request_hash := request_hash_of en False (legacy_request_row r)\<rparr>) (lg_runs lg)"
proof -
  have d: "distinct (map lr_id (lg_runs lg))" "distinct (map kc_id (ct_configs lg))"
    using assms(3) by (simp_all add: legacy_ok_def load_legacy_iff)
  show "guard (hash_checks configs requests) = Inr ()"
    using hash_checks_pass [OF assms(4)] unfolding configs_def requests_def by (simp only: guard_eq_Inr)
  show "apply_config_rewrites configs (ct_configs lg) = map (rewritten_config en False lg) (ct_configs lg)"
    unfolding configs_def by (rule config_rewrites_applied [OF d(2)])
  have rows: "requests = map (\<lambda>r. (lr_id r, request_hash_of en False (legacy_request_row r))) (lg_runs lg)"
    by (simp add: requests_def legacy_request_row_def)
  show "apply_request_hash_rewrites run_id (\<lambda>h. run_request_hash_update (\<lambda>_. h)) requests (map (upgraded_run en) (lg_runs lg))
      = map (\<lambda>r. (upgraded_run en r)\<lparr>run_request_hash := request_hash_of en False (legacy_request_row r)\<rparr>) (lg_runs lg)"
    unfolding rows by (rule request_rewrites_applied [OF d(1)]) simp_all
  show "apply_request_hash_rewrites lr_id (\<lambda>h. lr_request_hash_update (\<lambda>_. h)) requests
        (map postgres_complete (map (postgres_invalidate en) (lg_runs lg)))
      = map (\<lambda>r. (postgres_complete (postgres_invalidate en r))
          \<lparr>lr_request_hash := request_hash_of en False (legacy_request_row r)\<rparr>) (lg_runs lg)"
    unfolding rows map_map comp_def
    by (rule request_rewrites_applied [OF d(1)]) (simp_all add: postgres_complete_def postgres_invalidate_def)
qed

text \<open>The columns altered in place on PostgreSQL are those copied on SQLite.\<close>

lemma postgres_run_eq:
  "postgres_altered_run ((postgres_complete (postgres_invalidate en r))\<lparr>lr_request_hash := h\<rparr>)
     = (upgraded_run en r)\<lparr>run_request_hash := h\<rparr>"
  by (cases "lr_state r")
    (simp_all add: postgres_altered_run_def postgres_complete_def postgres_invalidate_def upgraded_run_def unfinished_def)

lemma postgres_batch_eq: "postgres_altered_batch (postgres_item_count b) = upgraded_batch b"
  by (simp add: postgres_altered_batch_def postgres_item_count_def upgraded_batch_def)

text \<open>The trigger on batches lets an UPDATE through only when there is none.\<close>

definition batches_frozen :: "env \<Rightarrow> 'b list \<Rightarrow> bool" where
  "batches_frozen en batches \<longleftrightarrow> env_dialect en = PostgreSQL \<and> batches \<noteq> []"

abbreviation batch_trigger :: "'a res" where
  "batch_trigger \<equiv> Inl (Integrity (TriggerAbort ''trg_refresh_batches_immutable''))"

lemma postgres_update_batches_simps [simp]:
  "postgres_update_batches f [] = Inr []"
  "rows \<noteq> [] \<Longrightarrow> postgres_update_batches f rows = batch_trigger"
  by (cases rows; simp add: postgres_update_batches_def guard.simps)+

lemma upgrade_rewritten:
  assumes "upgradable repr lg"
  shows "assert_single_legacy_scope repr lg = Inr ()"
    and "config_rewrites en False lg = Inr (map (config_rewrite_for en False lg) (ct_configs lg))"
    and "request_hash_rewrites en False (map legacy_request_row (lg_runs lg))
      = Inr (map (\<lambda>row. (rq_id row, request_hash_of en False row)) (map legacy_request_row (lg_runs lg)))"
  using assms unfolding config_rewrites_eq request_hash_rewrites_eq by (auto simp: upgradable_def)

lemma upgrade_eq:
  assumes ok: "legacy_ok lg" and up: "upgradable repr lg" and H: "digests en"
    and fk: "env_dialect en = SQLite \<Longrightarrow> foreign_keys" and free: "\<not> batches_frozen en (lg_batches lg)"
  shows "upgrade_0003 en repr foreign_keys lg = Inr (upgraded en lg)"
proof -
  let ?configs = "map (config_rewrite_for en False lg) (ct_configs lg)"
  let ?requests = "map (\<lambda>row. (rq_id row, request_hash_of en False row)) (map legacy_request_row (lg_runs lg))"
  note applied = upgrade_rewrites [OF ok H]
  have load: "load_single_user (copied en lg) = Inr ()" "load_single_user (upgraded en lg) = Inr ()"
    and refs: "single_user_refs (upgraded en lg)"
    using load_copied [of repr lg "()" "()" en] ok up load_upgraded [OF H] upgraded_refs
    by (auto simp: upgradable_def legacy_ok_def)
  have "sqlite_upgrade en True lg ?configs ?requests = Inr (upgraded en lg)"
    using refs load(1) unfolding sqlite_upgrade_def sqlite_atomic_def Let_def upgraded_def copied_def
    by (simp add: applied(1-3) raise_if_def del: map_map)
  moreover have "postgres_upgrade en lg ?configs ?requests = Inr (upgraded en lg)" if "lg_batches lg = []"
    using refs load(2) unfolding postgres_upgrade_def Let_def upgraded_def copied_def applied(1,2,4)
    by (simp add: that postgres_run_eq comp_def guard.simps)
  ultimately show ?thesis using fk free
    by (cases "env_dialect en") (simp_all add: upgrade_0003_def upgrade_rewritten [OF up] batches_frozen_def del: map_map)
qed

lemma upgrade_frozen:
  assumes ok: "legacy_ok lg" and up: "upgradable repr lg" and H: "digests en" and frozen: "batches_frozen en (lg_batches lg)"
  shows "upgrade_0003 en repr foreign_keys lg = batch_trigger"
  using frozen upgrade_rewrites(1) [OF ok H]
  by (simp add: upgrade_0003_def upgrade_rewritten [OF up] batches_frozen_def postgres_upgrade_def Let_def del: map_map)

lemma upgrade_iff:
  assumes "legacy_ok lg" and "digests en" and "env_dialect en = SQLite \<Longrightarrow> foreign_keys"
  shows "upgrade_0003 en repr foreign_keys lg = Inr su
    \<longleftrightarrow> upgradable repr lg \<and> \<not> batches_frozen en (lg_batches lg) \<and> su = upgraded en lg"
proof
  assume u: "upgrade_0003 en repr foreign_keys lg = Inr su"
  then have up: "upgradable repr lg"
    by (auto simp: upgrade_0003_def result_simps upgradable_def config_rewrites_eq request_hash_rewrites_eq)
  moreover from this u have "\<not> batches_frozen en (lg_batches lg)"
    using upgrade_frozen [OF assms(1) _ assms(2)] by fastforce
  ultimately show "upgradable repr lg \<and> \<not> batches_frozen en (lg_batches lg) \<and> su = upgraded en lg"
    using u upgrade_eq [OF assms(1) up assms(2,3)] by simp
next
  assume "upgradable repr lg \<and> \<not> batches_frozen en (lg_batches lg) \<and> su = upgraded en lg"
  then show "upgrade_0003 en repr foreign_keys lg = Inr su" using upgrade_eq [OF assms(1) _ assms(2,3)] by blast
qed

section \<open>The downgraded tables\<close>

lemma downgraded_simps [simp]:
  "lr_id (downgraded_run m r) = run_id r" "lr_idempotency_key (downgraded_run m r) = run_idempotency_key r"
  "lr_config_version_id (downgraded_run m r) = run_config_version_id r"
  "lr_scope_key (downgraded_run m r) = ''personal''"
  by (simp_all add: downgraded_run_def)

lemma downgraded_run_ok: "list_all fst (run_checks r) \<Longrightarrow> legacy_run_ok (downgraded_run m r)"
  by (cases "run_mode r")
    (auto simp: run_checks_def downgraded_run_def legacy_run_ok_def opt_ok_def refresh_mode_value_def)

lemma downgraded_batch_ok: "list_all fst (batch_checks b) \<Longrightarrow> legacy_batch_ok (downgraded_batch b)"
  by (simp add: batch_checks_def downgraded_batch_def legacy_batch_ok_def)

lemma downgraded_staged_ok: "list_all fst (staged_checks s) \<Longrightarrow> legacy_staged_ok (downgraded_staged s)"
  by (simp add: staged_checks_def downgraded_staged_def legacy_staged_ok_def opt_ok_def status_text_def)

lemma downgraded_transaction_ok: "list_all fst (transaction_checks t) \<Longrightarrow> legacy_transaction_ok (downgraded_transaction t)"
  by (simp add: transaction_checks_def downgraded_transaction_def legacy_transaction_ok_def status_text_def)

lemma downgraded_sync_ok: "list_all fst (sync_row_checks y) \<Longrightarrow> legacy_sync_ok (downgraded_sync y)"
  by (simp add: sync_row_checks_def downgraded_sync_def legacy_sync_ok_def empty_cursor_hash_def)

lemmas downgraded_rows_ok = downgraded_batch_ok downgraded_staged_ok downgraded_transaction_ok downgraded_sync_ok

lemma distinct_add_scope:
  assumes d: "distinct (map key xs)" and k: "\<And>x y. f x = f y \<Longrightarrow> key x = key y"
  shows "distinct (map f xs)"
  unfolding distinct_map
proof (intro conjI inj_onI)
  show "distinct xs" using d by (simp add: distinct_map)
  fix x y assume xy: "x \<in> set xs" "y \<in> set xs" "f x = f y"
  have "inj_on key (set xs)" using d by (simp add: distinct_map)
  from inj_onD [OF this k [OF xy(3)] xy(1,2)] show "x = y" .
qed

lemma load_downgraded:
  assumes "load_single_user su = Inr u"
  shows "load_legacy (downgraded m su) = Inr ()"
proof -
  note L = assms [unfolded load_single_user_iff]
  have b: "distinct (map (\<lambda>b. (rb_run_id b, rb_batch_index b)) (su_batches su))"
    "distinct (map (\<lambda>s. (st_run_id s, ''personal'', st_account_id s, st_source_id s)) (su_staged su))"
    "distinct (map (\<lambda>c. ((sc_run_id c, ''personal'', sc_account_id c, sc_source_id c), sc_category_id c)) (su_staged_links su))"
    "distinct (map (\<lambda>t. (''personal'', tx_account_id t, tx_source_id t)) (su_transactions su))"
    "distinct (map (\<lambda>l. ((''personal'', tc_account_id l, tc_source_id l), tc_category_id l)) (su_links su))"
    using L by (auto elim!: distinct_add_scope simp: rb_key_def st_key_def sc_key_def tx_key_def tc_key_def tc_tx_key_def)
  have s: "distinct (map (\<lambda>s. ''personal'') (su_sync su))"
  proof (rule distinct_add_scope)
    show "distinct (map (\<lambda>s. 1 :: int) (su_sync su))"
    proof -
      have "map ss_id (su_sync su) = map (\<lambda>s. 1) (su_sync su)" using L by (auto simp: sync_row_checks_def)
      then show ?thesis using L by metis
    qed
  qed simp
  have k: "ls_key (downgraded_staged x) = (st_run_id x, ''personal'', st_account_id x, st_source_id x)"
    "lc_tx_key (downgraded_staged_link c) = (sc_run_id c, ''personal'', sc_account_id c, sc_source_id c)"
    "lc_category_id (downgraded_staged_link c) = sc_category_id c"
    "lt_key (downgraded_transaction t) = (''personal'', tx_account_id t, tx_source_id t)"
    "lk_tx_key (downgraded_link l) = (''personal'', tc_account_id l, tc_source_id l)"
    "lk_category_id (downgraded_link l) = tc_category_id l"
    "ly_scope_key (downgraded_sync y) = ''personal''" "ly_last_refresh_run_id (downgraded_sync y) = ss_last_refresh_run_id y"
    "lb_run_id (downgraded_batch z) = rb_run_id z" "lb_batch_index (downgraded_batch z) = rb_batch_index z"
    "lb_idempotency_key (downgraded_batch z) = rb_idempotency_key z"
    for x c t l y z
    by (simp_all add: ls_key_def downgraded_staged_def lc_tx_key_def downgraded_staged_link_def lt_key_def
        downgraded_transaction_def lk_tx_key_def downgraded_link_def downgraded_sync_def downgraded_batch_def)
  show ?thesis using L b s downgraded_run_ok downgraded_rows_ok unfolding load_legacy_iff downgraded_def
    by (simp add: comp_def k)
qed

lemma downgraded_refs:
  assumes "single_user_refs su"
  shows "legacy_refs (downgraded m su)"
proof -
  note R = assms [unfolded single_user_refs_def list_all_iff]
  have runs: "(\<lambda>r. (lr_id r, lr_scope_key r, lr_config_version_id r)) ` set (lg_runs (downgraded m su))
      = (\<lambda>(i, c). (i, ''personal'', c)) ` (\<lambda>r. (run_id r, run_config_version_id r)) ` set (su_runs su)"
    "(\<lambda>r. (lr_id r, lr_scope_key r)) ` set (lg_runs (downgraded m su)) = (\<lambda>i. (i, ''personal'')) ` run_id ` set (su_runs su)"
    "lr_id ` set (lg_runs (downgraded m su)) = run_id ` set (su_runs su)"
    "(\<lambda>b. (lb_run_id b, lb_batch_index b)) ` set (lg_batches (downgraded m su)) = rb_key ` set (su_batches su)"
    by (simp_all add: downgraded_def image_image downgraded_batch_def rb_key_def)
  have txs: "(\<lambda>t. (lt_key t, lt_config_version_id t)) ` set (lg_transactions (downgraded m su))
      = (\<lambda>((a, i), c). ((''personal'', a, i), c)) ` (\<lambda>t. (tx_key t, tx_config_version_id t)) ` set (su_transactions su)"
    "(\<lambda>s. (ls_key s, ls_config_version_id s)) ` set (lg_staged (downgraded m su))
      = (\<lambda>((r, a, i), c). ((r, ''personal'', a, i), c)) ` (\<lambda>s. (st_key s, st_config_version_id s)) ` set (su_staged su)"
    by (simp_all add: downgraded_def image_image downgraded_transaction_def lt_key_def tx_key_def
        downgraded_staged_def ls_key_def st_key_def)
  have run: "(i, ''personal'', c) \<in> (\<lambda>(i, c). (i, ''personal'', c)) ` S" if "(i, c) \<in> S" for i c and S :: "(uuid \<times> uuid) set"
    using that by force
  have tx: "((''personal'', a, i), c) \<in> (\<lambda>((a, i), c). ((''personal'', a, i), c)) ` S" if "((a, i), c) \<in> S"
    for a i c and S :: "((string \<times> string) \<times> uuid) set"
    using that by force
  have st: "((r, ''personal'', a, i), c) \<in> (\<lambda>((r, a, i), c). ((r, ''personal'', a, i), c)) ` S" if "((r, a, i), c) \<in> S"
    for r a i c and S :: "((uuid \<times> string \<times> string) \<times> uuid) set"
    using that by force
  have kc: "ct_configs (downgraded m su) = ct_configs su"
    "ct_config_version_rules (downgraded m su) = ct_config_version_rules su" by (simp_all add: downgraded_def)
  show ?thesis unfolding legacy_refs_def runs txs kc list_all_iff
  proof (intro conjI ballI)
    fix s assume "s \<in> set (lg_staged (downgraded m su))"
    then obtain x where x: "x \<in> set (su_staged su)" "s = downgraded_staged x" by (auto simp: downgraded_def)
    show "(ls_run_id s, ls_scope_key s, ls_config_version_id s)
        \<in> (\<lambda>(i, c). (i, ''personal'', c)) ` (\<lambda>r. (run_id r, run_config_version_id r)) ` set (su_runs su)"
      using R x run by (simp add: downgraded_staged_def)
    show "(ls_run_id s, ls_batch_index s) \<in> rb_key ` set (su_batches su)"
      using R x by (simp add: downgraded_staged_def)
  next
    fix c assume "c \<in> set (lg_staged_links (downgraded m su))"
    then obtain x where x: "x \<in> set (su_staged_links su)" "c = downgraded_staged_link x" by (auto simp: downgraded_def)
    show "(lc_tx_key c, lc_config_version_id c) \<in> (\<lambda>((r, a, i), c). ((r, ''personal'', a, i), c)) `
        (\<lambda>s. (st_key s, st_config_version_id s)) ` set (su_staged su)"
      using R x st by (simp add: downgraded_staged_link_def lc_tx_key_def)
    show "(lc_config_version_id c, lc_category_id c, lc_rule_version_id c) \<in> cvr_mapping ` set (ct_config_version_rules su)"
      using R x by (simp add: downgraded_staged_link_def)
  next
    fix t assume "t \<in> set (lg_transactions (downgraded m su))"
    then obtain x where x: "x \<in> set (su_transactions su)" "t = downgraded_transaction x" by (auto simp: downgraded_def)
    show "(lt_first_refresh_run_id t, lt_scope_key t) \<in> (\<lambda>i. (i, ''personal'')) ` run_id ` set (su_runs su)"
      using R x by (simp add: downgraded_transaction_def)
    show "(lt_last_refresh_run_id t, lt_scope_key t, lt_config_version_id t)
        \<in> (\<lambda>(i, c). (i, ''personal'', c)) ` (\<lambda>r. (run_id r, run_config_version_id r)) ` set (su_runs su)"
      using R x run by (simp add: downgraded_transaction_def)
  next
    fix l assume "l \<in> set (lg_links (downgraded m su))"
    then obtain x where x: "x \<in> set (su_links su)" "l = downgraded_link x" by (auto simp: downgraded_def)
    show "(lk_tx_key l, lk_config_version_id l) \<in> (\<lambda>((a, i), c). ((''personal'', a, i), c)) `
        (\<lambda>t. (tx_key t, tx_config_version_id t)) ` set (su_transactions su)"
      using R x tx by (simp add: downgraded_link_def lk_tx_key_def tc_tx_key_def)
    show "(lk_config_version_id l, lk_category_id l, lk_rule_version_id l) \<in> cvr_mapping ` set (ct_config_version_rules su)"
      using R x by (simp add: downgraded_link_def)
  next
    fix s assume "s \<in> set (lg_sync (downgraded m su))"
    then show "(ly_last_refresh_run_id s, ly_scope_key s, ly_config_version_id s)
        \<in> (\<lambda>(i, c). (i, ''personal'', c)) ` (\<lambda>r. (run_id r, run_config_version_id r)) ` set (su_runs su)"
      using R run by (auto simp: downgraded_def downgraded_sync_def)
  qed (use R in \<open>auto simp: downgraded_def downgraded_batch_def\<close>)
qed

section \<open>The downgrade in closed form\<close>

text \<open>What the downgrade needs of the documents and the runs.\<close>

definition downgradable :: "single_user \<Rightarrow> bool" where
  "downgradable su \<longleftrightarrow> (\<forall>k \<in> set (ct_configs su). document_of k \<noteq> None) \<and>
     (\<forall>r \<in> set (su_runs su). request_known (run_request_row r))"

definition scoped :: "env \<Rightarrow> (refresh_run \<Rightarrow> driver_value) \<Rightarrow> single_user \<Rightarrow> legacy_db" where
  "scoped en m su = (downgraded m su)
     \<lparr>ct_configs := map (rewritten_config en True su) (ct_configs su),
      lg_runs := map (\<lambda>r. (downgraded_run m r)\<lparr>lr_request_hash := request_hash_of en True (run_request_row r)\<rparr>)
        (su_runs su)\<rparr>"

definition manifest_for :: "dialect \<Rightarrow> refresh_run \<Rightarrow> driver_value" where
  "manifest_for dia = (case dia of SQLite \<Rightarrow> sqlite_manifest | PostgreSQL \<Rightarrow> postgres_manifest)"

lemma stored_config_hash_cong:
  assumes "ct_categories ct' = ct_categories ct" "ct_rule_versions ct' = ct_rule_versions ct"
    "ct_config_version_rules ct' = ct_config_version_rules ct"
  shows "stored_config_hash en ct' k = stored_config_hash en ct k"
  by (simp add: stored_config_hash_def stored_rules_def assms cong: if_cong)

lemma rewrite_downgraded:
  assumes "single_user_ok su"
  shows "rewrite_legacy (map (config_rewrite_for en True su) (ct_configs su))
      (map (\<lambda>row. (rq_id row, request_hash_of en True row)) (map run_request_row (su_runs su))) (downgraded m su)
    = scoped en m su"
proof -
  have d: "distinct (map run_id (su_runs su))" "distinct (map kc_id (ct_configs su))"
    using assms by (simp_all add: single_user_ok_def load_single_user_iff)
  have rows: "map (\<lambda>row. (rq_id row, request_hash_of en True row)) (map run_request_row (su_runs su))
      = map (\<lambda>r. (run_id r, request_hash_of en True (run_request_row r))) (su_runs su)"
    by (simp add: run_request_row_def)
  have "apply_request_hash_rewrites lr_id (\<lambda>h. lr_request_hash_update (\<lambda>_. h))
      (map (\<lambda>r. (run_id r, request_hash_of en True (run_request_row r))) (su_runs su)) (map (downgraded_run m) (su_runs su))
    = map (\<lambda>r. (downgraded_run m r)\<lparr>lr_request_hash := request_hash_of en True (run_request_row r)\<rparr>) (su_runs su)"
    by (rule request_rewrites_applied [OF d(1)]) simp_all
  then show ?thesis unfolding rows
    by (simp add: rewrite_legacy_def downgraded_def scoped_def config_rewrites_applied [OF d(2)])
qed

lemma scoped_ok:
  assumes ok: "single_user_ok su" and H: "digests en"
  shows "legacy_ok (scoped en m su)"
proof -
  have load: "load_legacy (downgraded m su) = Inr ()" and refs: "legacy_refs (downgraded m su)"
    using ok load_downgraded downgraded_refs by (auto simp: single_user_ok_def)
  have run: "legacy_run_ok (r\<lparr>lr_request_hash := request_hash_of en b row\<rparr>)" if "legacy_run_ok r" for r b row
    using that H by (auto simp: legacy_run_ok_def request_hash_of_def digests_def sha256_hex_def)
  have "load_legacy (scoped en m su) = Inr ()"
    using load run unfolding load_legacy_iff scoped_def downgraded_def by (simp add: comp_def)
  moreover have "legacy_refs (scoped en m su)"
  proof -
    have k: "kc_id ` set (ct_configs (scoped en m su)) = kc_id ` set (ct_configs (downgraded m su))"
      "ct_config_version_rules (scoped en m su) = ct_config_version_rules (downgraded m su)"
      by (simp_all add: scoped_def downgraded_def image_image rewritten_config_def)
    have r: "(\<lambda>r. (lr_id r, lr_scope_key r, lr_config_version_id r)) ` set (lg_runs (scoped en m su))
        = (\<lambda>r. (lr_id r, lr_scope_key r, lr_config_version_id r)) ` set (lg_runs (downgraded m su))"
      "(\<lambda>r. (lr_id r, lr_scope_key r)) ` set (lg_runs (scoped en m su))
        = (\<lambda>r. (lr_id r, lr_scope_key r)) ` set (lg_runs (downgraded m su))"
      "lr_id ` set (lg_runs (scoped en m su)) = lr_id ` set (lg_runs (downgraded m su))"
      "list_all (\<lambda>r. lr_config_version_id r \<in> K) (lg_runs (scoped en m su))
        = list_all (\<lambda>r. lr_config_version_id r \<in> K) (lg_runs (downgraded m su))" for K
      by (simp_all add: scoped_def downgraded_def image_image list_all_iff)
    have t: "lg_batches (scoped en m su) = lg_batches (downgraded m su)" "lg_staged (scoped en m su) = lg_staged (downgraded m su)"
      "lg_staged_links (scoped en m su) = lg_staged_links (downgraded m su)"
      "lg_transactions (scoped en m su) = lg_transactions (downgraded m su)" "lg_links (scoped en m su) = lg_links (downgraded m su)"
      "lg_sync (scoped en m su) = lg_sync (downgraded m su)"
      by (simp_all add: scoped_def)
    show ?thesis using refs unfolding legacy_refs_def k r t .
  qed
  moreover have "map kc_id (ct_configs (scoped en m su)) = map kc_id (ct_configs su)"
    by (simp add: scoped_def rewritten_config_def comp_def)
  ultimately show ?thesis using ok by (simp add: legacy_ok_def single_user_ok_def)
qed

lemma downgrade_rewritten:
  assumes "downgradable su"
  shows "config_rewrites en True su = Inr (map (config_rewrite_for en True su) (ct_configs su))"
    and "request_hash_rewrites en True (map run_request_row (su_runs su))
      = Inr (map (\<lambda>row. (rq_id row, request_hash_of en True row)) (map run_request_row (su_runs su)))"
  using assms unfolding config_rewrites_eq request_hash_rewrites_eq by (auto simp: downgradable_def)

lemma downgraded_checks:
  assumes ok: "single_user_ok su"
  shows "load_legacy (downgraded m su) = Inr ()" and "legacy_refs (downgraded m su)"
    and "guard (map (\<lambda>r. (legacy_run_ok r, CheckFailed ''refresh_runs'')) (lg_runs (downgraded m su))) = Inr ()"
proof -
  show load: "load_legacy (downgraded m su) = Inr ()" and "legacy_refs (downgraded m su)"
    using ok load_downgraded downgraded_refs by (auto simp: single_user_ok_def)
  show "guard (map (\<lambda>r. (legacy_run_ok r, CheckFailed ''refresh_runs'')) (lg_runs (downgraded m su))) = Inr ()"
    using load unfolding guard_eq_Inr load_legacy_iff by (simp add: list_all_iff)
qed

lemma downgrade_eq:
  assumes ok: "single_user_ok su" and d: "downgradable su" and H: "digests en"
    and fk: "env_dialect en = SQLite \<Longrightarrow> foreign_keys" and free: "\<not> batches_frozen en (su_batches su)"
  shows "downgrade_0003 en foreign_keys su = Inr (scoped en (manifest_for (env_dialect en)) su)"
proof -
  let ?configs = "map (config_rewrite_for en True su) (ct_configs su)"
  let ?requests = "map (\<lambda>row. (rq_id row, request_hash_of en True row)) (map run_request_row (su_runs su))"
  note checks = downgraded_checks [OF ok]
  have g: "guard (hash_checks ?configs ?requests) = Inr ()"
    using hash_checks_pass [OF H] by (simp only: guard_eq_Inr)
  have "sqlite_downgrade True su ?configs ?requests = Inr (scoped en sqlite_manifest su)"
    using scoped_ok [OF ok H, of sqlite_manifest] unfolding sqlite_downgrade_def sqlite_atomic_def rewrite_downgraded [OF ok]
    by (simp add: checks(1) g raise_if_def legacy_ok_def del: map_map)
  moreover have "postgres_downgrade su ?configs ?requests = Inr (scoped en postgres_manifest su)" if "su_batches su = []"
  proof -
    have "(downgraded postgres_manifest su)\<lparr>lg_batches := []\<rparr> = downgraded postgres_manifest su"
      using that by (simp add: downgraded_def)
    then show ?thesis using checks unfolding postgres_downgrade_def rewrite_downgraded [OF ok] Let_def
      by (simp add: that g guard.simps rewrite_downgraded [OF ok] del: map_map)
  qed
  ultimately show ?thesis using fk free
    by (cases "env_dialect en")
      (simp_all add: downgrade_0003_def manifest_for_def downgrade_rewritten [OF d] batches_frozen_def del: map_map)
qed

lemma downgrade_frozen:
  assumes ok: "single_user_ok su" and d: "downgradable su" and frozen: "batches_frozen en (su_batches su)"
  shows "downgrade_0003 en foreign_keys su = batch_trigger"
  using frozen downgraded_checks(3) [OF ok, of postgres_manifest]
  by (simp add: downgrade_0003_def downgrade_rewritten [OF d] batches_frozen_def postgres_downgrade_def Let_def del: map_map)

end
