(* ===== verification/SingleUserTheorems.thy ===== *)
theory SingleUserTheorems
  imports SingleUserFacts MoneyRepairFacts RefreshTheorems
begin

text \<open>
  What the single-user migration promises: where it gets through, a database of the scoped schema
  comes out the same on both database systems (on PostgreSQL a batch makes it raise), its hashes
  are those the services compute afterwards, and going down and up again loses staged rows and
  what the scoped schema has no column for.
\<close>

section \<open>The recomputed configuration hash\<close>

lemma stored_rules_eq:
  assumes I: "integrity db" and same: "categories db = ct_categories ct" "rule_versions db = ct_rule_versions ct"
    "config_version_rules db = ct_config_version_rules ct"
  shows "map (\<lambda>(l, r, c). (cat_key c, rv_rule_hash r)) (sort_key (\<lambda>(l, r, c). cat_key c) (rules_for_config db config_id))
    = stored_rules ct config_id"
proof -
  let ?f = "\<lambda>(l, r, c). (cat_key c, rv_rule_hash r) :: string \<times> string"
  let ?rows = "concat (map (\<lambda>l. map ?f (link_row db config_id l)) (config_version_rules db))"
  have d: "distinct (map cat_id (categories db))" "distinct (map rv_id (rule_versions db))"
    using I by (simp_all add: integrity_def keys_unique_def)
  have row: "(if cvr_config_version_id l = config_id then
      concat (map (\<lambda>c. if cat_id c = cvr_category_id l then
        concat (map (\<lambda>rv. if rv_id rv = cvr_rule_version_id l then [(cat_key c, rv_rule_hash rv)] else []) (rule_versions db))
        else []) (categories db)) else []) = map ?f (link_row db config_id l)" for l
    by (simp add: concat_unique [OF d(1)] concat_unique [OF d(2)] link_row_def split: option.splits)
  have R: "stored_rules ct config_id = sort_key fst ?rows"
    unfolding stored_rules_def same [symmetric] by (simp add: row)
  have m: "mset (map ?f (rules_for_config db config_id)) = mset ?rows"
    unfolding rules_for_config_rows [OF I] mset_map mset_sort map_concat [symmetric]
    by (simp add: map_concat comp_def flip: mset_map)
  have "distinct (map fst (map ?f (rules_for_config db config_id)))"
    using distinct_rules_for_config [OF I, of config_id] by (simp add: comp_def case_prod_beta')
  then have "inj_on fst (set (map ?f (rules_for_config db config_id)))" by (simp only: distinct_map)
  from sort_key_perm [OF m this] have "sort_key fst (map ?f (rules_for_config db config_id)) = stored_rules ct config_id"
    unfolding R .
  then show ?thesis by (simp add: sort_key_map case_prod_beta')
qed

section \<open>The services on the upgraded tables\<close>

text \<open>The database a service reads from the tables, as far as the hashes depend on it.\<close>

definition serves :: "single_user \<Rightarrow> db \<Rightarrow> bool" where
  "serves su db \<longleftrightarrow> categories db = ct_categories su \<and> rule_versions db = ct_rule_versions su \<and>
     config_version_rules db = ct_config_version_rules su \<and> refresh_runs db = su_runs su \<and>
     map (\<lambda>v. (cv_id v, cv_timezone v, cv_display_currency v, cv_aggregation_version v, cv_config_hash v)) (config_versions db)
       = map (\<lambda>k. (kc_id k, kc_timezone k, kc_display_currency k, kc_aggregation_version k, kc_config_hash k)) (ct_configs su)"

lemma serves_config:
  assumes s: "serves su db" and I: "integrity db" and v: "v \<in> set (config_versions db)"
  obtains k where "k \<in> set (ct_configs su)" "cv_config_hash v = kc_config_hash k"
    "semantic_hash_for_config en db v = stored_config_hash en su k"
proof -
  have "(cv_id v, cv_timezone v, cv_display_currency v, cv_aggregation_version v, cv_config_hash v)
      \<in> set (map (\<lambda>v. (cv_id v, cv_timezone v, cv_display_currency v, cv_aggregation_version v, cv_config_hash v)) (config_versions db))"
    using v by simp
  then have "(cv_id v, cv_timezone v, cv_display_currency v, cv_aggregation_version v, cv_config_hash v)
      \<in> set (map (\<lambda>k. (kc_id k, kc_timezone k, kc_display_currency k, kc_aggregation_version k, kc_config_hash k)) (ct_configs su))"
    using s by (simp only: serves_def)
  then obtain k where k: "k \<in> set (ct_configs su)" "cv_id v = kc_id k" "cv_timezone v = kc_timezone k"
    "cv_display_currency v = kc_display_currency k" "cv_aggregation_version v = kc_aggregation_version k"
    "cv_config_hash v = kc_config_hash k" by auto
  moreover have "semantic_hash_for_config en db v = stored_config_hash en su k"
    using stored_rules_eq [OF I, of su "cv_id v"] s k by (simp add: semantic_hash_for_config_def stored_config_hash_def serves_def)
  ultimately show thesis using that by blast
qed

text \<open>The request that started a run, as its validator gives it.\<close>

definition request_of :: "refresh_run \<Rightarrow> begin_request" where
  "request_of r = \<lparr>br_mode = (if run_mode r = FULL then ''FULL_REBUILD'' else ''INCREMENTAL''),
     br_source_from_date = the (run_source_from_date r), br_source_to_date = the (run_source_to_date r),
     br_expected_accounts = sort (run_expected_accounts r)\<rparr>"

lemma request_hash_upgraded:
  "request_known (legacy_request_row r) \<Longrightarrow>
   request_hash_of en False (legacy_request_row r) = sha256_hex (env_sha256 en) (begin_json (request_of (upgraded_run en' r)))"
  by (auto simp: request_hash_of_def request_json_def begin_json_def request_of_def request_known_def
      legacy_request_row_def upgraded_run_def)

lemma replayed:
  assumes I: "integrity db" and r: "r \<in> set (refresh_runs db)"
    and h: "run_request_hash r = sha256_hex (env_sha256 en) (begin_json request)"
  shows "\<exists>v. begin_refresh en request (run_idempotency_key r) n m db = Inr (v, db) \<and> bv_run_id v = run_id r"
proof -
  have "distinct (map run_idempotency_key (refresh_runs db))" using I by (simp add: integrity_def keys_unique_def)
  then have g: "get_row run_idempotency_key (run_idempotency_key r) (refresh_runs db) = Some r"
    by (rule get_row_distinct [OF _ r])
  have "run_config_version_id r \<in> cv_id ` set (config_versions db)"
    using I r by (auto simp: integrity_def config_refs_def)
  then obtain c where "get_row cv_id (run_config_version_id r) (config_versions db) = Some c"
    by (cases "get_row cv_id (run_config_version_id r) (config_versions db)") (auto simp: get_row_None)
  then show ?thesis by (simp add: begin_refresh_def replay_begin_def g h begin_response_def raise_if_def)
qed

lemma upgraded_cong:
  assumes "env_sha256 en' = env_sha256 en" and "server_now en' = server_now en"
  shows "upgraded en' lg = upgraded en lg"
  by (simp add: upgraded_def copied_def upgraded_run_def [abs_def] rewritten_config_def [abs_def] stored_config_hash_def
      request_hash_of_def assms)

text \<open>
  C15: Which databases of revision 0002 upgrade, on either database system. On SQLite it is
  exactly those in which all rows and documents have one scope, every source document is an
  object and every run has its dates and a list of accounts. On PostgreSQL there must also be no
  batch: the trigger of \<open>0001_initial.py\<close> that keeps batches immutable is still in force and
  makes the migration raise. Where both succeed, the PostgreSQL migration, which alters the
  tables in place, gives the same tables as the SQLite migration, which copies them, and they
  satisfy the constraints of the new schema. (The clock of SQLite has whole seconds.)
\<close>

theorem upgrade_on_both:
  assumes ok: "legacy_ok lg" and H: "digests en" and "env_dialect en = SQLite" and "env_now en mod 1000000 = 0"
  shows "(upgrade_0003 en repr True lg = Inr su \<longleftrightarrow> upgradable repr lg \<and> su = upgraded en lg) \<and>
    (upgrade_0003 (en\<lparr>env_dialect := PostgreSQL\<rparr>) repr foreign_keys lg = Inr su
       \<longleftrightarrow> upgradable repr lg \<and> lg_batches lg = [] \<and> su = upgraded en lg) \<and>
    (upgradable repr lg \<and> lg_batches lg \<noteq> [] \<longrightarrow>
       upgrade_0003 (en\<lparr>env_dialect := PostgreSQL\<rparr>) repr foreign_keys lg
         = Inl (Integrity (TriggerAbort ''trg_refresh_batches_immutable''))) \<and>
    (upgradable repr lg \<longrightarrow> single_user_ok (upgraded en lg))"
proof -
  let ?en = "en\<lparr>env_dialect := PostgreSQL\<rparr>"
  have H': "digests ?en" using H by (simp add: digests_def)
  have same: "upgraded ?en lg = upgraded en lg"
    by (rule upgraded_cong) (use assms(3,4) in \<open>simp_all add: server_now_def\<close>)
  have "upgrade_0003 ?en repr foreign_keys lg = Inr su
      \<longleftrightarrow> upgradable repr lg \<and> \<not> batches_frozen ?en (lg_batches lg) \<and> su = upgraded ?en lg"
    by (rule upgrade_iff [OF ok H']) simp
  then have "upgrade_0003 ?en repr foreign_keys lg = Inr su \<longleftrightarrow> upgradable repr lg \<and> lg_batches lg = [] \<and> su = upgraded en lg"
    by (simp add: batches_frozen_def same)
  moreover have "upgrade_0003 ?en repr foreign_keys lg = batch_trigger" if "upgradable repr lg" "lg_batches lg \<noteq> []"
    by (rule upgrade_frozen [OF ok that(1) H']) (simp add: batches_frozen_def that(2))
  moreover have "upgrade_0003 en repr True lg = Inr su \<longleftrightarrow> upgradable repr lg \<and> \<not> batches_frozen en (lg_batches lg) \<and> su = upgraded en lg"
    by (rule upgrade_iff [OF ok H]) simp
  then have "upgrade_0003 en repr True lg = Inr su \<longleftrightarrow> upgradable repr lg \<and> su = upgraded en lg"
    by (simp add: batches_frozen_def assms(3))
  ultimately show ?thesis using upgraded_ok [OF ok _ H] by blast
qed

text \<open>
  C16: The recomputed hashes are those of the services. After an upgrade every configuration
  carries the semantic hash the configuration service computes for it, so that a PUT still
  recognises the active rules, and starting any of the old runs again, with its key and its
  request, answers with that run instead of an idempotency conflict.
\<close>

theorem upgrade_hashes_agree:
  assumes ok: "legacy_ok lg" and H: "digests en" and fk: "env_dialect en = SQLite \<Longrightarrow> foreign_keys"
    and up: "upgrade_0003 en repr foreign_keys lg = Inr su" and s: "serves su db" and I: "integrity db"
  shows "(\<forall>v \<in> set (config_versions db). cv_config_hash v = semantic_hash_for_config en db v) \<and>
    (\<forall>r \<in> set (refresh_runs db). \<exists>view. begin_refresh en (request_of r) (run_idempotency_key r) n m db = Inr (view, db)
       \<and> bv_run_id view = run_id r)"
proof -
  have u: "upgradable repr lg" "su = upgraded en lg" using upgrade_iff [OF ok H fk] up by blast+
  have "cv_config_hash v = semantic_hash_for_config en db v" if v: "v \<in> set (config_versions db)" for v
  proof -
    obtain k where k: "k \<in> set (ct_configs su)" "cv_config_hash v = kc_config_hash k"
      "semantic_hash_for_config en db v = stored_config_hash en su k"
      by (rule serves_config [OF s I v, of en])
    have c: "stored_config_hash en su x = stored_config_hash en lg x" for x
      by (rule stored_config_hash_cong) (simp_all add: u(2) upgraded_def copied_def)
    obtain k' where k': "k = rewritten_config en False lg k'"
      using k(1) by (auto simp: u(2) upgraded_def)
    have "kc_config_hash k = stored_config_hash en lg k"
      unfolding k' by (simp add: rewritten_config_def stored_config_hash_def)
    then show ?thesis using k(2,3) c by simp
  qed
  moreover have "\<exists>view. begin_refresh en (request_of r) (run_idempotency_key r) n m db = Inr (view, db) \<and> bv_run_id view = run_id r"
    if r: "r \<in> set (refresh_runs db)" for r
  proof -
    obtain l where l: "l \<in> set (lg_runs lg)"
      "r = (upgraded_run en l)\<lparr>run_request_hash := request_hash_of en False (legacy_request_row l)\<rparr>"
      using r s by (auto simp: serves_def u(2) upgraded_def)
    have "request_of r = request_of (upgraded_run en l)" by (simp add: l(2) request_of_def)
    then have "run_request_hash r = sha256_hex (env_sha256 en) (begin_json (request_of r))"
      using u(1) l by (simp add: upgradable_def request_hash_upgraded)
    from replayed [OF I r this] show ?thesis .
  qed
  ultimately show ?thesis by blast
qed

section \<open>Down and up again\<close>

text \<open>
  The tables as the services keep them: documents without the two keys of the scoped schema,
  hashes that are the computed ones, runs with dates, and completed accounts on the committed
  runs only, which are the expected ones.
\<close>

definition kept_config :: "env \<Rightarrow> single_user \<Rightarrow> stored_config \<Rightarrow> bool" where
  "kept_config en su k \<longleftrightarrow>
     (case kc_source_config k of
        Value (JObj kvs) \<Rightarrow> list_all (\<lambda>(name, j). name \<noteq> ''account_ids'' \<and> name \<noteq> ''scope_key'') kvs
      | _ \<Rightarrow> False) \<and>
     kc_config_hash k = stored_config_hash en su k"

definition kept_run :: "env \<Rightarrow> refresh_run \<Rightarrow> bool" where
  "kept_run en r \<longleftrightarrow> run_source_from_date r \<noteq> None \<and> run_source_to_date r \<noteq> None \<and>
     run_request_hash r = sha256_hex (env_sha256 en) (begin_json (request_of r)) \<and>
     run_completed_accounts r = (if run_state r = COMMITTED then Some (run_expected_accounts r) else None)"

definition kept :: "env \<Rightarrow> single_user \<Rightarrow> bool" where
  "kept en su \<longleftrightarrow> list_all (kept_config en su) (ct_configs su) \<and> list_all (kept_run en) (su_runs su)"

lemma kept_configD:
  assumes "kept_config en su k"
  obtains kvs where "kc_source_config k = Value (JObj kvs)" "document_of k = Some kvs"
    "list_all (\<lambda>(name, j). name \<noteq> ''account_ids'' \<and> name \<noteq> ''scope_key'') kvs"
    "kc_config_hash k = stored_config_hash en su k"
  using assms that
  by (auto simp: kept_config_def document_of_def json_value_def decoded_def parsed_def split: driver_value.splits json.splits)

lemma accounts_in_array [simp]: "accounts_in (account_array accounts) = Inr accounts"
  by (simp add: accounts_in_def account_array_def json_value_def decoded_def parsed_def json_strings_def list_all_iff comp_def)

lemma stored_accounts_array [simp]: "stored_accounts (account_array accounts) = accounts"
  by (simp add: stored_accounts_def)

lemma request_known_run:
  "run_source_from_date r \<noteq> None \<Longrightarrow> run_source_to_date r \<noteq> None \<Longrightarrow> request_known (run_request_row r)"
  by (cases "run_mode r") (simp_all add: request_known_def run_request_row_def refresh_mode_value_def)

lemma legacy_row_downgraded: "legacy_request_row ((downgraded_run m r)\<lparr>lr_request_hash := h\<rparr>) = run_request_row r"
  by (simp add: legacy_request_row_def run_request_row_def downgraded_run_def)

lemma rewritten_source_scope:
  assumes "list_all (\<lambda>(name, j). name \<noteq> ''account_ids'' \<and> name \<noteq> ''scope_key'') kvs"
  shows "rewritten_source False (rewritten_source True kvs) = kvs"
    and "map_of (rewritten_source True kvs) ''scope_key'' = Some (JStr ''personal'')"
proof -
  have f: "filter (\<lambda>(k, v). k \<noteq> ''account_ids'' \<and> k \<noteq> ''scope_key'') kvs = kvs"
    using assms by (intro filter_True) (auto simp: list_all_iff)
  then show "rewritten_source False (rewritten_source True kvs) = kvs" by (simp add: rewritten_source_def)
  have "map_of kvs ''scope_key'' = None"
    using assms by (auto simp: map_of_eq_None_iff list_all_iff)
  then show "map_of (rewritten_source True kvs) ''scope_key'' = Some (JStr ''personal'')"
    by (simp add: rewritten_source_def f map_add_def)
qed

lemma document_of_rewritten:
  "document_of (rewritten_config en b ct k) = Some (rewritten_source b (the (document_of k)))"
  by (simp add: document_of_def rewritten_config_def json_value_def decoded_def parsed_def)

lemma scoped_scopes:
  assumes k: "kept en su"
  shows "assert_single_legacy_scope repr (scoped en m su) = Inr ()"
proof -
  have doc: "document_scope repr c = Inr [''personal'']" if c: "c \<in> set (ct_configs (scoped en m su))" for c
  proof -
    obtain k' where k': "k' \<in> set (ct_configs su)" "c = rewritten_config en True su k'"
      using c by (auto simp: scoped_def)
    then have "kept_config en su k'" using k by (simp add: kept_def list_all_iff)
    then obtain kvs where kvs: "document_of k' = Some kvs"
      "list_all (\<lambda>(name, j). name \<noteq> ''account_ids'' \<and> name \<noteq> ''scope_key'') kvs" by (rule kept_configD)
    show ?thesis
      using rewritten_source_scope(2) [OF kvs(2)]
      by (simp add: k'(2) document_scope_def rewritten_config_def json_value_def decoded_def parsed_def kvs(1)
          scope_text_def scalar_text_def)
  qed
  have m: "map_each (document_scope repr) (ct_configs (scoped en m su))
      = Inr (map (\<lambda>c. [''personal'']) (ct_configs (scoped en m su)))"
    by (rule map_each_total) (rule doc)
  have "set (table_scopes (scoped en m su)) \<subseteq> {''personal''}"
    by (auto simp: table_scopes_def scoped_def downgraded_def downgraded_staged_def downgraded_staged_link_def
        downgraded_transaction_def downgraded_link_def downgraded_sync_def)
  then have "set (table_scopes (scoped en m su) @ concat (map (\<lambda>c. [''personal'']) (ct_configs (scoped en m su))))
      \<subseteq> {''personal''}" by auto
  then have "card (set (table_scopes (scoped en m su) @ concat (map (\<lambda>c. [''personal'']) (ct_configs (scoped en m su))))) \<le> 1"
    using card_mono [of "{''personal''}"] by fastforce
  then have "\<not> 1 < card (set (table_scopes (scoped en m su) @ concat (map (\<lambda>c. [''personal'']) (ct_configs (scoped en m su)))))"
    by (simp only: not_less)
  then show ?thesis unfolding assert_single_legacy_scope_def legacy_scopes_def m bindR_Inr raise_if_def by (simp only: if_False)
qed

text \<open>A run after going down and up, when it was left unfinished and otherwise.\<close>

definition settled :: "env \<Rightarrow> refresh_run \<Rightarrow> refresh_run" where
  "settled en r =
     (if unfinished (run_state r)
      then r\<lparr>run_state := FAILED, run_sync_revision_before := None, run_failed_at := Some (server_now en),
             run_error_code := Some ''upgrade_invalidated''\<rparr>
      else r\<lparr>run_sync_revision_before := None\<rparr>)"

lemma run_down_up:
  assumes "kept_run en r" and "env_sha256 en' = env_sha256 en"
  shows "(upgraded_run en' ((downgraded_run m r)\<lparr>lr_request_hash := h\<rparr>))
      \<lparr>run_request_hash := request_hash_of en' False (run_request_row r)\<rparr> = settled en' r"
proof -
  have "request_hash_of en' False (run_request_row r) = run_request_hash r"
    using assms by (cases "run_mode r")
      (auto simp: kept_run_def request_hash_of_def request_json_def begin_json_def request_of_def run_request_row_def
        refresh_mode_value_def)
  moreover have "run_completed_accounts r = (if run_state r = COMMITTED then Some (run_expected_accounts r) else None)"
    using assms(1) by (simp add: kept_run_def)
  ultimately show ?thesis
    by (cases "run_mode r"; cases "run_state r";
        intro refresh_run.equality)
      (simp_all add: upgraded_run_def downgraded_run_def settled_def unfinished_def refresh_mode_value_def)
qed

lemma rows_down_up:
  "upgraded_batch (downgraded_batch b) = b"
  "upgraded_transaction (downgraded_transaction t) = t\<lparr>tx_account_name := None\<rparr>"
  "upgraded_link (downgraded_link c) = c"
  "ss_id s = 1 \<Longrightarrow> upgraded_sync (downgraded_sync s) = s"
  by (simp_all add: upgraded_batch_def downgraded_batch_def upgraded_transaction_def downgraded_transaction_def
      status_text_def upgraded_link_def downgraded_link_def upgraded_sync_def downgraded_sync_def)

lemma config_down_up:
  assumes "kept_config en su k" and "env_sha256 en' = env_sha256 en"
  shows "rewritten_config en' False (scoped en m su) (rewritten_config en True su k) = k"
proof -
  obtain kvs where kvs: "kc_source_config k = Value (JObj kvs)" "document_of k = Some kvs"
    "list_all (\<lambda>(name, j). name \<noteq> ''account_ids'' \<and> name \<noteq> ''scope_key'') kvs"
    "kc_config_hash k = stored_config_hash en su k" by (rule kept_configD [OF assms(1)])
  have "stored_config_hash en' (scoped en m su) (rewritten_config en True su k) = kc_config_hash k"
    by (simp add: kvs(4) stored_config_hash_def rewritten_config_def stored_rules_def scoped_def downgraded_def assms(2)
        cong: if_cong)
  then show ?thesis
    using kvs(1) unfolding rewritten_config_def [of en' False] document_of_rewritten
    by (intro stored_config.equality)
      (simp_all add: kvs(2) rewritten_source_scope(1) [OF kvs(3)], simp_all add: rewritten_config_def)
qed

definition down_up :: "env \<Rightarrow> single_user \<Rightarrow> single_user" where
  "down_up en su = su
     \<lparr>su_runs := map (settled en) (su_runs su), su_staged := [], su_staged_links := [],
      su_transactions := map (\<lambda>t. t\<lparr>tx_account_name := None\<rparr>) (su_transactions su)\<rparr>"

lemma upgradable_scoped:
  assumes "kept en su"
  shows "upgradable repr (scoped en m su)" and "downgradable su"
proof -
  show d: "downgradable su"
    using assms by (auto simp: downgradable_def kept_def list_all_iff kept_run_def intro!: request_known_run
        elim!: kept_configD)
  show "upgradable repr (scoped en m su)" unfolding upgradable_def
  proof (intro conjI)
    show "assert_single_legacy_scope repr (scoped en m su) = Inr ()" by (rule scoped_scopes [OF assms])
  qed (use d in \<open>simp_all add: scoped_def document_of_rewritten legacy_row_downgraded downgradable_def\<close>)
qed

lemma upgraded_scoped:
  assumes ok: "single_user_ok su" and k: "kept en su" and H: "env_sha256 en' = env_sha256 en"
  shows "upgraded en' (scoped en m su) = down_up en' su"
proof (rule single_user.equality)
  have "ct_configs (scoped en m su) = map (rewritten_config en True su) (ct_configs su)" by (simp add: scoped_def)
  then have "ct_configs (upgraded en' (scoped en m su))
      = map (\<lambda>k. rewritten_config en' False (scoped en m su) (rewritten_config en True su k)) (ct_configs su)"
    by (simp add: upgraded_def)
  also have "\<dots> = ct_configs su"
    by (rule map_idI) (use k config_down_up [OF _ H] in \<open>simp add: kept_def list_all_iff\<close>)
  finally show "ct_configs (upgraded en' (scoped en m su)) = ct_configs (down_up en' su)" by (simp add: down_up_def)
  show "su_runs (upgraded en' (scoped en m su)) = su_runs (down_up en' su)"
    using k run_down_up [OF _ H] by (simp add: upgraded_def scoped_def kept_def list_all_iff legacy_row_downgraded down_up_def)
  have "ss_id s = 1" if "s \<in> set (su_sync su)" for s
    using ok that by (auto simp: single_user_ok_def load_single_user_iff sync_row_checks_def)
  then show "su_sync (upgraded en' (scoped en m su)) = su_sync (down_up en' su)"
    by (simp add: upgraded_def copied_def scoped_def downgraded_def comp_def rows_down_up map_idI down_up_def)
qed (simp_all add: upgraded_def copied_def scoped_def downgraded_def comp_def rows_down_up down_up_def)

text \<open>
  C17: Going down to revision 0002 and up again. On SQLite, and on PostgreSQL when there is no
  batch, both migrations succeed on the tables the services keep, and the same configuration,
  batches, live transactions, links and sync state come back, except for this: transactions lose
  their account names, runs the sync revision they were started at, all staged rows are gone,
  and the runs that were still open are marked as failed. On PostgreSQL with a batch the
  downgrade raises, for the trigger that keeps batches immutable.
\<close>

theorem downgrade_upgrade:
  assumes ok: "single_user_ok su" and k: "kept en su" and H: "digests en"
    and fk: "env_dialect en = SQLite \<Longrightarrow> foreign_keys"
    and en': "env_sha256 en' = env_sha256 en" "env_dialect en' = env_dialect en"
  shows "if env_dialect en = PostgreSQL \<and> su_batches su \<noteq> []
    then downgrade_0003 en foreign_keys su = Inl (Integrity (TriggerAbort ''trg_refresh_batches_immutable''))
    else \<exists>lg. downgrade_0003 en foreign_keys su = Inr lg \<and> legacy_ok lg \<and>
      upgrade_0003 en' repr foreign_keys lg = Inr (su
        \<lparr>su_runs := map (settled en') (su_runs su), su_staged := [], su_staged_links := [],
         su_transactions := map (\<lambda>t. t\<lparr>tx_account_name := None\<rparr>) (su_transactions su)\<rparr>)"
proof (cases "batches_frozen en (su_batches su)")
  case True
  with downgrade_frozen [OF ok upgradable_scoped(2) [OF k]] show ?thesis by (simp add: batches_frozen_def)
next
  case False
  let ?lg = "scoped en (manifest_for (env_dialect en)) su"
  have "downgrade_0003 en foreign_keys su = Inr ?lg"
    by (rule downgrade_eq [OF ok upgradable_scoped(2) [OF k] H fk False])
  moreover have lg: "legacy_ok ?lg" by (rule scoped_ok [OF ok H])
  moreover have "lg_batches ?lg = map downgraded_batch (su_batches su)" by (simp add: scoped_def downgraded_def)
  then have "upgrade_0003 en' repr foreign_keys ?lg = Inr (upgraded en' ?lg)"
    using H fk upgradable_scoped(1) [OF k] False
    by (intro upgrade_eq [OF lg]) (simp_all add: digests_def batches_frozen_def en')
  ultimately show ?thesis using False upgraded_scoped [OF ok k en'(1)] by (auto simp: down_up_def batches_frozen_def)
qed

section \<open>An example\<close>

text \<open>The tables of the refresh example, and the scoped database they come from.\<close>

definition live_tables :: single_user where
  "live_tables = \<lparr>ct_categories = categories live_db, ct_rule_versions = rule_versions live_db,
     ct_config_version_rules = config_version_rules live_db,
     ct_configs = [\<lparr>kc_id = 3001, kc_timezone = ''UTC'', kc_display_currency = ''USD'', kc_aggregation_version = 1,
       kc_config_hash = zeros, kc_source_config = Value (source_json request0)\<rparr>],
     su_runs = refresh_runs live_db, su_batches = refresh_batches live_db, su_staged = [], su_staged_links = [],
     su_transactions = transactions live_db, su_links = transaction_categories live_db,
     su_sync = sync_states live_db\<rparr>"

definition sqlite_env :: env where
  "sqlite_env = toy_env\<lparr>env_dialect := SQLite\<rparr>"

lemma sqlite_env_simps [simp]:
  "env_dialect sqlite_env = SQLite" "env_sha256 sqlite_env = toy_digest" "env_now sqlite_env mod 1000000 = 0"
  "digests sqlite_env" "digests toy_env"
  by (simp_all add: sqlite_env_def digests_def toy_digest_def zeros_def)

lemmas live_rows = live_tables_def live_db_def db1_def empty_db_def run2_def run1_def run0_def stored_batch_def
  live_coffee_def food_link_def food_rule_def food_row_def

lemma live_tables_ok: "single_user_ok live_tables"
  unfolding single_user_ok_def load_single_user_iff single_user_refs_def
  by (simp add: live_rows run_checks_def batch_checks_def transaction_checks_def sync_row_checks_def opt_ok_def toy_digest_len
      refund_consistent_def rb_key_def tx_key_def tc_tx_key_def tc_key_def cvr_mapping_def)

lemma live_tables_kept: "env_sha256 en = toy_digest \<Longrightarrow> kept en live_tables"
  by (simp add: kept_def live_rows kept_config_def source_json_def stored_config_hash_def sha256_hex_def toy_digest_def
      kept_run_def)

definition legacy0 :: legacy_db where
  "legacy0 = scoped sqlite_env sqlite_manifest live_tables"

lemma legacy0_ok:
  "legacy_ok legacy0" "upgradable repr legacy0" "upgraded sqlite_env legacy0 = live_tables" "lg_batches legacy0 \<noteq> []"
proof -
  show "legacy_ok legacy0" unfolding legacy0_def by (rule scoped_ok [OF live_tables_ok]) simp
  show "upgradable repr legacy0" unfolding legacy0_def by (rule upgradable_scoped [OF live_tables_kept]) simp
  have "upgraded sqlite_env legacy0 = down_up sqlite_env live_tables"
    unfolding legacy0_def by (rule upgraded_scoped [OF live_tables_ok live_tables_kept]) simp_all
  also have "\<dots> = live_tables" by (simp add: down_up_def live_rows settled_def unfinished_def)
  finally show "upgraded sqlite_env legacy0 = live_tables" .
  show "lg_batches legacy0 \<noteq> []" by (simp add: legacy0_def scoped_def downgraded_def live_rows)
qed

definition unbatched0 :: legacy_db where
  "unbatched0 = scoped sqlite_env sqlite_manifest (live_tables\<lparr>su_batches := []\<rparr>)"

lemma unbatched0_ok:
  "legacy_ok unbatched0" "upgradable repr unbatched0" "upgraded sqlite_env unbatched0 = live_tables\<lparr>su_batches := []\<rparr>"
  "lg_batches unbatched0 = []"
proof -
  let ?su = "live_tables\<lparr>su_batches := []\<rparr>"
  have ok: "single_user_ok ?su"
    using live_tables_ok by (simp add: single_user_ok_def load_single_user_iff single_user_refs_def live_rows)
  have k: "kept sqlite_env ?su" 
    by (simp add: kept_def live_rows kept_config_def source_json_def stored_config_hash_def stored_rules_def sha256_hex_def
        toy_digest_def kept_run_def)
  show "legacy_ok unbatched0" unfolding unbatched0_def by (rule scoped_ok [OF ok]) simp
  show "upgradable repr unbatched0" unfolding unbatched0_def by (rule upgradable_scoped [OF k])
  have "upgraded sqlite_env unbatched0 = down_up sqlite_env ?su"
    unfolding unbatched0_def by (rule upgraded_scoped [OF ok k]) simp
  also have "\<dots> = ?su" by (simp add: down_up_def live_rows settled_def unfinished_def)
  finally show "upgraded sqlite_env unbatched0 = ?su" .
  show "lg_batches unbatched0 = []" by (simp add: unbatched0_def scoped_def downgraded_def)
qed

text \<open>The same database without its batch upgrades on PostgreSQL too.\<close>

lemma upgrade_on_both_witness:
  "upgrade_0003 sqlite_env (\<lambda>j. []) True legacy0 = Inr live_tables \<and>
   upgrade_0003 (sqlite_env\<lparr>env_dialect := PostgreSQL\<rparr>) (\<lambda>j. []) False legacy0
     = Inl (Integrity (TriggerAbort ''trg_refresh_batches_immutable'')) \<and>
   upgrade_0003 (sqlite_env\<lparr>env_dialect := PostgreSQL\<rparr>) (\<lambda>j. []) False unbatched0
     = Inr (live_tables\<lparr>su_batches := []\<rparr>) \<and>
   single_user_ok (upgraded sqlite_env legacy0)"
  using upgrade_on_both [of legacy0 sqlite_env "\<lambda>j. []" live_tables False]
    upgrade_on_both [of unbatched0 sqlite_env "\<lambda>j. []" "live_tables\<lparr>su_batches := []\<rparr>" False]
    legacy0_ok unbatched0_ok by simp

lemma upgrade_hashes_agree_witness:
  "cv_config_hash first_config = semantic_hash_for_config sqlite_env live_db first_config \<and>
   (\<exists>view. begin_refresh sqlite_env (request_of run2) ''key-0001'' 500 100000 live_db = Inr (view, live_db)
      \<and> bv_run_id view = 4001)"
proof -
  have up: "upgrade_0003 sqlite_env (\<lambda>j. []) True legacy0 = Inr live_tables"
    using upgrade_eq [OF legacy0_ok(1,2), of sqlite_env True] by (simp add: legacy0_ok(3) batches_frozen_def)
  have s: "serves live_tables live_db" by (simp add: serves_def live_rows first_config_def)
  have I: "integrity live_db" using history_inv by (simp add: sys_inv_def config_inv_def)
  have r: "run2 \<in> set (refresh_runs live_db)" "run_idempotency_key run2 = ''key-0001''" "run_id run2 = 4001"
    "first_config \<in> set (config_versions live_db)"
    by (simp_all add: live_db_def db1_def run2_def run1_def run0_def)
  from upgrade_hashes_agree [OF legacy0_ok(1) _ _ up s I, of 500 100000] r show ?thesis by fastforce
qed

lemma downgrade_upgrade_witness:
  "(\<exists>lg. downgrade_0003 sqlite_env True live_tables = Inr lg \<and> legacy_ok lg \<and>
     upgrade_0003 sqlite_env (\<lambda>j. []) True lg = Inr live_tables) \<and>
   downgrade_0003 toy_env False live_tables = Inl (Integrity (TriggerAbort ''trg_refresh_batches_immutable''))"
  using downgrade_upgrade [OF live_tables_ok live_tables_kept, of sqlite_env True sqlite_env "\<lambda>j. []"]
    downgrade_upgrade [OF live_tables_ok live_tables_kept, of toy_env False toy_env "\<lambda>j. []"]
  by (simp add: live_rows settled_def unfinished_def)

end
