(* ===== verification/JsonFuel.thy ===== *)
theory JsonFuel
  imports JsonFacts
begin

text \<open>
  The fuel of the JSON parser is enough for every text, also for one that is not a document: more
  fuel never changes the answer, so a rejected text is malformed.
\<close>

section \<open>Parsing reads characters\<close>

lemma map_rest: "map_option (\<lambda>(x, r). (g x, r)) m = Some (y, r) \<Longrightarrow> \<exists>x. m = Some (x, r)"
  by (cases m) auto

lemma scanstring_shorter: "scanstring s = Some (t, r) \<Longrightarrow> length r < length s"
proof (induction s arbitrary: t r rule: measure_induct_rule [of length])
  case (less s)
  have IH: "length r < length s" if m: "map_option (\<lambda>(s, r). (x # s, r)) (scanstring s') = Some (t, r)"
    and l: "length s' < length s" for x :: char and s'
  proof -
    obtain t' where "scanstring s' = Some (t', r)" using map_rest [OF m] by blast
    from less.IH [OF l this] l show ?thesis by simp
  qed
  obtain c cs where s: "s = c # cs" using less.prems by (cases s) auto
  consider "c = CHR 0x22" | "c = CHR 0x5C" | "c \<noteq> CHR 0x22" "c \<noteq> CHR 0x5C" by blast
  then show ?case
  proof cases
    case 1
    then show ?thesis using less.prems s by simp
  next
    case 3
    then have "map_option (\<lambda>(s, r). (c # s, r)) (scanstring cs) = Some (t, r)"
      using less.prems s by (simp split: if_splits)
    then show ?thesis by (rule IH) (simp add: s)
  next
    case 2
    then obtain u us where cs: "cs = u # us" using less.prems s by (cases cs) auto
    have simple: ?thesis if m: "(case simple_escape u of None \<Rightarrow> None
        | Some x \<Rightarrow> map_option (\<lambda>(s, r). (x # s, r)) (scanstring us)) = Some (t, r)"
    proof -
      obtain x where "map_option (\<lambda>(s, r). (x # s, r)) (scanstring us) = Some (t, r)"
        using m by (auto split: option.splits)
      then show ?thesis by (rule IH) (simp add: s cs)
    qed
    show ?thesis
    proof (cases "\<exists>a b d e r'. us = a # b # d # e # r' \<and> u = CHR ''u''")
      case True
      then obtain a b d e r' where us: "us = a # b # d # e # r'" "u = CHR ''u''" by blast
      then obtain x where "map_option (\<lambda>(s, r). (x # s, r)) (scanstring r') = Some (t, r)"
        using less.prems s cs 2 by (auto split: option.splits if_splits)
      then show ?thesis by (rule IH) (simp add: s cs us)
    next
      case False
      have "scanstring s = (case simple_escape u of None \<Rightarrow> None
          | Some x \<Rightarrow> map_option (\<lambda>(s, r). (x # s, r)) (scanstring us))"
        using False by (simp add: s cs 2 split: list.splits) (auto split: list.splits)
      with less.prems simple show ?thesis by simp
    qed
  qed
qed

lemma skip_ws_length: "length (skip_ws s) \<le> length s"
  by (simp add: skip_ws_def length_dropWhile_le)

lemma scan_nat_shorter: "scan_nat t = Some (n, r) \<Longrightarrow> length r < length t"
proof -
  assume s: "scan_nat t = Some (n, r)"
  then have d: "digit_run t \<noteq> []" "r = drop (length (digit_run t)) t"
    by (auto simp: scan_nat_def Let_def split: if_splits)
  have "t \<noteq> []" using d(1) by (auto simp: digit_run_def)
  moreover have "0 < length (digit_run t)" using d(1) by simp
  ultimately show ?thesis unfolding d(2) length_drop by (cases t) simp_all
qed

lemma scan_int_shorter: "scan_int s = Some (i, r) \<Longrightarrow> length r < length s"
  by (cases s) (auto simp: scan_int_def dest!: scan_nat_shorter split: if_splits)

lemma jvalue_shorter: "jvalue n s = Some (j, r) \<Longrightarrow> length r < length s"
  and jitems_shorter: "jitems n s = Some (js, r) \<Longrightarrow> length r < length s"
  and jmembers_shorter: "jmembers n s = Some (kvs, r) \<Longrightarrow> length r < length s"
proof (induction n s and n s and n s arbitrary: j r and js r and kvs r rule: jvalue_jitems_jmembers.induct)
  case (2 n s)
  obtain c cs where s: "s = c # cs" using "2.prems" by (cases s) auto
  have w: "length (skip_ws cs) \<le> length cs" by (rule skip_ws_length)
  consider "c = CHR 0x22" | "c = CHR ''[''" "take 1 (skip_ws cs) = '']''" | "c = CHR ''[''" "take 1 (skip_ws cs) \<noteq> '']''"
    | "c = CHR ''{''" "take 1 (skip_ws cs) = ''}''" | "c = CHR ''{''" "take 1 (skip_ws cs) \<noteq> ''}''"
    | "c \<noteq> CHR 0x22" "c \<noteq> CHR ''[''" "c \<noteq> CHR ''{''" by blast
  then show ?case
  proof cases
    case 1
    then obtain t where "scanstring cs = Some (t, r)" using "2.prems" s by auto
    then show ?thesis using scanstring_shorter s by fastforce
  next
    case 2
    then show ?thesis using "2.prems" s w by auto
  next
    case 3
    then obtain js where "jitems n (skip_ws cs) = Some (js, r)" using "2.prems" s by auto
    with "2.IH"(1) [OF s _ 3] have "length r < length (skip_ws cs)" using 3 by auto
    then show ?thesis using w s by simp
  next
    case 4
    then show ?thesis using "2.prems" s w by auto
  next
    case 5
    then obtain kvs where "jmembers n (skip_ws cs) = Some (kvs, r)" using "2.prems" s by auto
    with "2.IH"(2) [OF s _ _ 5] have "length r < length (skip_ws cs)" using 5 by auto
    then show ?thesis using w s by simp
  next
    case 6
    then show ?thesis using "2.prems" s scan_int_shorter [of s]
      by (auto split: if_splits)
  qed
next
  case (4 n s)
  obtain j r1 where j: "jvalue n s = Some (j, r1)" using "4.prems" by (auto split: option.splits)
  have r1: "length r1 < length s" by (rule "4.IH"(1) [OF j])
  obtain c r2 where c: "skip_ws r1 = c # r2" using "4.prems" j by (cases "skip_ws r1") auto
  have r2: "length r2 < length r1" using skip_ws_length [of r1] c by simp
  show ?case
  proof (cases "c = CHR '']''")
    case True
    then show ?thesis using "4.prems" j c r1 r2 by simp
  next
    case False
    then obtain js' where "c = CHR '',''" "jitems n (skip_ws r2) = Some (js', r)"
      using "4.prems" j c by (auto split: if_splits)
    then have "length r < length (skip_ws r2)" using "4.IH"(2) [OF j _ c False] by auto
    then show ?thesis using skip_ws_length [of r2] r1 r2 by simp
  qed
next
  case (6 n s)
  obtain cs where s: "s = CHR 0x22 # cs" using "6.prems" by (cases s) (auto split: if_splits)
  obtain k r1 where k: "scanstring cs = Some (k, r1)" using "6.prems" s by (auto split: option.splits)
  obtain r2 where d: "skip_ws r1 = CHR '':'' # r2"
    using "6.prems" s k by (cases "skip_ws r1") (auto split: if_splits)
  obtain j r3 where j: "jvalue n (skip_ws r2) = Some (j, r3)" using "6.prems" s k d by (auto split: option.splits)
  obtain e r4 where e: "skip_ws r3 = e # r4" using "6.prems" s k d j by (cases "skip_ws r3") auto
  have "length r3 < length (skip_ws r2)" by (rule "6.IH"(1) [OF s _ k _ d _ j]) simp_all
  moreover have "length r1 < length cs" by (rule scanstring_shorter [OF k])
  ultimately have l: "length r4 < length s"
    using skip_ws_length [of r1] skip_ws_length [of r2] skip_ws_length [of r3] d e s by simp
  show ?case
  proof (cases "e = CHR ''}''")
    case True
    then show ?thesis using "6.prems" s k d j e l by simp
  next
    case False
    then obtain kvs' where m: "e = CHR '',''" "jmembers n (skip_ws r4) = Some (kvs', r)"
      using "6.prems" s k d j e by (auto split: if_splits)
    have "length r < length (skip_ws r4)"
      by (rule "6.IH"(2) [OF s _ k _ d _ j _ e False m]) simp_all
    then show ?thesis using skip_ws_length [of r4] l by simp
  qed
qed simp_all

section \<open>More fuel changes nothing\<close>

lemma jitems_Suc: "jitems (Suc n) s = (case jvalue n s of None \<Rightarrow> None | Some (j, r) \<Rightarrow>
     (case skip_ws r of [] \<Rightarrow> None | c # r' \<Rightarrow>
        if c = CHR '']'' then Some ([j], r')
        else if c = CHR '','' then map_option (\<lambda>(js, r). (j # js, r)) (jitems n (skip_ws r'))
        else None))"
  by simp

lemma jmembers_Suc: "jmembers (Suc n) (CHR 0x22 # cs) = (case scanstring cs of None \<Rightarrow> None | Some (k, r) \<Rightarrow>
       (case skip_ws r of [] \<Rightarrow> None | d # r' \<Rightarrow>
          if d \<noteq> CHR '':'' then None
          else case jvalue n (skip_ws r') of None \<Rightarrow> None | Some (j, r2) \<Rightarrow>
            (case skip_ws r2 of [] \<Rightarrow> None | e # r3 \<Rightarrow>
               if e = CHR ''}'' then Some ([(k, j)], r3)
               else if e = CHR '','' then map_option (\<lambda>(kvs, r). ((k, j) # kvs, r)) (jmembers n (skip_ws r3))
               else None)))"
  by simp

lemma fuel_step:
  "2 * length s + 1 \<le> n \<Longrightarrow> jvalue (Suc n) s = jvalue n s"
  "2 * length s + 2 \<le> n \<Longrightarrow> jitems (Suc n) s = jitems n s"
  "2 * length s + 2 \<le> n \<Longrightarrow> jmembers (Suc n) s = jmembers n s"
proof (induction n arbitrary: s)
  case (Suc n)
  have V: "jvalue (Suc n) t = jvalue n t" if "2 * length t + 1 \<le> n" for t by (rule Suc.IH(1) [OF that])
  have I: "jitems (Suc n) t = jitems n t" if "2 * length t + 2 \<le> n" for t by (rule Suc.IH(2) [OF that])
  have M: "jmembers (Suc n) t = jmembers n t" if "2 * length t + 2 \<le> n" for t by (rule Suc.IH(3) [OF that])
  {
    case 1
    show ?case
    proof (cases s)
      case (Cons c cs)
      have "2 * length (skip_ws cs) + 2 \<le> n" using 1 Cons skip_ws_length [of cs] by simp
      then show ?thesis unfolding Cons jvalue.simps list.case by (simp only: I M)
    qed simp
  next
    case 2
    have v: "jvalue (Suc n) s = jvalue n s" using 2 by (intro V) simp
    have i: "jitems (Suc n) (skip_ws r') = jitems n (skip_ws r')"
      if "jvalue n s = Some (j, r)" and "skip_ws r = c # r'" for j r c r'
    proof -
      have "length r < length s" by (rule jvalue_shorter [OF that(1)])
      moreover have "length r' < length r" using skip_ws_length [of r] that(2) by simp
      ultimately show ?thesis using 2 skip_ws_length [of r'] by (intro I) simp
    qed
    show ?case unfolding jitems_Suc [of _ s] v
      by (auto simp: i split: option.splits list.splits simp del: jvalue.simps jitems.simps jmembers.simps)
  next
    case 3
    show ?case
    proof (cases "s \<noteq> [] \<and> hd s = CHR 0x22")
      case True
      then obtain cs where s: "s = CHR 0x22 # cs" by (cases s) auto
      have v: "jvalue (Suc n) (skip_ws r') = jvalue n (skip_ws r')"
        if "scanstring cs = Some (k, r)" and "skip_ws r = d # r'" for k r d r'
      proof -
        have "length r < length cs" by (rule scanstring_shorter [OF that(1)])
        moreover have "length r' < length r" using skip_ws_length [of r] that(2) by simp
        ultimately show ?thesis using 3 s skip_ws_length [of r'] by (intro V) simp
      qed
      have m: "jmembers (Suc n) (skip_ws r3) = jmembers n (skip_ws r3)"
        if "scanstring cs = Some (k, r)" and "skip_ws r = d # r'" and "jvalue n (skip_ws r') = Some (j, r2)"
          and "skip_ws r2 = e # r3" for k r d r' j r2 e r3
      proof -
        have "length r < length cs" by (rule scanstring_shorter [OF that(1)])
        moreover have "length r' < length r" using skip_ws_length [of r] that(2) by simp
        moreover have "length r2 < length (skip_ws r')" by (rule jvalue_shorter [OF that(3)])
        moreover have "length r3 < length r2" using skip_ws_length [of r2] that(4) by simp
        ultimately show ?thesis using 3 s skip_ws_length [of r'] skip_ws_length [of r3] by (intro M) simp
      qed
      show ?thesis unfolding s jmembers_Suc [of _ cs] by (auto simp: v m split: option.splits list.splits simp del: jvalue.simps jitems.simps jmembers.simps)
    next
      case False
      then show ?thesis by (cases s) auto
    qed
  }
qed simp_all

lemma fuel_irrelevant: "2 * length s + 1 \<le> n \<Longrightarrow> jvalue n s = jvalue (2 * length s + 1) s"
proof (induction n rule: dec_induct)
  case (step n)
  from step(1) have "jvalue (Suc n) s = jvalue n s" by (rule fuel_step)
  with step.IH show ?case by simp
qed simp

end
