(* ===== verification/Spec2Isabelle.thy ===== *)
theory Spec2Isabelle
  imports ConfigTheorems StorageTheorems OAuthExample RefreshTheorems ApiTheorems AccessTheorems HttpTheorems
    DashboardTheorems RepairTheorems SingleUserTheorems JsonFuel
begin

text \<open>
  A verification development for the rolling budget API: a Python service that keeps spending
  budgets over rolling windows of transactions which an agent uploads. All paths below are under
  \<open>src/\<close> of the repository, those without a directory under \<open>src/src/rolling_budget_api/\<close>.

  \<^bold>\<open>The program.\<close> A configuration version is a set of categories, each with a classification
  rule, a look-back and a budget; one version is active and at most one pending
  (\<open>services/config_service.py\<close>). A refresh run, started under one of them, takes batches of
  classified transactions and is committed once, atomically, replacing or merging the live
  transactions and activating its version (\<open>services/refresh_service.py\<close>). The dashboard sums the
  live transactions per category (\<open>services/dashboard_service.py\<close>). Two front ends run these
  operations, each in one database session: the REST application with bearer keys (\<open>main.py\<close>,
  \<open>api/\<close>, \<open>core/auth.py\<close>) and the MCP server with OAuth tokens (\<open>mcp/server.py\<close>). The tokens come
  from an authorization server in the same process (\<open>oauth/\<close>), whose only user is the owner. The
  database is PostgreSQL or SQLite, with triggers that guard the same rules
  (\<open>migrations/sqlite_support.py\<close>, \<open>migrations/versions/\<close>).

  \<^bold>\<open>How it is modelled.\<close> A database is the record \<open>db\<close> of lists of rows, one list per table, in
  insertion order; a row is a record with the columns of its mapped class. An operation takes the
  database and gives \<open>Inr\<close> of its answer and the next database, or \<open>Inl\<close> of the error it raises:
  an error leaves the database as it was, because the session rolls back. One request runs alone:
  the services take a lock before they read, so the effect of several processes is a sequence of
  requests, in any order. What a request takes from outside is the record \<open>env\<close>: the dialect,
  SHA-256, the clock, the time zones and the random identifiers. SHA-256 and HMAC are never
  assumed to be collision free; statements about a content that differs speak of another digest.
  \<open>ORDER BY\<close> on text is by code point, as on SQLite and under the C collation of PostgreSQL.

  \<^bold>\<open>Theories.\<close>
  \<^item> \<open>Prelude\<close>, \<open>PyLib\<close>, \<open>Errors\<close>: results, loops that may raise, sorting, Python text, dates and
    integers; \<open>services/errors.py\<close>.
  \<^item> \<open>Decimals\<close>, \<open>Units\<close>, \<open>Ratios\<close>: \<open>decimal\<close> with 28 digits and half-even rounding, the \<open>Money\<close>
    column type of \<open>db/models.py\<close>; the integer number of money units a decimal stands for, and how
    far a rounded quotient is from the exact one.
  \<^item> \<open>Hashing\<close>, \<open>Json\<close>, \<open>JsonFacts\<close>, \<open>JsonFuel\<close>: canonical JSON (\<open>services/hashing.py\<close>), \<open>json.loads\<close>,
    Base64url, UTF-8, and their round trips.
  \<^item> \<open>Schemas\<close>, \<open>Models\<close>, \<open>Triggers\<close>, \<open>Tables\<close>, \<open>Integrity\<close>: \<open>schemas/\<close>, \<open>db/models.py\<close>, the guards of
    both databases, every INSERT, UPDATE and DELETE the services make with its constraints, and
    that each of them keeps keys unique and foreign keys valid.
  \<^item> \<open>ConfigService\<close>; \<open>ConfigFacts\<close>, \<open>ConfigInvariant\<close>, \<open>ConfigPut\<close>, \<open>ConfigCorrect\<close>, \<open>ConfigTheorems\<close>:
    \<open>services/config_service.py\<close>; its invariant \<open>config_inv\<close>, the three outcomes of a PUT, and the
    properties.
  \<^item> \<open>RefreshService\<close>, \<open>RefreshCommit\<close>; \<open>RefreshFacts\<close>, \<open>RefreshPublish\<close>, \<open>RefreshOutcome\<close>,
    \<open>RefreshInvariant\<close>, \<open>RefreshSystem\<close>, \<open>RefreshCommitted\<close>, \<open>RefreshWindows\<close>, \<open>RefreshHistory\<close>,
    \<open>RefreshTheorems\<close>: \<open>services/refresh_service.py\<close>; publication in closed form, the invariant
    \<open>refresh_inv\<close>, the step relation \<open>sys_step\<close> of the five operations and its histories \<open>sys_run\<close>.
  \<^item> \<open>Dashboard\<close>, \<open>DashboardTheorems\<close>: \<open>services/dashboard_service.py\<close>; its figures against integer sums.
  \<^item> \<open>OAuthConfig\<close>, \<open>OAuthService\<close>, \<open>Consent\<close>, \<open>OAuthEndpoints\<close>, \<open>OAuthHttp\<close>; \<open>OAuthInvariant\<close>,
    \<open>OAuthHistory\<close>, \<open>OAuthGrants\<close>, \<open>OAuthTheorems\<close>: \<open>oauth/\<close>; the invariant of its tables, the
    histories \<open>oauth_run\<close>, and where every grant comes from.
  \<^item> \<open>Urls\<close>, \<open>AppSettings\<close>, \<open>Auth\<close>, \<open>AccessTheorems\<close>: \<open>core/config.py\<close>, \<open>core/auth.py\<close>.
  \<^item> \<open>Contracts\<close>, \<open>Api\<close>, \<open>McpServer\<close>, \<open>ApiFacts\<close>, \<open>ApiTheorems\<close>, \<open>HttpTheorems\<close>: \<open>main.py\<close>, \<open>api/\<close>,
    \<open>db/session.py\<close>, \<open>mcp/server.py\<close>, and the properties that span the front ends, the
    authorization server and the services.
  \<^item> \<open>SingleUser\<close>, \<open>SingleUserMigration\<close>, \<open>SingleUserFacts\<close>, \<open>SingleUserTheorems\<close>:
    \<open>migrations/versions/0003_single_user.py\<close> in both directions and on both databases.
    \<open>MoneyRepair\<close>, \<open>DecimalText\<close>, \<open>MoneyRepairFacts\<close>, \<open>RepairTheorems\<close>:
    \<open>migrations/versions/0004_sqlite_money_scale_repair.py\<close>.
  \<^item> \<open>StorageTheorems\<close>: properties of the storage layer. \<open>Example\<close>, \<open>RefreshExample\<close>, \<open>OAuthExample\<close>:
    the concrete runs on which the properties are evaluated.

  \<^bold>\<open>Interfaces.\<close> \<open>Contracts\<close> states what a front end promises about a shared state: the locale
  \<open>service\<close> (a request changes the state only if it is authorised, and then by a step of a given
  relation) and \<open>two_services\<close> (two of them served in any order are one, a sublocale). They are
  interpreted on the REST application (\<open>rest\<close>), the MCP server (\<open>mcp\<close>), both together (\<open>server\<close>),
  and the OAuth endpoints (\<open>oauth_server\<close>); the properties of histories of requests rest on these.

  \<^bold>\<open>What is shown.\<close> Every reachable database satisfies the configuration and refresh invariants;
  commits form a chain without a lost update; starting, uploading and committing are idempotent
  under retries however many requests come between; a full and an incremental commit publish
  exactly the rows they should; a PUT is a compare-and-set that leaves the active version alone;
  the dashboard's totals are exact and its status is that of the exact amounts. The database
  changes through REST only with a key of the needed level, through MCP only after the owner
  approved the scope. A token never exceeds its approval, a code is used once, a replayed refresh
  token and a revocation end the family. The update guards of both databases agree but for two
  writes. The single-user migration gives the same tables on both databases, with the hashes the
  services compute, and its downgrade can be undone but for the columns the old schema lacks; on
  PostgreSQL it does not get through at all when there is a batch, whose immutability trigger it
  leaves in force. The money repair changes only budgets that are ten thousand times the active
  version's.

  \<^bold>\<open>Bounds.\<close> Text is a list of code points below 256: enough for every literal of the program,
  and the UTF-8 coding of such text has one and two bytes. JSON numbers are integers; a document
  with a fraction counts as malformed. The JSON parser has the fuel \<open>2 * length s + 1\<close>;
  \<open>fuel_irrelevant\<close> shows that more never changes an answer. Money has four decimals and 18 digits
  (\<open>money_field\<close>), counters and versions are unbounded integers, as in Python; the dashboard's
  exactness needs at most \<open>10 ^ 9\<close> category links, so that sums stay below 28 digits. All other
  recursion is structural or has a termination proof, so every operation returns.

  \<^bold>\<open>Not modelled.\<close>
  \<^item> Connection pools, SQLite pragmas and the lock statements themselves (\<open>db/session.py\<close>); their
    effect, one writer at a time, is the assumption of the model.
  \<^item> ASGI and the libraries: routing, CORS, log records and the request identifier (\<open>main.py\<close>; of the
    logging set-up only that an unknown level raises), the engine of SQLAlchemy (a parameter of
    \<open>create_app\<close>), JSON-RPC and the transport of the MCP SDK, the HTTP client behind the client
    metadata (its answer is a parameter), and the markup of the consent page.
  \<^item> The DDL of \<open>0001_initial.py\<close>, \<open>0002_oauth.py\<close> and \<open>sqlite_support.py\<close> as statements: their
    columns, constraints and triggers are the records, the checks and the guards above; indexes
    have no meaning here. Alembic's runner (\<open>migrations/env.py\<close>) only calls the migrations.
  \<^item> The instruction text of the MCP server, and \<open>scripts/demo_seed.py\<close>, a client with sample data.
\<close>

end
